(* ===== verification/Go_Prelude.thy ===== *)
theory Go_Prelude
  imports Main "HOL-Library.Word"
begin

text \<open>
  Shared ground of the development: the parts of Go and of its standard library that the
  sources rely on.  A Go string is a sequence of bytes, so it is a \<open>string\<close> whose
  characters are bytes; runes are \<open>nat\<close>.  The theory holds UTF-8 decoding
  (\<open>unicode/utf8\<close>), \<open>strings.TrimSpace\<close>, prefix and search functions of package
  \<open>strings\<close>, decimal formatting and parsing of package \<open>strconv\<close>, hexadecimal
  digits, and the error values of package \<open>errors\<close> with the wrapping that
  \<open>errors.Is\<close> walks.
\<close>

named_theorems go_text \<comment> \<open>facts about byte strings: decoding, trimming, printing\<close>
named_theorems go_err \<comment> \<open>facts about \<open>errors.Is\<close> on wrapped errors\<close>

type_synonym rune = nat
type_synonym time = int \<comment> \<open>nanoseconds since the epoch\<close>
type_synonym u64 = "64 word"

abbreviation byte_of :: "char \<Rightarrow> nat" where
  "byte_of c \<equiv> of_char c"

section \<open>UTF-8\<close>

definition rune_error :: rune where
  "rune_error = 65533"

definition cont_byte :: "char \<Rightarrow> bool" where
  "cont_byte c \<longleftrightarrow> 128 \<le> byte_of c \<and> byte_of c \<le> 191"

text \<open>The accepted range of the second byte of a three- or four-byte sequence.\<close>

definition second_lo :: "nat \<Rightarrow> nat" where
  "second_lo b = (if b = 224 then 160 else if b = 240 then 144 else 128)"

definition second_hi :: "nat \<Rightarrow> nat" where
  "second_hi b = (if b = 237 then 159 else if b = 244 then 143 else 191)"

text \<open>\<open>utf8.DecodeRuneInString\<close>: the first rune and its width in bytes.\<close>

fun decode_rune :: "string \<Rightarrow> rune \<times> nat" where
  "decode_rune [] = (rune_error, 0)"
| "decode_rune (c # cs) =
     (let b = byte_of c in
      if b < 128 then (b, 1)
      else if 194 \<le> b \<and> b \<le> 223 then
        (case cs of
           c1 # _ \<Rightarrow> (if cont_byte c1 then ((b - 192) * 64 + (byte_of c1 - 128), 2)
                      else (rune_error, 1))
         | [] \<Rightarrow> (rune_error, 1))
      else if 224 \<le> b \<and> b \<le> 239 then
        (case cs of
           c1 # c2 # _ \<Rightarrow>
             (if second_lo b \<le> byte_of c1 \<and> byte_of c1 \<le> second_hi b \<and> cont_byte c2
              then ((b - 224) * 4096 + (byte_of c1 - 128) * 64 + (byte_of c2 - 128), 3)
              else (rune_error, 1))
         | _ \<Rightarrow> (rune_error, 1))
      else if 240 \<le> b \<and> b \<le> 244 then
        (case cs of
           c1 # c2 # c3 # _ \<Rightarrow>
             (if second_lo b \<le> byte_of c1 \<and> byte_of c1 \<le> second_hi b \<and>
                 cont_byte c2 \<and> cont_byte c3
              then ((b - 240) * 262144 + (byte_of c1 - 128) * 4096 +
                    (byte_of c2 - 128) * 64 + (byte_of c3 - 128), 4)
              else (rune_error, 1))
         | _ \<Rightarrow> (rune_error, 1))
      else (rune_error, 1))"

lemma decode_rune_width: "s \<noteq> [] \<Longrightarrow> 1 \<le> snd (decode_rune s) \<and> snd (decode_rune s) \<le> length s"
  by (cases s) (auto simp: Let_def split: list.splits)

lemma decode_rune_pos [simp]: "0 < snd (decode_rune (c # cs))"
  using decode_rune_width [of "c # cs"] by simp

text \<open>The runes a \<open>range\<close> loop over a string yields.\<close>

function runes :: "string \<Rightarrow> rune list" where
  "runes [] = []"
| "runes (c # cs) =
     fst (decode_rune (c # cs)) # runes (drop (snd (decode_rune (c # cs))) (c # cs))"
  by pat_completeness auto
termination
proof (relation "measure length")
  fix c cs
  show "(drop (snd (decode_rune (c # cs))) (c # cs), c # cs) \<in> measure length"
    using decode_rune_width [of "c # cs"] by (simp del: decode_rune.simps)
qed simp

text \<open>\<open>utf8.ValidString\<close>: no position decodes to an error of width one.\<close>

function valid_string :: "string \<Rightarrow> bool" where
  "valid_string [] = True"
| "valid_string (c # cs) =
     (decode_rune (c # cs) \<noteq> (rune_error, 1) \<and>
      valid_string (drop (snd (decode_rune (c # cs))) (c # cs)))"
  by pat_completeness auto
termination
proof (relation "measure length")
  fix c cs
  show "(drop (snd (decode_rune (c # cs))) (c # cs), c # cs) \<in> measure length"
    using decode_rune_width [of "c # cs"] by (simp del: decode_rune.simps)
qed simp

declare runes.simps(2) [simp del] valid_string.simps(2) [simp del]

definition rune_count :: "string \<Rightarrow> nat" where
  "rune_count s = length (runes s)"

lemma rune_count_le_length: "rune_count s \<le> length s"
  unfolding rune_count_def
proof (induction s rule: runes.induct)
  case (2 c cs)
  then show ?case
    using decode_rune_width [of "c # cs"]
    by (simp add: runes.simps(2) del: decode_rune.simps) linarith
qed simp

text \<open>
  A sequence of width two or more has no ASCII byte in it, so every ASCII byte of a string is
  one of its runes.
\<close>

lemma decode_rune_wide_bytes:
  "1 < snd (decode_rune s) \<Longrightarrow> c \<in> set (take (snd (decode_rune s)) s) \<Longrightarrow> 128 \<le> byte_of c"
proof (cases s)
  case (Cons b bs)
  assume "1 < snd (decode_rune s)" and "c \<in> set (take (snd (decode_rune s)) s)"
  then show ?thesis unfolding Cons
    by (auto simp: Let_def cont_byte_def second_lo_def second_hi_def
        split: if_splits list.splits)
qed simp

lemma decode_rune_ascii: "byte_of c < 128 \<Longrightarrow> decode_rune (c # cs) = (byte_of c, 1)"
  by simp

lemma ascii_in_runes [go_text]:
  assumes "c \<in> set s" and "byte_of c < 128"
  shows "byte_of c \<in> set (runes s)"
  using assms(1)
proof (induction s rule: runes.induct)
  case (2 b bs)
  let ?n = "snd (decode_rune (b # bs))"
  consider "c \<in> set (take ?n (b # bs))" | "c \<in> set (drop ?n (b # bs))"
    using "2.prems" by (metis Un_iff append_take_drop_id set_append)
  then show ?case
  proof cases
    case 1
    have "?n = 1"
      using decode_rune_wide_bytes [OF _ 1] assms(2) decode_rune_pos [of b bs] by fastforce
    with 1 have "c = b" by simp
    with assms(2) show ?thesis by (simp add: runes.simps(2))
  next
    case 2
    then show ?thesis using "2.IH" by (simp add: runes.simps(2) del: decode_rune.simps)
  qed
qed simp

text \<open>Conversion of a rune to its UTF-8 bytes; a surrogate or a value out of range is U+FFFD.\<close>

definition encode_rune :: "rune \<Rightarrow> string" where
  "encode_rune r0 =
     (let r = (if 1114111 < r0 \<or> (55296 \<le> r0 \<and> r0 \<le> 57343) then rune_error else r0) in
      if r < 128 then [char_of r]
      else if r < 2048 then [char_of (192 + r div 64), char_of (128 + r mod 64)]
      else if r < 65536 then
        [char_of (224 + r div 4096), char_of (128 + r div 64 mod 64), char_of (128 + r mod 64)]
      else
        [char_of (240 + r div 262144), char_of (128 + r div 4096 mod 64),
         char_of (128 + r div 64 mod 64), char_of (128 + r mod 64)])"

section \<open>Package strings\<close>

text \<open>\<open>unicode.IsSpace\<close>.\<close>

definition is_space :: "rune \<Rightarrow> bool" where
  "is_space r \<longleftrightarrow>
     (9 \<le> r \<and> r \<le> 13) \<or> r = 32 \<or> r = 133 \<or> r = 160 \<or> r = 5760 \<or>
     (8192 \<le> r \<and> r \<le> 8202) \<or> r = 8232 \<or> r = 8233 \<or> r = 8239 \<or> r = 8287 \<or> r = 12288"

definition rune_start :: "char \<Rightarrow> bool" where
  "rune_start c \<longleftrightarrow> \<not> (128 \<le> byte_of c \<and> byte_of c < 192)"

text \<open>
  \<open>utf8.DecodeLastRuneInString\<close>: the nearest start byte among the last four is decoded,
  and the result counts only when it ends exactly at the end of the string.
\<close>

definition decode_last_rune :: "string \<Rightarrow> rune \<times> nat" where
  "decode_last_rune s =
     (if s = [] then (rune_error, 0)
      else if byte_of (last s) < 128 then (byte_of (last s), 1)
      else (case find (\<lambda>k. k \<le> length s \<and> rune_start (s ! (length s - k))) [2, 3, 4] of
              None \<Rightarrow> (rune_error, 1)
            | Some k \<Rightarrow>
                (let (r, n) = decode_rune (drop (length s - k) s)
                 in if n = k then (r, n) else (rune_error, 1))))"

lemma decode_last_rune_width:
  "s \<noteq> [] \<Longrightarrow> 1 \<le> snd (decode_last_rune s) \<and> snd (decode_last_rune s) \<le> length s"
  by (cases s rule: rev_cases)
    (auto simp: decode_last_rune_def Let_def split: prod.splits if_splits option.splits
      dest!: find_Some_iff [THEN iffD1])

function trim_left :: "string \<Rightarrow> string" where
  "trim_left [] = []"
| "trim_left (c # cs) =
     (if is_space (fst (decode_rune (c # cs)))
      then trim_left (drop (snd (decode_rune (c # cs))) (c # cs)) else c # cs)"
  by pat_completeness auto
termination
proof (relation "measure length")
  fix c cs
  show "(drop (snd (decode_rune (c # cs))) (c # cs), c # cs) \<in> measure length"
    using decode_rune_width [of "c # cs"] by (simp del: decode_rune.simps)
qed simp

function trim_right :: "string \<Rightarrow> string" where
  "trim_right s =
     (if s \<noteq> [] \<and> is_space (fst (decode_last_rune s))
      then trim_right (take (length s - snd (decode_last_rune s)) s) else s)"
  by pat_completeness auto
termination
proof (relation "measure length")
  fix s :: string
  assume "s \<noteq> [] \<and> is_space (fst (decode_last_rune s))"
  then show "(take (length s - snd (decode_last_rune s)) s, s) \<in> measure length"
    using decode_last_rune_width [of s] by (auto simp: min_def)
qed simp

declare trim_left.simps(2) [simp del] trim_right.simps [simp del]

definition trim_space :: "string \<Rightarrow> string" where
  "trim_space s = trim_right (trim_left s)"

lemma trim_right_Nil [simp]: "trim_right [] = []"
  by (simp add: trim_right.simps)

lemma trim_space_Nil [simp]: "trim_space [] = []"
  by (simp add: trim_space_def)

text \<open>Trimming never removes an ASCII byte that is not white space.\<close>

lemma decode_rune_narrow_ascii:
  assumes "c \<in> set (take (snd (decode_rune s)) s)" and "byte_of c < 128"
  shows "fst (decode_rune s) = byte_of c"
proof -
  obtain b bs where s: "s = b # bs" using assms(1) by (cases s) auto
  have "snd (decode_rune s) = 1"
    using decode_rune_wide_bytes [OF _ assms(1)] assms(2) decode_rune_pos [of b bs] s by fastforce
  with assms s show ?thesis by auto
qed

lemma trim_left_keeps:
  assumes "c \<in> set s" and "byte_of c < 128" and "\<not> is_space (byte_of c)"
  shows "c \<in> set (trim_left s)"
  using assms(1)
proof (induction s rule: trim_left.induct)
  case (2 b bs)
  let ?n = "snd (decode_rune (b # bs))"
  show ?case
  proof (cases "is_space (fst (decode_rune (b # bs)))")
    case True
    then have "c \<notin> set (take ?n (b # bs))"
      using decode_rune_narrow_ascii assms(2,3) by metis
    moreover have "c \<in> set (take ?n (b # bs)) \<or> c \<in> set (drop ?n (b # bs))"
      using "2.prems" by (metis Un_iff append_take_drop_id set_append)
    ultimately have "c \<in> set (drop ?n (b # bs))" by blast
    with True "2.IH" show ?thesis by (simp add: trim_left.simps(2) del: decode_rune.simps)
  next
    case False
    with "2.prems" show ?thesis by (simp add: trim_left.simps(2) del: decode_rune.simps)
  qed
qed simp

lemma decode_last_rune_bytes:
  assumes "s \<noteq> []" and "is_space (fst (decode_last_rune s))"
    and "c \<in> set (drop (length s - snd (decode_last_rune s)) s)"
    and "byte_of c < 128" and "\<not> is_space (byte_of c)"
  shows False
proof (cases "byte_of (last s) < 128")
  case True
  then have "decode_last_rune s = (byte_of (last s), 1)"
    using assms(1) by (simp add: decode_last_rune_def)
  moreover have "drop (length s - 1) s = [last s]"
    using assms(1) by (metis append_butlast_last_id append_eq_conv_conj length_butlast)
  ultimately show False using assms by auto
next
  case False
  have not_err: "\<not> is_space rune_error" by (simp add: is_space_def rune_error_def)
  from False assms(1,2) obtain k where
    dec: "decode_rune (drop (length s - k) s) = decode_last_rune s" and
    k: "snd (decode_last_rune s) = k" "2 \<le> k"
    using not_err by (auto simp: decode_last_rune_def Let_def split: option.splits prod.splits if_splits
        dest!: find_Some_iff [THEN iffD1])
  let ?t = "drop (length s - k) s"
  have "c \<in> set (take (snd (decode_rune ?t)) ?t)"
    using assms(3) k(1) dec decode_last_rune_width [OF assms(1)] by simp
  then show False
    using decode_rune_wide_bytes [of ?t c] dec k assms(4) by simp
qed

lemma trim_right_keeps:
  assumes "c \<in> set s" and "byte_of c < 128" and "\<not> is_space (byte_of c)"
  shows "c \<in> set (trim_right s)"
  using assms(1)
proof (induction s rule: trim_right.induct)
  case (1 s)
  let ?n = "length s - snd (decode_last_rune s)"
  show ?case
  proof (cases "s \<noteq> [] \<and> is_space (fst (decode_last_rune s))")
    case True
    have "c \<in> set (take ?n s) \<or> c \<in> set (drop ?n s)"
      using "1.prems" by (metis Un_iff append_take_drop_id set_append)
    then have "c \<in> set (take ?n s)"
      using decode_last_rune_bytes [of s c] True assms(2,3) by blast
    with True "1.IH" show ?thesis by (subst trim_right.simps) simp
  next
    case False
    with "1.prems" show ?thesis by (subst trim_right.simps) auto
  qed
qed

lemma trim_space_keeps [go_text]:
  "c \<in> set s \<Longrightarrow> byte_of c < 128 \<Longrightarrow> \<not> is_space (byte_of c) \<Longrightarrow> trim_space s \<noteq> []"
  unfolding trim_space_def
  using trim_left_keeps trim_right_keeps by (metis list.set(1) empty_iff)

text \<open>Text of graphic ASCII characters only decodes byte by byte and is left alone by trimming.\<close>

definition graphic :: "char \<Rightarrow> bool" where
  "graphic c \<longleftrightarrow> 32 < byte_of c \<and> byte_of c < 127"

lemma runes_graphic [go_text]: "list_all graphic s \<Longrightarrow> runes s = map byte_of s"
  by (induction s) (simp_all add: graphic_def runes.simps(2))

lemma valid_string_graphic [go_text]: "list_all graphic s \<Longrightarrow> valid_string s"
  by (induction s) (simp_all add: graphic_def valid_string.simps(2) rune_error_def)

lemma graphic_not_space: "graphic c \<Longrightarrow> \<not> is_space (byte_of c)"
  by (simp add: graphic_def is_space_def)

lemma trim_space_ends:
  assumes "s \<noteq> []" and "graphic (hd s)" and "graphic (last s)"
  shows "trim_space s = s"
proof -
  obtain c cs where s: "s = c # cs" using assms(1) by (cases s) auto
  have "trim_left s = s"
    using assms(2) graphic_not_space [OF assms(2)] by (simp add: s trim_left.simps(2) graphic_def)
  moreover have "trim_right s = s"
    using assms(1,3) graphic_not_space [OF assms(3)]
    by (subst trim_right.simps) (simp add: decode_last_rune_def graphic_def)
  ultimately show ?thesis by (simp add: trim_space_def)
qed

lemma trim_space_graphic [go_text]: "list_all graphic s \<Longrightarrow> trim_space s = s"
  by (cases "s = []") (auto simp: list_all_iff intro!: trim_space_ends)

text \<open>\<open>strings.HasPrefix\<close>, \<open>strings.TrimPrefix\<close>.\<close>

definition has_prefix :: "string \<Rightarrow> string \<Rightarrow> bool" where
  "has_prefix s p \<longleftrightarrow> take (length p) s = p"

definition trim_prefix :: "string \<Rightarrow> string \<Rightarrow> string" where
  "trim_prefix s p = (if has_prefix s p then drop (length p) s else s)"

lemma has_prefix_append [simp]: "has_prefix (p @ s) p"
  by (simp add: has_prefix_def)

lemma trim_prefix_append [simp]: "trim_prefix (p @ s) p = s"
  by (simp add: trim_prefix_def)

lemma has_prefixE: "has_prefix s p \<Longrightarrow> \<exists>t. s = p @ t"
  unfolding has_prefix_def by (metis append_take_drop_id)

text \<open>
  \<open>strings.SplitN(s, sep, 2)\<close> for a one-byte separator: one part when the separator does
  not occur, else the text before and after its first occurrence.
\<close>

definition split2 :: "string \<Rightarrow> char \<Rightarrow> string list" where
  "split2 s sep =
     (if sep \<in> set s then [takeWhile (\<lambda>c. c \<noteq> sep) s, tl (dropWhile (\<lambda>c. c \<noteq> sep) s)] else [s])"

lemma split2_append [simp]: "sep \<notin> set a \<Longrightarrow> split2 (a @ sep # b) sep = [a, b]"
  by (auto simp: split2_def takeWhile_append dropWhile_append)

text \<open>\<open>strings.Split\<close> for a one-byte separator.\<close>

fun split_on :: "char \<Rightarrow> string \<Rightarrow> string list" where
  "split_on sep [] = [[]]"
| "split_on sep (c # cs) =
     (if c = sep then [] # split_on sep cs
      else case split_on sep cs of p # ps \<Rightarrow> (c # p) # ps | [] \<Rightarrow> [[c]])"

lemma split_on_last: "sep \<notin> set a \<Longrightarrow> split_on sep a = [a]"
  by (induction a) auto

lemma split_on_append: "sep \<notin> set a \<Longrightarrow> split_on sep (a @ sep # b) = a # split_on sep b"
  by (induction a) auto

lemma split_on_nonempty: "split_on sep a \<noteq> []"
  by (cases a) (auto split: list.splits)

lemma split_on_join: "split_on sep (a @ sep # b) = split_on sep a @ split_on sep b"
proof (induction a)
  case (Cons c a)
  obtain p ps where "split_on sep a = p # ps"
    using split_on_nonempty by (cases "split_on sep a") auto
  with Cons show ?case by simp
qed simp

lemma split_on_sep: "p \<in> set (split_on sep s) \<Longrightarrow> sep \<notin> set p"
  by (induction s arbitrary: p) (auto split: if_splits list.splits)

lemma split_on_set: "p \<in> set (split_on sep s) \<Longrightarrow> set p \<subseteq> set s"
proof (induction s arbitrary: p)
  case (Cons c cs)
  show ?case
  proof (cases "c = sep")
    case False
    then show ?thesis using Cons by (auto split: list.splits) blast+
  qed (use Cons in auto)
qed simp

text \<open>\<open>strings.Index\<close>, with \<open>None\<close> for \<open>-1\<close>, and \<open>strings.Contains\<close>.\<close>

fun str_index :: "string \<Rightarrow> string \<Rightarrow> nat option" where
  "str_index [] sub = (if sub = [] then Some 0 else None)"
| "str_index (c # cs) sub =
     (if has_prefix (c # cs) sub then Some 0 else map_option Suc (str_index cs sub))"

definition str_contains :: "string \<Rightarrow> string \<Rightarrow> bool" where
  "str_contains s sub \<longleftrightarrow> str_index s sub \<noteq> None"

lemma str_index_Some: "str_index s sub = Some k \<Longrightarrow> \<exists>a b. s = a @ sub @ b \<and> length a = k"
proof (induction s arbitrary: k)
  case (Cons c cs)
  show ?case
  proof (cases "has_prefix (c # cs) sub")
    case True
    then obtain b where "c # cs = sub @ b" using has_prefixE by blast
    moreover have "k = 0" using True Cons.prems by simp
    ultimately show ?thesis by (intro exI [of _ "[]"] exI [of _ b]) simp
  next
    case False
    then obtain j where j: "str_index cs sub = Some j" "k = Suc j" using Cons.prems by auto
    then obtain a b where "cs = a @ sub @ b" "length a = j" using Cons.IH by blast
    with j show ?thesis by (intro exI [of _ "c # a"] exI [of _ b]) simp
  qed
qed (auto split: if_splits)

text \<open>A marker whose characters do not end the text before it is found where it first stands.\<close>

lemma str_index_first:
  assumes "\<not> str_contains a m" and "a \<noteq> [] \<Longrightarrow> last a \<notin> set m"
  shows "str_index (a @ m @ b) m = Some (length a)"
  using assms
proof (induction a)
  case Nil
  show ?case by (cases "m @ b") (auto simp: has_prefix_def, metis append_eq_conv_conj)
next
  case (Cons c a)
  have no: "\<not> has_prefix (c # a) m" and tail: "\<not> str_contains a m"
    using Cons.prems(1) by (auto simp: str_contains_def split: if_splits)
  have "\<not> has_prefix (c # a @ m @ b) m"
  proof
    assume p: "has_prefix (c # a @ m @ b) m"
    show False
    proof (cases "length m \<le> length (c # a)")
      case True
      with p have "has_prefix (c # a) m" by (cases m) (auto simp: has_prefix_def)
      with no show False ..
    next
      case False
      then have "take (length m) ((c # a) @ m @ b) = (c # a) @ take (length m - length (c # a)) (m @ b)"
        unfolding take_append [of _ "c # a"] by simp
      with p have "set (c # a) \<subseteq> set m"
        by (metis append_Cons has_prefix_def set_append sup_ge1)
      moreover have "last (c # a) \<in> set (c # a)" by (rule last_in_set) simp
      ultimately show False using Cons.prems(2) by blast
    qed
  qed
  moreover have "str_index (a @ m @ b) m = Some (length a)"
    using Cons.IH [OF tail] Cons.prems(2) by (cases "a = []") auto
  ultimately show ?case by simp
qed

definition newline :: string where
  "newline = [CHR 0x0A]"

text \<open>\<open>strings.Join\<close>.\<close>

fun join_with :: "string \<Rightarrow> string list \<Rightarrow> string" where
  "join_with sep [] = []"
| "join_with sep [x] = x"
| "join_with sep (x # y # zs) = x @ sep @ join_with sep (y # zs)"

section \<open>Package strconv\<close>

definition digit_char :: "nat \<Rightarrow> char" where
  "digit_char d = char_of (48 + d)"

fun show_nat :: "nat \<Rightarrow> string" where
  "show_nat n = (if n < 10 then [digit_char n] else show_nat (n div 10) @ [digit_char (n mod 10)])"

declare show_nat.simps [simp del]

definition show_int :: "int \<Rightarrow> string" where
  "show_int i = (if i < 0 then CHR ''-'' # show_nat (nat (- i)) else show_nat (nat i))"

definition is_digit :: "char \<Rightarrow> bool" where
  "is_digit c \<longleftrightarrow> 48 \<le> byte_of c \<and> byte_of c \<le> 57"

definition digit_val :: "char \<Rightarrow> nat" where
  "digit_val c = byte_of c - 48"

fun read_nat :: "nat \<Rightarrow> string \<Rightarrow> nat" where
  "read_nat acc [] = acc"
| "read_nat acc (c # cs) = read_nat (10 * acc + digit_val c) cs"

text \<open>\<open>strconv.ParseUint(s, 10, 64)\<close>; \<open>None\<close> is a syntax or a range error.\<close>

definition parse_uint64 :: "string \<Rightarrow> u64 option" where
  "parse_uint64 s =
     (if s = [] \<or> \<not> list_all is_digit s \<or> 2 ^ 64 \<le> read_nat 0 s then None
      else Some (of_nat (read_nat 0 s)))"

lemma byte_of_digit_char: "d < 10 \<Longrightarrow> byte_of (digit_char d) = 48 + d"
  by (simp add: digit_char_def of_char_of)

lemma is_digit_digit_char [simp]: "d < 10 \<Longrightarrow> is_digit (digit_char d)"
  by (simp add: is_digit_def byte_of_digit_char)

lemma digit_val_digit_char [simp]: "d < 10 \<Longrightarrow> digit_val (digit_char d) = d"
  by (simp add: digit_val_def byte_of_digit_char)

lemma show_nat_not_Nil [simp]: "show_nat n \<noteq> []"
  by (subst show_nat.simps) simp

lemma show_nat_digits [go_text]: "list_all is_digit (show_nat n)"
proof (induction n rule: show_nat.induct)
  case (1 n)
  then show ?case by (subst show_nat.simps) auto
qed

lemma read_nat_append: "read_nat acc (xs @ ys) = read_nat (read_nat acc xs) ys"
  by (induction xs arbitrary: acc) auto

lemma read_show_nat [simp]: "read_nat 0 (show_nat n) = n"
proof (induction n rule: show_nat.induct)
  case (1 n)
  then show ?case by (subst show_nat.simps) (auto simp: read_nat_append)
qed

lemma show_nat_inject [simp]: "show_nat m = show_nat n \<longleftrightarrow> m = n"
  by (metis read_show_nat)

lemma show_nat_no_minus: "CHR ''-'' \<notin> set (show_nat n)"
  using show_nat_digits [of n] by (auto simp: list_all_iff is_digit_def)

lemma show_int_inject [simp]: "show_int i = show_int j \<longleftrightarrow> i = j"
proof
  assume eq: "show_int i = show_int j"
  have "CHR ''-'' \<in> set (show_int k) \<longleftrightarrow> k < 0" for k
    by (simp add: show_int_def show_nat_no_minus)
  with eq have "i < 0 \<longleftrightarrow> j < 0" by metis
  with eq show "i = j" by (auto simp: show_int_def nat_eq_iff split: if_splits)
qed simp

lemma show_int_chars: "c \<in> set (show_int i) \<Longrightarrow> is_digit c \<or> c = CHR ''-''"
  using show_nat_digits by (auto simp: show_int_def list_all_iff split: if_splits)

lemma show_int_not_Nil [simp]: "show_int i \<noteq> []"
  by (simp add: show_int_def)

text \<open>The decimal numeral of a 64-bit value reads back as that value.\<close>

lemma parse_uint64_show [simp]: "parse_uint64 (show_nat (unat w)) = Some w"
  using show_nat_digits unsigned_less [of w, where ?'a = nat] by (simp add: parse_uint64_def)

text \<open>A number before a separator that is not a digit or a sign is read unambiguously.\<close>

lemma first_component_inject:
  assumes "a @ sep # x = b @ sep # y" and "sep \<notin> set a" and "sep \<notin> set b"
  shows "a = b \<and> x = y"
  using assms by (auto simp: append_eq_append_conv2 append_eq_Cons_conv Cons_eq_append_conv)

lemma last_component_inject:
  assumes "a @ sep # x = b @ sep # y" and "sep \<notin> set x" and "sep \<notin> set y"
  shows "a = b \<and> x = y"
proof -
  have "rev x @ sep # rev a = rev y @ sep # rev b"
    using arg_cong [OF assms(1), of rev] by simp
  then have "rev x = rev y \<and> rev a = rev b"
    using assms(2,3) by (intro first_component_inject) auto
  then show ?thesis by simp
qed

section \<open>Hexadecimal digits\<close>

definition hex_val :: "char \<Rightarrow> nat option" where
  "hex_val c =
     (let b = byte_of c in
      if 48 \<le> b \<and> b \<le> 57 then Some (b - 48)
      else if 97 \<le> b \<and> b \<le> 102 then Some (b - 87)
      else if 65 \<le> b \<and> b \<le> 70 then Some (b - 55)
      else None)"

definition is_hex :: "char \<Rightarrow> bool" where
  "is_hex c \<longleftrightarrow> hex_val c \<noteq> None"

lemma hex_val_bound: "hex_val c = Some v \<Longrightarrow> v < 16"
  by (auto simp: hex_val_def Let_def split: if_splits)

lemma is_hex_ascii: "is_hex c \<Longrightarrow> byte_of c < 128 \<and> \<not> is_space (byte_of c)"
  by (auto simp: is_hex_def hex_val_def is_space_def Let_def split: if_splits)

text \<open>\<open>strconv.Quote\<close>, as \<open>%q\<close> prints it; every valid rune above ASCII is printed as it is.\<close>

definition hex_digit :: "nat \<Rightarrow> char" where
  "hex_digit n = (if n < 10 then char_of (48 + n) else char_of (87 + n))"

definition quote_byte :: "nat \<Rightarrow> string" where
  "quote_byte b =
     (if b = 34 then [CHR 0x5C, CHR 0x22]
      else if b = 92 then [CHR 0x5C, CHR 0x5C]
      else if 32 \<le> b \<and> b < 127 then [char_of b]
      else if b = 7 then [CHR 0x5C, CHR ''a'']
      else if b = 8 then [CHR 0x5C, CHR ''b'']
      else if b = 12 then [CHR 0x5C, CHR ''f'']
      else if b = 10 then [CHR 0x5C, CHR ''n'']
      else if b = 13 then [CHR 0x5C, CHR ''r'']
      else if b = 9 then [CHR 0x5C, CHR ''t'']
      else if b = 11 then [CHR 0x5C, CHR ''v'']
      else [CHR 0x5C, CHR ''x'', hex_digit (b div 16), hex_digit (b mod 16)])"

function quote_body :: "string \<Rightarrow> string" where
  "quote_body [] = []"
| "quote_body (c # cs) =
     (let (r, n) = decode_rune (c # cs) in
      (if n = 1 then quote_byte (byte_of c) else take n (c # cs)) @
      quote_body (drop (snd (decode_rune (c # cs))) (c # cs)))"
  by pat_completeness auto
termination
proof (relation "measure length")
  fix c cs x r n
  assume "x = decode_rune (c # cs)" "(r, n) = x"
  then show "(drop (snd (decode_rune (c # cs))) (c # cs), c # cs) \<in> measure length"
    using decode_rune_width [of "c # cs"] by (simp del: decode_rune.simps)
qed simp

definition go_quote :: "string \<Rightarrow> string" where
  "go_quote s = CHR 0x22 # quote_body s @ [CHR 0x22]"

section \<open>Package errors\<close>

text \<open>
  The sentinel errors of the sources, and \<open>sql.ErrNoRows\<close> and the context error of the
  libraries they use.
\<close>

datatype sentinel =
    ErrInvalidEnvelope | ErrFingerprintConflict | ErrClaimInFlight | ErrClaimNotFound
  | ErrClaimStale | ErrChainBusy | ErrChainConflict | ErrRejectedInput | ErrInvoiceRejected
  | ErrOutcomeAmbiguous | ErrTenantSchemaNotReady | ErrTenantStopping | ErrNoRows

fun sentinel_text :: "sentinel \<Rightarrow> string" where
  "sentinel_text ErrInvalidEnvelope = ''invalid queue envelope''"
| "sentinel_text ErrFingerprintConflict = ''queue request fingerprint conflict''"
| "sentinel_text ErrClaimInFlight = ''queue claim is in flight''"
| "sentinel_text ErrClaimNotFound = ''queue claim not found''"
| "sentinel_text ErrClaimStale = ''queue claim lease is stale''"
| "sentinel_text ErrChainBusy = ''branch invoice chain is busy''"
| "sentinel_text ErrChainConflict = ''branch invoice chain changed''"
| "sentinel_text ErrRejectedInput = ''document rejected before invoicing''"
| "sentinel_text ErrInvoiceRejected = ''ZATCA rejected a verified invoice''"
| "sentinel_text ErrOutcomeAmbiguous = ''ZATCA's outcome is ambiguous''"
| "sentinel_text ErrTenantSchemaNotReady = ''ZATCA tenant schema is not ready''"
| "sentinel_text ErrTenantStopping = ''tenant is being removed''"
| "sentinel_text ErrNoRows = ''sql: no rows in result set''"

text \<open>
  An error value: a sentinel, an error with a text only, one that wraps another with
  \<open>%w\<close> between two texts, a joined pair, or a numbered error of the MySQL server.
\<close>

datatype goerr =
    Sentinel sentinel
  | NewError string
  | Wrapf string goerr string
  | Joined goerr goerr
  | MySQLError nat string

fun err_text :: "goerr \<Rightarrow> string" where
  "err_text (Sentinel s) = sentinel_text s"
| "err_text (NewError t) = t"
| "err_text (Wrapf before e after) = before @ err_text e @ after"
| "err_text (Joined e f) = err_text e @ [CHR 0x0A] @ err_text f"
| "err_text (MySQLError n t) = ''Error '' @ show_nat n @ '': '' @ t"

text \<open>\<open>errors.Is\<close> and \<open>errors.As\<close> walk the whole tree of wrapped errors.\<close>

fun is_err :: "goerr \<Rightarrow> sentinel \<Rightarrow> bool" where
  "is_err (Sentinel s) t = (s = t)"
| "is_err (NewError _) t = False"
| "is_err (Wrapf _ e _) t = is_err e t"
| "is_err (Joined e f) t = (is_err e t \<or> is_err f t)"
| "is_err (MySQLError _ _) t = False"

fun as_mysql :: "goerr \<Rightarrow> nat option" where
  "as_mysql (MySQLError n _) = Some n"
| "as_mysql (Wrapf _ e _) = as_mysql e"
| "as_mysql (Joined e f) = (case as_mysql e of None \<Rightarrow> as_mysql f | Some n \<Rightarrow> Some n)"
| "as_mysql _ = None"

text \<open>\<open>errors.Join\<close> drops a nil error.\<close>

definition join_opt :: "goerr option \<Rightarrow> goerr \<Rightarrow> goerr" where
  "join_opt r e = (case r of None \<Rightarrow> Wrapf [] e [] | Some c \<Rightarrow> Joined c e)"

end
