(* ===== verification/Queue_Message.thy ===== *)
theory Queue_Message
  imports Go_Prelude
begin

text \<open>
  The envelopes of package \<open>queue\<close>: the document message (\<open>message.go\<close>), the onboarding
  request (\<open>onboard.go\<close>) and the reconciliation request (\<open>reconcile.go\<close>), with their
  validation and the NATS subjects derived from them.  The lemmas show that validated
  identities give injective keys and subjects, and that control requests stay outside the
  stream that stores documents.
\<close>

section \<open>Identity text\<close>

text \<open>\<open>uuid.Parse\<close> of the vendored package, as the list of its sixteen bytes.\<close>

fun xtob_all :: "string \<Rightarrow> nat list \<Rightarrow> nat list option" where
  "xtob_all s [] = Some []"
| "xtob_all s (x # xs) =
     (case (hex_val (s ! x), hex_val (s ! Suc x)) of
        (Some hi, Some lo) \<Rightarrow>
          (case xtob_all s xs of None \<Rightarrow> None | Some bs \<Rightarrow> Some ((16 * hi + lo) # bs))
      | _ \<Rightarrow> None)"

definition ascii_lower :: "char \<Rightarrow> char" where
  "ascii_lower c = (if 65 \<le> byte_of c \<and> byte_of c \<le> 90 then char_of (byte_of c + 32) else c)"

definition uuid_body :: "string \<Rightarrow> nat list option" where
  "uuid_body s =
     (if s ! 8 \<noteq> CHR ''-'' \<or> s ! 13 \<noteq> CHR ''-'' \<or> s ! 18 \<noteq> CHR ''-'' \<or> s ! 23 \<noteq> CHR ''-''
      then None
      else xtob_all s [0, 2, 4, 6, 9, 11, 14, 16, 19, 21, 24, 26, 28, 30, 32, 34])"

definition uuid_Parse :: "string \<Rightarrow> nat list option" where
  "uuid_Parse s =
     (if length s = 36 then uuid_body s
      else if length s = 45 then
        (if map ascii_lower (take 9 s) \<noteq> ''urn:uuid:'' then None else uuid_body (drop 9 s))
      else if length s = 38 then uuid_body (drop 1 s)
      else if length s = 32 then
        xtob_all s [0, 2, 4, 6, 8, 10, 12, 14, 16, 18, 20, 22, 24, 26, 28, 30]
      else None)"

definition isUUID :: "string \<Rightarrow> bool" where
  "isUUID value =
     (case uuid_Parse value of None \<Rightarrow> False | Some bs \<Rightarrow> bs \<noteq> replicate 16 0)"

definition validIdentityText :: "string \<Rightarrow> nat \<Rightarrow> bool" where
  "validIdentityText value maxRunes =
     (if trim_space value = [] \<or> trim_space value \<noteq> value \<or>
         rune_count value > maxRunes \<or> \<not> valid_string value
      then False
      else \<not> list_ex (\<lambda>r. r = 0 \<or> r = 42 \<or> r = 62 \<or> r = 46 \<or> r < 32 \<or> r = 127) (runes value))"

definition validOpaqueText :: "string \<Rightarrow> nat \<Rightarrow> bool" where
  "validOpaqueText value maxRunes =
     (if trim_space value = [] \<or> trim_space value \<noteq> value \<or>
         rune_count value > maxRunes \<or> \<not> valid_string value
      then False
      else \<not> list_ex (\<lambda>r. r = 0 \<or> r < 32 \<or> r = 127) (runes value))"

definition validEvidenceText :: "string \<Rightarrow> nat \<Rightarrow> bool" where
  "validEvidenceText value maxRunes =
     (if rune_count value > maxRunes \<or> \<not> valid_string value then False
      else \<not> list_ex (\<lambda>r. r = 0 \<or> r < 32 \<or> r = 127) (runes value))"

text \<open>
  What acceptance tells about the bytes: a separator that the check refuses as a rune is not a
  byte of the text.  Conversely, plain graphic ASCII text within the limit is accepted.
\<close>

lemma validIdentityText_bytes:
  assumes "validIdentityText v n"
  shows "CHR 0x00 \<notin> set v" and "CHR ''.'' \<notin> set v" and "CHR ''*'' \<notin> set v"
    and "CHR ''>'' \<notin> set v" and "v \<noteq> []"
  using assms ascii_in_runes [of "CHR 0x00" v] ascii_in_runes [of "CHR ''.''" v]
    ascii_in_runes [of "CHR ''*''" v] ascii_in_runes [of "CHR ''>''" v]
  by (auto simp: validIdentityText_def list_ex_iff split: if_splits)

lemma validOpaqueText_bytes:
  assumes "validOpaqueText v n"
  shows "CHR 0x00 \<notin> set v" and "v \<noteq> []"
  using assms ascii_in_runes [of "CHR 0x00" v]
  by (auto simp: validOpaqueText_def list_ex_iff split: if_splits)

lemma identity_is_opaque: "validIdentityText v n \<Longrightarrow> validOpaqueText v n"
  by (auto simp: validIdentityText_def validOpaqueText_def list_ex_iff split: if_splits)

lemma validIdentityText_graphic:
  "v \<noteq> [] \<Longrightarrow> length v \<le> n \<Longrightarrow> list_all graphic v \<Longrightarrow>
   list_all (\<lambda>c. byte_of c \<noteq> 42 \<and> byte_of c \<noteq> 46 \<and> byte_of c \<noteq> (62 :: nat)) v \<Longrightarrow>
   validIdentityText v n"
  by (auto simp: validIdentityText_def rune_count_def runes_graphic valid_string_graphic
      trim_space_graphic list_ex_iff list_all_iff graphic_def)

lemma validOpaqueText_graphic:
  "v \<noteq> [] \<Longrightarrow> length v \<le> n \<Longrightarrow> list_all graphic v \<Longrightarrow> validOpaqueText v n"
  by (auto simp: validOpaqueText_def rune_count_def runes_graphic valid_string_graphic
      trim_space_graphic list_ex_iff list_all_iff graphic_def)

definition sha256Size :: nat where
  "sha256Size = 32"

text \<open>\<open>hex.Decode\<close> of a value of the encoded length fails exactly on a non-hex byte.\<close>

definition validFingerprint :: "string \<Rightarrow> bool" where
  "validFingerprint value \<longleftrightarrow> length value = 2 * sha256Size \<and> list_all is_hex value"

section \<open>The document envelope\<close>

record message =
  m_DocType :: string
  m_ID :: int
  m_BranchID :: int
  m_DBName :: string
  m_TenantKey :: string
  m_PosID :: string
  m_BillRequestID :: string
  m_EventID :: string
  m_EGSSequenceID :: string
  m_InvoiceUUID :: string
  m_RequestFingerprint :: string

definition DocBill :: string where
  "DocBill = ''bill''"

definition StreamName :: string where
  "StreamName = ''ZATCA''"

definition SubjectAll :: string where
  "SubjectAll = ''zatca.>''"

definition invalidf :: "string \<Rightarrow> goerr" where
  "invalidf t = Wrapf [] (Sentinel ErrInvalidEnvelope) ('': '' @ t)"

lemma is_err_invalidf [simp]: "is_err (invalidf t) e \<longleftrightarrow> e = ErrInvalidEnvelope"
  by (auto simp: invalidf_def)

definition message_Validate :: "message \<Rightarrow> goerr option" where
  "message_Validate m =
     (if m_DocType m \<noteq> DocBill then
        Some (invalidf (''unsupported doc_type '' @ go_quote (m_DocType m)))
      else if m_ID m \<le> 0 then Some (invalidf ''id is required'')
      else if m_BranchID m \<le> 0 then Some (invalidf ''branch_id is required'')
      else if \<not> validIdentityText (m_DBName m) 64 then
        Some (invalidf ''db_name is required and must be at most 64 characters'')
      else if \<not> validIdentityText (m_TenantKey m) 64 then
        Some (invalidf ''tenant_key is required and must be at most 64 characters'')
      else if \<not> validOpaqueText (m_PosID m) 64 then
        Some (invalidf ''pos_id is required and must be at most 64 characters'')
      else if \<not> validOpaqueText (m_BillRequestID m) 36 then
        Some (invalidf ''bill_request_id is required and must be at most 36 characters'')
      else if \<not> validOpaqueText (m_EventID m) 128 then
        Some (invalidf ''event_id is required and must be at most 128 characters'')
      else if m_EGSSequenceID m \<noteq> show_int (m_BranchID m) then
        Some (invalidf ''egs_sequence_id must be the branch id'')
      else if \<not> isUUID (m_InvoiceUUID m) then
        Some (invalidf ''invoice_uuid must be a UUID'')
      else if \<not> validFingerprint (m_RequestFingerprint m) then
        Some (invalidf ''request_fingerprint must be a 64-character SHA-256 hex value'')
      else None)"

text \<open>
  \<open>strictDecode\<close> runs a JSON decoder that refuses unknown fields; the decoder of
  \<open>encoding/json\<close> is the argument \<open>json\<close>, which gives the value or the text of its error.
\<close>

definition strictDecode :: "(string \<Rightarrow> string + 'a) \<Rightarrow> string \<Rightarrow> goerr + 'a" where
  "strictDecode json data =
     (case json data of
        Inl t \<Rightarrow> Inl (Wrapf [] (Sentinel ErrInvalidEnvelope) ('': '' @ t))
      | Inr v \<Rightarrow> Inr v)"

definition DecodeEnvelope :: "(string \<Rightarrow> string + message) \<Rightarrow> string \<Rightarrow> goerr + message" where
  "DecodeEnvelope json data =
     (case strictDecode json data of
        Inl e \<Rightarrow> Inl e
      | Inr msg \<Rightarrow> (case message_Validate msg of Some e \<Rightarrow> Inl e | None \<Rightarrow> Inr msg))"

definition RequestKey :: "message \<Rightarrow> string" where
  "RequestKey m = m_PosID m @ [CHR 0x00] @ m_BillRequestID m"

definition PartitionKey :: "message \<Rightarrow> string" where
  "PartitionKey m = m_TenantKey m @ [CHR 0x00] @ m_EGSSequenceID m"

definition OrderedSubject :: "string \<Rightarrow> int \<Rightarrow> string" where
  "OrderedSubject dbName branchID = ''zatca.*.'' @ dbName @ ''.'' @ show_int branchID"

definition OrderedConsumerName :: "string \<Rightarrow> int \<Rightarrow> string" where
  "OrderedConsumerName dbName branchID = ''zatca_ordered_'' @ dbName @ ''_'' @ show_int branchID"

section \<open>The onboarding request\<close>

record onboard_request =
  or_DBName :: string
  or_TenantKey :: string
  or_BranchID :: int
  or_OTP :: string

record onboard_reply =
  ory_Accepted :: bool
  ory_Error :: string

definition OnboardSubject :: "string \<Rightarrow> int \<Rightarrow> string" where
  "OnboardSubject dbName branchID =
     ''control.zatca.onboard.'' @ dbName @ ''.'' @ show_int branchID"

definition OnboardWildcard :: "string \<Rightarrow> string" where
  "OnboardWildcard dbName = ''control.zatca.onboard.'' @ dbName @ ''.*''"

definition DecodeOnboardRequest ::
    "(string \<Rightarrow> string + onboard_request) \<Rightarrow> string \<Rightarrow> goerr + onboard_request" where
  "DecodeOnboardRequest json data =
     (case strictDecode json data of
        Inl e \<Rightarrow> Inl e
      | Inr req \<Rightarrow>
          (if \<not> validIdentityText (or_DBName req) 64 then
             Inl (invalidf ''db_name is required and must be at most 64 characters'')
           else if \<not> validIdentityText (or_TenantKey req) 64 then
             Inl (invalidf ''tenant_key is required and must be at most 64 characters'')
           else if or_BranchID req \<le> 0 then Inl (invalidf ''branch_id is required'')
           else if trim_space (or_OTP req) = [] \<or> length (or_OTP req) > 64 then
             Inl (invalidf ''otp is required and must be at most 64 characters'')
           else Inr req))"

section \<open>The reconciliation request\<close>

definition ReconcileActionStatus :: string where
  "ReconcileActionStatus = ''status''"

definition ReconcileActionRecord :: string where
  "ReconcileActionRecord = ''record''"

definition OutcomeAccepted :: string where
  "OutcomeAccepted = ''accepted''"

definition OutcomeWarning :: string where
  "OutcomeWarning = ''accepted_with_warning''"

definition OutcomeRejected :: string where
  "OutcomeRejected = ''rejected''"

definition OutcomeAmbiguous :: string where
  "OutcomeAmbiguous = ''ambiguous''"

definition OutcomeTerminalFailure :: string where
  "OutcomeTerminalFailure = ''terminal_failure''"

definition outcomePending :: string where
  "outcomePending = ''pending''"

lemmas outcome_defs = OutcomeAccepted_def OutcomeWarning_def OutcomeRejected_def
  OutcomeAmbiguous_def OutcomeTerminalFailure_def outcomePending_def

record reconcile_request =
  rr_TenantKey :: string
  rr_DBName :: string
  rr_BranchID :: int
  rr_BillID :: int
  rr_Action :: string
  rr_InvoiceUUID :: string
  rr_InvoiceHash :: string
  rr_State :: string
  rr_ProviderCode :: string
  rr_Message :: string
  rr_EvidenceID :: string

record reconcile_reply =
  rp_Accepted :: bool
  rp_State :: string
  rp_Evidence :: string
  rp_EvidenceID :: string
  rp_InvoiceHash :: string
  rp_Error :: string

definition ReconcileSubject :: "string \<Rightarrow> string" where
  "ReconcileSubject tenantKey = ''control.zatca.reconcile.'' @ tenantKey"

definition ReconcileWildcard :: string where
  "ReconcileWildcard = ''control.zatca.reconcile.*''"

definition reconcile_Validate :: "reconcile_request \<Rightarrow> goerr option" where
  "reconcile_Validate r =
     (if \<not> validIdentityText (rr_TenantKey r) 64 then
        Some (invalidf ''tenant_key is required and must be at most 64 characters'')
      else if \<not> validIdentityText (rr_DBName r) 64 then
        Some (invalidf ''db_name is required and must be at most 64 characters'')
      else if rr_BranchID r \<le> 0 then Some (invalidf ''branch_id is required'')
      else if rr_BillID r \<le> 0 then Some (invalidf ''bill_id is required'')
      else if rr_Action r \<noteq> ReconcileActionStatus \<and> rr_Action r \<noteq> ReconcileActionRecord then
        Some (invalidf (''action must be '' @ go_quote ReconcileActionStatus @ '' or '' @
          go_quote ReconcileActionRecord))
      else if rr_InvoiceUUID r \<noteq> [] \<and> \<not> isUUID (rr_InvoiceUUID r) then
        Some (invalidf ''invoice_uuid must be a UUID when supplied'')
      else if rr_InvoiceHash r \<noteq> [] \<and> \<not> validFingerprint (rr_InvoiceHash r) then
        Some (invalidf ''invoice_hash must be a 64-character SHA-256 hex value'')
      else if rr_Action r \<noteq> ReconcileActionRecord then None
      else if \<not> (rr_State r = OutcomeAccepted \<or> rr_State r = OutcomeWarning \<or>
                 rr_State r = OutcomeRejected) then
        Some (invalidf ''record state must be accepted, accepted_with_warning, or rejected'')
      else if trim_space (rr_InvoiceHash r) = [] then
        Some (invalidf ''invoice_hash is required when recording external evidence'')
      else if trim_space (rr_EvidenceID r) = [] \<or> \<not> validEvidenceText (rr_EvidenceID r) 256 then
        Some (invalidf ''evidence_id is required and must be at most 256 characters'')
      else if \<not> validEvidenceText (rr_ProviderCode r) 64 \<or>
              \<not> validEvidenceText (rr_Message r) 1024 then
        Some (invalidf ''provider_code and message must be valid bounded text'')
      else None)"

definition DecodeReconcileRequest ::
    "(string \<Rightarrow> string + reconcile_request) \<Rightarrow> string \<Rightarrow> goerr + reconcile_request" where
  "DecodeReconcileRequest json data =
     (case strictDecode json data of
        Inl e \<Rightarrow> Inl e
      | Inr req \<Rightarrow> (case reconcile_Validate req of Some e \<Rightarrow> Inl e | None \<Rightarrow> Inr req))"

text \<open>\<open>json.Marshal\<close> of the request is the argument \<open>marshal\<close>.\<close>

definition EncodeReconcileRequest ::
    "(reconcile_request \<Rightarrow> goerr + string) \<Rightarrow> reconcile_request \<Rightarrow> goerr + string" where
  "EncodeReconcileRequest marshal req =
     (case reconcile_Validate req of Some e \<Rightarrow> Inl e | None \<Rightarrow> marshal req)"

section \<open>What a validated envelope gives\<close>

lemma message_ValidD:
  assumes "message_Validate m = None"
  shows "m_DocType m = DocBill" and "0 < m_ID m" and "0 < m_BranchID m"
    and "validIdentityText (m_DBName m) 64" and "validIdentityText (m_TenantKey m) 64"
    and "validOpaqueText (m_PosID m) 64" and "validOpaqueText (m_BillRequestID m) 36"
    and "validOpaqueText (m_EventID m) 128" and "m_EGSSequenceID m = show_int (m_BranchID m)"
    and "isUUID (m_InvoiceUUID m)" and "validFingerprint (m_RequestFingerprint m)"
  using assms by (auto simp: message_Validate_def split: if_splits)

lemma message_Validate_err: "message_Validate m = Some e \<Longrightarrow> is_err e ErrInvalidEnvelope"
  by (auto simp: message_Validate_def split: if_splits)

lemma RequestKey_inject:
  assumes "message_Validate m = None" and "message_Validate n = None"
  shows "RequestKey m = RequestKey n \<longleftrightarrow>
     m_PosID m = m_PosID n \<and> m_BillRequestID m = m_BillRequestID n"
  using first_component_inject [of "m_PosID m" "CHR 0x00" "m_BillRequestID m" "m_PosID n"
      "m_BillRequestID n"] validOpaqueText_bytes(1) [OF message_ValidD(6) [OF assms(1)]]
    validOpaqueText_bytes(1) [OF message_ValidD(6) [OF assms(2)]]
  by (auto simp: RequestKey_def)

lemma PartitionKey_inject:
  assumes "message_Validate m = None" and "message_Validate n = None"
  shows "PartitionKey m = PartitionKey n \<longleftrightarrow>
     m_TenantKey m = m_TenantKey n \<and> m_BranchID m = m_BranchID n"
  using first_component_inject [of "m_TenantKey m" "CHR 0x00" "m_EGSSequenceID m" "m_TenantKey n"
      "m_EGSSequenceID n"] validIdentityText_bytes(1) [OF message_ValidD(5) [OF assms(1)]]
    validIdentityText_bytes(1) [OF message_ValidD(5) [OF assms(2)]]
    message_ValidD(9) [OF assms(1)] message_ValidD(9) [OF assms(2)]
  by (auto simp: PartitionKey_def)

text \<open>A UUID text holds a hexadecimal digit, so it is not blank.\<close>

lemma uuid_body_hex: "uuid_body s = Some bs \<Longrightarrow> is_hex (s ! 0)"
  by (auto simp: uuid_body_def is_hex_def split: if_splits option.splits)

lemma isUUID_hex: "isUUID v \<Longrightarrow> \<exists>c \<in> set v. is_hex c"
proof -
  assume "isUUID v"
  then obtain bs where "uuid_Parse v = Some bs" by (auto simp: isUUID_def split: option.splits)
  then consider "length v = 36" "is_hex (v ! 0)" | "length v = 45" "is_hex (drop 9 v ! 0)"
    | "length v = 38" "is_hex (drop 1 v ! 0)" | "length v = 32" "is_hex (v ! 0)"
    by (auto simp: uuid_Parse_def is_hex_def dest!: uuid_body_hex split: if_splits option.splits)
  then show ?thesis
    by cases (auto intro!: bexI nth_mem)
qed

lemma isUUID_not_blank: "isUUID v \<Longrightarrow> trim_space v \<noteq> []"
  using isUUID_hex is_hex_ascii trim_space_keeps by blast

lemma validFingerprint_not_blank: "validFingerprint v \<Longrightarrow> trim_space v \<noteq> []"
proof -
  assume v: "validFingerprint v"
  then obtain c where "c \<in> set v" "is_hex c"
    by (cases v) (auto simp: validFingerprint_def sha256Size_def)
  then show ?thesis using is_hex_ascii trim_space_keeps by blast
qed

section \<open>NATS subjects\<close>

text \<open>
  The documented subject language of NATS: tokens separated by dots, where \<open>*\<close> matches one
  token and a final \<open>>\<close> one or more.
\<close>

fun tokens :: "string \<Rightarrow> string list" where
  "tokens [] = [[]]"
| "tokens (c # cs) =
     (if c = CHR ''.'' then [] # tokens cs
      else (case tokens cs of [] \<Rightarrow> [[c]] | t # ts \<Rightarrow> (c # t) # ts))"

fun token_match :: "string list \<Rightarrow> string list \<Rightarrow> bool" where
  "token_match [] [] = True"
| "token_match [p] (t # ts) = (if p = ''>'' then True else (p = ''*'' \<or> p = t) \<and> ts = [])"
| "token_match (p # ps) (t # ts) = ((p = ''*'' \<or> p = t) \<and> token_match ps ts)"
| "token_match _ _ = False"

definition subject_match :: "string \<Rightarrow> string \<Rightarrow> bool" where
  "subject_match pattern subject \<longleftrightarrow> token_match (tokens pattern) (tokens subject)"

lemma tokens_not_Nil [simp]: "tokens s \<noteq> []"
  by (induction s) (auto split: list.splits)

lemma tokens_plain: "CHR ''.'' \<notin> set s \<Longrightarrow> tokens s = [s]"
  by (induction s) auto

lemma tokens_append: "CHR ''.'' \<notin> set s \<Longrightarrow> tokens (s @ CHR ''.'' # t) = s # tokens t"
  by (induction s) auto

lemma show_int_no_dot [simp]: "CHR ''.'' \<notin> set (show_int i)"
  using show_int_chars [of "CHR ''.''" i] by (auto simp: is_digit_def)

lemma tokens_named:
  assumes "CHR ''.'' \<notin> set db"
  shows "tokens (db @ ''.'' @ show_int b) = [db, show_int b]"
  using tokens_append [OF assms, of "show_int b"] tokens_plain [OF show_int_no_dot] by simp

text \<open>The subject the backend publishes a document on (\<open>README.md\<close>, NATS Subject Format).\<close>

definition DocSubject :: "string \<Rightarrow> string \<Rightarrow> int \<Rightarrow> string" where
  "DocSubject docType dbName branchID =
     ''zatca.'' @ docType @ ''.'' @ dbName @ ''.'' @ show_int branchID"

lemma tokens_DocSubject:
  assumes "CHR ''.'' \<notin> set doc" and "CHR ''.'' \<notin> set db"
  shows "tokens (DocSubject doc db b) = [''zatca'', doc, db, show_int b]"
  using tokens_append [OF assms(1), of "db @ ''.'' @ show_int b"] tokens_named [OF assms(2)]
  by (simp add: DocSubject_def)

lemma tokens_OrderedSubject:
  "CHR ''.'' \<notin> set db \<Longrightarrow> tokens (OrderedSubject db b) = [''zatca'', ''*'', db, show_int b]"
  using tokens_named [of db b] by (simp add: OrderedSubject_def)

lemma tokens_OnboardSubject:
  "CHR ''.'' \<notin> set db \<Longrightarrow>
   tokens (OnboardSubject db b) = [''control'', ''zatca'', ''onboard'', db, show_int b]"
  using tokens_named [of db b] by (simp add: OnboardSubject_def)

lemma tokens_OnboardWildcard:
  "CHR ''.'' \<notin> set db \<Longrightarrow>
   tokens (OnboardWildcard db) = [''control'', ''zatca'', ''onboard'', db, ''*'']"
  using tokens_append [of db "''*''"] by (simp add: OnboardWildcard_def)

lemma tokens_ReconcileSubject:
  "CHR ''.'' \<notin> set k \<Longrightarrow> tokens (ReconcileSubject k) = [''control'', ''zatca'', ''reconcile'', k]"
  using tokens_plain [of k] by (simp add: ReconcileSubject_def)

lemmas tokens_subjects = tokens_DocSubject tokens_OrderedSubject tokens_OnboardSubject
  tokens_OnboardWildcard tokens_ReconcileSubject

lemma show_int_no_wildcard: "show_int i \<noteq> ''*''" "show_int i \<noteq> ''>''"
  using show_int_chars [of "CHR ''*''" i] show_int_chars [of "CHR ''>''" i]
  by (auto simp: is_digit_def)

text \<open>A sample envelope, the one the evaluated examples of the development start from.\<close>

definition sample_message :: message where
  "sample_message =
     \<lparr>m_DocType = ''bill'', m_ID = 42, m_BranchID = 7, m_DBName = ''tenant_acme'',
      m_TenantKey = ''acme-0001'', m_PosID = ''pos-1'', m_BillRequestID = ''req-1'',
      m_EventID = ''event-1'', m_EGSSequenceID = ''7'',
      m_InvoiceUUID = ''0c4f7a1e-2b3d-4e5f-8a9b-1c2d3e4f5a6b'',
      m_RequestFingerprint = replicate 64 (CHR ''a'')\<rparr>"

lemma sample_texts:
  "validIdentityText ''tenant_acme'' 64" "validIdentityText ''acme-0001'' 64"
  "validOpaqueText ''pos-1'' 64" "validOpaqueText ''req-1'' 36" "validOpaqueText ''event-1'' 128"
  "validOpaqueText ''event-2'' 128"
  by (rule validIdentityText_graphic validOpaqueText_graphic; simp add: graphic_def)+

lemma sample_uuid: "isUUID ''0c4f7a1e-2b3d-4e5f-8a9b-1c2d3e4f5a6b''"
  by code_simp

lemma sample_number: "show_int 7 = ''7''"
  by code_simp

lemma sample_fingerprint: "validFingerprint (replicate 64 (CHR ''a''))"
  by (simp add: validFingerprint_def sha256Size_def list_all_iff is_hex_def hex_val_def)

lemma sample_message_valid: "message_Validate sample_message = None"
  by (simp add: message_Validate_def sample_message_def DocBill_def sample_texts sample_uuid
      sample_number sample_fingerprint)

text \<open>The same request, published again under another event.\<close>

definition sample_retry :: message where
  "sample_retry = sample_message\<lparr>m_EventID := ''event-2''\<rparr>"

lemma sample_retry_valid: "message_Validate sample_retry = None"
  by (simp add: message_Validate_def sample_retry_def sample_message_def DocBill_def sample_texts
      sample_uuid sample_number sample_fingerprint)

lemma sample_fields [simp]:
  "m_ID sample_message = 42" "m_BranchID sample_message = 7" "m_PosID sample_message = ''pos-1''"
  "m_BillRequestID sample_message = ''req-1''" "m_EventID sample_message = ''event-1''"
  "m_RequestFingerprint sample_message = replicate 64 (CHR ''a'')"
  "m_InvoiceUUID sample_message = ''0c4f7a1e-2b3d-4e5f-8a9b-1c2d3e4f5a6b''"
  "m_DBName sample_message = ''tenant_acme''"
  by (simp_all add: sample_message_def)

lemma sample_retry_fields [simp]:
  "m_ID sample_retry = 42" "m_BranchID sample_retry = 7" "m_PosID sample_retry = ''pos-1''"
  "m_BillRequestID sample_retry = ''req-1''" "m_EventID sample_retry = ''event-2''"
  "m_RequestFingerprint sample_retry = replicate 64 (CHR ''a'')"
  "m_InvoiceUUID sample_retry = ''0c4f7a1e-2b3d-4e5f-8a9b-1c2d3e4f5a6b''"
  by (simp_all add: sample_retry_def)

end
