(* ===== verification/Tenant_DB.thy ===== *)
theory Tenant_DB
  imports Queue_Message
begin

text \<open>
  The tenant database as the daemon sees it: the tables that \<open>queue/sql_claim_store.go\<close> and
  \<open>queue/chain.go\<close> read and write, as lists of rows, and the environment of one call (the
  clock and the statements that fail).  A statement can be refused, which leaves no effect, or
  stay unanswered, where the server applied it and the connection was lost before the answer.
  The theory also holds the SQL helpers of \<open>queue/sql.go\<close>.
\<close>

section \<open>Helpers of sql.go\<close>

definition mysqlDuplicateKey :: nat where
  "mysqlDuplicateKey = 1062"

definition mysqlLockNoWait :: nat where
  "mysqlLockNoWait = 3572"

definition isMySQLError :: "goerr \<Rightarrow> nat \<Rightarrow> bool" where
  "isMySQLError e number \<longleftrightarrow> as_mysql e = Some number"

text \<open>A scanned DATETIME: \<open>None\<close> is an invalid (NULL) value.\<close>

type_synonym nullableTime = "time option"

datatype sql_value = VNull | VTime time | VBytes string | VString string | VOther string

text \<open>
  The layouts of \<open>time.Parse\<close> are arguments: \<open>datetime\<close> for the MySQL layout and
  \<open>rfc3339\<close> for RFC 3339.
\<close>

definition nullableTime_parse ::
    "(string \<Rightarrow> time option) \<Rightarrow> (string \<Rightarrow> time option) \<Rightarrow> string \<Rightarrow> goerr + nullableTime" where
  "nullableTime_parse datetime rfc3339 value =
     (case datetime value of
        Some t \<Rightarrow> Inr (Some t)
      | None \<Rightarrow>
          (case rfc3339 value of
             Some t \<Rightarrow> Inr (Some t)
           | None \<Rightarrow> Inl (NewError (''invalid DATETIME '' @ go_quote value))))"

definition nullableTime_Scan ::
    "(string \<Rightarrow> time option) \<Rightarrow> (string \<Rightarrow> time option) \<Rightarrow> sql_value \<Rightarrow> goerr + nullableTime" where
  "nullableTime_Scan datetime rfc3339 value =
     (case value of
        VNull \<Rightarrow> Inr None
      | VTime t \<Rightarrow> Inr (Some t)
      | VBytes b \<Rightarrow> nullableTime_parse datetime rfc3339 b
      | VString s \<Rightarrow> nullableTime_parse datetime rfc3339 s
      | VOther ty \<Rightarrow> Inl (NewError (''unsupported DATETIME value '' @ ty)))"

definition truncate_text :: "string \<Rightarrow> nat \<Rightarrow> string" where
  "truncate_text s n =
     (let rs = runes s in if length rs \<le> n then s else concat (map encode_rune (take n rs)))"

definition nullString :: "string \<Rightarrow> nat \<Rightarrow> string option" where
  "nullString value n = (if value = [] then None else Some (truncate_text value n))"

section \<open>Tables\<close>

text \<open>\<open>zatca_consumer_claim\<close>: unique by \<open>(pos_id, bill_request_id)\<close>, and by \<open>event_id\<close>.\<close>

record claim_row =
  c_pos_id :: string
  c_bill_request_id :: string
  c_event_id :: string
  c_egs_sequence_id :: string
  c_fingerprint :: string
  c_state :: string
  c_lease_expires_at :: nullableTime
  c_completed_at :: nullableTime

text \<open>The chain columns of \<open>branch_zatca_config\<close>; the row is keyed by its branch.\<close>

record chainRow =
  cr_branch_id :: int
  cr_lastICV :: u64
  cr_previous :: "string option"
  cr_ownerKey :: "string option"
  cr_ownerToken :: "string option"
  cr_reservedICV :: "u64 option"
  cr_leaseEnd :: nullableTime

text \<open>The columns of \<open>bill\<close> the chain uses.\<close>

record bill_rec =
  bl_id :: int
  bl_branch_id :: int
  bl_state :: int
  bl_invoice_uuid :: "string option"
  bl_invoice_hash :: "string option"
  bl_qr_code :: "string option"

record submission_row =
  s_id :: nat
  s_bill_id :: int
  s_branch_id :: int
  s_status :: int
  s_outcome_state :: string
  s_invoice_icv :: u64
  s_previous_invoice_hash :: string
  s_invoice_uuid :: string
  s_invoice_hash :: string
  s_invoice_kind :: string
  s_signed_xml :: string
  s_provider_code :: "string option"
  s_rejection_code :: "string option"
  s_rejection_msg :: "string option"
  s_provider_warning_message :: "string option"
  s_submitted_at :: nullableTime
  s_outcome_at :: nullableTime

record outcome_row =
  o_submission_id :: nat
  o_outcome_state :: string
  o_provider_code :: "string option"
  o_provider_warning_message :: "string option"
  o_observed_at :: time

record tenant_db =
  db_claims :: "claim_row list"
  db_chains :: "chainRow list"
  db_bills :: "bill_rec list"
  db_submissions :: "submission_row list"
  db_outcomes :: "outcome_row list"

definition empty_db :: tenant_db where
  "empty_db = \<lparr>db_claims = [], db_chains = [], db_bills = [], db_submissions = [], db_outcomes = []\<rparr>"

lemma empty_db_simps [simp]:
  "db_claims empty_db = []" "db_chains empty_db = []" "db_bills empty_db = []"
  "db_submissions empty_db = []" "db_outcomes empty_db = []"
  by (simp_all add: empty_db_def)

text \<open>\<open>UPDATE ... SET f WHERE P\<close>.\<close>

definition upd :: "('r \<Rightarrow> bool) \<Rightarrow> ('r \<Rightarrow> 'r) \<Rightarrow> 'r list \<Rightarrow> 'r list" where
  "upd P f rows = map (\<lambda>r. if P r then f r else r) rows"

text \<open>
  \<open>RowsAffected\<close> of an update: the rows that matched and really changed, the driver's default
  (\<open>clientFoundRows\<close> off).
\<close>

definition changed :: "('r \<Rightarrow> bool) \<Rightarrow> ('r \<Rightarrow> 'r) \<Rightarrow> 'r list \<Rightarrow> nat" where
  "changed P f rows = length (filter (\<lambda>r. P r \<and> f r \<noteq> r) rows)"

named_theorems table_simps \<comment> \<open>looking rows up in an updated table\<close>

lemma length_upd [simp]: "length (upd P f rows) = length rows"
  by (simp add: upd_def)

lemma upd_Nil [simp]: "upd P f [] = []"
  by (simp add: upd_def)

lemma upd_Cons [simp]: "upd P f (r # rs) = (if P r then f r else r) # upd P f rs"
  by (simp add: upd_def)

lemma upd_id: "(\<And>r. r \<in> set rows \<Longrightarrow> P r \<Longrightarrow> f r = r) \<Longrightarrow> upd P f rows = rows"
  by (induction rows) auto

lemma set_updE: "x \<in> set (upd P f rows) \<Longrightarrow> \<exists>r \<in> set rows. x = (if P r then f r else r)"
  by (auto simp: upd_def)

text \<open>An update that keeps the key keeps every key-based property of the table.\<close>

lemma map_key_upd: "(\<And>r. P r \<Longrightarrow> k (f r) = k r) \<Longrightarrow> map k (upd P f rows) = map k rows"
  by (induction rows) auto

lemma find_upd [table_simps]:
  "(\<And>r. P r \<Longrightarrow> Q (f r) = Q r) \<Longrightarrow>
   find Q (upd P f rows) = map_option (\<lambda>r. if P r then f r else r) (find Q rows)"
  by (induction rows) auto

lemma filter_upd:
  "(\<And>r. P r \<Longrightarrow> Q (f r) = Q r) \<Longrightarrow> filter Q (upd P f rows) = upd P f (filter Q rows)"
  by (induction rows) auto

lemma find_append [table_simps]:
  "find P (xs @ ys) = (case find P xs of None \<Rightarrow> find P ys | Some x \<Rightarrow> Some x)"
  by (induction xs) auto

lemma find_SomeD: "find P xs = Some x \<Longrightarrow> x \<in> set xs \<and> P x"
  by (induction xs) (auto split: if_splits)

lemma find_distinct:
  assumes "distinct (map k xs)" and "x \<in> set xs"
  shows "find (\<lambda>y. k y = k x) xs = Some x"
  using assms by (induction xs) (auto simp: image_iff)

lemma changed_pos: "0 < changed P f rows \<longleftrightarrow> (\<exists>r \<in> set rows. P r \<and> f r \<noteq> r)"
  by (auto simp: changed_def filter_empty_conv)

text \<open>Where the key is unique, a condition that fixes the key selects at most one row.\<close>

lemma filter_unique:
  assumes "distinct (map k xs)" and "\<And>x. P x \<Longrightarrow> k x = c"
  shows "filter P xs = (case find (\<lambda>x. k x = c) xs of None \<Rightarrow> [] | Some x \<Rightarrow> if P x then [x] else [])"
  using assms(1)
proof (induction xs)
  case (Cons a xs)
  have "filter P xs = []" if "k a = c"
    using Cons.prems that assms(2) by (fastforce simp: filter_empty_conv image_iff)
  then show ?case
    using Cons assms(2) [of a] by (cases "k a = c") auto
qed simp

lemma find_filter: "find P xs = (case filter P xs of [] \<Rightarrow> None | x # _ \<Rightarrow> Some x)"
  by (induction xs) auto

lemma find_unique:
  assumes "distinct (map k xs)" and "\<And>x. P x \<Longrightarrow> k x = c"
  shows "find P xs = (case find (\<lambda>x. k x = c) xs of None \<Rightarrow> None | Some x \<Rightarrow> if P x then Some x else None)"
  by (simp add: find_filter [of P] filter_unique [of k xs P c, OF assms] split: option.split)

section \<open>Failing statements\<close>

datatype db_point =
    ClaimBegin | ClaimSelect | ClaimInsert | ClaimUpdate | ClaimCommit
  | ClaimReleaseExec | ClaimReleaseRows | ClaimOwnerQuery
  | CompleteExec | CompleteRows | CompleteQuery
  | BookBegin | BookLock | BookUpdate | BookCommit | ChainReleaseExec
  | CommitBegin | CommitLock | CommitBill | CommitInsert | CommitBillUpdate | CommitChain
  | CommitCommit | StoredQuery
  | RecordBegin | RecordLock | RecordUpdate | RecordRows | RecordInsert | RecordBill | RecordCommit

text \<open>
  The error of a failed statement: a numbered one of the server or one of the driver (a lost
  connection, a cancelled context).  None of them is \<open>sql.ErrNoRows\<close>, which only an empty result
  gives.
\<close>

datatype db_err = ServerErr nat string | DriverErr string

fun db_goerr :: "db_err \<Rightarrow> goerr" where
  "db_goerr (ServerErr n t) = MySQLError n t"
| "db_goerr (DriverErr t) = NewError t"

datatype db_fault = Refused db_err | Unanswered db_err

record sql_env =
  env_now :: time
  env_fault :: "db_point \<Rightarrow> db_fault option"

fun fault_err :: "db_fault \<Rightarrow> goerr" where
  "fault_err (Refused e) = db_goerr e"
| "fault_err (Unanswered e) = db_goerr e"

text \<open>The error of a statement that is rolled back on failure, if it fails.\<close>

definition fails :: "sql_env \<Rightarrow> db_point \<Rightarrow> goerr option" where
  "fails env p = map_option fault_err (env_fault env p)"

text \<open>\<open>QueryRow ... Scan\<close>: the row, an error of the statement, or \<open>sql.ErrNoRows\<close>.\<close>

definition query_row :: "sql_env \<Rightarrow> db_point \<Rightarrow> 'r option \<Rightarrow> goerr + 'r" where
  "query_row env p row =
     (case fails env p of
        Some e \<Rightarrow> Inl e
      | None \<Rightarrow> (case row of None \<Rightarrow> Inl (Sentinel ErrNoRows) | Some r \<Rightarrow> Inr r))"

text \<open>
  The end of a transaction, or a statement outside one, at point \<open>p\<close>: the new state counts
  unless the statement was refused.
\<close>

definition apply_at :: "sql_env \<Rightarrow> db_point \<Rightarrow> 'd \<Rightarrow> 'd \<Rightarrow> goerr option \<times> 'd" where
  "apply_at env p old new =
     (case env_fault env p of
        None \<Rightarrow> (None, new)
      | Some (Refused e) \<Rightarrow> (Some (db_goerr e), old)
      | Some (Unanswered e) \<Rightarrow> (Some (db_goerr e), new))"

lemma db_goerr_sentinel [simp]: "\<not> is_err (db_goerr e) t"
  by (cases e) auto

lemma fault_err_sentinel [simp]: "\<not> is_err (fault_err f) t"
  by (cases f) auto

lemma fails_sentinel: "fails env p = Some e \<Longrightarrow> \<not> is_err e t"
  by (auto simp: fails_def)

lemma query_row_no_rows: "query_row env p row = Inl e \<Longrightarrow> is_err e ErrNoRows \<Longrightarrow> row = None"
  by (auto simp: query_row_def fails_sentinel split: option.splits)

lemma apply_at_state: "snd (apply_at env p old new) \<in> {old, new}"
  by (auto simp: apply_at_def split: option.splits db_fault.splits)

lemma apply_at_None: "apply_at env p old new = (None, db') \<longleftrightarrow> env_fault env p = None \<and> db' = new"
  by (auto simp: apply_at_def split: option.splits db_fault.splits)

lemma apply_at_cases:
  assumes "apply_at env p old new = (r, db')"
  obtains "db' = new" | "db' = old" "r \<noteq> None"
  using assms by (auto simp: apply_at_def split: option.splits db_fault.splits)

text \<open>A healthy environment: no statement fails.\<close>

definition healthy :: "sql_env \<Rightarrow> bool" where
  "healthy env \<longleftrightarrow> env_fault env = (\<lambda>_. None)"

lemma healthy_fails [simp]: "healthy env \<Longrightarrow> fails env p = None"
  by (simp add: healthy_def fails_def)

lemma healthy_apply [simp]: "healthy env \<Longrightarrow> apply_at env p old new = (None, new)"
  by (simp add: healthy_def apply_at_def)

lemma healthy_query [simp]:
  "healthy env \<Longrightarrow> query_row env p row = (case row of None \<Rightarrow> Inl (Sentinel ErrNoRows) | Some r \<Rightarrow> Inr r)"
  by (simp add: query_row_def)

lemma query_row_Inr: "query_row env p row = Inr r \<longleftrightarrow> fails env p = None \<and> row = Some r"
  by (auto simp: query_row_def split: option.splits)

definition healthy_env :: "time \<Rightarrow> sql_env" where
  "healthy_env now = \<lparr>env_now = now, env_fault = (\<lambda>_. None)\<rparr>"

lemma healthy_env [simp]: "healthy (healthy_env now)" "env_now (healthy_env now) = now"
  by (simp_all add: healthy_env_def healthy_def)

end
