(* ===== verification/Claim_Contract.thy ===== *)
theory Claim_Contract
  imports Queue_Message
begin

text \<open>
  The interface \<open>ClaimStore\<close> of \<open>queue/claim.go\<close>: the decisions, an abstract store with one
  entry per request, and the contract as a locale.  What a delivery can rely on (exclusion by the
  lease, fencing of a lost lease, give-back, completion for good) is proved here once, for every
  store that meets the contract.
\<close>

datatype claim_decision = ClaimProcess | ClaimDuplicate | ClaimConflict | ClaimInFlight

text \<open>
  The abstract entry of a request: nobody claimed it, an event holds it with its fingerprint and
  the end of its lease (\<open>None\<close> after a give-back), or it is done.
\<close>

datatype claim_view = Unclaimed | Held string string "time option" | Done string string

definition request_of :: "message \<Rightarrow> string \<times> string" where
  "request_of msg = (m_PosID msg, m_BillRequestID msg)"

fun view_event :: "claim_view \<Rightarrow> string option" where
  "view_event Unclaimed = None"
| "view_event (Held e _ _) = Some e"
| "view_event (Done e _) = Some e"

definition lease_live :: "time option \<Rightarrow> time \<Rightarrow> bool" where
  "lease_live l now = (case l of None \<Rightarrow> False | Some t \<Rightarrow> now < t)"

fun spec_claim :: "time \<Rightarrow> time \<Rightarrow> message \<Rightarrow> claim_view \<Rightarrow> claim_decision \<times> claim_view" where
  "spec_claim lease now msg Unclaimed =
     (ClaimProcess, Held (m_EventID msg) (m_RequestFingerprint msg) (Some (now + lease)))"
| "spec_claim lease now msg (Held e f l) =
     (if f \<noteq> m_RequestFingerprint msg then (ClaimConflict, Held e f l)
      else if lease_live l now then (ClaimInFlight, Held e f l)
      else (ClaimProcess, Held (m_EventID msg) f (Some (now + lease))))"
| "spec_claim lease now msg (Done e f) =
     (if f \<noteq> m_RequestFingerprint msg then (ClaimConflict, Done e f) else (ClaimDuplicate, Done e f))"

fun spec_complete :: "message \<Rightarrow> claim_view \<Rightarrow> sentinel option \<times> claim_view" where
  "spec_complete msg Unclaimed = (Some ErrClaimNotFound, Unclaimed)"
| "spec_complete msg (Held e f l) =
     (if f \<noteq> m_RequestFingerprint msg then (Some ErrClaimNotFound, Held e f l)
      else if e \<noteq> m_EventID msg then (Some ErrClaimStale, Held e f l)
      else (None, Done e f))"
| "spec_complete msg (Done e f) =
     (if f \<noteq> m_RequestFingerprint msg then (Some ErrClaimNotFound, Done e f)
      else if e \<noteq> m_EventID msg then (Some ErrClaimStale, Done e f)
      else (None, Done e f))"

text \<open>A give-back of a claim that holds no lease any more is refused as in flight.\<close>

fun spec_release :: "message \<Rightarrow> claim_view \<Rightarrow> sentinel option \<times> claim_view" where
  "spec_release msg Unclaimed = (Some ErrClaimNotFound, Unclaimed)"
| "spec_release msg (Held e f l) =
     (if f \<noteq> m_RequestFingerprint msg then (Some ErrClaimNotFound, Held e f l)
      else if e \<noteq> m_EventID msg then (Some ErrClaimStale, Held e f l)
      else if l = None then (Some ErrClaimInFlight, Held e f l)
      else (None, Held e f None))"
| "spec_release msg (Done e f) =
     (if f \<noteq> m_RequestFingerprint msg then (Some ErrClaimNotFound, Done e f)
      else if e \<noteq> m_EventID msg then (Some ErrClaimStale, Done e f)
      else (None, Done e f))"

definition claim_error :: "message \<Rightarrow> sentinel \<Rightarrow> goerr" where
  "claim_error msg s = Wrapf [] (Sentinel s) ('': '' @ m_BillRequestID msg)"

lemma is_claim_error [simp]: "is_err (claim_error msg s) t \<longleftrightarrow> s = t"
  by (simp add: claim_error_def)

text \<open>An event that no other request holds.\<close>

definition event_free :: "(string \<times> string \<Rightarrow> claim_view) \<Rightarrow> message \<Rightarrow> bool" where
  "event_free v msg \<longleftrightarrow> (\<forall>k. k \<noteq> request_of msg \<longrightarrow> view_event (v k) \<noteq> Some (m_EventID msg))"

lemma event_free_upd [simp]: "event_free (v(request_of msg := x)) msg = event_free v msg"
  by (simp add: event_free_def)

lemma event_free_same_request:
  assumes "event_free v msg" and "request_of msg' = request_of msg"
    and "view_event x = Some (m_EventID msg') \<or> view_event x = Some (m_EventID msg)"
  shows "event_free (v(request_of msg' := x)) msg"
  using assms by (simp add: event_free_def)

locale claim_contract =
  fixes inv :: "'s \<Rightarrow> bool"
    and view :: "'s \<Rightarrow> string \<times> string \<Rightarrow> claim_view"
    and lease :: time
    and claim :: "time \<Rightarrow> message \<Rightarrow> 's \<Rightarrow> (goerr + claim_decision) \<times> 's"
    and complete :: "time \<Rightarrow> message \<Rightarrow> 's \<Rightarrow> goerr option \<times> 's"
    and release :: "time \<Rightarrow> message \<Rightarrow> 's \<Rightarrow> goerr option \<times> 's"
  assumes lease_pos: "0 < lease"
    and claim_meets: "\<lbrakk>inv s; message_Validate msg = None; event_free (view s) msg\<rbrakk> \<Longrightarrow>
      \<exists>s'. claim now msg s = (Inr (fst (spec_claim lease now msg (view s (request_of msg)))), s') \<and> inv s' \<and>
        view s' = (view s)(request_of msg := snd (spec_claim lease now msg (view s (request_of msg))))"
    and complete_meets: "\<lbrakk>inv s; message_Validate msg = None\<rbrakk> \<Longrightarrow>
      \<exists>s'. complete now msg s =
          (map_option (claim_error msg) (fst (spec_complete msg (view s (request_of msg)))), s') \<and> inv s' \<and>
        view s' = (view s)(request_of msg := snd (spec_complete msg (view s (request_of msg))))"
    and release_meets: "\<lbrakk>inv s; message_Validate msg = None\<rbrakk> \<Longrightarrow>
      \<exists>s'. release now msg s =
          (map_option (claim_error msg) (fst (spec_release msg (view s (request_of msg)))), s') \<and> inv s' \<and>
        view s' = (view s)(request_of msg := snd (spec_release msg (view s (request_of msg))))"
begin

lemma granted:
  assumes "inv s" and "message_Validate a = None" and "event_free (view s) a"
    and "claim t a s = (Inr ClaimProcess, s1)"
  shows "inv s1" "view s1 =
    (view s)(request_of a := Held (m_EventID a) (m_RequestFingerprint a) (Some (t + lease)))"
proof -
  let ?v = "view s (request_of a)"
  from claim_meets [OF assms(1-3), of t] assms(4)
  have s1: "inv s1" and process: "fst (spec_claim lease t a ?v) = ClaimProcess"
    and v1: "view s1 = (view s)(request_of a := snd (spec_claim lease t a ?v))"
    by auto
  have "snd (spec_claim lease t a ?v) = Held (m_EventID a) (m_RequestFingerprint a) (Some (t + lease))"
    using process by (cases ?v) (auto split: if_splits)
  with s1 v1 show "inv s1" "view s1 =
    (view s)(request_of a := Held (m_EventID a) (m_RequestFingerprint a) (Some (t + lease)))"
    by simp_all
qed

text \<open>One holder: until the lease ends, another event of the request is told to wait.\<close>

lemma claim_excludes:
  assumes "inv s" and "message_Validate a = None" and "event_free (view s) a"
    and "claim t a s = (Inr ClaimProcess, s1)"
    and "message_Validate b = None" and "event_free (view s) b"
    and "request_of b = request_of a" and "m_RequestFingerprint b = m_RequestFingerprint a"
    and "u < t + lease"
  shows "\<exists>s2. claim u b s1 = (Inr ClaimInFlight, s2) \<and> inv s2 \<and> view s2 = view s1"
proof -
  note s1 = granted [OF assms(1-4)]
  have "event_free (view s1) b"
    using assms(6,7) s1(2) by (simp add: event_free_def)
  from claim_meets [OF s1(1) assms(5) this, of u] show ?thesis
    using assms(7-9) s1(2) by (auto simp: lease_live_def)
qed

text \<open>A completed request stays completed: every later delivery of it is a duplicate.\<close>

lemma complete_is_final:
  assumes "inv s" and "message_Validate a = None" and "event_free (view s) a"
    and "claim t a s = (Inr ClaimProcess, s1)"
    and "message_Validate b = None" and "event_free (view s) b"
    and "request_of b = request_of a" and "m_RequestFingerprint b = m_RequestFingerprint a"
  shows "\<exists>s2 s3. complete u a s1 = (None, s2) \<and> claim w b s2 = (Inr ClaimDuplicate, s3) \<and>
    inv s3 \<and> view s3 = view s2"
proof -
  note s1 = granted [OF assms(1-4)]
  from complete_meets [OF s1(1) assms(2), of u] s1(2) obtain s2 where
    s2: "complete u a s1 = (None, s2)" "inv s2"
    and v2: "view s2 = (view s)(request_of a := Done (m_EventID a) (m_RequestFingerprint a))"
    by auto
  have "event_free (view s2) b"
    using assms(6,7) v2 by (simp add: event_free_def)
  from claim_meets [OF s2(2) assms(5) this, of w] show ?thesis
    using assms(7,8) s2 v2 by auto
qed

text \<open>A claim given back can be taken at once, long before its lease would have ended.\<close>

lemma release_reopens:
  assumes "inv s" and "message_Validate a = None" and "event_free (view s) a"
    and "claim t a s = (Inr ClaimProcess, s1)"
    and "message_Validate b = None" and "event_free (view s) b"
    and "request_of b = request_of a" and "m_RequestFingerprint b = m_RequestFingerprint a"
  shows "\<exists>s2 s3. release u a s1 = (None, s2) \<and> claim w b s2 = (Inr ClaimProcess, s3) \<and> inv s3"
proof -
  note s1 = granted [OF assms(1-4)]
  from release_meets [OF s1(1) assms(2), of u] s1(2) obtain s2 where
    s2: "release u a s1 = (None, s2)" "inv s2"
    and v2: "view s2 = (view s)(request_of a := Held (m_EventID a) (m_RequestFingerprint a) None)"
    by auto
  have "event_free (view s2) b"
    using assms(6,7) v2 by (simp add: event_free_def)
  from claim_meets [OF s2(2) assms(5) this, of w] show ?thesis
    using assms(7,8) s2 v2 by (auto simp: lease_live_def)
qed

text \<open>
  Fencing: after another event took the request over, the first one can neither complete it nor
  give it back, and the new holder completes it.
\<close>

lemma takeover_fences:
  assumes "inv s" and "message_Validate a = None" and "event_free (view s) a"
    and "claim t a s = (Inr ClaimProcess, s1)"
    and "message_Validate b = None" and "event_free (view s) b"
    and "request_of b = request_of a" and "m_RequestFingerprint b = m_RequestFingerprint a"
    and "m_EventID b \<noteq> m_EventID a" and "t + lease \<le> u"
  shows "\<exists>s2 s3 s4. claim u b s1 = (Inr ClaimProcess, s2) \<and>
    complete w a s2 = (Some (claim_error a ErrClaimStale), s3) \<and> view s3 = view s2 \<and>
    release w a s2 = (Some (claim_error a ErrClaimStale), s4) \<and> view s4 = view s2 \<and>
    (\<exists>s5. complete w b s3 = (None, s5) \<and> inv s5)"
proof -
  note s1 = granted [OF assms(1-4)]
  let ?held = "(view s)(request_of a := Held (m_EventID b) (m_RequestFingerprint a) (Some (u + lease)))"
  have "event_free (view s1) b"
    using assms(6,7) s1(2) by (simp add: event_free_def)
  from claim_meets [OF s1(1) assms(5) this, of u] obtain s2 where
    s2: "claim u b s1 = (Inr ClaimProcess, s2)" "inv s2" "view s2 = ?held"
    using assms(7,8,10) s1(2) by (auto simp: lease_live_def)
  from complete_meets [OF s2(2) assms(2), of w] obtain s3 where
    s3: "complete w a s2 = (Some (claim_error a ErrClaimStale), s3)" "inv s3" "view s3 = view s2"
    using assms(9) s2(3) by auto
  from release_meets [OF s2(2) assms(2), of w] obtain s4 where
    s4: "release w a s2 = (Some (claim_error a ErrClaimStale), s4)" "view s4 = view s2"
    using assms(9) s2(3) by auto
  from complete_meets [OF s3(2) assms(5), of w] s2(3) s3(3) have
    "\<exists>s5. complete w b s3 = (None, s5) \<and> inv s5"
    using assms(7,8) by auto
  with s2 s3 s4 show ?thesis by blast
qed

end

end
