(* ===== verification/Claim_Store.thy ===== *)
theory Claim_Store
  imports Tenant_DB Claim_Contract
begin

text \<open>
  The claim store of \<open>queue/claim.go\<close> and \<open>queue/sql_claim_store.go\<close>: one claim per
  request, which a delivery takes, completes or gives back.  The section on the contract states
  the store's laws as a locale and interprets it on the SQL store.
\<close>

definition claimProcessing :: string where
  "claimProcessing = ''processing''"

definition claimCompleted :: string where
  "claimCompleted = ''completed''"

definition minute :: time where
  "minute = 60 * 1000000000"

definition defaultClaimLease :: time where
  "defaultClaimLease = 30 * minute"

text \<open>The store: its lease, and whether a database handle is set; \<open>None\<close> is a nil store.\<close>

record sql_claim_store =
  cs_LeaseDuration :: time
  cs_DB :: bool

definition NewSQLClaimStore :: sql_claim_store where
  "NewSQLClaimStore = \<lparr>cs_LeaseDuration = defaultClaimLease, cs_DB = True\<rparr>"

definition claim_leaseDuration :: "sql_claim_store \<Rightarrow> time" where
  "claim_leaseDuration s =
     (if cs_LeaseDuration s \<le> 0 then defaultClaimLease else cs_LeaseDuration s)"

definition claim_unset :: "sql_claim_store option \<Rightarrow> bool" where
  "claim_unset s = (case s of None \<Rightarrow> True | Some st \<Rightarrow> \<not> cs_DB st)"

definition claim_unset_err :: goerr where
  "claim_unset_err = NewError ''queue SQL claim store is not configured''"

abbreviation same_request :: "message \<Rightarrow> claim_row \<Rightarrow> bool" where
  "same_request msg r \<equiv> c_pos_id r = m_PosID msg \<and> c_bill_request_id r = m_BillRequestID msg"

definition claim_of :: "message \<Rightarrow> tenant_db \<Rightarrow> claim_row option" where
  "claim_of msg db = find (same_request msg) (db_claims db)"

definition sqlClaimDecision :: "string \<Rightarrow> nullableTime \<Rightarrow> time \<Rightarrow> claim_decision" where
  "sqlClaimDecision state lease now =
     (if state = claimCompleted then ClaimDuplicate
      else case lease of
        Some t \<Rightarrow> (if t > now then ClaimInFlight else ClaimProcess)
      | None \<Rightarrow> ClaimProcess)"

text \<open>The unique keys of the table refuse a row whose event belongs to another request.\<close>

definition duplicate_event :: goerr where
  "duplicate_event = MySQLError mysqlDuplicateKey ''Duplicate entry''"

text \<open>The inserted row, and the columns a delivery sets when it takes a claim over.\<close>

definition new_claim :: "sql_claim_store \<Rightarrow> sql_env \<Rightarrow> message \<Rightarrow> claim_row" where
  "new_claim s env msg =
     \<lparr>c_pos_id = m_PosID msg, c_bill_request_id = m_BillRequestID msg,
      c_event_id = m_EventID msg, c_egs_sequence_id = m_EGSSequenceID msg,
      c_fingerprint = m_RequestFingerprint msg, c_state = claimProcessing,
      c_lease_expires_at = Some (env_now env + claim_leaseDuration s), c_completed_at = None\<rparr>"

definition retake :: "sql_claim_store \<Rightarrow> sql_env \<Rightarrow> message \<Rightarrow> claim_row \<Rightarrow> claim_row" where
  "retake s env msg r =
     r\<lparr>c_event_id := m_EventID msg, c_egs_sequence_id := m_EGSSequenceID msg,
       c_state := claimProcessing,
       c_lease_expires_at := Some (env_now env + claim_leaseDuration s)\<rparr>"

definition insertClaim ::
    "sql_claim_store \<Rightarrow> sql_env \<Rightarrow> message \<Rightarrow> tenant_db \<Rightarrow> (goerr + claim_decision) \<times> tenant_db" where
  "insertClaim s env msg db =
     (case (case fails env ClaimInsert of
              Some e \<Rightarrow> Some e
            | None \<Rightarrow>
                if \<exists>r \<in> set (db_claims db). c_event_id r = m_EventID msg \<or> same_request msg r
                then Some duplicate_event else None) of
        Some e \<Rightarrow>
          (if isMySQLError e mysqlDuplicateKey then (Inr ClaimConflict, db)
           else (Inl (Wrapf (''insert queue claim '' @ m_BillRequestID msg @ '': '') e []), db))
      | None \<Rightarrow> (Inr ClaimProcess, db\<lparr>db_claims := db_claims db @ [new_claim s env msg]\<rparr>))"

definition claimInTx ::
    "sql_claim_store \<Rightarrow> sql_env \<Rightarrow> message \<Rightarrow> tenant_db \<Rightarrow> (goerr + claim_decision) \<times> tenant_db" where
  "claimInTx s env msg db =
     (case query_row env ClaimSelect (claim_of msg db) of
        Inl e \<Rightarrow>
          (if is_err e ErrNoRows then insertClaim s env msg db
           else (Inl (Wrapf (''lookup queue claim '' @ m_BillRequestID msg @ '': '') e []), db))
      | Inr row \<Rightarrow>
          (if c_fingerprint row \<noteq> m_RequestFingerprint msg then (Inr ClaimConflict, db)
           else
             let decision = sqlClaimDecision (c_state row) (c_lease_expires_at row) (env_now env)
             in if decision \<noteq> ClaimProcess then (Inr decision, db)
                else
                  case (case fails env ClaimUpdate of
                          Some e \<Rightarrow> Some e
                        | None \<Rightarrow>
                            if \<exists>r \<in> set (db_claims db).
                                 c_event_id r = m_EventID msg \<and> \<not> same_request msg r
                            then Some duplicate_event else None) of
                    Some e \<Rightarrow>
                      (Inl (Wrapf (''reclaim queue request '' @ m_BillRequestID msg @ '': '') e []), db)
                  | None \<Rightarrow>
                      (Inr ClaimProcess,
                       db\<lparr>db_claims := upd (same_request msg) (retake s env msg) (db_claims db)\<rparr>)))"

definition Claim ::
    "sql_claim_store option \<Rightarrow> sql_env \<Rightarrow> message \<Rightarrow> tenant_db \<Rightarrow> (goerr + claim_decision) \<times> tenant_db" where
  "Claim s env msg db =
     (case message_Validate msg of
        Some e \<Rightarrow> (Inl e, db)
      | None \<Rightarrow>
        (if claim_unset s then (Inl claim_unset_err, db)
         else case fails env ClaimBegin of
           Some e \<Rightarrow> (Inl (Wrapf ''begin queue claim: '' e []), db)
         | None \<Rightarrow>
             (case claimInTx (the s) env msg db of
                (Inl e, _) \<Rightarrow> (Inl e, db)
              | (Inr decision, db1) \<Rightarrow>
                  (case apply_at env ClaimCommit db db1 of
                     (Some e, db2) \<Rightarrow>
                       (Inl (Wrapf (''commit queue claim '' @ m_BillRequestID msg @ '': '') e []), db2)
                   | (None, db2) \<Rightarrow> (Inr decision, db2)))))"

text \<open>The rows \<open>Release\<close> and \<open>Complete\<close> touch: the delivery's own claim, still processing.\<close>

definition own_claim :: "message \<Rightarrow> claim_row \<Rightarrow> bool" where
  "own_claim msg r \<longleftrightarrow>
     same_request msg r \<and> c_event_id r = m_EventID msg \<and>
     c_fingerprint r = m_RequestFingerprint msg \<and> c_state r = claimProcessing"

text \<open>The columns the two set.\<close>

definition give_back :: "claim_row \<Rightarrow> claim_row" where
  "give_back r = r\<lparr>c_lease_expires_at := None\<rparr>"

definition finish_claim :: "sql_env \<Rightarrow> claim_row \<Rightarrow> claim_row" where
  "finish_claim env r =
     r\<lparr>c_state := claimCompleted, c_lease_expires_at := None, c_completed_at := Some (env_now env)\<rparr>"

text \<open>
  Both functions read the claim again when their update changed nothing; the point \<open>p\<close> is the
  query that does so, and \<open>what\<close> its error text.
\<close>

definition claim_outcome_error ::
    "db_point \<Rightarrow> string \<Rightarrow> sql_env \<Rightarrow> message \<Rightarrow> tenant_db \<Rightarrow> goerr option" where
  "claim_outcome_error p what env msg db =
     (case query_row env p
             (find (\<lambda>r. same_request msg r \<and> c_fingerprint r = m_RequestFingerprint msg)
               (db_claims db)) of
        Inl e \<Rightarrow>
          (if is_err e ErrNoRows
           then Some (Wrapf [] (Sentinel ErrClaimNotFound) ('': '' @ m_BillRequestID msg))
           else Some (Wrapf (''inspect queue claim '' @ m_BillRequestID msg @ what @ '': '') e []))
      | Inr r \<Rightarrow>
          (if c_event_id r \<noteq> m_EventID msg then
             Some (Wrapf [] (Sentinel ErrClaimStale) ('': '' @ m_BillRequestID msg))
           else if c_state r = claimCompleted then None
           else Some (Wrapf [] (Sentinel ErrClaimInFlight) ('': '' @ m_BillRequestID msg))))"

definition claimOwnerError :: "sql_env \<Rightarrow> message \<Rightarrow> tenant_db \<Rightarrow> goerr option" where
  "claimOwnerError = claim_outcome_error ClaimOwnerQuery '' owner''"

definition claim_Release ::
    "sql_claim_store option \<Rightarrow> sql_env \<Rightarrow> message \<Rightarrow> tenant_db \<Rightarrow> goerr option \<times> tenant_db" where
  "claim_Release s env msg db =
     (case message_Validate msg of
        Some e \<Rightarrow> (Some e, db)
      | None \<Rightarrow>
        (if claim_unset s then (Some claim_unset_err, db)
         else
           let rows = changed (own_claim msg) give_back (db_claims db)
           in case apply_at env ClaimReleaseExec db
                     (db\<lparr>db_claims := upd (own_claim msg) give_back (db_claims db)\<rparr>) of
                (Some e, db1) \<Rightarrow>
                  (Some (Wrapf (''release queue claim '' @ m_BillRequestID msg @ '': '') e []), db1)
              | (None, db1) \<Rightarrow>
                  (case fails env ClaimReleaseRows of
                     Some e \<Rightarrow>
                       (Some (Wrapf (''inspect queue claim '' @ m_BillRequestID msg @ '' release: '') e []), db1)
                   | None \<Rightarrow>
                       if 0 < rows then (None, db1) else (claimOwnerError env msg db1, db1))))"

definition claim_Complete ::
    "sql_claim_store option \<Rightarrow> sql_env \<Rightarrow> message \<Rightarrow> tenant_db \<Rightarrow> goerr option \<times> tenant_db" where
  "claim_Complete s env msg db =
     (case message_Validate msg of
        Some e \<Rightarrow> (Some e, db)
      | None \<Rightarrow>
        (if claim_unset s then (Some claim_unset_err, db)
         else
           let rows = changed (own_claim msg) (finish_claim env) (db_claims db)
           in case apply_at env CompleteExec db
                     (db\<lparr>db_claims := upd (own_claim msg) (finish_claim env) (db_claims db)\<rparr>) of
                (Some e, db1) \<Rightarrow>
                  (Some (Wrapf (''complete queue claim '' @ m_BillRequestID msg @ '': '') e []), db1)
              | (None, db1) \<Rightarrow>
                  (case fails env CompleteRows of
                     Some e \<Rightarrow>
                       (Some (Wrapf (''inspect queue claim '' @ m_BillRequestID msg @ '' completion: '') e []), db1)
                   | None \<Rightarrow>
                       if 0 < rows then (None, db1)
                       else (claim_outcome_error CompleteQuery [] env msg db1, db1))))"

section \<open>The table's invariant\<close>

definition claim_key :: "claim_row \<Rightarrow> string \<times> string" where
  "claim_key r = (c_pos_id r, c_bill_request_id r)"

text \<open>The two unique keys, and no state but the two the code writes.\<close>

definition claims_wf :: "tenant_db \<Rightarrow> bool" where
  "claims_wf db \<longleftrightarrow>
     distinct (map claim_key (db_claims db)) \<and> distinct (map c_event_id (db_claims db)) \<and>
     (\<forall>r \<in> set (db_claims db). c_state r = claimProcessing \<or> c_state r = claimCompleted)"

lemma processing_not_completed [simp]:
  "claimProcessing \<noteq> claimCompleted" "claimCompleted \<noteq> claimProcessing"
  by (simp_all add: claimProcessing_def claimCompleted_def)

lemma same_request_key: "same_request msg r \<longleftrightarrow> claim_key r = (m_PosID msg, m_BillRequestID msg)"
  by (auto simp: claim_key_def)

lemma claim_of_None: "claim_of msg db = None \<longleftrightarrow> (\<forall>r \<in> set (db_claims db). \<not> same_request msg r)"
  by (auto simp: claim_of_def find_None_iff)

lemma claim_of_Some:
  assumes "claims_wf db"
  shows "claim_of msg db = Some r \<longleftrightarrow> r \<in> set (db_claims db) \<and> same_request msg r"
proof
  show "claim_of msg db = Some r \<Longrightarrow> r \<in> set (db_claims db) \<and> same_request msg r"
    by (auto simp: claim_of_def dest!: find_SomeD)
next
  assume "r \<in> set (db_claims db) \<and> same_request msg r"
  then show "claim_of msg db = Some r"
    using assms find_distinct [of claim_key "db_claims db" r]
    by (auto simp: claim_of_def claims_wf_def same_request_key)
qed

text \<open>
  What one call can do to the table, whatever statements fail: nothing, append a processing claim
  under a new key and a new event, take the request's own unfinished claim over, give the
  delivery's own claim back, or complete it.
\<close>

inductive claim_change :: "sql_claim_store \<Rightarrow> sql_env \<Rightarrow> message \<Rightarrow> tenant_db \<Rightarrow> tenant_db \<Rightarrow> bool"
  for s env msg db where
  unchanged: "claim_change s env msg db db"
| appended: "\<lbrakk>\<forall>r \<in> set (db_claims db). c_event_id r \<noteq> m_EventID msg;
     claim_of msg db = None\<rbrakk> \<Longrightarrow>
     claim_change s env msg db (db\<lparr>db_claims := db_claims db @ [new_claim s env msg]\<rparr>)"
| retaken: "\<lbrakk>claim_of msg db = Some r; c_fingerprint r = m_RequestFingerprint msg;
     sqlClaimDecision (c_state r) (c_lease_expires_at r) (env_now env) = ClaimProcess;
     \<forall>r \<in> set (db_claims db). c_event_id r = m_EventID msg \<longrightarrow> same_request msg r\<rbrakk> \<Longrightarrow>
     claim_change s env msg db
       (db\<lparr>db_claims := upd (same_request msg) (retake s env msg) (db_claims db)\<rparr>)"
| given_back: "claim_change s env msg db (db\<lparr>db_claims := upd (own_claim msg) give_back (db_claims db)\<rparr>)"
| finished: "claim_change s env msg db
     (db\<lparr>db_claims := upd (own_claim msg) (finish_claim env) (db_claims db)\<rparr>)"

inductive_cases claim_changeE: "claim_change s env msg db db'"

lemma insertClaim_change:
  "insertClaim s env msg db = (r, db') \<Longrightarrow> claim_change s env msg db db'"
  by (auto simp: insertClaim_def claim_of_None split: option.splits if_splits
      intro: claim_change.intros)

lemma claimInTx_change:
  "claimInTx s env msg db = (r, db') \<Longrightarrow> claim_change s env msg db db'"
  by (auto simp: claimInTx_def Let_def query_row_Inr split: sum.splits option.splits if_splits
      intro: claim_change.intros dest: insertClaim_change)

lemma Claim_change:
  assumes "Claim (Some s) env msg db = (r, db')"
  shows "claim_change s env msg db db'"
  using assms
  by (auto simp: Claim_def split: option.splits sum.splits prod.splits if_splits
      intro: claim_change.unchanged elim!: apply_at_cases dest: claimInTx_change)

lemma claim_Release_change:
  assumes "claim_Release (Some s) env msg db = (r, db')"
  shows "claim_change s env msg db db'"
  using assms
  by (auto simp: claim_Release_def Let_def
      split: option.splits prod.splits if_splits
      intro: claim_change.unchanged claim_change.given_back elim!: apply_at_cases)

lemma claim_Complete_change:
  assumes "claim_Complete (Some s) env msg db = (r, db')"
  shows "claim_change s env msg db db'"
  using assms
  by (auto simp: claim_Complete_def Let_def
      split: option.splits prod.splits if_splits
      intro: claim_change.unchanged claim_change.finished elim!: apply_at_cases)

lemmas claim_call_change = Claim_change claim_Release_change claim_Complete_change

lemma claim_of_key: "claim_of msg db = find (\<lambda>r. claim_key r = (m_PosID msg, m_BillRequestID msg)) (db_claims db)"
  by (simp add: claim_of_def same_request_key)

lemma claim_key_simps [simp]:
  "claim_key (retake s env msg r) = claim_key r" "claim_key (give_back r) = claim_key r"
  "claim_key (finish_claim env r) = claim_key r"
  "claim_key (new_claim s env msg) = (m_PosID msg, m_BillRequestID msg)"
  by (simp_all add: claim_key_def retake_def give_back_def finish_claim_def new_claim_def)

lemma claim_event_simps [simp]:
  "c_event_id (give_back r) = c_event_id r" "c_event_id (finish_claim env r) = c_event_id r"
  "c_event_id (retake s env msg r) = m_EventID msg" "c_event_id (new_claim s env msg) = m_EventID msg"
  by (simp_all add: give_back_def finish_claim_def retake_def new_claim_def)

lemma claim_state_simps [simp]:
  "c_state (give_back r) = c_state r" "c_state (finish_claim env r) = claimCompleted"
  "c_state (retake s env msg r) = claimProcessing" "c_state (new_claim s env msg) = claimProcessing"
  by (simp_all add: give_back_def finish_claim_def retake_def new_claim_def)

lemma distinct_events_retaken:
  assumes "distinct (map claim_key rows)" and "distinct (map c_event_id rows)"
    and "\<forall>r \<in> set rows. c_event_id r = m_EventID msg \<longrightarrow> same_request msg r"
  shows "distinct (map c_event_id (upd (same_request msg) (retake s env msg) rows))"
  using assms
proof (induction rows)
  case (Cons r rows)
  have keep: "upd (same_request msg) (retake s env msg) rows = rows" if "same_request msg r"
    by (rule upd_id) (use Cons.prems(1) that in \<open>auto simp: claim_key_def image_iff\<close>)
  show ?case
  proof (cases "same_request msg r")
    case True
    have "same_request msg q \<longrightarrow> q \<notin> set rows" for q
      using Cons.prems(1) True by (auto simp: claim_key_def image_iff)
    then have "\<forall>q \<in> set rows. c_event_id q \<noteq> m_EventID msg"
      using Cons.prems(3) by (metis list.set_intros(2))
    then show ?thesis
      using Cons.prems(2) keep [OF True] True by (simp add: image_iff) metis
  next
    case False
    then show ?thesis
      using Cons by (auto simp: image_iff dest!: set_updE split: if_splits)
  qed
qed simp

lemma claim_change_wf:
  assumes "claim_change s env msg db db'" and "claims_wf db"
  shows "claims_wf db'"
  using assms
proof (cases rule: claim_change.cases)
  case appended
  then show ?thesis
    using assms(2) by (auto simp: claims_wf_def claim_of_None same_request_key image_iff)
next
  case (retaken r)
  then show ?thesis
    using assms(2) distinct_events_retaken [of "db_claims db" msg s env]
    by (auto simp: claims_wf_def map_key_upd dest!: set_updE split: if_splits)
qed (auto simp: claims_wf_def map_key_upd dest!: set_updE split: if_splits)

section \<open>The SQL store meets the contract\<close>

definition row_view :: "claim_row option \<Rightarrow> claim_view" where
  "row_view ro =
     (case ro of
        None \<Rightarrow> Unclaimed
      | Some r \<Rightarrow>
          (if c_state r = claimCompleted then Done (c_event_id r) (c_fingerprint r)
           else Held (c_event_id r) (c_fingerprint r) (c_lease_expires_at r)))"

definition claim_view_of :: "tenant_db \<Rightarrow> string \<times> string \<Rightarrow> claim_view" where
  "claim_view_of db k = row_view (find (\<lambda>r. claim_key r = k) (db_claims db))"

lemma claim_view_request: "claim_view_of db (request_of msg) = row_view (claim_of msg db)"
  by (simp add: claim_view_of_def request_of_def claim_of_key)

lemma claim_view_append:
  assumes "claim_of msg db = None"
  shows "claim_view_of (db\<lparr>db_claims := db_claims db @ [new_claim s env msg]\<rparr>) =
    (claim_view_of db)(request_of msg := row_view (Some (new_claim s env msg)))"
  using assms
  by (auto simp: fun_eq_iff claim_view_of_def request_of_def find_append claim_of_key
      split: option.splits)

lemma claim_view_upd:
  assumes "\<And>r. P r \<Longrightarrow> claim_key r = request_of msg" and "\<And>r. claim_key (f r) = claim_key r"
    and "claim_of msg db = Some r"
  shows "claim_view_of (db\<lparr>db_claims := upd P f (db_claims db)\<rparr>) =
    (claim_view_of db)(request_of msg := row_view (Some (if P r then f r else r)))"
proof
  fix k
  have "\<not> P q" if "find (\<lambda>r. claim_key r = k) (db_claims db) = Some q" "k \<noteq> request_of msg" for q
    using that find_SomeD [OF that(1)] assms(1) [of q] by auto
  then show "claim_view_of (db\<lparr>db_claims := upd P f (db_claims db)\<rparr>) k =
      ((claim_view_of db)(request_of msg := row_view (Some (if P r then f r else r)))) k"
    using assms
    by (cases "find (\<lambda>r. claim_key r = k) (db_claims db)")
      (auto simp: claim_view_of_def find_upd request_of_def claim_of_key)
qed

lemma claim_view_upd_None:
  assumes "\<And>r. P r \<Longrightarrow> claim_key r = request_of msg" and "claim_of msg db = None"
  shows "upd P f (db_claims db) = db_claims db"
  by (rule upd_id) (use assms in \<open>auto simp: claim_of_None same_request_key request_of_def\<close>)

lemma event_free_rows:
  assumes "claims_wf db" and "event_free (claim_view_of db) msg" and "r \<in> set (db_claims db)"
    and "c_event_id r = m_EventID msg"
  shows "same_request msg r"
proof (rule ccontr)
  assume "\<not> same_request msg r"
  then have "claim_key r \<noteq> request_of msg"
    by (simp only: same_request_key request_of_def not_False_eq_True)
  moreover have "find (\<lambda>q. claim_key q = claim_key r) (db_claims db) = Some r"
    using assms by (intro find_distinct) (auto simp: claims_wf_def)
  then have "view_event (claim_view_of db (claim_key r)) = Some (m_EventID msg)"
    using assms(4) by (simp add: claim_view_of_def row_view_def)
  ultimately show False
    using assms(2) unfolding event_free_def by blast
qed

lemma Claim_refines:
  assumes "cs_DB s" and "healthy env" and "claims_wf db" and "message_Validate msg = None"
    and "event_free (claim_view_of db) msg"
  shows "\<exists>db'. Claim (Some s) env msg db =
      (Inr (fst (spec_claim (claim_leaseDuration s) (env_now env) msg (claim_view_of db (request_of msg)))), db') \<and>
      claims_wf db' \<and>
      claim_view_of db' = (claim_view_of db)
        (request_of msg := snd (spec_claim (claim_leaseDuration s) (env_now env) msg (claim_view_of db (request_of msg))))"
proof (cases "claim_of msg db")
  case None
  have free: "\<not> (\<exists>r \<in> set (db_claims db). c_event_id r = m_EventID msg \<or> same_request msg r)"
    using None event_free_rows [OF assms(3,5)] by (auto simp: claim_of_None)
  let ?db = "db\<lparr>db_claims := db_claims db @ [new_claim s env msg]\<rparr>"
  have "Claim (Some s) env msg db = (Inr ClaimProcess, ?db)"
    using assms(1,2,4) None free
    by (simp add: Claim_def claim_unset_def claimInTx_def insertClaim_def del: bex_simps)
  moreover have "claims_wf ?db"
    using claim_change_wf [OF Claim_change [OF \<open>Claim (Some s) env msg db = _\<close>] assms(3)] .
  ultimately show ?thesis
    using None
    by (simp add: claim_view_append claim_view_request) (simp add: row_view_def new_claim_def)
next
  case (Some r)
  have free: "\<not> (\<exists>r \<in> set (db_claims db). c_event_id r = m_EventID msg \<and> \<not> same_request msg r)"
    using event_free_rows [OF assms(3,5)] by blast
  let ?d = "fst (spec_claim (claim_leaseDuration s) (env_now env) msg (row_view (Some r)))"
  let ?db = "if ?d = ClaimProcess
    then db\<lparr>db_claims := upd (same_request msg) (retake s env msg) (db_claims db)\<rparr> else db"
  have result: "Claim (Some s) env msg db = (Inr ?d, ?db)"
    using assms(1,2,4) Some free
    by (auto simp: Claim_def claim_unset_def claimInTx_def Let_def sqlClaimDecision_def row_view_def
        lease_live_def split: option.splits)
  have "claims_wf ?db"
    using claim_change_wf [OF Claim_change [OF result] assms(3)] .
  moreover have "same_request msg r"
    using Some assms(3) by (simp add: claim_of_Some)
  then have "claim_view_of (db\<lparr>db_claims := upd (same_request msg) (retake s env msg) (db_claims db)\<rparr>) =
      (claim_view_of db)(request_of msg := row_view (Some (retake s env msg r)))"
    using Some claim_view_upd [of "same_request msg" msg "retake s env msg" db r]
    by (simp add: same_request_key request_of_def)
  moreover have "(claim_view_of db)(request_of msg := row_view (Some r)) = claim_view_of db"
    using Some by (simp add: fun_upd_idem claim_view_request)
  moreover have "snd (spec_claim (claim_leaseDuration s) (env_now env) msg (row_view (Some r))) =
      row_view (Some (if ?d = ClaimProcess then retake s env msg r else r))"
    by (auto simp: row_view_def retake_def)
  ultimately show ?thesis
    using result Some by (simp add: claim_view_request)
qed

text \<open>
  The whole store: a delivery that would be let through, but whose event already belongs to another
  request, gets a conflict when its request is new, and the error of the unique key when it would take
  the request over; nothing changes.
\<close>

definition store_claim ::
    "time \<Rightarrow> time \<Rightarrow> message \<Rightarrow> (string \<times> string \<Rightarrow> claim_view) \<Rightarrow> (goerr + claim_decision) \<times> (string \<times> string \<Rightarrow> claim_view)" where
  "store_claim lease now msg v =
     (let (decision, entry) = spec_claim lease now msg (v (request_of msg)) in
      if decision \<noteq> ClaimProcess \<or> event_free v msg then (Inr decision, v(request_of msg := entry))
      else if v (request_of msg) = Unclaimed then (Inr ClaimConflict, v)
      else (Inl (Wrapf (''reclaim queue request '' @ m_BillRequestID msg @ '': '') (MySQLError 1062 ''Duplicate entry'') []), v))"

lemma event_taken_rows:
  assumes "\<not> event_free (claim_view_of db) msg"
  shows "\<exists>r \<in> set (db_claims db). c_event_id r = m_EventID msg \<and> \<not> same_request msg r"
proof -
  obtain k where k: "k \<noteq> request_of msg" "view_event (claim_view_of db k) = Some (m_EventID msg)"
    using assms unfolding event_free_def by blast
  then obtain r where r: "find (\<lambda>r. claim_key r = k) (db_claims db) = Some r" "c_event_id r = m_EventID msg"
    by (auto simp: claim_view_of_def row_view_def split: option.splits if_splits)
  then have "r \<in> set (db_claims db)" "claim_key r = k" by (auto dest: find_SomeD)
  moreover from this(2) k(1) have "\<not> same_request msg r" by (simp only: same_request_key request_of_def not_False_eq_True)
  ultimately show ?thesis using r(2) by blast
qed

lemma Claim_taken:
  assumes "cs_DB s" and "healthy env" and "claims_wf db" and "message_Validate msg = None"
    and "\<not> event_free (claim_view_of db) msg"
  shows "Claim (Some s) env msg db =
    (fst (store_claim (claim_leaseDuration s) (env_now env) msg (claim_view_of db)), db)"
proof (cases "claim_of msg db")
  case None
  have "\<exists>r \<in> set (db_claims db). c_event_id r = m_EventID msg \<or> same_request msg r"
    using event_taken_rows [OF assms(5)] by blast
  then have "Claim (Some s) env msg db = (Inr ClaimConflict, db)"
    using assms(1,2,4) None
    by (simp add: Claim_def claim_unset_def claimInTx_def insertClaim_def duplicate_event_def isMySQLError_def del: bex_simps)
  then show ?thesis
    using None assms(5) by (simp add: store_claim_def claim_view_request row_view_def)
next
  case (Some r)
  then show ?thesis
    using assms(1,2,4,5) event_taken_rows [OF assms(5)]
    by (auto simp: Claim_def claim_unset_def claimInTx_def Let_def sqlClaimDecision_def store_claim_def claim_view_request
        row_view_def lease_live_def duplicate_event_def mysqlDuplicateKey_def split: option.splits)
qed

lemma Claim_store_refines:
  assumes "cs_DB s" and "healthy env" and "claims_wf db" and "message_Validate msg = None"
  shows "\<exists>db'. Claim (Some s) env msg db =
      (fst (store_claim (claim_leaseDuration s) (env_now env) msg (claim_view_of db)), db') \<and> claims_wf db' \<and>
      claim_view_of db' = snd (store_claim (claim_leaseDuration s) (env_now env) msg (claim_view_of db))"
proof (cases "event_free (claim_view_of db) msg")
  case True
  then show ?thesis
    using Claim_refines [OF assms] by (simp add: store_claim_def Let_def case_prod_beta)
next
  case False
  have "(claim_view_of db)(request_of msg := snd (spec_claim l n msg (claim_view_of db (request_of msg)))) = claim_view_of db"
    if "fst (spec_claim l n msg (claim_view_of db (request_of msg))) \<noteq> ClaimProcess" for l n
    using that by (cases "claim_view_of db (request_of msg)") (auto simp: fun_upd_idem split: if_splits)
  then have "snd (store_claim l n msg (claim_view_of db)) = claim_view_of db" for l n
    using False by (simp add: store_claim_def Let_def case_prod_beta)
  then show ?thesis
    using Claim_taken [OF assms False] assms(3) by auto
qed

text \<open>
  \<open>Release\<close> and \<open>Complete\<close> change the one row of the request, if it is the delivery's own.
\<close>

lemma own_claim_request: "own_claim msg r \<Longrightarrow> claim_key r = request_of msg"
  by (simp add: own_claim_def claim_key_def request_of_def)

lemma changed_own_claim:
  assumes "claims_wf db"
  shows "0 < changed (own_claim msg) f (db_claims db) \<longleftrightarrow>
    (\<exists>r. claim_of msg db = Some r \<and> own_claim msg r \<and> f r \<noteq> r)"
  using assms by (auto simp: changed_pos claim_of_Some own_claim_def)

lemma claim_outcome_healthy:
  assumes "claims_wf db" and "healthy env"
  shows "claim_outcome_error p what env msg db =
    (case claim_of msg db of
       None \<Rightarrow> Some (claim_error msg ErrClaimNotFound)
     | Some r \<Rightarrow>
         if c_fingerprint r \<noteq> m_RequestFingerprint msg then Some (claim_error msg ErrClaimNotFound)
         else if c_event_id r \<noteq> m_EventID msg then Some (claim_error msg ErrClaimStale)
         else if c_state r = claimCompleted then None
         else Some (claim_error msg ErrClaimInFlight))"
  using assms
  by (auto simp: claim_outcome_error_def claims_wf_def claim_of_key request_of_def same_request_key
      claim_error_def
      find_unique [of claim_key _ "\<lambda>r. claim_key r = (m_PosID msg, m_BillRequestID msg) \<and>
          c_fingerprint r = m_RequestFingerprint msg" "(m_PosID msg, m_BillRequestID msg)"]
      split: option.splits dest: find_SomeD)

lemma own_update_view:
  assumes "claim_of msg db = Some r" and "\<And>q. claim_key (f q) = claim_key q" and "own_claim msg r"
  shows "claim_view_of (db\<lparr>db_claims := upd (own_claim msg) f (db_claims db)\<rparr>) =
    (claim_view_of db)(request_of msg := row_view (Some (f r)))"
  using claim_view_upd [OF own_claim_request assms(2,1)] assms(3) by simp

lemma own_update_idle:
  assumes "claims_wf db" and "changed (own_claim msg) f (db_claims db) = 0"
  shows "db\<lparr>db_claims := upd (own_claim msg) f (db_claims db)\<rparr> = db"
  using assms(2) changed_pos [of "own_claim msg" f "db_claims db"] upd_id [of "db_claims db" "own_claim msg" f]
  by simp

lemma claims_wf_state:
  "\<lbrakk>claims_wf db; claim_of msg db = Some r\<rbrakk> \<Longrightarrow> c_state r \<noteq> claimCompleted \<longleftrightarrow> c_state r = claimProcessing"
  using claim_of_Some [of db msg r] by (auto simp: claims_wf_def)

lemma claim_Complete_healthy:
  assumes "cs_DB s" and "healthy env" and "claims_wf db" and "message_Validate msg = None"
  shows "claim_Complete (Some s) env msg db =
    (case claim_of msg db of
       Some r \<Rightarrow>
         if own_claim msg r
         then (None, db\<lparr>db_claims := upd (own_claim msg) (finish_claim env) (db_claims db)\<rparr>)
         else (claim_outcome_error CompleteQuery [] env msg db, db)
     | None \<Rightarrow> (claim_outcome_error CompleteQuery [] env msg db, db))"
proof -
  have "finish_claim env r \<noteq> r" if "own_claim msg r" for r
    using that by (metis claim_state_simps(2) own_claim_def processing_not_completed(1))
  then show ?thesis
    using assms changed_own_claim [OF assms(3), of msg "finish_claim env"]
      own_update_idle [OF assms(3), of msg "finish_claim env"]
    by (auto simp: claim_Complete_def claim_unset_def split: option.splits)
qed

lemma claim_Release_healthy:
  assumes "cs_DB s" and "healthy env" and "claims_wf db" and "message_Validate msg = None"
  shows "claim_Release (Some s) env msg db =
    (case claim_of msg db of
       Some r \<Rightarrow>
         if own_claim msg r \<and> c_lease_expires_at r \<noteq> None
         then (None, db\<lparr>db_claims := upd (own_claim msg) give_back (db_claims db)\<rparr>)
         else (claimOwnerError env msg db, db)
     | None \<Rightarrow> (claimOwnerError env msg db, db))"
proof -
  have "give_back r \<noteq> r \<longleftrightarrow> c_lease_expires_at r \<noteq> None" for r
    by (cases r; cases "c_lease_expires_at r") (auto simp: give_back_def)
  then show ?thesis
    using assms changed_own_claim [OF assms(3), of msg give_back]
      own_update_idle [OF assms(3), of msg give_back]
    by (auto simp: claim_Release_def claim_unset_def split: option.splits)
qed

lemma view_idle: "(claim_view_of db)(request_of msg := row_view (claim_of msg db)) = claim_view_of db"
  by (simp add: fun_upd_idem claim_view_request)

lemma claim_Complete_refines:
  assumes "cs_DB s" and "healthy env" and "claims_wf db" and "message_Validate msg = None"
  shows "\<exists>db'. claim_Complete (Some s) env msg db =
      (map_option (claim_error msg) (fst (spec_complete msg (claim_view_of db (request_of msg)))), db') \<and>
      claims_wf db' \<and>
      claim_view_of db' = (claim_view_of db)
        (request_of msg := snd (spec_complete msg (claim_view_of db (request_of msg))))"
proof (cases "\<exists>r. claim_of msg db = Some r \<and> own_claim msg r")
  case True
  then obtain r where r: "claim_of msg db = Some r" "own_claim msg r" by blast
  then have "spec_complete msg (row_view (Some r)) = (None, row_view (Some (finish_claim env r)))"
    by (simp add: own_claim_def row_view_def finish_claim_def)
  then show ?thesis
    using r claim_Complete_healthy [OF assms] claim_change_wf [OF claim_change.finished assms(3)]
      own_update_view [OF r(1) _ r(2), of "finish_claim env"]
    by (simp add: claim_view_request)
next
  case False
  have "claim_outcome_error CompleteQuery [] env msg db =
        map_option (claim_error msg) (fst (spec_complete msg (row_view (claim_of msg db)))) \<and>
      snd (spec_complete msg (row_view (claim_of msg db))) = row_view (claim_of msg db)"
  proof (cases "claim_of msg db")
    case (Some r)
    then have "same_request msg r" and "c_state r \<noteq> claimCompleted \<longleftrightarrow> c_state r = claimProcessing"
      using assms(3) by (simp_all add: claim_of_Some claims_wf_state)
    then show ?thesis
      using False assms(2,3) Some by (auto simp: claim_outcome_healthy row_view_def own_claim_def)
  qed (simp add: claim_outcome_healthy row_view_def assms(2,3))
  then show ?thesis
    using False claim_Complete_healthy [OF assms] assms(3)
    by (auto simp: claim_view_request view_idle split: option.split)
qed

lemma claim_Release_refines:
  assumes "cs_DB s" and "healthy env" and "claims_wf db" and "message_Validate msg = None"
  shows "\<exists>db'. claim_Release (Some s) env msg db =
      (map_option (claim_error msg) (fst (spec_release msg (claim_view_of db (request_of msg)))), db') \<and>
      claims_wf db' \<and>
      claim_view_of db' = (claim_view_of db)
        (request_of msg := snd (spec_release msg (claim_view_of db (request_of msg))))"
proof (cases "\<exists>r. claim_of msg db = Some r \<and> own_claim msg r \<and> c_lease_expires_at r \<noteq> None")
  case True
  then obtain r where r: "claim_of msg db = Some r" "own_claim msg r" "c_lease_expires_at r \<noteq> None"
    by blast
  then have "spec_release msg (row_view (Some r)) = (None, row_view (Some (give_back r)))"
    by (simp add: own_claim_def row_view_def give_back_def)
  then show ?thesis
    using r claim_Release_healthy [OF assms] claim_change_wf [OF claim_change.given_back assms(3)]
      own_update_view [OF r(1) _ r(2), of give_back]
    by (simp add: claim_view_request)
next
  case False
  have "claimOwnerError env msg db =
        map_option (claim_error msg) (fst (spec_release msg (row_view (claim_of msg db)))) \<and>
      snd (spec_release msg (row_view (claim_of msg db))) = row_view (claim_of msg db)"
  proof (cases "claim_of msg db")
    case (Some r)
    then have "same_request msg r" and "c_state r \<noteq> claimCompleted \<longleftrightarrow> c_state r = claimProcessing"
      using assms(3) by (simp_all add: claim_of_Some claims_wf_state)
    then show ?thesis
      using False assms(2,3) Some by (auto simp: claimOwnerError_def claim_outcome_healthy row_view_def own_claim_def)
  qed (simp add: claimOwnerError_def claim_outcome_healthy row_view_def assms(2,3))
  then show ?thesis
    using False claim_Release_healthy [OF assms] assms(3)
    by (auto simp: claim_view_request view_idle split: option.split)
qed

lemma NewSQLClaimStore_simps [simp]:
  "cs_DB NewSQLClaimStore" "claim_leaseDuration NewSQLClaimStore = defaultClaimLease"
  by (simp_all add: NewSQLClaimStore_def claim_leaseDuration_def)

interpretation sql_claims: claim_contract claims_wf claim_view_of defaultClaimLease
  "\<lambda>now. Claim (Some NewSQLClaimStore) (healthy_env now)"
  "\<lambda>now. claim_Complete (Some NewSQLClaimStore) (healthy_env now)"
  "\<lambda>now. claim_Release (Some NewSQLClaimStore) (healthy_env now)"
proof
  show "0 < defaultClaimLease"
    by (simp add: defaultClaimLease_def minute_def)
next
  fix db msg now
  assume "claims_wf db" and "message_Validate msg = None" and "event_free (claim_view_of db) msg"
  then show "\<exists>db'. Claim (Some NewSQLClaimStore) (healthy_env now) msg db =
      (Inr (fst (spec_claim defaultClaimLease now msg (claim_view_of db (request_of msg)))), db') \<and>
      claims_wf db' \<and> claim_view_of db' = (claim_view_of db)
        (request_of msg := snd (spec_claim defaultClaimLease now msg (claim_view_of db (request_of msg))))"
    using Claim_refines [of NewSQLClaimStore "healthy_env now"] by simp
qed (simp_all add: claim_Complete_refines claim_Release_refines)

section \<open>Any sequence of calls\<close>

text \<open>
  One call of the store by some delivery, with its own clock and its own failing statements; a run
  is any sequence of them, in the order in which the database serialises their transactions.
\<close>

datatype claim_op = OpClaim | OpComplete | OpRelease

definition claim_call :: "sql_claim_store \<Rightarrow> claim_op \<times> sql_env \<times> message \<Rightarrow> tenant_db \<Rightarrow> tenant_db" where
  "claim_call s c db =
     (case c of
        (OpClaim, env, msg) \<Rightarrow> snd (Claim (Some s) env msg db)
      | (OpComplete, env, msg) \<Rightarrow> snd (claim_Complete (Some s) env msg db)
      | (OpRelease, env, msg) \<Rightarrow> snd (claim_Release (Some s) env msg db))"

definition claim_run :: "sql_claim_store \<Rightarrow> (claim_op \<times> sql_env \<times> message) list \<Rightarrow> tenant_db \<Rightarrow> tenant_db" where
  "claim_run s calls db = fold (claim_call s) calls db"

lemma claim_call_changes: "claim_change s env msg db (claim_call s (op, env, msg) db)"
  by (cases op) (auto simp: claim_call_def intro: claim_call_change prod.collapse [symmetric])

lemma claim_run_induct:
  assumes "I db" and "\<And>op env msg db. \<lbrakk>I db; (op, env, msg) \<in> set calls\<rbrakk> \<Longrightarrow> I (claim_call s (op, env, msg) db)"
  shows "I (claim_run s calls db)"
  using assms unfolding claim_run_def
proof (induction calls arbitrary: db)
  case (Cons c calls)
  then show ?case by (cases c) simp
qed simp

lemma change_keeps_completed:
  assumes "claim_change s env msg db db'" and "claims_wf db"
    and "r \<in> set (db_claims db)" and "c_state r = claimCompleted"
  shows "r \<in> set (db_claims db')"
  using assms(1)
proof (cases rule: claim_change.cases)
  case (retaken q)
  have "q \<noteq> r"
    using retaken(4) assms(4) by (auto simp: sqlClaimDecision_def)
  then have "\<not> same_request msg r"
    using retaken(2) assms(2,3) by (metis claim_of_Some option.inject)
  then show ?thesis
    using assms(3) retaken by (auto simp: upd_def image_iff intro!: bexI [of _ r])
qed (use assms(3,4) in \<open>auto simp: upd_def image_iff own_claim_def intro!: bexI [of _ r]\<close>)

lemma change_keeps_leased:
  assumes "claim_change s env msg db db'" and "claims_wf db"
    and "r \<in> set (db_claims db)" and "lease_live (c_lease_expires_at r) (env_now env)"
    and "m_EventID msg \<noteq> c_event_id r"
  shows "r \<in> set (db_claims db')"
  using assms(1)
proof (cases rule: claim_change.cases)
  case (retaken q)
  have "q \<noteq> r"
    using retaken(4) assms(4) by (auto simp: sqlClaimDecision_def lease_live_def split: option.splits if_splits)
  then have "\<not> same_request msg r"
    using retaken(2) assms(2,3) by (metis claim_of_Some option.inject)
  then show ?thesis
    using assms(3) retaken by (auto simp: upd_def image_iff intro!: bexI [of _ r])
qed (use assms(3,5) in \<open>auto simp: upd_def image_iff own_claim_def intro!: bexI [of _ r]\<close>)

section \<open>Properties of the claim store\<close>

lemma empty_db_wf: "claims_wf empty_db" and empty_db_free: "event_free (claim_view_of empty_db) msg"
  and empty_db_view: "claim_view_of empty_db k = Unclaimed"
  by (simp_all add: claims_wf_def event_free_def claim_view_of_def row_view_def)

definition sample_claim :: claim_row where
  "sample_claim = new_claim NewSQLClaimStore (healthy_env 0) sample_message"

lemma sample_claim_taken:
  "Claim (Some NewSQLClaimStore) (healthy_env 0) sample_message empty_db =
     (Inr ClaimProcess, empty_db\<lparr>db_claims := [sample_claim]\<rparr>)"
  by (simp add: Claim_def sample_message_valid claim_unset_def claimInTx_def claim_of_def
      insertClaim_def sample_claim_def)

text \<open>Whatever statements fail, every sequence of calls keeps the keys and events of the claim
  table unique and its states the two the code knows.\<close>

theorem claim_run_invariant:
  assumes "claims_wf db"
  shows "claims_wf (claim_run s calls db)"
  using assms by (rule claim_run_induct) (rule claim_change_wf [OF claim_call_changes])

theorem claim_run_invariant_witness:
  "claims_wf (claim_run NewSQLClaimStore [(OpClaim, healthy_env 0, sample_message)] empty_db)"
  by (rule claim_run_invariant) (rule empty_db_wf)

text \<open>C20: a claim whose lease is live survives, unchanged, every sequence of calls that other
  events make before the lease ends: no other delivery takes, completes or gives back the
  request, whatever statements fail.\<close>

theorem claim_lease_exclusion:
  assumes "claims_wf db" and "r \<in> set (db_claims db)" and "c_lease_expires_at r = Some t"
    and "\<And>op env msg. (op, env, msg) \<in> set calls \<Longrightarrow> env_now env < t \<and> m_EventID msg \<noteq> c_event_id r"
  shows "r \<in> set (db_claims (claim_run s calls db))"
proof -
  have "claims_wf (claim_run s calls db) \<and> r \<in> set (db_claims (claim_run s calls db))"
  proof (rule claim_run_induct)
    show "claims_wf db \<and> r \<in> set (db_claims db)"
      using assms by blast
  next
    fix op env msg db
    assume "claims_wf db \<and> r \<in> set (db_claims db)" and "(op, env, msg) \<in> set calls"
    then show "claims_wf (claim_call s (op, env, msg) db) \<and> r \<in> set (db_claims (claim_call s (op, env, msg) db))"
      using assms(3,4) claim_change_wf [OF claim_call_changes]
        change_keeps_leased [OF claim_call_changes, of db r env msg s op]
      by (simp add: lease_live_def)
  qed
  then show ?thesis ..
qed

theorem claim_lease_exclusion_witness:
  "sample_claim \<in> set (db_claims (claim_run NewSQLClaimStore
     [(OpClaim, healthy_env 5, sample_retry), (OpComplete, healthy_env 6, sample_retry),
      (OpRelease, healthy_env 7, sample_retry)] (empty_db\<lparr>db_claims := [sample_claim]\<rparr>)))"
proof (rule claim_lease_exclusion)
  show "claims_wf (empty_db\<lparr>db_claims := [sample_claim]\<rparr>)"
    by (simp add: claims_wf_def sample_claim_def)
  show "c_lease_expires_at sample_claim = Some defaultClaimLease"
    by (simp add: sample_claim_def new_claim_def)
qed (auto simp: sample_claim_def defaultClaimLease_def minute_def)

text \<open>A completed claim is never touched again, by any sequence of calls of any event.\<close>

theorem claim_completed_for_good:
  assumes "claims_wf db" and "r \<in> set (db_claims db)" and "c_state r = claimCompleted"
  shows "r \<in> set (db_claims (claim_run s calls db))"
proof -
  have "claims_wf (claim_run s calls db) \<and> r \<in> set (db_claims (claim_run s calls db))"
    using claim_change_wf [OF claim_call_changes] change_keeps_completed [OF claim_call_changes] assms
    by (intro claim_run_induct [of "\<lambda>db. claims_wf db \<and> r \<in> set (db_claims db)"]) blast+
  then show ?thesis ..
qed

theorem claim_completed_for_good_witness:
  "finish_claim (healthy_env 9) sample_claim \<in> set (db_claims (claim_run NewSQLClaimStore
     [(OpRelease, healthy_env 10, sample_message), (OpClaim, healthy_env (10 ^ 18), sample_retry)]
     (empty_db\<lparr>db_claims := [finish_claim (healthy_env 9) sample_claim]\<rparr>)))"
  by (rule claim_completed_for_good) (simp_all add: claims_wf_def)

text \<open>C6: while no statement fails, \<open>Claim\<close>, \<open>Complete\<close> and \<open>Release\<close> of the SQL store, on a table that keeps its
  invariant and for a valid message, do exactly what the abstract store does, on every branch, and return
  its decision or its error.  The branches include an event that another request already holds: the
  unique key then makes a new request a conflict and a takeover an error, and nothing changes.\<close>

theorem sql_claim_store_refines:
  assumes "cs_DB s" and "healthy env" and "claims_wf db" and "message_Validate msg = None"
  shows "\<exists>db1 db2 db3.
    Claim (Some s) env msg db = (fst (store_claim (claim_leaseDuration s) (env_now env) msg (claim_view_of db)), db1) \<and>
    claim_view_of db1 = snd (store_claim (claim_leaseDuration s) (env_now env) msg (claim_view_of db)) \<and>
    claim_Complete (Some s) env msg db =
      (map_option (claim_error msg) (fst (spec_complete msg (claim_view_of db (request_of msg)))), db2) \<and>
    claim_view_of db2 = (claim_view_of db)
      (request_of msg := snd (spec_complete msg (claim_view_of db (request_of msg)))) \<and>
    claim_Release (Some s) env msg db =
      (map_option (claim_error msg) (fst (spec_release msg (claim_view_of db (request_of msg)))), db3) \<and>
    claim_view_of db3 = (claim_view_of db)
      (request_of msg := snd (spec_release msg (claim_view_of db (request_of msg))))"
  using Claim_store_refines [OF assms] claim_Complete_refines [OF assms]
    claim_Release_refines [OF assms] by blast

theorem sql_claim_store_refines_witness:
  "\<exists>db1. Claim (Some NewSQLClaimStore) (healthy_env 0) sample_message empty_db = (Inr ClaimProcess, db1) \<and>
     claim_view_of db1 (''pos-1'', ''req-1'') =
       Held ''event-1'' (replicate 64 (CHR ''a'')) (Some defaultClaimLease)"
  using sql_claim_store_refines [of NewSQLClaimStore "healthy_env 0" empty_db sample_message]
  by (auto simp: store_claim_def empty_db_wf empty_db_free empty_db_view sample_message_valid request_of_def)

text \<open>Once the lease of a delivery ended and another delivery took the request over, the first
  can neither complete nor give back the claim (\<open>ErrClaimStale\<close>, nothing changes), and the new
  holder completes it.\<close>

theorem claim_takeover_fenced:
  assumes "claims_wf db" and "message_Validate a = None" and "event_free (claim_view_of db) a"
    and "Claim (Some NewSQLClaimStore) (healthy_env t) a db = (Inr ClaimProcess, db1)"
    and "message_Validate b = None" and "event_free (claim_view_of db) b"
    and "request_of b = request_of a" and "m_RequestFingerprint b = m_RequestFingerprint a"
    and "m_EventID b \<noteq> m_EventID a" and "t + defaultClaimLease \<le> u"
  shows "\<exists>db2 db3 db4.
    Claim (Some NewSQLClaimStore) (healthy_env u) b db1 = (Inr ClaimProcess, db2) \<and>
    claim_Complete (Some NewSQLClaimStore) (healthy_env w) a db2 =
      (Some (claim_error a ErrClaimStale), db3) \<and> claim_view_of db3 = claim_view_of db2 \<and>
    claim_Release (Some NewSQLClaimStore) (healthy_env w) a db2 =
      (Some (claim_error a ErrClaimStale), db4) \<and> claim_view_of db4 = claim_view_of db2 \<and>
    (\<exists>db5. claim_Complete (Some NewSQLClaimStore) (healthy_env w) b db3 = (None, db5) \<and> claims_wf db5)"
  using sql_claims.takeover_fences [OF assms] .

theorem claim_takeover_fenced_witness:
  "\<exists>db1 db2 db3.
     Claim (Some NewSQLClaimStore) (healthy_env 0) sample_message empty_db = (Inr ClaimProcess, db1) \<and>
     Claim (Some NewSQLClaimStore) (healthy_env (10 ^ 13)) sample_retry db1 = (Inr ClaimProcess, db2) \<and>
     claim_Complete (Some NewSQLClaimStore) (healthy_env (10 ^ 13)) sample_message db2 =
       (Some (claim_error sample_message ErrClaimStale), db3)"
proof -
  have "(0 :: time) + defaultClaimLease \<le> 10 ^ 13"
    by (simp add: defaultClaimLease_def minute_def)
  from claim_takeover_fenced [OF empty_db_wf sample_message_valid empty_db_free sample_claim_taken
      sample_retry_valid empty_db_free _ _ _ this, of "10 ^ 13"]
  show ?thesis
    using sample_claim_taken by (auto simp: request_of_def)
qed

end
