(* ===== verification/Invoice_Chain.thy ===== *)
theory Invoice_Chain
  imports Tenant_DB
begin

text \<open>
  The invoice chain of \<open>queue/chain.go\<close>: the booking of a branch's next number, the commit of a
  signed invoice, which advances the chain, and the record of ZATCA's answer.  The transactions run
  on the tables of \<open>Tenant_DB\<close>; the row lock of a branch makes each of them one step.
\<close>

definition GenesisPIH :: string where
  "GenesisPIH = ''NWZlY2ViNjZmZmM4NmYzOGQ5NTI3ODZjNmQ2OTZjNzljMmRiYzIzOWRkNGU5MWI0NjcyOWQ3M2EyN2ZiNTdlOQ==''"

definition InvoiceStandard :: string where
  "InvoiceStandard = ''standard''"

definition InvoiceSimplified :: string where
  "InvoiceSimplified = ''simplified''"

definition EvidenceUnspecified :: string where
  "EvidenceUnspecified = []"

definition EvidenceProvider :: string where
  "EvidenceProvider = ''provider''"

definition EvidenceExternal :: string where
  "EvidenceExternal = ''external''"

definition EvidenceLocal :: string where
  "EvidenceLocal = ''local''"

lemmas evidence_defs =
  EvidenceUnspecified_def EvidenceProvider_def EvidenceExternal_def EvidenceLocal_def

definition defaultBookingLease :: time where
  "defaultBookingLease = 5 * (60 * 1000000000)"

record booking =
  b_BranchID :: int
  b_RequestKey :: string
  b_EventID :: string
  b_UUID :: string
  b_ICV :: u64
  b_PIH :: string

record signed_invoice =
  i_SourceID :: int
  i_BranchID :: int
  i_UUID :: string
  i_ICV :: u64
  i_PIH :: string
  i_Hash :: string
  i_Kind :: string
  i_SignedXML :: string
  i_QR :: string
  i_Outcome :: string
  i_OutcomeEvidence :: string
  i_EvidenceID :: string
  i_ProviderCode :: string
  i_OutcomeMessage :: string

record outcome =
  oc_State :: string
  oc_ProviderCode :: string
  oc_Message :: string
  oc_Evidence :: string
  oc_EvidenceID :: string

definition invoice_Validate :: "signed_invoice \<Rightarrow> goerr option" where
  "invoice_Validate i =
     (if i_SourceID i \<le> 0 then Some (NewError ''signed invoice source id is required'')
      else if i_BranchID i \<le> 0 then Some (NewError ''signed invoice branch id is required'')
      else if \<not> isUUID (i_UUID i) then Some (NewError ''signed invoice UUID is invalid'')
      else if i_ICV i = 0 then Some (NewError ''signed invoice ICV is required'')
      else if trim_space (i_PIH i) = [] then Some (NewError ''signed invoice PIH is required'')
      else if trim_space (i_Hash i) = [] then Some (NewError ''signed invoice hash is required'')
      else if trim_space (i_SignedXML i) = [] then Some (NewError ''signed invoice XML is required'')
      else if i_Kind i \<noteq> InvoiceStandard \<and> i_Kind i \<noteq> InvoiceSimplified
        then Some (NewError (''signed invoice kind '' @ go_quote (i_Kind i) @ '' is invalid''))
      else if i_Outcome i \<noteq> [] \<and> i_Outcome i \<noteq> OutcomeAccepted \<and> i_Outcome i \<noteq> OutcomeWarning \<and>
          i_Outcome i \<noteq> OutcomeRejected \<and> i_Outcome i \<noteq> OutcomeAmbiguous \<and>
          i_Outcome i \<noteq> OutcomeTerminalFailure
        then Some (NewError (''signed invoice outcome '' @ go_quote (i_Outcome i) @ '' is invalid''))
      else None)"

text \<open>The chain of one tenant database; its handle is always set (\<open>NewSQLChain\<close>).\<close>

record sql_chain =
  ch_LeaseDuration :: time

definition NewSQLChain :: sql_chain where
  "NewSQLChain = \<lparr>ch_LeaseDuration = defaultBookingLease\<rparr>"

definition chain_leaseDuration :: "sql_chain \<Rightarrow> time" where
  "chain_leaseDuration c =
     (if ch_LeaseDuration c \<le> 0 then defaultBookingLease else ch_LeaseDuration c)"

text \<open>
  \<open>loadChainRow\<close> at the point \<open>p\<close>.  The reserved number is scanned into a signed 64-bit integer,
  so that a number above \<open>2 ^ 63 - 1\<close> is an error of the scan.
\<close>

definition chain_of :: "int \<Rightarrow> tenant_db \<Rightarrow> chainRow option" where
  "chain_of branch db = find (\<lambda>r. cr_branch_id r = branch) (db_chains db)"

definition scan_error :: "u64 \<Rightarrow> goerr" where
  "scan_error v =
     NewError (''sql: Scan error on column index 4, name '' @ go_quote ''reserved_icv'' @
       '': converting driver.Value type uint64 ('' @ go_quote (show_nat (unat v)) @
       '') to a int64: value out of range'')"

definition loadChainRow :: "db_point \<Rightarrow> sql_env \<Rightarrow> int \<Rightarrow> tenant_db \<Rightarrow> goerr + chainRow" where
  "loadChainRow p env branch db =
     (case query_row env p (chain_of branch db) of
        Inl e \<Rightarrow> Inl e
      | Inr r \<Rightarrow>
          (case cr_reservedICV r of
             Some v \<Rightarrow> if 2 ^ 63 \<le> unat v then Inl (scan_error v) else Inr r
           | None \<Rightarrow> Inr r))"

definition effectivePIH :: "chainRow \<Rightarrow> string" where
  "effectivePIH r =
     (case cr_previous r of Some h \<Rightarrow> if h \<noteq> [] then h else GenesisPIH | None \<Rightarrow> GenesisPIH)"

definition ownedBy :: "chainRow \<Rightarrow> string \<Rightarrow> bool" where
  "ownedBy r key \<longleftrightarrow> cr_ownerKey r = Some key"

definition leaseLive :: "chainRow \<Rightarrow> time \<Rightarrow> bool" where
  "leaseLive r now = (case cr_leaseEnd r of Some t \<Rightarrow> now < t | None \<Rightarrow> False)"

definition holds :: "chainRow \<Rightarrow> booking \<Rightarrow> bool" where
  "holds r b \<longleftrightarrow>
     ownedBy r (b_RequestKey b) \<and> cr_ownerToken r = Some (b_EventID b) \<and>
     cr_reservedICV r = Some (b_ICV b) \<and> cr_lastICV r + 1 = b_ICV b \<and> effectivePIH r = b_PIH b"

definition booking_for :: "chainRow \<Rightarrow> message \<Rightarrow> booking" where
  "booking_for r msg =
     \<lparr>b_BranchID = m_BranchID msg, b_RequestKey = RequestKey msg, b_EventID = m_EventID msg,
      b_UUID = m_InvoiceUUID msg, b_ICV = cr_lastICV r + 1, b_PIH = effectivePIH r\<rparr>"

definition reserve :: "sql_chain \<Rightarrow> sql_env \<Rightarrow> booking \<Rightarrow> chainRow \<Rightarrow> chainRow" where
  "reserve c env b r =
     r\<lparr>cr_ownerKey := Some (b_RequestKey b), cr_ownerToken := Some (b_EventID b),
       cr_reservedICV := Some (b_ICV b),
       cr_leaseEnd := Some (env_now env + chain_leaseDuration c)\<rparr>"

definition Book ::
    "sql_chain \<Rightarrow> sql_env \<Rightarrow> message \<Rightarrow> tenant_db \<Rightarrow> (goerr + booking) \<times> tenant_db" where
  "Book c env msg db =
     (case fails env BookBegin of
        Some e \<Rightarrow> (Inl (Wrapf ''begin booking: '' e []), db)
      | None \<Rightarrow>
        (case loadChainRow BookLock env (m_BranchID msg) db of
           Inl e \<Rightarrow>
             (if isMySQLError e mysqlLockNoWait then (Inl (Sentinel ErrChainBusy), db)
              else if is_err e ErrNoRows then
                (Inl (Wrapf (''branch '' @ show_int (m_BranchID msg) @ '' has no invoice chain: '')
                   (Sentinel ErrRejectedInput) []), db)
              else (Inl (Wrapf (''lock branch '' @ show_int (m_BranchID msg) @ '' chain: '') e []), db))
         | Inr row \<Rightarrow>
             (if cr_lastICV row = - 1 then
                (Inl (Wrapf [] (Sentinel ErrChainConflict)
                   ('': branch '' @ show_int (m_BranchID msg) @ '' ICV is exhausted'')), db)
              else
                let b = booking_for row msg in
                if leaseLive row (env_now env) \<and>
                   (\<not> ownedBy row (b_RequestKey b) \<or> cr_ownerToken row \<noteq> Some (b_EventID b))
                then (Inl (Sentinel ErrChainBusy), db)
                else if ownedBy row (b_RequestKey b) \<and> cr_reservedICV row \<noteq> None \<and>
                   cr_reservedICV row \<noteq> Some (b_ICV b)
                then (Inl (Sentinel ErrChainConflict), db)
                else
                  case fails env BookUpdate of
                    Some e \<Rightarrow>
                      (Inl (Wrapf (''book ICV '' @ show_nat (unat (b_ICV b)) @ '' of branch '' @
                         show_int (b_BranchID b) @ '': '') e []), db)
                  | None \<Rightarrow>
                      (case apply_at env BookCommit db
                              (db\<lparr>db_chains := upd (\<lambda>r. cr_branch_id r = b_BranchID b) (reserve c env b)
                                    (db_chains db)\<rparr>) of
                         (Some e, db1) \<Rightarrow>
                           (Inl (Wrapf (''commit booking of branch '' @ show_int (b_BranchID b) @ '': '') e []), db1)
                       | (None, db1) \<Rightarrow> (Inr b, db1)))))"

definition unreserve :: "chainRow \<Rightarrow> chainRow" where
  "unreserve r =
     r\<lparr>cr_ownerKey := None, cr_ownerToken := None, cr_reservedICV := None, cr_leaseEnd := None\<rparr>"

definition own_booking :: "booking \<Rightarrow> chainRow \<Rightarrow> bool" where
  "own_booking b r \<longleftrightarrow>
     cr_branch_id r = b_BranchID b \<and> cr_ownerKey r = Some (b_RequestKey b) \<and>
     cr_ownerToken r = Some (b_EventID b)"

definition chain_Release :: "sql_env \<Rightarrow> booking \<Rightarrow> tenant_db \<Rightarrow> goerr option \<times> tenant_db" where
  "chain_Release env b db =
     (case apply_at env ChainReleaseExec db
             (db\<lparr>db_chains := upd (own_booking b) unreserve (db_chains db)\<rparr>) of
        (Some e, db1) \<Rightarrow>
          (Some (Wrapf (''release booking of branch '' @ show_int (b_BranchID b) @ '': '') e []), db1)
      | (None, db1) \<Rightarrow> (None, db1))"

definition bill_of :: "int \<Rightarrow> tenant_db \<Rightarrow> bill_rec option" where
  "bill_of bid db = find (\<lambda>b. bl_id b = bid) (db_bills db)"

text \<open>A column that already carries another value; a NULL or blank column carries none.\<close>

definition carries_other :: "string option \<Rightarrow> string \<Rightarrow> bool" where
  "carries_other col v = (case col of Some w \<Rightarrow> trim_space w \<noteq> [] \<and> w \<noteq> v | None \<Rightarrow> False)"

text \<open>The key an inserted submission gets (AUTO_INCREMENT, without the gaps of rolled back inserts).\<close>

definition next_submission_id :: "tenant_db \<Rightarrow> nat" where
  "next_submission_id db = Suc (fold max (map s_id (db_submissions db)) 0)"

definition new_submission :: "tenant_db \<Rightarrow> signed_invoice \<Rightarrow> submission_row" where
  "new_submission db i =
     \<lparr>s_id = next_submission_id db, s_bill_id = i_SourceID i, s_branch_id = i_BranchID i, s_status = 0,
      s_outcome_state = outcomePending, s_invoice_icv = i_ICV i, s_previous_invoice_hash = i_PIH i,
      s_invoice_uuid = i_UUID i, s_invoice_hash = i_Hash i, s_invoice_kind = i_Kind i,
      s_signed_xml = i_SignedXML i, s_provider_code = None, s_rejection_code = None,
      s_rejection_msg = None, s_provider_warning_message = None, s_submitted_at = None,
      s_outcome_at = None\<rparr>"

definition bill_invoiced :: "signed_invoice \<Rightarrow> bill_rec \<Rightarrow> bill_rec" where
  "bill_invoiced i b =
     b\<lparr>bl_invoice_uuid := Some (i_UUID i), bl_invoice_hash := Some (i_Hash i), bl_qr_code := Some (i_QR i)\<rparr>"

definition advance :: "signed_invoice \<Rightarrow> chainRow \<Rightarrow> chainRow" where
  "advance i r = unreserve (r\<lparr>cr_lastICV := i_ICV i, cr_previous := Some (i_Hash i)\<rparr>)"

definition committed :: "booking \<Rightarrow> signed_invoice \<Rightarrow> tenant_db \<Rightarrow> tenant_db" where
  "committed b i db =
     db\<lparr>db_submissions := db_submissions db @ [new_submission db i],
        db_bills := upd (\<lambda>r. bl_id r = i_SourceID i \<and> bl_branch_id r = b_BranchID b) (bill_invoiced i) (db_bills db),
        db_chains := upd (\<lambda>r. cr_branch_id r = b_BranchID b) (advance i) (db_chains db)\<rparr>"

definition chain_conflict :: "string \<Rightarrow> goerr" where
  "chain_conflict detail = Wrapf [] (Sentinel ErrChainConflict) ('': '' @ detail)"

text \<open>
  The database refuses a second invoice of a bill (\<open>queue/sql_invariants_test.go\<close>, line 52): the insert fails
  with the error of a duplicate key.
\<close>

definition insert_submission :: "sql_env \<Rightarrow> signed_invoice \<Rightarrow> tenant_db \<Rightarrow> goerr option" where
  "insert_submission env i db =
     (case fails env CommitInsert of
        Some e \<Rightarrow> Some e
      | None \<Rightarrow> if \<exists>s \<in> set (db_submissions db). s_bill_id s = i_SourceID i
          then Some (MySQLError mysqlDuplicateKey ''Duplicate entry'') else None)"

text \<open>The checks of \<open>Commit\<close> on the bill, and then its three writes.\<close>

definition commit_bill ::
    "sql_env \<Rightarrow> booking \<Rightarrow> signed_invoice \<Rightarrow> tenant_db \<Rightarrow> goerr option \<times> tenant_db" where
  "commit_bill env b i db =
     (let sid = show_int (i_SourceID i) in
      case query_row env CommitBill (bill_of (i_SourceID i) db) of
        Inl e \<Rightarrow>
          (if is_err e ErrNoRows then (Some (chain_conflict (''bill '' @ sid @ '' does not exist'')), db)
           else (Some (Wrapf (''lock bill '' @ sid @ '': '') e []), db))
      | Inr bill \<Rightarrow>
          (if bl_branch_id bill \<noteq> b_BranchID b then
             (Some (chain_conflict (''bill '' @ sid @ '' belongs to branch '' @
                show_int (bl_branch_id bill) @ '', not '' @ show_int (b_BranchID b))), db)
           else if carries_other (bl_invoice_uuid bill) (i_UUID i) then
             (Some (chain_conflict (''bill '' @ sid @ '' already carries invoice UUID '' @
                the (bl_invoice_uuid bill))), db)
           else if carries_other (bl_invoice_hash bill) (i_Hash i) then
             (Some (chain_conflict (''bill '' @ sid @ '' already carries another invoice hash'')), db)
           else case insert_submission env i db of
             Some e \<Rightarrow> (Some (Wrapf (''store invoice of bill '' @ sid @ '': '') e []), db)
           | None \<Rightarrow>
             (case fails env CommitBillUpdate of
                Some e \<Rightarrow> (Some (Wrapf (''record invoice fields of bill '' @ sid @ '': '') e []), db)
              | None \<Rightarrow>
                (case fails env CommitChain of
                   Some e \<Rightarrow>
                     (Some (Wrapf (''advance chain of branch '' @ show_int (b_BranchID b) @ '': '') e []), db)
                 | None \<Rightarrow>
                     (case apply_at env CommitCommit db (committed b i db) of
                        (Some e, db1) \<Rightarrow>
                          (Some (Wrapf (''commit invoice of bill '' @ sid @ '': '') e []), db1)
                      | (None, db1) \<Rightarrow> (None, db1))))))"

definition Commit ::
    "sql_env \<Rightarrow> booking \<Rightarrow> signed_invoice \<Rightarrow> tenant_db \<Rightarrow> goerr option \<times> tenant_db" where
  "Commit env b i db =
     (if i_BranchID i \<noteq> b_BranchID b \<or> i_ICV i \<noteq> b_ICV b \<or> i_UUID i \<noteq> b_UUID b \<or> i_PIH i \<noteq> b_PIH b
      then (Some (chain_conflict ''the invoice does not match its booking''), db)
      else case invoice_Validate i of
        Some e \<Rightarrow> (Some (chain_conflict (err_text e)), db)
      | None \<Rightarrow>
        (case fails env CommitBegin of
           Some e \<Rightarrow> (Some (Wrapf ''begin invoice commit: '' e []), db)
         | None \<Rightarrow>
           (case loadChainRow CommitLock env (b_BranchID b) db of
              Inl e \<Rightarrow> (Some (Wrapf (''lock branch '' @ show_int (b_BranchID b) @ '' chain: '') e []), db)
            | Inr row \<Rightarrow>
                (if \<not> holds row b
                 then (Some (chain_conflict (''branch '' @ show_int (b_BranchID b))), db)
                 else commit_bill env b i db))))"

section \<open>Evidence and stored invoices\<close>

definition externalEvidencePrefix :: string where
  "externalEvidencePrefix = ''external-evidence:''"

definition submissionStatus :: "string \<Rightarrow> goerr + int" where
  "submissionStatus state =
     (if state = OutcomeAccepted then Inr 2
      else if state = OutcomeRejected then Inr 3
      else if state = OutcomeWarning then Inr 4
      else if state = OutcomeAmbiguous then Inr 1
      else if state = OutcomeTerminalFailure then Inr 5
      else Inl (NewError (''unknown outcome state '' @ go_quote state)))"

definition outcomeMessage :: "outcome \<Rightarrow> string" where
  "outcomeMessage oc =
     (if oc_Evidence oc \<noteq> EvidenceExternal then oc_Message oc
      else externalEvidencePrefix @ oc_EvidenceID oc @ ''|'' @ oc_Message oc)"

definition outcomeLogMessage :: "outcome \<Rightarrow> string option \<Rightarrow> string option" where
  "outcomeLogMessage oc warningMsg =
     (if oc_Evidence oc = EvidenceExternal then nullString (outcomeMessage oc) 1024 else warningMsg)"

definition parseOutcomeEvidence :: "string \<Rightarrow> string \<times> string \<times> string" where
  "parseOutcomeEvidence message =
     (if \<not> has_prefix message externalEvidencePrefix then (EvidenceUnspecified, [], message)
      else
        let parts = split2 (trim_prefix message externalEvidencePrefix) (CHR ''|'') in
        if length parts \<noteq> 2 \<or> trim_space (hd parts) = [] then (EvidenceExternal, [], message)
        else (EvidenceExternal, hd parts, parts ! 1))"

text \<open>A NULL string read through \<open>.String\<close> is empty.\<close>

definition null_str :: "string option \<Rightarrow> string" where
  "null_str s = (case s of Some v \<Rightarrow> v | None \<Rightarrow> [])"

text \<open>The join of \<open>Stored\<close>: the first submission of the bill, with the bill's QR code.\<close>

definition stored_row :: "int \<Rightarrow> tenant_db \<Rightarrow> (submission_row \<times> bill_rec) option" where
  "stored_row bid db =
     (case (find (\<lambda>s. s_bill_id s = bid) (db_submissions db), bill_of bid db) of
        (Some s, Some b) \<Rightarrow> Some (s, b)
      | _ \<Rightarrow> None)"

definition invoice_of_row :: "submission_row \<Rightarrow> bill_rec \<Rightarrow> signed_invoice" where
  "invoice_of_row s b =
     (let message = (case s_rejection_msg s of Some m \<Rightarrow> m | None \<Rightarrow> null_str (s_provider_warning_message s));
          (evidence, evidence_id, text) = parseOutcomeEvidence message;
          answered = s_outcome_state s \<noteq> outcomePending
      in \<lparr>i_SourceID = s_bill_id s, i_BranchID = s_branch_id s, i_UUID = s_invoice_uuid s,
          i_ICV = s_invoice_icv s, i_PIH = s_previous_invoice_hash s, i_Hash = s_invoice_hash s,
          i_Kind = s_invoice_kind s, i_SignedXML = s_signed_xml s, i_QR = null_str (bl_qr_code b),
          i_Outcome = (if answered then s_outcome_state s else []),
          i_OutcomeEvidence = (if answered then evidence else EvidenceUnspecified),
          i_EvidenceID = (if answered then evidence_id else []),
          i_ProviderCode = (if answered then null_str (s_provider_code s) else []),
          i_OutcomeMessage = (if answered then text else [])\<rparr>)"

definition Stored :: "sql_env \<Rightarrow> message \<Rightarrow> tenant_db \<Rightarrow> goerr + signed_invoice option" where
  "Stored env msg db =
     (case query_row env StoredQuery (stored_row (m_ID msg) db) of
        Inl e \<Rightarrow>
          (if is_err e ErrNoRows then Inr None
           else Inl (Wrapf (''lookup invoice of bill '' @ show_int (m_ID msg) @ '': '') e []))
      | Inr (s, b) \<Rightarrow> Inr (Some (invoice_of_row s b)))"

text \<open>The columns \<open>Record\<close> sets on a submission that waits for its answer.\<close>

definition rejecting :: "outcome \<Rightarrow> bool" where
  "rejecting oc \<longleftrightarrow> oc_State oc = OutcomeRejected \<or> oc_State oc = OutcomeTerminalFailure"

definition answer :: "sql_env \<Rightarrow> outcome \<Rightarrow> int \<Rightarrow> submission_row \<Rightarrow> submission_row" where
  "answer env oc status s =
     (let providerCode = nullString (oc_ProviderCode oc) 64; message = outcomeMessage oc in
      s\<lparr>s_status := status, s_outcome_state := oc_State oc, s_provider_code := providerCode,
        s_rejection_code := (if rejecting oc then providerCode else None),
        s_rejection_msg := (if rejecting oc then nullString message 512 else None),
        s_provider_warning_message := (if rejecting oc then None else nullString message 1024),
        s_submitted_at := Some (env_now env), s_outcome_at := Some (env_now env)\<rparr>)"

definition log_entry :: "sql_env \<Rightarrow> outcome \<Rightarrow> nat \<Rightarrow> outcome_row" where
  "log_entry env oc sid =
     \<lparr>o_submission_id = sid, o_outcome_state = oc_State oc,
      o_provider_code = nullString (oc_ProviderCode oc) 64,
      o_provider_warning_message = outcomeLogMessage oc
        (if rejecting oc then None else nullString (outcomeMessage oc) 1024),
      o_observed_at = env_now env\<rparr>"

definition waiting :: "nat \<Rightarrow> submission_row \<Rightarrow> bool" where
  "waiting sid s \<longleftrightarrow> s_id s = sid \<and> s_outcome_state s = outcomePending"

definition recorded :: "sql_env \<Rightarrow> signed_invoice \<Rightarrow> outcome \<Rightarrow> int \<Rightarrow> nat \<Rightarrow> tenant_db \<Rightarrow> tenant_db" where
  "recorded env i oc status sid db =
     db\<lparr>db_submissions := upd (waiting sid) (answer env oc status) (db_submissions db),
        db_outcomes := db_outcomes db @ [log_entry env oc sid],
        db_bills :=
          (if oc_State oc = OutcomeAccepted \<or> oc_State oc = OutcomeWarning
           then upd (\<lambda>b. bl_id b = i_SourceID i) (\<lambda>b. b\<lparr>bl_state := 3\<rparr>) (db_bills db)
           else db_bills db)\<rparr>"

definition record_in_tx ::
    "sql_env \<Rightarrow> signed_invoice \<Rightarrow> outcome \<Rightarrow> int \<Rightarrow> nat \<Rightarrow> tenant_db \<Rightarrow> goerr option \<times> tenant_db" where
  "record_in_tx env i oc status sid db =
     (let bid = show_int (i_SourceID i);
          count = changed (waiting sid) (answer env oc status) (db_submissions db)
      in case fails env RecordUpdate of
           Some e \<Rightarrow> (Some (Wrapf (''record outcome of bill '' @ bid @ '': '') e []), db)
         | None \<Rightarrow>
         (case fails env RecordRows of
            Some e \<Rightarrow> (Some (Wrapf (''inspect outcome of bill '' @ bid @ '': '') e []), db)
          | None \<Rightarrow>
          (if count = 0 then
             (case apply_at env RecordCommit db db of
                (Some e, db1) \<Rightarrow>
                  (Some (Wrapf (''commit repeated outcome of bill '' @ bid @ '': '') e []), db1)
              | (None, db1) \<Rightarrow> (None, db1))
           else case fails env RecordInsert of
             Some e \<Rightarrow> (Some (Wrapf (''append outcome of bill '' @ bid @ '': '') e []), db)
           | None \<Rightarrow>
             (case (if oc_State oc = OutcomeAccepted \<or> oc_State oc = OutcomeWarning
                    then fails env RecordBill else None) of
                Some e \<Rightarrow> (Some (Wrapf (''mark bill '' @ bid @ '' issued: '') e []), db)
              | None \<Rightarrow>
                (case apply_at env RecordCommit db (recorded env i oc status sid db) of
                   (Some e, db1) \<Rightarrow> (Some (Wrapf (''commit outcome of bill '' @ bid @ '': '') e []), db1)
                 | (None, db1) \<Rightarrow> (None, db1))))))"

definition Record ::
    "sql_env \<Rightarrow> signed_invoice \<Rightarrow> outcome \<Rightarrow> tenant_db \<Rightarrow> goerr option \<times> tenant_db" where
  "Record env i oc db =
     (case submissionStatus (oc_State oc) of
        Inl e \<Rightarrow> (Some e, db)
      | Inr status \<Rightarrow>
        (if oc_Evidence oc \<notin> {EvidenceUnspecified, EvidenceProvider, EvidenceExternal, EvidenceLocal}
         then (Some (NewError (''unknown outcome evidence '' @ go_quote (oc_Evidence oc))), db)
         else if oc_Evidence oc = EvidenceExternal \<and>
           (trim_space (oc_EvidenceID oc) = [] \<or> \<not> validEvidenceText (oc_EvidenceID oc) 256)
         then (Some (NewError ''external outcome evidence id is required''), db)
         else case fails env RecordBegin of
           Some e \<Rightarrow> (Some (Wrapf ''begin outcome record: '' e []), db)
         | None \<Rightarrow>
           (case query_row env RecordLock (find (\<lambda>s. s_bill_id s = i_SourceID i) (db_submissions db)) of
              Inl e \<Rightarrow>
                (Some (Wrapf (''lock submission of bill '' @ show_int (i_SourceID i) @ '': '') e []), db)
            | Inr s \<Rightarrow> record_in_tx env i oc status (s_id s) db)))"

section \<open>Steps of the chain\<close>

text \<open>
  The steps that change the chain tables, each one transaction: the five operations, called by
  anybody with any arguments, any clock and any failing statements, and the two rows the backend
  adds, a branch that has issued nothing and a bill without an invoice.
\<close>

definition new_branch :: "int \<Rightarrow> chainRow" where
  "new_branch branch =
     \<lparr>cr_branch_id = branch, cr_lastICV = 0, cr_previous = None, cr_ownerKey = None,
      cr_ownerToken = None, cr_reservedICV = None, cr_leaseEnd = None\<rparr>"

definition new_bill :: "int \<Rightarrow> int \<Rightarrow> int \<Rightarrow> bill_rec" where
  "new_bill bid branch state =
     \<lparr>bl_id = bid, bl_branch_id = branch, bl_state = state, bl_invoice_uuid = None,
      bl_invoice_hash = None, bl_qr_code = None\<rparr>"

datatype chain_op =
    OpBook sql_chain sql_env message
  | OpFree sql_env booking
  | OpCommit sql_env booking signed_invoice
  | OpRecord sql_env signed_invoice outcome

fun chain_call :: "chain_op \<Rightarrow> tenant_db \<Rightarrow> tenant_db" where
  "chain_call (OpBook c env msg) db = snd (Book c env msg db)"
| "chain_call (OpFree env b) db = snd (chain_Release env b db)"
| "chain_call (OpCommit env b i) db = snd (Commit env b i db)"
| "chain_call (OpRecord env i oc) db = snd (Record env i oc db)"

inductive chain_step :: "tenant_db \<Rightarrow> tenant_db \<Rightarrow> bool" where
  calls: "chain_step db (chain_call op db)"
| branch: "chain_of branch db = None \<Longrightarrow>
    chain_step db (db\<lparr>db_chains := db_chains db @ [new_branch branch]\<rparr>)"
| bill: "\<lbrakk>bill_of bid db = None; state \<noteq> 3\<rbrakk> \<Longrightarrow>
    chain_step db (db\<lparr>db_bills := db_bills db @ [new_bill bid branch state]\<rparr>)"

text \<open>The conditions under which the transactions write.\<close>

definition book_ok :: "time \<Rightarrow> message \<Rightarrow> chainRow \<Rightarrow> bool" where
  "book_ok now msg r \<longleftrightarrow> cr_lastICV r \<noteq> - 1 \<and>
     (leaseLive r now \<longrightarrow> ownedBy r (RequestKey msg) \<and> cr_ownerToken r = Some (m_EventID msg))"

definition bill_ok :: "booking \<Rightarrow> signed_invoice \<Rightarrow> bill_rec \<Rightarrow> bool" where
  "bill_ok b i bl \<longleftrightarrow> bl_branch_id bl = b_BranchID b \<and>
     \<not> carries_other (bl_invoice_uuid bl) (i_UUID i) \<and> \<not> carries_other (bl_invoice_hash bl) (i_Hash i)"

definition commit_ok :: "booking \<Rightarrow> signed_invoice \<Rightarrow> tenant_db \<Rightarrow> bool" where
  "commit_ok b i db \<longleftrightarrow>
     i_BranchID i = b_BranchID b \<and> i_ICV i = b_ICV b \<and> i_UUID i = b_UUID b \<and> i_PIH i = b_PIH b \<and>
     invoice_Validate i = None \<and>
     (\<exists>r. chain_of (b_BranchID b) db = Some r \<and> holds r b) \<and>
     (\<exists>bl. bill_of (i_SourceID i) db = Some bl \<and> bill_ok b i bl) \<and>
     (\<forall>s \<in> set (db_submissions db). s_bill_id s \<noteq> i_SourceID i)"

definition record_ok :: "outcome \<Rightarrow> signed_invoice \<Rightarrow> tenant_db \<Rightarrow> submission_row \<Rightarrow> int \<Rightarrow> bool" where
  "record_ok oc i db s status \<longleftrightarrow>
     submissionStatus (oc_State oc) = Inr status \<and>
     find (\<lambda>s. s_bill_id s = i_SourceID i) (db_submissions db) = Some s \<and>
     (\<exists>t \<in> set (db_submissions db). waiting (s_id s) t)"

text \<open>What each call leaves behind, whatever statements fail.\<close>

lemma loadChainRow_Inr: "loadChainRow p env branch db = Inr r \<Longrightarrow> chain_of branch db = Some r"
  by (auto simp: loadChainRow_def query_row_Inr split: sum.splits option.splits if_splits)

lemma booking_for_simps [simp]:
  "b_BranchID (booking_for r msg) = m_BranchID msg" "b_RequestKey (booking_for r msg) = RequestKey msg"
  "b_EventID (booking_for r msg) = m_EventID msg" "b_UUID (booking_for r msg) = m_InvoiceUUID msg"
  "b_ICV (booking_for r msg) = cr_lastICV r + 1" "b_PIH (booking_for r msg) = effectivePIH r"
  by (simp_all add: booking_for_def)

definition booked :: "sql_chain \<Rightarrow> sql_env \<Rightarrow> message \<Rightarrow> chainRow \<Rightarrow> tenant_db \<Rightarrow> tenant_db" where
  "booked c env msg r db = db\<lparr>db_chains :=
     upd (\<lambda>q. cr_branch_id q = m_BranchID msg) (reserve c env (booking_for r msg)) (db_chains db)\<rparr>"

definition freed :: "booking \<Rightarrow> tenant_db \<Rightarrow> tenant_db" where
  "freed b db = db\<lparr>db_chains := upd (own_booking b) unreserve (db_chains db)\<rparr>"

lemma Book_state:
  "Book c env msg db = (res, db') \<Longrightarrow> db' = db \<or>
     (\<exists>r. chain_of (m_BranchID msg) db = Some r \<and> book_ok (env_now env) msg r \<and> db' = booked c env msg r db)"
  by (auto simp: Book_def Let_def book_ok_def booked_def split: option.splits sum.splits prod.splits if_splits
      elim!: apply_at_cases dest!: loadChainRow_Inr)

lemma chain_Release_state: "chain_Release env b db = (e, db') \<Longrightarrow> db' = db \<or> db' = freed b db"
  by (auto simp: chain_Release_def freed_def split: option.splits prod.splits elim!: apply_at_cases)

lemma commit_bill_state:
  "commit_bill env b i db = (e, db') \<Longrightarrow> db' = db \<and> e \<noteq> None \<or>
     (\<exists>bl. bill_of (i_SourceID i) db = Some bl \<and> bill_ok b i bl) \<and>
     (\<forall>s \<in> set (db_submissions db). s_bill_id s \<noteq> i_SourceID i) \<and> db' = committed b i db"
  by (auto simp: commit_bill_def Let_def query_row_Inr bill_ok_def insert_submission_def
      split: option.splits sum.splits prod.splits if_splits elim!: apply_at_cases)

lemma Commit_state:
  "Commit env b i db = (e, db') \<Longrightarrow> db' = db \<and> e \<noteq> None \<or> commit_ok b i db \<and> db' = committed b i db"
  by (auto simp: Commit_def commit_ok_def split: option.splits sum.splits if_splits
      dest!: commit_bill_state loadChainRow_Inr)

lemma record_in_tx_state:
  "record_in_tx env i oc status sid db = (e, db') \<Longrightarrow> db' = db \<or>
     (\<exists>t \<in> set (db_submissions db). waiting sid t) \<and> db' = recorded env i oc status sid db"
  using changed_pos [of "waiting sid" "answer env oc status" "db_submissions db"]
  by (auto simp: record_in_tx_def Let_def split: option.splits prod.splits if_splits elim!: apply_at_cases)

lemma Record_state:
  "Record env i oc db = (e, db') \<Longrightarrow> db' = db \<or>
     (\<exists>s status. record_ok oc i db s status \<and> db' = recorded env i oc status (s_id s) db)"
  by (auto simp: Record_def record_ok_def query_row_Inr split: option.splits sum.splits if_splits
      dest!: record_in_tx_state)

text \<open>The effects of all steps together.\<close>

inductive chain_effect :: "tenant_db \<Rightarrow> tenant_db \<Rightarrow> bool" where
  idle: "chain_effect db db"
| books: "\<lbrakk>chain_of (m_BranchID msg) db = Some r; book_ok (env_now env) msg r\<rbrakk> \<Longrightarrow>
    chain_effect db (booked c env msg r db)"
| frees: "chain_effect db (freed b db)"
| commits: "commit_ok b i db \<Longrightarrow> chain_effect db (committed b i db)"
| records: "record_ok oc i db s status \<Longrightarrow> chain_effect db (recorded env i oc status (s_id s) db)"
| branch_added: "chain_of branch db = None \<Longrightarrow>
    chain_effect db (db\<lparr>db_chains := db_chains db @ [new_branch branch]\<rparr>)"
| bill_added: "\<lbrakk>bill_of bid db = None; state \<noteq> 3\<rbrakk> \<Longrightarrow>
    chain_effect db (db\<lparr>db_bills := db_bills db @ [new_bill bid branch state]\<rparr>)"

lemma chain_call_effect: "chain_effect db (chain_call op db)"
proof (cases op)
  case (OpBook c env msg)
  then show ?thesis
    using Book_state [OF prod.collapse [symmetric], of c env msg db] by (auto intro: chain_effect.intros)
next
  case (OpFree env b)
  then show ?thesis
    using chain_Release_state [OF prod.collapse [symmetric], of env b db] by (auto intro: chain_effect.intros)
next
  case (OpCommit env b i)
  then show ?thesis
    using Commit_state [OF prod.collapse [symmetric], of env b i db] by (auto intro: chain_effect.intros)
next
  case (OpRecord env i oc)
  then show ?thesis
    using Record_state [OF prod.collapse [symmetric], of env i oc db] by (auto intro: chain_effect.intros)
qed

lemma chain_step_effect: "chain_step db db' \<Longrightarrow> chain_effect db db'"
  by (induction rule: chain_step.induct) (auto intro: chain_call_effect chain_effect.intros)

section \<open>The chain invariant\<close>

text \<open>The submissions of a branch, in the order of their commits.\<close>

definition issued :: "int \<Rightarrow> tenant_db \<Rightarrow> submission_row list" where
  "issued branch db = filter (\<lambda>s. s_branch_id s = branch) (db_submissions db)"

text \<open>
  Numbered from 1 without a gap, each chained to the hash of the one before, the first to the
  genesis hash.
\<close>

definition linked :: "submission_row list \<Rightarrow> bool" where
  "linked subs \<longleftrightarrow>
     length subs < 2 ^ 64 \<and>
     map (\<lambda>s. unat (s_invoice_icv s)) subs = [1..<Suc (length subs)] \<and>
     map s_previous_invoice_hash subs = butlast (GenesisPIH # map s_invoice_hash subs)"

definition tip :: "submission_row list \<Rightarrow> chainRow \<Rightarrow> bool" where
  "tip subs r \<longleftrightarrow>
     unat (cr_lastICV r) = length subs \<and>
     effectivePIH r = last (GenesisPIH # map s_invoice_hash subs) \<and>
     (\<forall>v. cr_reservedICV r = Some v \<longrightarrow> unat v = Suc (length subs))"

definition chains_wf :: "tenant_db \<Rightarrow> bool" where
  "chains_wf db \<longleftrightarrow>
     distinct (map cr_branch_id (db_chains db)) \<and>
     (\<forall>branch. linked (issued branch db)) \<and>
     (\<forall>r \<in> set (db_chains db). tip (issued (cr_branch_id r) db) r) \<and>
     (\<forall>s \<in> set (db_submissions db). s_branch_id s \<in> cr_branch_id ` set (db_chains db))"

lemma linked_Nil [simp]: "linked []"
  by (simp add: linked_def)

lemma linked_snoc:
  assumes "linked subs" and "length subs + 1 < 2 ^ 64" and "unat (s_invoice_icv s) = Suc (length subs)"
    and "s_previous_invoice_hash s = last (GenesisPIH # map s_invoice_hash subs)"
  shows "linked (subs @ [s])"
proof -
  have "butlast (GenesisPIH # map s_invoice_hash (subs @ [s])) =
      butlast (GenesisPIH # map s_invoice_hash subs) @ [last (GenesisPIH # map s_invoice_hash subs)]"
    by (metis append_butlast_last_id append_Cons butlast_snoc list.distinct(1) map_append map_is_Nil_conv
        list.simps(8,9))
  then show ?thesis
    using assms by (simp add: linked_def)
qed

text \<open>The bookkeeping of the bills: unique rows, an issued bill has a submission that ZATCA accepted,
  and an invoiced bill carries its invoice's fields.\<close>

definition bills_wf :: "tenant_db \<Rightarrow> bool" where
  "bills_wf db \<longleftrightarrow>
     distinct (map bl_id (db_bills db)) \<and> distinct (map s_id (db_submissions db)) \<and>
     (\<forall>b \<in> set (db_bills db). bl_state b = 3 \<longrightarrow>
        (\<exists>s \<in> set (db_submissions db). s_bill_id s = bl_id b \<and>
           (s_outcome_state s = OutcomeAccepted \<or> s_outcome_state s = OutcomeWarning))) \<and>
     (\<forall>s \<in> set (db_submissions db).
        trim_space (s_invoice_uuid s) \<noteq> [] \<and> trim_space (s_invoice_hash s) \<noteq> [] \<and>
        (\<exists>b \<in> set (db_bills db). bl_id b = s_bill_id s \<and> bl_branch_id b = s_branch_id s \<and>
           bl_invoice_uuid b = Some (s_invoice_uuid s) \<and> bl_invoice_hash b = Some (s_invoice_hash s)))"


lemma chain_of_unique:
  assumes "distinct (map cr_branch_id (db_chains db))" and "r \<in> set (db_chains db)"
  shows "chain_of (cr_branch_id r) db = Some r"
  using find_distinct [OF assms] by (simp add: chain_of_def)

lemma chain_of_SomeD: "chain_of branch db = Some r \<Longrightarrow> r \<in> set (db_chains db) \<and> cr_branch_id r = branch"
  by (auto simp: chain_of_def dest: find_SomeD)

lemma chain_field_simps [simp]:
  "cr_branch_id (reserve c env b r) = cr_branch_id r" "cr_lastICV (reserve c env b r) = cr_lastICV r"
  "effectivePIH (reserve c env b r) = effectivePIH r" "cr_reservedICV (reserve c env b r) = Some (b_ICV b)"
  "cr_branch_id (unreserve r) = cr_branch_id r" "cr_lastICV (unreserve r) = cr_lastICV r"
  "effectivePIH (unreserve r) = effectivePIH r" "cr_reservedICV (unreserve r) = None"
  "cr_branch_id (advance i r) = cr_branch_id r" "cr_lastICV (advance i r) = i_ICV i"
  "cr_reservedICV (advance i r) = None"
  by (simp_all add: reserve_def unreserve_def advance_def effectivePIH_def)

lemma effectivePIH_advance: "i_Hash i \<noteq> [] \<Longrightarrow> effectivePIH (advance i r) = i_Hash i"
  by (simp add: advance_def unreserve_def effectivePIH_def)

lemma unat_succ: "(x :: u64) \<noteq> - 1 \<Longrightarrow> unat (x + 1) = Suc (unat x)"
  using unatSuc [of x] by (simp add: add.commute eq_neg_iff_add_eq_0)

text \<open>An update of the chain rows that keeps each branch at its tip keeps the invariant.\<close>

lemma chains_wf_chain_update:
  assumes "chains_wf db" and "\<And>r. cr_branch_id (f r) = cr_branch_id r"
    and "\<And>r. \<lbrakk>r \<in> set (db_chains db); P r; tip (issued (cr_branch_id r) db) r\<rbrakk> \<Longrightarrow>
      tip (issued (cr_branch_id r) db) (f r)"
  shows "chains_wf (db\<lparr>db_chains := upd P f (db_chains db)\<rparr>)"
proof -
  have "map cr_branch_id (upd P f (db_chains db)) = map cr_branch_id (db_chains db)"
    using assms(2) by (simp add: map_key_upd)
  then have "cr_branch_id ` set (upd P f (db_chains db)) = cr_branch_id ` set (db_chains db)"
    by (metis list.set_map)
  then show ?thesis
    using assms \<open>map cr_branch_id _ = _\<close>
    by (auto simp: chains_wf_def issued_def dest!: set_updE)
qed

lemma chains_wf_booked:
  assumes "chains_wf db" and "chain_of (m_BranchID msg) db = Some r" and "book_ok now msg r"
  shows "chains_wf (booked c env msg r db)"
  unfolding booked_def
proof (rule chains_wf_chain_update [OF assms(1)])
  fix q
  assume q: "q \<in> set (db_chains db)" "cr_branch_id q = m_BranchID msg"
    "tip (issued (cr_branch_id q) db) q"
  then have "q = r"
    using assms(1,2) chain_of_unique [of db q] by (simp add: chains_wf_def)
  then show "tip (issued (cr_branch_id q) db) (reserve c env (booking_for r msg) q)"
    using q(3) assms(3) by (simp add: tip_def unat_succ book_ok_def)
qed simp

lemma chains_wf_freed: "chains_wf db \<Longrightarrow> chains_wf (freed b db)"
  unfolding freed_def by (rule chains_wf_chain_update) (auto simp: tip_def)

lemma invoice_ValidD:
  assumes "invoice_Validate i = None"
  shows "0 < i_SourceID i" "0 < i_BranchID i" "isUUID (i_UUID i)" "i_ICV i \<noteq> 0"
    "trim_space (i_PIH i) \<noteq> []" "trim_space (i_Hash i) \<noteq> []" "trim_space (i_SignedXML i) \<noteq> []"
    "i_Kind i = InvoiceStandard \<or> i_Kind i = InvoiceSimplified"
  using assms by (auto simp: invoice_Validate_def split: if_splits)

lemma new_submission_simps [simp]:
  "s_id (new_submission db i) = next_submission_id db"
  "s_branch_id (new_submission db i) = i_BranchID i" "s_bill_id (new_submission db i) = i_SourceID i"
  "s_invoice_icv (new_submission db i) = i_ICV i" "s_previous_invoice_hash (new_submission db i) = i_PIH i"
  "s_invoice_hash (new_submission db i) = i_Hash i" "s_invoice_uuid (new_submission db i) = i_UUID i"
  "s_outcome_state (new_submission db i) = outcomePending"
  by (simp_all add: new_submission_def)

lemma issued_committed:
  "issued branch (committed b i db) =
     issued branch db @ (if branch = i_BranchID i then [new_submission db i] else [])"
  by (simp add: issued_def committed_def)

lemma chains_wf_committed:
  assumes wf: "chains_wf db" and ok: "commit_ok b i db"
  shows "chains_wf (committed b i db)"
proof -
  from ok obtain r where r: "chain_of (b_BranchID b) db = Some r" "holds r b"
    and i: "i_BranchID i = b_BranchID b" "i_ICV i = b_ICV b" "i_PIH i = b_PIH b" "invoice_Validate i = None"
    by (auto simp: commit_ok_def)
  let ?n = "length (issued (b_BranchID b) db)"
  have row: "r \<in> set (db_chains db)" "cr_branch_id r = b_BranchID b"
    using chain_of_SomeD [OF r(1)] by auto
  then have tip: "tip (issued (b_BranchID b) db) r"
    using wf by (auto simp: chains_wf_def)
  have icv: "unat (i_ICV i) = Suc ?n" and pih: "i_PIH i = last (GenesisPIH # map s_invoice_hash (issued (b_BranchID b) db))"
    using tip r(2) i by (auto simp: tip_def holds_def)
  have "Suc ?n < 2 ^ 64"
    using icv unsigned_less [of "i_ICV i", where 'a = nat] by simp
  then have linked: "linked (issued branch (committed b i db))" for branch
    using wf i icv pih linked_snoc [of "issued (b_BranchID b) db" "new_submission db i"]
    by (simp add: issued_committed chains_wf_def)
  have "i_Hash i \<noteq> []"
    using invoice_ValidD(6) [OF i(4)] by auto
  then have moved: "tip (issued (b_BranchID b) (committed b i db)) (advance i q)" for q
    using icv i by (simp add: tip_def issued_committed effectivePIH_advance)
  have keys: "map cr_branch_id (db_chains (committed b i db)) = map cr_branch_id (db_chains db)"
    by (simp add: committed_def map_key_upd)
  have "tip (issued (cr_branch_id q) (committed b i db)) q"
    if q: "q \<in> set (db_chains (committed b i db))" for q
  proof -
    obtain p where "p \<in> set (db_chains db)" "q = (if cr_branch_id p = b_BranchID b then advance i p else p)"
      using q by (auto simp: committed_def dest!: set_updE)
    then show ?thesis
      using moved wf i by (auto simp: chains_wf_def issued_committed)
  qed
  moreover have "s_branch_id s \<in> cr_branch_id ` set (db_chains (committed b i db))"
    if "s \<in> set (db_submissions (committed b i db))" for s
  proof -
    have "s_branch_id s \<in> set (map cr_branch_id (db_chains db))"
      using that wf row(1) row(2) [symmetric] i(1) by (auto simp: committed_def chains_wf_def)
    then show ?thesis
      unfolding keys [symmetric] by simp
  qed
  ultimately show ?thesis
    using wf linked unfolding chains_wf_def keys by blast
qed


lemma answer_simps [simp]:
  "s_id (answer env oc st s) = s_id s" "s_bill_id (answer env oc st s) = s_bill_id s"
  "s_branch_id (answer env oc st s) = s_branch_id s" "s_invoice_icv (answer env oc st s) = s_invoice_icv s"
  "s_previous_invoice_hash (answer env oc st s) = s_previous_invoice_hash s"
  "s_invoice_uuid (answer env oc st s) = s_invoice_uuid s"
  "s_invoice_hash (answer env oc st s) = s_invoice_hash s"
  "s_invoice_kind (answer env oc st s) = s_invoice_kind s"
  "s_signed_xml (answer env oc st s) = s_signed_xml s"
  "s_outcome_state (answer env oc st s) = oc_State oc"
  by (simp_all add: answer_def Let_def)

lemma issued_recorded:
  "issued branch (recorded env i oc st sid db) = upd (waiting sid) (answer env oc st) (issued branch db)"
  by (simp add: issued_def recorded_def filter_upd)

lemma linked_recorded [simp]: "linked (upd P (answer env oc st) subs) = linked subs"
  by (simp add: linked_def map_key_upd)

lemma tip_recorded [simp]: "tip (upd P (answer env oc st) subs) r = tip subs r"
  by (simp add: tip_def map_key_upd)

lemma chains_wf_recorded: "chains_wf db \<Longrightarrow> chains_wf (recorded env i oc st sid db)"
  by (auto simp: chains_wf_def issued_recorded) (auto simp: recorded_def dest!: set_updE split: if_splits)

lemma chains_wf_branch:
  assumes "chains_wf db" and "chain_of branch db = None"
  shows "chains_wf (db\<lparr>db_chains := db_chains db @ [new_branch branch]\<rparr>)"
proof -
  have "branch \<notin> cr_branch_id ` set (db_chains db)"
    using assms(2) by (auto simp: chain_of_def find_None_iff)
  moreover from this have "issued branch db = []"
    using assms(1) by (auto simp: chains_wf_def issued_def filter_empty_conv)
  ultimately show ?thesis
    using assms(1)
    by (auto simp: chains_wf_def issued_def new_branch_def tip_def effectivePIH_def image_iff)
qed

lemma chain_effect_wf:
  assumes "chain_effect db db'" and "chains_wf db"
  shows "chains_wf db'"
  using assms
proof (induction rule: chain_effect.induct)
  case (bill_added bid db state branch)
  then show ?case by (simp add: chains_wf_def issued_def)
qed (auto intro: chains_wf_booked chains_wf_freed chains_wf_committed chains_wf_recorded chains_wf_branch)


section \<open>Immutability and the bills\<close>

lemma next_id_fresh: "s \<in> set (db_submissions db) \<Longrightarrow> s_id s < next_submission_id db"
proof -
  have "\<forall>x \<in> set xs. x \<le> fold max xs a \<and> a \<le> fold max xs a" "a \<le> fold max xs a" for xs :: "nat list" and a
  proof (induction xs arbitrary: a)
    case (Cons y ys)
    { case 1 then show ?case using Cons(1) [of "max y a"] Cons(2) [of "max y a"] by (auto intro: order_trans) }
    { case 2 then show ?case using Cons(2) [of "max y a"] by (auto intro: order_trans) }
  qed simp_all
  then show "s \<in> set (db_submissions db) \<Longrightarrow> s_id s < next_submission_id db"
    by (force simp: next_submission_id_def less_Suc_eq_le)
qed

text \<open>The fields of a submission that its commit fixes.\<close>

definition sealed :: "submission_row \<Rightarrow> nat \<times> int \<times> int \<times> u64 \<times> string \<times> string \<times> string \<times> string \<times> string" where
  "sealed s = (s_id s, s_bill_id s, s_branch_id s, s_invoice_icv s, s_previous_invoice_hash s,
     s_invoice_uuid s, s_invoice_hash s, s_invoice_kind s, s_signed_xml s)"

text \<open>A later version of a submission: the same invoice, and the same row once it is answered.\<close>

definition successor :: "submission_row \<Rightarrow> submission_row \<Rightarrow> bool" where
  "successor s s' \<longleftrightarrow> sealed s' = sealed s \<and> (s_outcome_state s \<noteq> outcomePending \<longrightarrow> s' = s)"

lemma successor_refl [simp]: "successor s s"
  by (simp add: successor_def)

lemma successor_trans: "successor a b \<Longrightarrow> successor b c \<Longrightarrow> successor a c"
  by (auto simp: successor_def)

lemma sealed_answer [simp]: "sealed (answer env oc st s) = sealed s"
  by (simp add: sealed_def)

lemma chain_effect_successor:
  assumes "chain_effect db db'" and "s \<in> set (db_submissions db)"
  shows "\<exists>s' \<in> set (db_submissions db'). successor s s'"
  using assms
proof (induction rule: chain_effect.induct)
  case (records oc i db t status env)
  then have "(if waiting (s_id t) s then answer env oc status s else s)
      \<in> set (db_submissions (recorded env i oc status (s_id t) db))"
    by (auto simp: recorded_def upd_def)
  moreover have "successor s (if waiting (s_id t) s then answer env oc status s else s)"
    by (simp add: successor_def waiting_def)
  ultimately show ?case ..
qed (auto simp: committed_def booked_def freed_def intro: bexI [of _ s])

inductive reachable :: "tenant_db \<Rightarrow> tenant_db \<Rightarrow> bool" for db where
  start: "reachable db db"
| further: "reachable db db1 \<Longrightarrow> chain_step db1 db2 \<Longrightarrow> reachable db db2"

lemma commit_ok_bill:
  assumes wf: "bills_wf db" and ok: "commit_ok b i db"
  obtains bl where "bl \<in> set (db_bills db)" and "bl_id bl = i_SourceID i" and "bl_branch_id bl = b_BranchID b"
    and "\<not> carries_other (bl_invoice_uuid bl) (i_UUID i)" and "\<not> carries_other (bl_invoice_hash bl) (i_Hash i)"
    and "\<And>q. q \<in> set (db_bills db) \<Longrightarrow> bl_id q = i_SourceID i \<Longrightarrow> q = bl"
    and "bill_invoiced i bl \<in> set (db_bills (committed b i db))"
proof -
  from ok obtain bl where bl: "bill_of (i_SourceID i) db = Some bl" "bl_branch_id bl = b_BranchID b"
    "\<not> carries_other (bl_invoice_uuid bl) (i_UUID i)" "\<not> carries_other (bl_invoice_hash bl) (i_Hash i)"
    by (auto simp: commit_ok_def bill_ok_def)
  have bill: "bl \<in> set (db_bills db)" "bl_id bl = i_SourceID i"
    using bl(1) by (auto simp: bill_of_def dest: find_SomeD)
  have unique: "q = bl" if "q \<in> set (db_bills db)" "bl_id q = i_SourceID i" for q
    using wf find_distinct [of bl_id "db_bills db" q] that bl(1) by (simp add: bills_wf_def bill_of_def)
  have "bill_invoiced i bl \<in> set (db_bills (committed b i db))"
    using bill bl(2) by (auto simp: committed_def upd_def)
  with bill bl(2-4) unique show thesis
    by (rule that)
qed

text \<open>The bill of a submission carries its invoice.\<close>

definition carried :: "tenant_db \<Rightarrow> submission_row \<Rightarrow> bool" where
  "carried db s \<longleftrightarrow> (\<exists>q \<in> set (db_bills db). bl_id q = s_bill_id s \<and> bl_branch_id q = s_branch_id s \<and>
     bl_invoice_uuid q = Some (s_invoice_uuid s) \<and> bl_invoice_hash q = Some (s_invoice_hash s))"

lemma bills_wf_carried:
  "bills_wf db \<Longrightarrow> s \<in> set (db_submissions db) \<Longrightarrow>
     carried db s \<and> trim_space (s_invoice_uuid s) \<noteq> [] \<and> trim_space (s_invoice_hash s) \<noteq> []"
  by (simp add: bills_wf_def carried_def)

lemma committed_carried:
  assumes wf: "bills_wf db" and ok: "commit_ok b i db" and s: "s \<in> set (db_submissions db)"
  shows "carried (committed b i db) s"
proof -
  obtain bl where bl: "bl \<in> set (db_bills db)" "bl_id bl = i_SourceID i" "bl_branch_id bl = b_BranchID b"
    "\<not> carries_other (bl_invoice_uuid bl) (i_UUID i)" "\<not> carries_other (bl_invoice_hash bl) (i_Hash i)"
    and unique: "\<And>q. q \<in> set (db_bills db) \<Longrightarrow> bl_id q = i_SourceID i \<Longrightarrow> q = bl"
    and new: "bill_invoiced i bl \<in> set (db_bills (committed b i db))"
    using commit_ok_bill [OF wf ok] by metis
  from bills_wf_carried [OF wf s] obtain q where q: "q \<in> set (db_bills db)" "bl_id q = s_bill_id s" "bl_branch_id q = s_branch_id s"
    "bl_invoice_uuid q = Some (s_invoice_uuid s)" "bl_invoice_hash q = Some (s_invoice_hash s)"
    and blank: "trim_space (s_invoice_uuid s) \<noteq> []" "trim_space (s_invoice_hash s) \<noteq> []"
    by (auto simp: carried_def)
  show ?thesis
  proof (cases "bl_id q = i_SourceID i \<and> bl_branch_id q = b_BranchID b")
    case True
    with unique q have "q = bl" by simp
    then have "i_UUID i = s_invoice_uuid s" "i_Hash i = s_invoice_hash s"
      using bl(4,5) q(4,5) blank by (auto simp: carries_other_def)
    then show ?thesis
      using \<open>q = bl\<close> q new unfolding carried_def
      by (intro bexI [of _ "bill_invoiced i bl"]) (simp_all add: bill_invoiced_def)
  next
    case False
    then have "q \<in> set (db_bills (committed b i db))"
      using q(1) by (force simp: committed_def upd_def)
    with q show ?thesis
      unfolding carried_def by blast
  qed
qed

lemma bills_wf_committed:
  assumes wf: "bills_wf db" and ok: "commit_ok b i db"
  shows "bills_wf (committed b i db)"
proof -
  have i: "i_BranchID i = b_BranchID b" "invoice_Validate i = None"
    using ok by (auto simp: commit_ok_def)
  obtain bl where bl: "bl_id bl = i_SourceID i" "bl_branch_id bl = b_BranchID b"
    "bill_invoiced i bl \<in> set (db_bills (committed b i db))"
    using commit_ok_bill [OF wf ok] by metis
  have "map bl_id (db_bills (committed b i db)) = map bl_id (db_bills db)"
    by (simp add: committed_def map_key_upd bill_invoiced_def)
  moreover have "next_submission_id db \<notin> s_id ` set (db_submissions db)"
    using next_id_fresh by fastforce
  then have "distinct (map s_id (db_submissions (committed b i db)))"
    using wf by (simp add: committed_def bills_wf_def)
  moreover have "\<exists>s \<in> set (db_submissions (committed b i db)). s_bill_id s = bl_id q \<and>
      (s_outcome_state s = OutcomeAccepted \<or> s_outcome_state s = OutcomeWarning)"
    if q: "q \<in> set (db_bills (committed b i db))" "bl_state q = 3" for q
  proof -
    obtain p where "p \<in> set (db_bills db)" "bl_state p = 3" "bl_id p = bl_id q"
      using q by (auto simp: committed_def bill_invoiced_def dest!: set_updE split: if_splits)
    then show ?thesis
      using wf by (fastforce simp: bills_wf_def committed_def)
  qed
  moreover have "trim_space (i_UUID i) \<noteq> []" "trim_space (i_Hash i) \<noteq> []"
    using invoice_ValidD(3,6) [OF i(2)] isUUID_not_blank by auto
  moreover have "carried (committed b i db) (new_submission db i)"
    using bl i(1) unfolding carried_def by (intro bexI [of _ "bill_invoiced i bl"]) (simp_all add: bill_invoiced_def)
  moreover have "set (db_submissions (committed b i db)) = insert (new_submission db i) (set (db_submissions db))"
    by (simp add: committed_def)
  ultimately show ?thesis
    using wf committed_carried [OF wf ok] unfolding bills_wf_def carried_def
    by (simp only: ball_simps insert_iff new_submission_simps) blast
qed

lemma recorded_carried:
  assumes wf: "bills_wf db" and s: "s \<in> set (db_submissions db)"
  shows "carried (recorded env i oc st k db) s"
proof -
  let ?acc = "oc_State oc = OutcomeAccepted \<or> oc_State oc = OutcomeWarning"
  from bills_wf_carried [OF wf s] obtain q where q: "q \<in> set (db_bills db)" "bl_id q = s_bill_id s" "bl_branch_id q = s_branch_id s"
    "bl_invoice_uuid q = Some (s_invoice_uuid s)" "bl_invoice_hash q = Some (s_invoice_hash s)"
    by (auto simp: carried_def)
  let ?q = "if ?acc \<and> bl_id q = i_SourceID i then q\<lparr>bl_state := 3\<rparr> else q"
  have "?q \<in> set (db_bills (recorded env i oc st k db))"
    using q(1) by (auto simp: recorded_def upd_def)
  then show ?thesis
    using q unfolding carried_def by (intro bexI [of _ ?q]) auto
qed

lemma bills_wf_recorded:
  assumes wf: "bills_wf db" and ok: "record_ok oc i db t st"
  shows "bills_wf (recorded env i oc st (s_id t) db)"
proof -
  let ?f = "\<lambda>s. if waiting (s_id t) s then answer env oc st s else s"
  let ?acc = "oc_State oc = OutcomeAccepted \<or> oc_State oc = OutcomeWarning"
  have subs: "set (db_submissions (recorded env i oc st (s_id t) db)) = ?f ` set (db_submissions db)"
    by (simp add: recorded_def upd_def)
  have t': "t \<in> set (db_submissions db)" "s_bill_id t = i_SourceID i"
    using ok by (auto simp: record_ok_def dest: find_SomeD)
  obtain u where u: "u \<in> set (db_submissions db)" "waiting (s_id t) u"
    using ok by (auto simp: record_ok_def)
  then have "u = t"
    using wf t'(1) by (auto simp: bills_wf_def waiting_def distinct_map dest: inj_onD)
  then have tf: "?f t = answer env oc st t"
    using u by simp
  have issued_kept: "\<exists>s \<in> ?f ` set (db_submissions db). s_bill_id s = bl_id q \<and>
      (s_outcome_state s = OutcomeAccepted \<or> s_outcome_state s = OutcomeWarning)"
    if q: "q \<in> set (db_bills db)" "bl_state q = 3" for q
  proof -
    obtain s where s: "s \<in> set (db_submissions db)" "s_bill_id s = bl_id q"
      "s_outcome_state s = OutcomeAccepted \<or> s_outcome_state s = OutcomeWarning"
      using wf q by (auto simp: bills_wf_def)
    then have "s = ?f s"
      by (auto simp: waiting_def outcome_defs)
    from image_eqI [of s ?f, OF this s(1)] s(2,3) show ?thesis by blast
  qed
  have newly: "\<exists>s \<in> ?f ` set (db_submissions db). s_bill_id s = i_SourceID i \<and>
      (s_outcome_state s = OutcomeAccepted \<or> s_outcome_state s = OutcomeWarning)" if ?acc
    using that t' tf by (intro bexI [of _ "?f t"] imageI) simp_all
  have bills: "\<exists>p \<in> set (db_bills db). q = (if ?acc \<and> bl_id p = i_SourceID i then p\<lparr>bl_state := 3\<rparr> else p)"
    if "q \<in> set (db_bills (recorded env i oc st (s_id t) db))" for q
    using that by (auto simp: recorded_def dest!: set_updE split: if_splits)
  have keys: "map bl_id (db_bills (recorded env i oc st (s_id t) db)) = map bl_id (db_bills db)"
    "map s_id (db_submissions (recorded env i oc st (s_id t) db)) = map s_id (db_submissions db)"
    by (simp_all add: recorded_def map_key_upd)
  have "\<exists>s \<in> ?f ` set (db_submissions db). s_bill_id s = bl_id q \<and>
      (s_outcome_state s = OutcomeAccepted \<or> s_outcome_state s = OutcomeWarning)"
    if "q \<in> set (db_bills (recorded env i oc st (s_id t) db))" "bl_state q = 3" for q
    using bills [OF that(1)] that(2) issued_kept newly by (auto split: if_splits)
  then show ?thesis
    using wf recorded_carried [OF wf] unfolding bills_wf_def carried_def keys subs by auto
qed

lemma chain_effect_bills:
  assumes "chain_effect db db'" and "bills_wf db"
  shows "bills_wf db'"
  using assms
proof (induction rule: chain_effect.induct)
  case (commits b i db)
  then show ?case by (auto intro: bills_wf_committed)
next
  case (records oc i db s status env)
  then show ?case by (auto intro: bills_wf_recorded)
next
  case (bill_added bid db state branch)
  then have "bid \<notin> bl_id ` set (db_bills db)"
    by (auto simp: bill_of_def find_None_iff)
  then show ?case
    using bill_added by (fastforce simp: bills_wf_def new_bill_def)
qed (auto simp: bills_wf_def booked_def freed_def)

lemma reachable_invariant:
  assumes "reachable db db'" and "\<And>a b. \<lbrakk>chain_effect a b; I a\<rbrakk> \<Longrightarrow> I b" and "I db"
  shows "I db'"
  using assms(1) by (induction rule: reachable.induct) (use assms(2,3) chain_step_effect in blast)+

lemma bills_wf_unique:
  assumes "bills_wf db" and "s \<in> set (db_submissions db)" and "t \<in> set (db_submissions db)"
    and "s_bill_id s = s_bill_id t"
  shows "s_invoice_uuid s = s_invoice_uuid t \<and> s_invoice_hash s = s_invoice_hash t"
proof -
  obtain b where b: "b \<in> set (db_bills db)" "bl_id b = s_bill_id s" "bl_invoice_uuid b = Some (s_invoice_uuid s)"
    "bl_invoice_hash b = Some (s_invoice_hash s)"
    using assms(1,2) unfolding bills_wf_def by blast
  obtain c where c: "c \<in> set (db_bills db)" "bl_id c = s_bill_id t" "bl_invoice_uuid c = Some (s_invoice_uuid t)"
    "bl_invoice_hash c = Some (s_invoice_hash t)"
    using assms(1,3) unfolding bills_wf_def by blast
  have "distinct (map bl_id (db_bills db))"
    using assms(1) unfolding bills_wf_def by blast
  then have "b = c"
    using b(1,2) c(1,2) assms(4) by (auto simp: distinct_map inj_on_def)
  then show ?thesis
    using b(3,4) c(3,4) by simp
qed

end
