(* ===== verification/Chain_Laws.thy ===== *)
theory Chain_Laws
  imports Invoice_Chain
begin

text \<open>
  What the invoice chain guarantees: the numbering and hash linking of every branch over all
  reachable databases, the immutability of committed invoices and recorded answers, the exclusion
  by a booking's lease, the exact conditions of a commit, and the round trips through the tables.
\<close>

section \<open>A sample run\<close>

definition sample_start :: tenant_db where
  "sample_start = empty_db\<lparr>db_chains := [new_branch 7], db_bills := [new_bill 42 7 1]\<rparr>"

definition sample_booking :: booking where
  "sample_booking = booking_for (new_branch 7) sample_message"

definition sample_booked :: tenant_db where
  "sample_booked = sample_start\<lparr>db_chains := [reserve NewSQLChain (healthy_env 0) sample_booking (new_branch 7)]\<rparr>"

definition sample_invoice :: signed_invoice where
  "sample_invoice =
     \<lparr>i_SourceID = 42, i_BranchID = 7, i_UUID = ''0c4f7a1e-2b3d-4e5f-8a9b-1c2d3e4f5a6b'', i_ICV = 1,
      i_PIH = GenesisPIH, i_Hash = ''hash-1'', i_Kind = InvoiceSimplified, i_SignedXML = ''xml'',
      i_QR = ''qr'', i_Outcome = [], i_OutcomeEvidence = EvidenceUnspecified, i_EvidenceID = [],
      i_ProviderCode = [], i_OutcomeMessage = []\<rparr>"

lemma sample_Book: "Book NewSQLChain (healthy_env 0) sample_message sample_start = (Inr sample_booking, sample_booked)"
  by (simp add: Book_def loadChainRow_def chain_of_def sample_start_def new_branch_def Let_def
      sample_booked_def sample_booking_def leaseLive_def ownedBy_def)

lemma sample_invoice_valid: "invoice_Validate sample_invoice = None"
  by (simp add: invoice_Validate_def sample_invoice_def sample_uuid GenesisPIH_def trim_space_graphic
      graphic_def)

lemma sample_Commit:
  "Commit (healthy_env 1) sample_booking sample_invoice sample_booked =
     (None, committed sample_booking sample_invoice sample_booked)"
proof -
  have row: "loadChainRow CommitLock (healthy_env 1) 7 sample_booked =
      Inr (reserve NewSQLChain (healthy_env 0) sample_booking (new_branch 7))"
    by (simp add: loadChainRow_def chain_of_def sample_booked_def sample_booking_def new_branch_def reserve_def)
  have "holds (reserve NewSQLChain (healthy_env 0) sample_booking (new_branch 7)) sample_booking"
    by (simp add: holds_def ownedBy_def sample_booking_def new_branch_def)
      (simp add: reserve_def booking_for_def effectivePIH_def)
  then show ?thesis
    using row sample_invoice_valid
    by (simp add: Commit_def commit_bill_def insert_submission_def sample_booking_def sample_invoice_def bill_of_def
        sample_booked_def sample_start_def new_bill_def carries_other_def effectivePIH_def new_branch_def)
qed

lemma sample_booked_reachable: "reachable empty_db sample_booked"
proof -
  have "chain_step empty_db (empty_db\<lparr>db_chains := [new_branch 7]\<rparr>)"
    using chain_step.branch [of 7 empty_db] by (simp add: chain_of_def)
  moreover have "chain_step (empty_db\<lparr>db_chains := [new_branch 7]\<rparr>) sample_start"
    using chain_step.bill [of 42 "empty_db\<lparr>db_chains := [new_branch 7]\<rparr>" 1 7]
    by (simp add: bill_of_def sample_start_def)
  moreover have "chain_step sample_start sample_booked"
    using chain_step.calls [of sample_start "OpBook NewSQLChain (healthy_env 0) sample_message"] sample_Book
    by simp
  ultimately show ?thesis
    by (meson reachable.intros)
qed

lemma sample_reachable: "reachable empty_db (committed sample_booking sample_invoice sample_booked)"
  using reachable.further [OF sample_booked_reachable
      chain_step.calls [of sample_booked "OpCommit (healthy_env 1) sample_booking sample_invoice"]]
  by (simp add: sample_Commit)

section \<open>Numbering and linking\<close>

lemma empty_chains_wf: "chains_wf empty_db" and empty_bills_wf: "bills_wf empty_db"
  by (simp_all add: chains_wf_def bills_wf_def issued_def)

lemma reachable_chains: "reachable db db' \<Longrightarrow> chains_wf db \<Longrightarrow> chains_wf db'"
  by (erule reachable_invariant [where I = chains_wf]) (rule chain_effect_wf)

lemma reachable_bills: "reachable db db' \<Longrightarrow> bills_wf db \<Longrightarrow> bills_wf db'"
  by (erule reachable_invariant [where I = bills_wf]) (rule chain_effect_bills)

lemma linked_distinct: "linked subs \<Longrightarrow> distinct (map s_invoice_icv subs)"
proof -
  assume "linked subs"
  then have "map unat (map s_invoice_icv subs) = [1..<Suc (length subs)]"
    by (simp add: linked_def comp_def)
  then have "distinct (map unat (map s_invoice_icv subs))"
    by (metis distinct_upt)
  then show "distinct (map s_invoice_icv subs)"
    using distinct_map by blast
qed

text \<open>C1: in every database reachable from an empty one, by any interleaving of bookings,
  releases, commits and records with any arguments and any failing or unanswered statements, the
  invoices of each branch carry the counter values 1, 2, 3, ... without a gap, a repetition or a
  wrap-around, each carries the hash of the one before (the first the genesis hash), and the
  branch's row points at the last.\<close>

theorem chain_always_linked:
  assumes "reachable empty_db db"
  shows "map (\<lambda>s. unat (s_invoice_icv s)) (issued branch db) = [1..<Suc (length (issued branch db))] \<and>
    distinct (map s_invoice_icv (issued branch db)) \<and>
    map s_previous_invoice_hash (issued branch db) =
      butlast (GenesisPIH # map s_invoice_hash (issued branch db)) \<and>
    (case chain_of branch db of
       None \<Rightarrow> issued branch db = []
     | Some r \<Rightarrow> unat (cr_lastICV r) = length (issued branch db) \<and>
         effectivePIH r = last (GenesisPIH # map s_invoice_hash (issued branch db)))"
proof -
  have wf: "chains_wf db"
    using reachable_chains [OF assms empty_chains_wf] .
  then have linked: "linked (issued branch db)"
    by (simp add: chains_wf_def)
  have "issued branch db = []" if "chain_of branch db = None"
    using wf that by (fastforce simp: chains_wf_def issued_def chain_of_def find_None_iff filter_empty_conv)
  moreover have "tip (issued branch db) r" if "chain_of branch db = Some r" for r
    using wf chain_of_SomeD [OF that] by (auto simp: chains_wf_def)
  ultimately show ?thesis
    using linked linked_distinct [OF linked] by (auto simp: linked_def tip_def split: option.split)
qed

theorem chain_always_linked_witness:
  "map (\<lambda>s. unat (s_invoice_icv s)) (issued 7 (committed sample_booking sample_invoice sample_booked)) =
     [1..<Suc (length (issued 7 (committed sample_booking sample_invoice sample_booked)))] \<and>
   length (issued 7 (committed sample_booking sample_invoice sample_booked)) = 1"
  using chain_always_linked [OF sample_reachable, of 7]
  by (simp add: issued_def committed_def sample_booked_def sample_start_def sample_invoice_def)

section \<open>Immutability\<close>

text \<open>C3: once an invoice is committed it is in every later database with the same bill, branch,
  counter, hashes, UUID, kind and signed XML, and once an answer is recorded for it the whole row
  never changes again: the first answer stands.\<close>

theorem committed_invoices_immutable:
  assumes "reachable db db'" and "s \<in> set (db_submissions db)"
  shows "\<exists>s' \<in> set (db_submissions db'). sealed s' = sealed s \<and>
    (s_outcome_state s \<noteq> outcomePending \<longrightarrow> s' = s)"
proof -
  from assms(1) have "\<exists>s' \<in> set (db_submissions db'). successor s s'"
  proof (induction rule: reachable.induct)
    case (further db1 db2)
    then obtain s1 where "s1 \<in> set (db_submissions db1)" "successor s s1" by blast
    moreover obtain s2 where "s2 \<in> set (db_submissions db2)" "successor s1 s2"
      using chain_effect_successor [OF chain_step_effect [OF further(2)]] calculation by blast
    ultimately show ?case
      using successor_trans by blast
  qed (use assms(2) successor_refl in blast)
  then show ?thesis
    by (simp add: successor_def)
qed

theorem committed_invoices_immutable_witness:
  "\<exists>s' \<in> set (db_submissions (chain_call (OpRecord (healthy_env 2) sample_invoice
       \<lparr>oc_State = OutcomeAccepted, oc_ProviderCode = ''200'', oc_Message = [], oc_Evidence = EvidenceProvider,
        oc_EvidenceID = []\<rparr>) (committed sample_booking sample_invoice sample_booked))).
     sealed s' = sealed (new_submission sample_booked sample_invoice)"
proof -
  let ?db = "committed sample_booking sample_invoice sample_booked"
  have "new_submission sample_booked sample_invoice \<in> set (db_submissions ?db)"
    by (simp add: committed_def)
  then show ?thesis
    using committed_invoices_immutable [OF reachable.further [OF reachable.start chain_step.calls], of _ ?db]
    by blast
qed

text \<open>C21: in every reachable database a bill is marked issued (state 3) only when a submission of
  it was answered accepted or accepted with a warning, and all submissions of one bill carry the
  same UUID and the same hash, those of the bill.\<close>

theorem issued_bills_accepted:
  assumes "reachable empty_db db"
  shows "(\<forall>b \<in> set (db_bills db). bl_state b = 3 \<longrightarrow>
      (\<exists>s \<in> set (db_submissions db). s_bill_id s = bl_id b \<and>
         (s_outcome_state s = OutcomeAccepted \<or> s_outcome_state s = OutcomeWarning))) \<and>
    (\<forall>s \<in> set (db_submissions db). \<forall>t \<in> set (db_submissions db). s_bill_id s = s_bill_id t \<longrightarrow>
       s_invoice_uuid s = s_invoice_uuid t \<and> s_invoice_hash s = s_invoice_hash t)"
proof -
  have wf: "bills_wf db"
    using reachable_bills [OF assms empty_bills_wf] .
  then show ?thesis
    using bills_wf_unique [OF wf] unfolding bills_wf_def by blast
qed

theorem issued_bills_accepted_witness:
  "filter (\<lambda>b. bl_state b = 3) (db_bills (committed sample_booking sample_invoice sample_booked)) = []"
  using issued_bills_accepted [OF sample_reachable]
  by (auto simp: filter_empty_conv committed_def sample_booked_def sample_start_def outcome_defs)

section \<open>Bookings\<close>

text \<open>A call that does not act for the holder \<open>(key, event)\<close> of a booking, made before \<open>t\<close>.\<close>

fun foreign :: "string \<Rightarrow> string \<Rightarrow> time \<Rightarrow> chain_op \<Rightarrow> bool" where
  "foreign key event t (OpBook c env msg) \<longleftrightarrow>
     env_now env < t \<and> (RequestKey msg \<noteq> key \<or> m_EventID msg \<noteq> event)"
| "foreign key event t (OpFree env b) \<longleftrightarrow> b_RequestKey b \<noteq> key \<or> b_EventID b \<noteq> event"
| "foreign key event t (OpCommit env b i) \<longleftrightarrow> b_RequestKey b \<noteq> key \<or> b_EventID b \<noteq> event"
| "foreign key event t (OpRecord env i oc) \<longleftrightarrow> True"

lemma upd_keeps: "r \<in> set rows \<Longrightarrow> \<not> P r \<Longrightarrow> r \<in> set (upd P f rows)"
  by (force simp: upd_def)

lemma foreign_call_keeps:
  assumes "distinct (map cr_branch_id (db_chains db))" and r: "r \<in> set (db_chains db)"
    and "cr_leaseEnd r = Some t" and "cr_ownerKey r = Some key" and "cr_ownerToken r = Some event"
    and "foreign key event t op"
  shows "r \<in> set (db_chains (chain_call op db))"
proof -
  have here: "chain_of branch db = Some q \<Longrightarrow> cr_branch_id r = branch \<Longrightarrow> q = r" for branch q
    using chain_of_unique [OF assms(1,2)] by auto
  show ?thesis
  proof (cases op)
    case (OpBook c env msg)
    have "cr_branch_id r \<noteq> m_BranchID msg" if "chain_of (m_BranchID msg) db = Some q" "book_ok (env_now env) msg q" for q
      using here [OF that(1)] that(2) assms(3-6) OpBook by (auto simp: leaseLive_def ownedBy_def book_ok_def)
    then show ?thesis
      using OpBook r Book_state [OF prod.collapse [symmetric], of c env msg db] by (auto simp: booked_def upd_keeps)
  next
    case (OpFree env b)
    have "\<not> own_booking b r"
      using assms(4-6) OpFree by (auto simp: own_booking_def)
    then show ?thesis
      using OpFree r chain_Release_state [OF prod.collapse [symmetric], of env b db] by (auto simp: freed_def upd_keeps)
  next
    case (OpCommit env b i)
    have "cr_branch_id r \<noteq> b_BranchID b" if "chain_of (b_BranchID b) db = Some q" "holds q b" for q
      using here [OF that(1)] that(2) assms(4-6) OpCommit by (auto simp: holds_def ownedBy_def)
    then show ?thesis
      using OpCommit r Commit_state [OF prod.collapse [symmetric], of env b i db]
      by (auto simp: commit_ok_def committed_def upd_keeps)
  next
    case (OpRecord env i oc)
    then show ?thesis
      using r Record_state [OF prod.collapse [symmetric], of env i oc db] by (auto simp: recorded_def)
  qed
qed

text \<open>C14: while the lease of a booking is live, no sequence of calls that other requests or events
  make changes the branch's row: nobody else books, releases or commits on the branch.\<close>

theorem booking_exclusive:
  assumes "chains_wf db" and "r \<in> set (db_chains db)"
    and "cr_leaseEnd r = Some t" and "cr_ownerKey r = Some key" and "cr_ownerToken r = Some event"
    and "list_all (foreign key event t) calls"
  shows "r \<in> set (db_chains (fold chain_call calls db))"
  using assms(1,2,6)
proof (induction calls arbitrary: db)
  case (Cons op calls)
  have "distinct (map cr_branch_id (db_chains db))"
    using Cons.prems(1) by (simp add: chains_wf_def)
  then have "r \<in> set (db_chains (chain_call op db))"
    using foreign_call_keeps assms(3-5) Cons.prems by simp
  moreover have "chains_wf (chain_call op db)"
    using chain_effect_wf [OF chain_call_effect] Cons.prems(1) by simp
  ultimately show ?case
    using Cons by simp
qed simp

theorem booking_exclusive_witness:
  "reserve NewSQLChain (healthy_env 0) sample_booking (new_branch 7) \<in> set (db_chains (fold chain_call
     [OpBook NewSQLChain (healthy_env 5) sample_retry, OpFree (healthy_env 6) (sample_booking\<lparr>b_EventID := ''event-2''\<rparr>)]
     sample_booked))"
proof (rule booking_exclusive [where t = defaultBookingLease and key = "RequestKey sample_message" and event = "''event-1''"])
  show "chains_wf sample_booked"
    using reachable_chains [OF sample_booked_reachable empty_chains_wf] .
qed (simp_all add: sample_booked_def reserve_def NewSQLChain_def chain_leaseDuration_def defaultBookingLease_def
    sample_booking_def)

section \<open>Commit and record, exactly\<close>

lemma healthy_Commit:
  assumes "healthy env" and "unat (b_ICV b) < 2 ^ 63" and "commit_ok b i db"
  shows "Commit env b i db = (None, committed b i db)"
proof -
  obtain r bl where r: "chain_of (b_BranchID b) db = Some r" "holds r b"
    and bl: "bill_of (i_SourceID i) db = Some bl" "bill_ok b i bl"
    using assms(3) by (auto simp: commit_ok_def)
  then have "loadChainRow CommitLock env (b_BranchID b) db = Inr r"
    using assms by (auto simp: loadChainRow_def holds_def)
  then show ?thesis
    using r bl assms by (simp add: Commit_def commit_bill_def insert_submission_def Let_def commit_ok_def bill_ok_def)
qed

text \<open>The state after the writes of a commit, column by column.\<close>

lemma committed_rows:
  assumes "bill_of (i_SourceID i) db = Some bl" and "bl_branch_id bl = b_BranchID b" and "chain_of (b_BranchID b) db = Some r"
  shows "\<exists>s. db_submissions (committed b i db) = db_submissions db @ [s] \<and>
      (\<forall>t \<in> set (db_submissions db). s_id t < s_id s) \<and>
      s_bill_id s = i_SourceID i \<and> s_branch_id s = i_BranchID i \<and> s_status s = 0 \<and> s_outcome_state s = ''pending'' \<and>
      s_invoice_icv s = i_ICV i \<and> s_previous_invoice_hash s = i_PIH i \<and> s_invoice_uuid s = i_UUID i \<and>
      s_invoice_hash s = i_Hash i \<and> s_invoice_kind s = i_Kind i \<and> s_signed_xml s = i_SignedXML i"
    and "bill_of k (committed b i db) =
      (if k = i_SourceID i
       then Some (bl\<lparr>bl_invoice_uuid := Some (i_UUID i), bl_invoice_hash := Some (i_Hash i), bl_qr_code := Some (i_QR i)\<rparr>)
       else bill_of k db)"
    and "chain_of n (committed b i db) =
      (if n = b_BranchID b
       then Some \<lparr>cr_branch_id = b_BranchID b, cr_lastICV = i_ICV i, cr_previous = Some (i_Hash i), cr_ownerKey = None,
         cr_ownerToken = None, cr_reservedICV = None, cr_leaseEnd = None\<rparr>
       else chain_of n db)"
    and "db_claims (committed b i db) = db_claims db" and "db_outcomes (committed b i db) = db_outcomes db"
proof -
  have "\<forall>t \<in> set (db_submissions db). s_id t < s_id (new_submission db i)"
    using next_id_fresh by (auto simp: new_submission_def)
  then show "\<exists>s. db_submissions (committed b i db) = db_submissions db @ [s] \<and>
      (\<forall>t \<in> set (db_submissions db). s_id t < s_id s) \<and>
      s_bill_id s = i_SourceID i \<and> s_branch_id s = i_BranchID i \<and> s_status s = 0 \<and> s_outcome_state s = ''pending'' \<and>
      s_invoice_icv s = i_ICV i \<and> s_previous_invoice_hash s = i_PIH i \<and> s_invoice_uuid s = i_UUID i \<and>
      s_invoice_hash s = i_Hash i \<and> s_invoice_kind s = i_Kind i \<and> s_signed_xml s = i_SignedXML i"
    by (intro exI [of _ "new_submission db i"]) (simp add: committed_def new_submission_def outcomePending_def)
  have keys: "bl_id bl = i_SourceID i" "cr_branch_id r = b_BranchID b"
    using assms by (auto simp: bill_of_def chain_of_def dest: find_SomeD)
  show "bill_of k (committed b i db) =
      (if k = i_SourceID i
       then Some (bl\<lparr>bl_invoice_uuid := Some (i_UUID i), bl_invoice_hash := Some (i_Hash i), bl_qr_code := Some (i_QR i)\<rparr>)
       else bill_of k db)"
    using assms(1,2) keys(1)
    by (cases "find (\<lambda>b. bl_id b = k) (db_bills db)")
      (auto simp: bill_of_def committed_def find_upd bill_invoiced_def dest: find_SomeD)
  show "chain_of n (committed b i db) =
      (if n = b_BranchID b
       then Some \<lparr>cr_branch_id = b_BranchID b, cr_lastICV = i_ICV i, cr_previous = Some (i_Hash i), cr_ownerKey = None,
         cr_ownerToken = None, cr_reservedICV = None, cr_leaseEnd = None\<rparr>
       else chain_of n db)"
    using assms(3) keys(2)
    by (cases r; cases "find (\<lambda>c. cr_branch_id c = n) (db_chains db)")
      (auto simp: chain_of_def committed_def find_upd advance_def unreserve_def dest: find_SomeD)
qed (simp_all add: committed_def)

text \<open>The guards of a commit, spelled out for the rows it finds.\<close>

lemma commit_ok_rows:
  assumes "chain_of (b_BranchID b) db = Some r" and "bill_of (i_SourceID i) db = Some bl"
  shows "commit_ok b i db \<longleftrightarrow>
    i_BranchID i = b_BranchID b \<and> i_ICV i = b_ICV b \<and> i_UUID i = b_UUID b \<and> i_PIH i = b_PIH b \<and> invoice_Validate i = None \<and>
    cr_ownerKey r = Some (b_RequestKey b) \<and> cr_ownerToken r = Some (b_EventID b) \<and> cr_reservedICV r = Some (b_ICV b) \<and>
    cr_lastICV r + 1 = b_ICV b \<and> effectivePIH r = b_PIH b \<and> bl_branch_id bl = b_BranchID b \<and>
    (\<forall>u. bl_invoice_uuid bl = Some u \<longrightarrow> trim_space u = [] \<or> u = i_UUID i) \<and>
    (\<forall>h. bl_invoice_hash bl = Some h \<longrightarrow> trim_space h = [] \<or> h = i_Hash i) \<and>
    (\<forall>s \<in> set (db_submissions db). s_bill_id s \<noteq> i_SourceID i)"
proof -
  have "\<not> carries_other col v \<longleftrightarrow> (\<forall>u. col = Some u \<longrightarrow> trim_space u = [] \<or> u = v)" for col v
    by (auto simp: carries_other_def split: option.splits)
  then show ?thesis
    unfolding commit_ok_def assms holds_def ownedBy_def bill_ok_def by auto
qed

text \<open>C13: while no statement fails and the counter fits the driver's 63 bits, a commit succeeds exactly when the
  invoice has the branch, counter, UUID and previous hash of its booking and is valid, the branch's row is
  held by that request and event with that counter reserved, directly after its last one, and with that
  previous hash, the bill exists on that branch and carries no other UUID or hash, and the bill has no
  submission yet.  Then one pending submission with the fields of the invoice and a new id is appended, the
  bill carries the UUID, hash and code of the invoice, the chain's last counter and previous hash are those
  of the invoice and its reservation is gone; every other bill, every other chain, the claims and the
  answers are as they were.  Otherwise an error is returned and nothing changes.\<close>

theorem commit_exact:
  assumes "healthy env" and "unat (b_ICV b) < 2 ^ 63"
  shows "case (chain_of (b_BranchID b) db, bill_of (i_SourceID i) db) of
      (Some r, Some bl) \<Rightarrow>
        (if i_BranchID i = b_BranchID b \<and> i_ICV i = b_ICV b \<and> i_UUID i = b_UUID b \<and> i_PIH i = b_PIH b \<and> invoice_Validate i = None \<and>
            cr_ownerKey r = Some (b_RequestKey b) \<and> cr_ownerToken r = Some (b_EventID b) \<and> cr_reservedICV r = Some (b_ICV b) \<and>
            cr_lastICV r + 1 = b_ICV b \<and> effectivePIH r = b_PIH b \<and> bl_branch_id bl = b_BranchID b \<and>
            (\<forall>u. bl_invoice_uuid bl = Some u \<longrightarrow> trim_space u = [] \<or> u = i_UUID i) \<and>
            (\<forall>h. bl_invoice_hash bl = Some h \<longrightarrow> trim_space h = [] \<or> h = i_Hash i) \<and>
            (\<forall>s \<in> set (db_submissions db). s_bill_id s \<noteq> i_SourceID i)
         then \<exists>db' s. Commit env b i db = (None, db') \<and>
           db_submissions db' = db_submissions db @ [s] \<and> (\<forall>t \<in> set (db_submissions db). s_id t < s_id s) \<and>
           s_bill_id s = i_SourceID i \<and> s_branch_id s = i_BranchID i \<and> s_status s = 0 \<and> s_outcome_state s = ''pending'' \<and>
           s_invoice_icv s = i_ICV i \<and> s_previous_invoice_hash s = i_PIH i \<and> s_invoice_uuid s = i_UUID i \<and>
           s_invoice_hash s = i_Hash i \<and> s_invoice_kind s = i_Kind i \<and> s_signed_xml s = i_SignedXML i \<and>
           (\<forall>k. bill_of k db' = (if k = i_SourceID i
              then Some (bl\<lparr>bl_invoice_uuid := Some (i_UUID i), bl_invoice_hash := Some (i_Hash i), bl_qr_code := Some (i_QR i)\<rparr>)
              else bill_of k db)) \<and>
           (\<forall>n. chain_of n db' = (if n = b_BranchID b
              then Some \<lparr>cr_branch_id = b_BranchID b, cr_lastICV = i_ICV i, cr_previous = Some (i_Hash i), cr_ownerKey = None,
                cr_ownerToken = None, cr_reservedICV = None, cr_leaseEnd = None\<rparr>
              else chain_of n db)) \<and>
           db_claims db' = db_claims db \<and> db_outcomes db' = db_outcomes db
         else \<exists>e. Commit env b i db = (Some e, db))
    | _ \<Rightarrow> \<exists>e. Commit env b i db = (Some e, db)"
proof -
  have refused: "\<exists>e. Commit env b i db = (Some e, db)" if "\<not> commit_ok b i db"
    using that Commit_state [OF prod.collapse [symmetric], of env b i db] by (metis option.exhaust prod.collapse)
  show ?thesis
  proof (cases "\<exists>r bl. chain_of (b_BranchID b) db = Some r \<and> bill_of (i_SourceID i) db = Some bl")
    case True
    then obtain r bl where rows: "chain_of (b_BranchID b) db = Some r" "bill_of (i_SourceID i) db = Some bl" by blast
    show ?thesis
    proof (cases "commit_ok b i db")
      case ok: True
      then have branch: "bl_branch_id bl = b_BranchID b" using commit_ok_rows [OF rows] by blast
      note out = committed_rows [OF rows(2) branch rows(1)]
      show ?thesis
        unfolding rows option.case prod.case commit_ok_rows [OF rows, symmetric] if_P [OF ok]
        using healthy_Commit [OF assms ok] out(1) by (intro exI [of _ "committed b i db"]) (simp add: out(2-5))
    next
      case False
      show ?thesis
        unfolding rows option.case prod.case commit_ok_rows [OF rows, symmetric] if_not_P [OF False] using refused [OF False] .
    qed
  next
    case False
    then have "\<not> commit_ok b i db" by (auto simp: commit_ok_def)
    with refused False show ?thesis by (auto split: option.splits)
  qed
qed

theorem commit_exact_witness:
  "\<exists>db' s. Commit (healthy_env 1) sample_booking sample_invoice sample_booked = (None, db') \<and>
     db_submissions db' = [s] \<and> s_invoice_hash s = ''hash-1'' \<and>
     chain_of 7 db' = Some \<lparr>cr_branch_id = 7, cr_lastICV = 1, cr_previous = Some ''hash-1'', cr_ownerKey = None,
       cr_ownerToken = None, cr_reservedICV = None, cr_leaseEnd = None\<rparr>"
proof -
  let ?row = "reserve NewSQLChain (healthy_env 0) sample_booking (new_branch 7)"
  have rows: "chain_of (b_BranchID sample_booking) sample_booked = Some ?row"
    "bill_of (i_SourceID sample_invoice) sample_booked = Some (new_bill 42 7 1)"
    by (simp_all add: chain_of_def bill_of_def sample_booked_def sample_start_def sample_booking_def sample_invoice_def
        new_branch_def new_bill_def reserve_def)
  have ok: "commit_ok sample_booking sample_invoice sample_booked" using Commit_state [OF sample_Commit] by simp
  have "healthy (healthy_env 1)" "unat (b_ICV sample_booking) < 2 ^ 63" by (simp_all add: sample_booking_def new_branch_def)
  note exact = commit_exact [OF this, of sample_invoice sample_booked,
      unfolded rows option.case prod.case commit_ok_rows [OF rows, symmetric] if_P [OF ok]]
  then obtain db' s where "Commit (healthy_env 1) sample_booking sample_invoice sample_booked = (None, db')"
    "db_submissions db' = db_submissions sample_booked @ [s]" "s_invoice_hash s = i_Hash sample_invoice"
    "chain_of (b_BranchID sample_booking) db' = Some \<lparr>cr_branch_id = b_BranchID sample_booking, cr_lastICV = i_ICV sample_invoice,
       cr_previous = Some (i_Hash sample_invoice), cr_ownerKey = None, cr_ownerToken = None, cr_reservedICV = None, cr_leaseEnd = None\<rparr>"
    by (elim exE conjE) simp
  then show ?thesis
    by (intro exI [of _ db'] exI [of _ s]) (simp add: sample_booked_def sample_start_def sample_booking_def sample_invoice_def)
qed

text \<open>C22: what a commit stores is what \<open>Stored\<close> reads back: the same invoice, field by field, with
  no outcome yet.\<close>

theorem stored_after_commit:
  assumes "Commit env b i db = (None, db')" and "healthy env'" and "m_ID msg = i_SourceID i"
  shows "Stored env' msg db' = Inr (Some (i\<lparr>i_Outcome := [], i_OutcomeEvidence := EvidenceUnspecified,
    i_EvidenceID := [], i_ProviderCode := [], i_OutcomeMessage := []\<rparr>))"
proof -
  have ok: "commit_ok b i db" and db': "db' = committed b i db"
    using Commit_state [OF assms(1)] by auto
  then obtain bl where bl: "bill_of (i_SourceID i) db = Some bl" "bl_branch_id bl = b_BranchID b"
    by (auto simp: commit_ok_def bill_ok_def)
  then have "bl_id bl = i_SourceID i"
    by (auto simp: bill_of_def dest: find_SomeD)
  with bl have "bill_of (i_SourceID i) db' = Some (bill_invoiced i bl)"
    by (simp add: db' committed_def bill_of_def find_upd bill_invoiced_def)
  moreover have "find (\<lambda>s. s_bill_id s = i_SourceID i) (db_submissions db') = Some (new_submission db i)"
    using ok find_None_iff [of "\<lambda>s. s_bill_id s = i_SourceID i" "db_submissions db"]
    by (auto simp: db' committed_def find_append commit_ok_def)
  ultimately show ?thesis
    using assms(2,3)
    by (simp add: Stored_def stored_row_def invoice_of_row_def new_submission_def bill_invoiced_def null_str_def
        Let_def split: prod.split)
qed

theorem stored_after_commit_witness:
  "Stored (healthy_env 2) sample_message (committed sample_booking sample_invoice sample_booked) =
     Inr (Some sample_invoice)"
  using stored_after_commit [OF sample_Commit, of "healthy_env 2" sample_message]
  by (simp add: sample_booked_def sample_start_def sample_invoice_def)

lemma nullString_within: "rune_count v \<le> n \<Longrightarrow> null_str (nullString v n) = v"
  by (simp add: nullString_def null_str_def truncate_text_def Let_def rune_count_def)

text \<open>Evidence written into a message is read back, as long as its id has no separator.\<close>

lemma parse_outcomeMessage:
  assumes "oc_Evidence oc = EvidenceExternal \<Longrightarrow> CHR ''|'' \<notin> set (oc_EvidenceID oc) \<and> trim_space (oc_EvidenceID oc) \<noteq> []"
    and "oc_Evidence oc \<noteq> EvidenceExternal \<Longrightarrow> \<not> has_prefix (oc_Message oc) externalEvidencePrefix"
  shows "parseOutcomeEvidence (outcomeMessage oc) =
    (if oc_Evidence oc = EvidenceExternal then (EvidenceExternal, oc_EvidenceID oc, oc_Message oc)
     else (EvidenceUnspecified, [], oc_Message oc))"
  using assms by (auto simp: parseOutcomeEvidence_def outcomeMessage_def Let_def)

lemma healthy_Record:
  assumes "healthy env" and "submissionStatus (oc_State oc) = Inr status"
    and "oc_Evidence oc \<in> {EvidenceUnspecified, EvidenceProvider, EvidenceExternal, EvidenceLocal}"
    and "oc_Evidence oc = EvidenceExternal \<Longrightarrow>
      trim_space (oc_EvidenceID oc) \<noteq> [] \<and> validEvidenceText (oc_EvidenceID oc) 256"
    and "find (\<lambda>s. s_bill_id s = i_SourceID i) (db_submissions db) = Some s"
  shows "Record env i oc db =
    (None, if \<exists>t \<in> set (db_submissions db). waiting (s_id s) t
           then recorded env i oc status (s_id s) db else db)"
proof -
  have state: "oc_State oc \<noteq> outcomePending"
    using assms(2) by (auto simp: submissionStatus_def outcome_defs split: if_splits)
  have "answer env oc status t \<noteq> t" if "waiting (s_id s) t" for t
  proof
    assume "answer env oc status t = t"
    then have "s_outcome_state (answer env oc status t) = s_outcome_state t" by simp
    then show False using that state by (simp add: waiting_def)
  qed
  then have "0 < changed (waiting (s_id s)) (answer env oc status) (db_submissions db) \<longleftrightarrow>
      (\<exists>t \<in> set (db_submissions db). waiting (s_id s) t)"
    by (auto simp: changed_pos)
  then show ?thesis
    using assms by (auto simp: Record_def record_in_tx_def Let_def)
qed

lemma recorded_row:
  assumes "stored_row bid db = Some (s, b)" and "s_outcome_state s = outcomePending"
  shows "\<exists>b'. stored_row bid (recorded env i oc status (s_id s) db) = Some (answer env oc status s, b')"
proof -
  have found: "find (\<lambda>s. s_bill_id s = bid) (db_submissions db) = Some s" "bill_of bid db = Some b"
    using assms(1) by (auto simp: stored_row_def split: option.splits)
  then have "find (\<lambda>s. s_bill_id s = bid) (db_submissions (recorded env i oc status (s_id s) db)) = Some (answer env oc status s)"
    using assms(2) by (simp add: recorded_def find_upd waiting_def)
  moreover have "\<exists>b'. bill_of bid (recorded env i oc status (s_id s) db) = Some b'"
    using found(2) by (simp add: recorded_def bill_of_def find_upd)
  ultimately show ?thesis
    by (auto simp: stored_row_def)
qed

text \<open>An answer that \<open>Record\<close> writes for a pending invoice is read back by \<open>Stored\<close> with its
  state, provider code, message and, for external evidence, its evidence id, provided the texts fit
  their columns, the id has no bar and no other message starts like an external one.\<close>

theorem stored_after_record:
  assumes "healthy env" and "healthy env'" and "submissionStatus (oc_State oc) = Inr status"
    and "oc_Evidence oc \<in> {EvidenceUnspecified, EvidenceProvider, EvidenceExternal, EvidenceLocal}"
    and "oc_Evidence oc = EvidenceExternal \<Longrightarrow> trim_space (oc_EvidenceID oc) \<noteq> [] \<and>
      validEvidenceText (oc_EvidenceID oc) 256 \<and> CHR ''|'' \<notin> set (oc_EvidenceID oc)"
    and "oc_Evidence oc \<noteq> EvidenceExternal \<Longrightarrow> \<not> has_prefix (oc_Message oc) externalEvidencePrefix"
    and "rune_count (oc_ProviderCode oc) \<le> 64"
    and "rune_count (outcomeMessage oc) \<le> (if rejecting oc then 512 else 1024)"
    and "stored_row (m_ID msg) db = Some (s, b)" and "s_outcome_state s = outcomePending"
    and "i_SourceID i = m_ID msg"
  shows "\<exists>db' i'. Record env i oc db = (None, db') \<and> Stored env' msg db' = Inr (Some i') \<and>
    i_Outcome i' = oc_State oc \<and> i_ProviderCode i' = oc_ProviderCode oc \<and>
    i_OutcomeMessage i' = oc_Message oc \<and>
    (i_OutcomeEvidence i', i_EvidenceID i') =
      (if oc_Evidence oc = EvidenceExternal then (EvidenceExternal, oc_EvidenceID oc) else (EvidenceUnspecified, [])) \<and>
    i_UUID i' = s_invoice_uuid s \<and> i_Hash i' = s_invoice_hash s \<and> i_SignedXML i' = s_signed_xml s"
proof -
  let ?db = "recorded env i oc status (s_id s) db"
  let ?s = "answer env oc status s"
  have find: "find (\<lambda>s. s_bill_id s = m_ID msg) (db_submissions db) = Some s"
    using assms(9) by (auto simp: stored_row_def split: option.splits)
  then have s: "s \<in> set (db_submissions db)" "waiting (s_id s) s"
    using assms(10) by (auto simp: waiting_def dest: find_SomeD)
  then have "Record env i oc db = (None, ?db)"
    using healthy_Record [OF assms(1,3,4), of i db s] assms(5,11) find by auto
  moreover obtain b' where "stored_row (m_ID msg) ?db = Some (?s, b')"
    using recorded_row [OF assms(9,10)] by blast
  ultimately have "Record env i oc db = (None, ?db)" "Stored env' msg ?db = Inr (Some (invoice_of_row ?s b'))"
    using assms(2) by (simp_all add: Stored_def)
  moreover have "oc_State oc \<noteq> outcomePending"
    using assms(3) by (auto simp: submissionStatus_def outcome_defs split: if_splits)
  moreover have "(case s_rejection_msg ?s of Some m \<Rightarrow> m | None \<Rightarrow> null_str (s_provider_warning_message ?s)) = outcomeMessage oc"
    using nullString_within [OF assms(8)]
    by (cases "rejecting oc") (auto simp: answer_def Let_def null_str_def split: option.splits)
  moreover have "null_str (s_provider_code ?s) = oc_ProviderCode oc"
    using nullString_within [OF assms(7)] by (simp add: answer_def Let_def)
  ultimately show ?thesis
    using parse_outcomeMessage [of oc] assms(5,6)
    by (intro exI [of _ ?db] exI [of _ "invoice_of_row ?s b'"]) (auto simp: invoice_of_row_def Let_def)
qed


definition sample_answer :: outcome where
  "sample_answer = \<lparr>oc_State = OutcomeRejected, oc_ProviderCode = ''BR-KSA-1'', oc_Message = ''wrong total'',
     oc_Evidence = EvidenceExternal, oc_EvidenceID = ''ticket-9''\<rparr>"

lemma sample_stored_row:
  "\<exists>b. stored_row 42 (committed sample_booking sample_invoice sample_booked) =
     Some (new_submission sample_booked sample_invoice, b)"
  by (simp add: stored_row_def committed_def sample_booked_def sample_start_def bill_of_def new_bill_def
      sample_invoice_def bill_invoiced_def new_submission_def)

theorem stored_after_record_witness:
  "\<exists>db' i'. Record (healthy_env 2) sample_invoice sample_answer (committed sample_booking sample_invoice sample_booked) =
       (None, db') \<and> Stored (healthy_env 3) sample_message db' = Inr (Some i') \<and>
     i_Outcome i' = OutcomeRejected \<and> i_EvidenceID i' = ''ticket-9'' \<and> i_OutcomeMessage i' = ''wrong total''"
proof -
  let ?db = "committed sample_booking sample_invoice sample_booked"
  obtain b where b: "stored_row (m_ID sample_message) ?db = Some (new_submission sample_booked sample_invoice, b)"
    using sample_stored_row by auto
  have id: "trim_space ''ticket-9'' \<noteq> []" "validEvidenceText ''ticket-9'' 256"
    by (simp_all add: trim_space_graphic graphic_def validEvidenceText_def rune_count_def runes_graphic valid_string_graphic)
  have len: "rune_count (outcomeMessage sample_answer) \<le> 512" "rune_count (oc_ProviderCode sample_answer) \<le> 64"
    by (rule order_trans [OF rune_count_le_length], simp add: sample_answer_def outcomeMessage_def
        externalEvidencePrefix_def)+
  have "submissionStatus (oc_State sample_answer) = Inr 3" "rejecting sample_answer"
    by (simp_all add: submissionStatus_def sample_answer_def outcome_defs rejecting_def)
  then show ?thesis
    using stored_after_record [of "healthy_env 2" "healthy_env 3" sample_answer 3 sample_message ?db _ b sample_invoice, OF _ _ _ _ _ _ _ _ b]
      id len by (auto simp: sample_answer_def sample_invoice_def)
qed

lemma pending_not_ambiguous: "outcomePending \<noteq> OutcomeAmbiguous"
  by (simp add: outcome_defs)

text \<open>A record for an invoice that already has an answer reports success and changes
  nothing, also when that answer is \<open>ambiguous\<close> and the new one carries external evidence.\<close>

theorem record_after_answer_ignored:
  assumes "healthy env" and "bills_wf db" and "submissionStatus (oc_State oc) = Inr status"
    and "oc_Evidence oc = EvidenceExternal" and "trim_space (oc_EvidenceID oc) \<noteq> []"
    and "validEvidenceText (oc_EvidenceID oc) 256"
    and "find (\<lambda>s. s_bill_id s = i_SourceID i) (db_submissions db) = Some s"
    and "s_outcome_state s = OutcomeAmbiguous"
  shows "Record env i oc db = (None, db)"
proof -
  have "s \<in> set (db_submissions db)"
    using assms(7) by (auto dest: find_SomeD)
  then have "t = s" if "t \<in> set (db_submissions db)" "s_id t = s_id s" for t
    using assms(2) that unfolding bills_wf_def by (meson distinct_map inj_onD)
  then have "\<not> (\<exists>t \<in> set (db_submissions db). waiting (s_id s) t)"
    using assms(8) pending_not_ambiguous unfolding waiting_def by metis
  then show ?thesis
    using healthy_Record [OF assms(1,3) _ _ assms(7)] assms(4-6) by simp
qed


definition sample_ambiguous :: outcome where
  "sample_ambiguous = sample_answer\<lparr>oc_State := OutcomeAmbiguous, oc_Evidence := EvidenceLocal\<rparr>"

theorem record_after_answer_ignored_witness:
  "Record (healthy_env 9) sample_invoice sample_answer
     (recorded (healthy_env 8) sample_invoice sample_ambiguous 1 1 (committed sample_booking sample_invoice sample_booked)) =
   (None, recorded (healthy_env 8) sample_invoice sample_ambiguous 1 1 (committed sample_booking sample_invoice sample_booked))"
    (is "_ = (None, ?db)")
proof (rule record_after_answer_ignored)
  have ok: "record_ok sample_ambiguous sample_invoice (committed sample_booking sample_invoice sample_booked)
      (new_submission sample_booked sample_invoice) 1"
    by (auto simp: record_ok_def submissionStatus_def sample_ambiguous_def outcome_defs committed_def
        sample_booked_def sample_start_def sample_invoice_def new_submission_def waiting_def)
  have "s_id (new_submission sample_booked sample_invoice) = 1"
    by (simp add: next_submission_id_def sample_booked_def sample_start_def)
  then show "bills_wf ?db"
    using bills_wf_recorded [OF reachable_bills [OF sample_reachable empty_bills_wf] ok] by simp
  show "find (\<lambda>s. s_bill_id s = i_SourceID sample_invoice) (db_submissions ?db) =
      Some (answer (healthy_env 8) sample_ambiguous 1 (new_submission sample_booked sample_invoice))"
    by (simp add: recorded_def committed_def sample_booked_def sample_start_def waiting_def next_submission_id_def)
qed (simp_all add: sample_ambiguous_def sample_answer_def submissionStatus_def outcome_defs
    trim_space_graphic graphic_def validEvidenceText_def rune_count_def runes_graphic valid_string_graphic)

end
