(* ===== verification/Ordered_Stream.thy ===== *)
theory Ordered_Stream
  imports Claim_Contract Invoice_Chain
begin

text \<open>
  The delivery protocol of \<open>queue/ordered_stream.go\<close>.  The interfaces it calls (\<open>ClaimStore\<close>,
  \<open>Chain\<close>, \<open>Pipeline\<close> with its \<open>Prepared\<close> documents, and the acknowledgement) are records of
  functions over a world \<open>'s\<close>, as Go passes interface values; each call returns the world it
  leaves behind.  The contract of the world is the locale \<open>delivery_world\<close>.
\<close>

record 's claim_ops =
  op_Claim :: "message \<Rightarrow> 's \<Rightarrow> (goerr + claim_decision) \<times> 's"
  op_Complete :: "message \<Rightarrow> 's \<Rightarrow> goerr option \<times> 's"
  op_Release :: "message \<Rightarrow> 's \<Rightarrow> goerr option \<times> 's"

record 's chain_ops =
  op_Stored :: "message \<Rightarrow> 's \<Rightarrow> (goerr + signed_invoice option) \<times> 's"
  op_Book :: "message \<Rightarrow> 's \<Rightarrow> (goerr + booking) \<times> 's"
  op_Free :: "booking \<Rightarrow> 's \<Rightarrow> goerr option \<times> 's"
  op_Commit :: "booking \<Rightarrow> signed_invoice \<Rightarrow> 's \<Rightarrow> goerr option \<times> 's"
  op_Record :: "signed_invoice \<Rightarrow> outcome \<Rightarrow> 's \<Rightarrow> goerr option \<times> 's"

record ('s, 'p) pipeline_ops =
  op_Prepare :: "message \<Rightarrow> 's \<Rightarrow> (goerr + 'p) \<times> 's"
  op_Build :: "'p \<Rightarrow> booking \<Rightarrow> 's \<Rightarrow> (goerr + signed_invoice) \<times> 's"
  op_Submit :: "signed_invoice \<Rightarrow> 's \<Rightarrow> (outcome \<times> goerr option) \<times> 's"

record ('s, 'p) ordered_stream =
  os_claims :: "'s claim_ops"
  os_chain :: "'s chain_ops"
  os_pipeline :: "('s, 'p) pipeline_ops"

type_synonym 's ack_fun = "'s \<Rightarrow> goerr option \<times> 's"

section \<open>Partition locks\<close>

text \<open>
  The lock table: each partition's lock, named by the order of its creation.  \<open>lockFor\<close> runs
  under the stream's own mutex, so it is one step.
\<close>

type_synonym lock_table = "(string \<times> nat) list"

definition lockFor :: "string \<Rightarrow> lock_table \<Rightarrow> nat \<times> lock_table" where
  "lockFor part table =
     (case map_of table part of
        Some l \<Rightarrow> (l, table)
      | None \<Rightarrow> (length table, table @ [(part, length table)]))"

lemma lockFor_again: "lockFor p table = (l, table') \<Longrightarrow> lockFor p table' = (l, table')"
  by (auto simp: lockFor_def map_add_def split: option.splits)

section \<open>The checks\<close>

definition checkStored :: "signed_invoice \<Rightarrow> message \<Rightarrow> goerr + signed_invoice" where
  "checkStored i msg =
     (case invoice_Validate i of
        Some e \<Rightarrow> Inl (Wrapf (''stored bill '' @ show_int (m_ID msg) @ '' is invalid: '') e [])
      | None \<Rightarrow>
        (if i_SourceID i \<noteq> m_ID msg then
           Inl (NewError (''stored invoice source '' @ show_int (i_SourceID i) @
             '' does not match bill '' @ show_int (m_ID msg)))
         else if i_UUID i \<noteq> m_InvoiceUUID msg \<or> i_BranchID i \<noteq> m_BranchID msg then
           Inl (NewError (''bill '' @ show_int (m_ID msg) @ '' is stored as invoice '' @ i_UUID i @
             '' of branch '' @ show_int (i_BranchID i) @ '', not '' @ m_InvoiceUUID msg @
             '' of branch '' @ show_int (m_BranchID msg)))
         else Inr i))"

definition checkBuilt :: "signed_invoice \<Rightarrow> message \<Rightarrow> booking \<Rightarrow> goerr option" where
  "checkBuilt i msg b =
     (case invoice_Validate i of
        Some e \<Rightarrow> Some (Wrapf (''built bill '' @ show_int (m_ID msg) @ '' is invalid: '') e [])
      | None \<Rightarrow>
        (if i_SourceID i \<noteq> m_ID msg then
           Some (NewError (''built invoice source '' @ show_int (i_SourceID i) @
             '' does not match bill '' @ show_int (m_ID msg)))
         else if i_BranchID i \<noteq> m_BranchID msg then
           Some (NewError (''built invoice branch '' @ show_int (i_BranchID i) @
             '' does not match branch '' @ show_int (m_BranchID msg)))
         else if i_UUID i \<noteq> m_InvoiceUUID msg \<or> i_UUID i \<noteq> b_UUID b then
           Some (NewError (''built invoice UUID '' @ i_UUID i @
             '' does not match the backend UUID '' @ m_InvoiceUUID msg))
         else if i_ICV i \<noteq> b_ICV b then
           Some (NewError (''built invoice ICV '' @ show_nat (unat (i_ICV i)) @
             '' does not match booked ICV '' @ show_nat (unat (b_ICV b))))
         else if i_PIH i \<noteq> b_PIH b then
           Some (NewError ''built invoice PIH does not match the booking'')
         else None))"

section \<open>The protocol\<close>

definition release_booking ::
    "('s, 'p) ordered_stream \<Rightarrow> booking \<Rightarrow> goerr \<Rightarrow> 's \<Rightarrow> goerr \<times> 's" where
  "release_booking s b cause w =
     (case op_Free (os_chain s) b w of
        (Some e, w1) \<Rightarrow> (Joined cause e, w1)
      | (None, w1) \<Rightarrow> (cause, w1))"

definition failed ::
    "('s, 'p) ordered_stream \<Rightarrow> message \<Rightarrow> goerr \<Rightarrow> 's ack_fun \<Rightarrow> 's \<Rightarrow> goerr option \<times> 's" where
  "failed s msg cause ack w =
     (if \<not> is_err cause ErrRejectedInput then
        (case op_Release (os_claims s) msg w of
           (Some e, w1) \<Rightarrow> (Some (Joined cause e), w1)
         | (None, w1) \<Rightarrow> (Some cause, w1))
      else
        (case op_Complete (os_claims s) msg w of
           (Some e, w1) \<Rightarrow> (Some (Joined cause e), w1)
         | (None, w1) \<Rightarrow>
             (case ack w1 of
                (Some e, w2) \<Rightarrow> (Some (Joined cause e), w2)
              | (None, w2) \<Rightarrow> (Some cause, w2))))"

definition finish ::
    "('s, 'p) ordered_stream \<Rightarrow> message \<Rightarrow> 's ack_fun \<Rightarrow> goerr option \<Rightarrow> 's \<Rightarrow> goerr option \<times> 's" where
  "finish s msg ack result w =
     (case op_Complete (os_claims s) msg w of
        (Some e, w1) \<Rightarrow> failed s msg (Wrapf ''complete ordered stream claim: '' e []) ack w1
      | (None, w1) \<Rightarrow>
          (case ack w1 of
             (Some e, w2) \<Rightarrow> (Some (join_opt result (Wrapf ''ACK failed: '' e [])), w2)
           | (None, w2) \<Rightarrow> (result, w2)))"

definition invoiceFor ::
    "('s, 'p) ordered_stream \<Rightarrow> message \<Rightarrow> 's \<Rightarrow> (goerr + signed_invoice) \<times> 's" where
  "invoiceFor s msg w =
     (case op_Stored (os_chain s) msg w of
        (Inl e, w1) \<Rightarrow> (Inl e, w1)
      | (Inr (Some stored), w1) \<Rightarrow> (checkStored stored msg, w1)
      | (Inr None, w1) \<Rightarrow>
        (case op_Prepare (os_pipeline s) msg w1 of
           (Inl e, w2) \<Rightarrow> (Inl e, w2)
         | (Inr prepared, w2) \<Rightarrow>
           (case op_Book (os_chain s) msg w2 of
              (Inl e, w3) \<Rightarrow> (Inl e, w3)
            | (Inr b, w3) \<Rightarrow>
              (case op_Build (os_pipeline s) prepared b w3 of
                 (Inl e, w4) \<Rightarrow> apfst Inl (release_booking s b e w4)
               | (Inr i, w4) \<Rightarrow>
                 (case checkBuilt i msg b of
                    Some e \<Rightarrow> apfst Inl (release_booking s b e w4)
                  | None \<Rightarrow>
                    (case op_Commit (os_chain s) b i w4 of
                       (Some e, w5) \<Rightarrow> apfst Inl (release_booking s b e w5)
                     | (None, w5) \<Rightarrow> (Inr i, w5)))))))"

definition process ::
    "('s, 'p) ordered_stream \<Rightarrow> message \<Rightarrow> 's ack_fun \<Rightarrow> 's \<Rightarrow> goerr option \<times> 's" where
  "process s msg ack w =
     (case invoiceFor s msg w of
        (Inl e, w1) \<Rightarrow> failed s msg e ack w1
      | (Inr i, w1) \<Rightarrow>
        (if i_Outcome i \<noteq> [] then finish s msg ack None w1
         else
           case op_Submit (os_pipeline s) i w1 of
             ((oc, err), w2) \<Rightarrow>
               (if err \<noteq> None \<and> \<not> is_err (the err) ErrOutcomeAmbiguous
                then failed s msg (the err) ack w2
                else
                  case op_Record (os_chain s) i oc w2 of
                    (Some e, w3) \<Rightarrow> failed s msg e ack w3
                  | (None, w3) \<Rightarrow>
                      finish s msg ack
                        (if oc_State oc = OutcomeRejected
                         then Some (Wrapf [] (Sentinel ErrInvoiceRejected)
                           ('': bill '' @ show_int (m_ID msg) @ '': '' @ oc_Message oc))
                         else err) w3)))"

text \<open>A nil acknowledgement is \<open>None\<close>.  The claim decisions are the four of \<open>queue/claim.go\<close>.\<close>

definition HandleMessage ::
    "('s, 'p) ordered_stream \<Rightarrow> message \<Rightarrow> 's ack_fun option \<Rightarrow> 's \<Rightarrow> goerr option \<times> 's" where
  "HandleMessage s msg ack_opt w =
     (case message_Validate msg of
        Some e \<Rightarrow> (Some e, w)
      | None \<Rightarrow>
        (case ack_opt of
           None \<Rightarrow> (Some (NewError ''ordered stream ACK function is required''), w)
         | Some ack \<Rightarrow>
           (case op_Claim (os_claims s) msg w of
              (Inl e, w1) \<Rightarrow> (Some e, w1)
            | (Inr ClaimDuplicate, w1) \<Rightarrow> ack w1
            | (Inr ClaimConflict, w1) \<Rightarrow>
                (let conflict = Wrapf [] (Sentinel ErrFingerprintConflict)
                       ('': bill_request_id '' @ m_BillRequestID msg) in
                 case ack w1 of
                   (Some e, w2) \<Rightarrow> (Some (Wrapf [] conflict (''; ACK failed: '' @ err_text e)), w2)
                 | (None, w2) \<Rightarrow> (Some conflict, w2))
            | (Inr ClaimInFlight, w1) \<Rightarrow> (Some (Sentinel ErrClaimInFlight), w1)
            | (Inr ClaimProcess, w1) \<Rightarrow> process s msg ack w1)))"

definition FinalizePermanentFailure ::
    "('s, 'p) ordered_stream \<Rightarrow> message \<Rightarrow> goerr option \<Rightarrow> 's ack_fun option \<Rightarrow> 's \<Rightarrow> goerr option \<times> 's" where
  "FinalizePermanentFailure s msg cause_opt ack_opt w =
     (case cause_opt of
        None \<Rightarrow> (Some (NewError ''permanent failure cause is required''), w)
      | Some cause \<Rightarrow>
        (case ack_opt of
           None \<Rightarrow> (Some (NewError ''ordered stream ACK function is required''), w)
         | Some ack \<Rightarrow>
           (case op_Stored (os_chain s) msg w of
              (Inl e, w1) \<Rightarrow> (Some (Joined cause e), w1)
            | (Inr stored, w1) \<Rightarrow>
              (case (case stored of
                       Some i \<Rightarrow>
                         (if i_Outcome i = [] then
                            op_Record (os_chain s) i
                              \<lparr>oc_State = OutcomeTerminalFailure, oc_ProviderCode = ''DAEMON_RETRY_EXHAUSTED'',
                               oc_Message = err_text cause, oc_Evidence = EvidenceLocal, oc_EvidenceID = []\<rparr> w1
                          else (None, w1))
                     | None \<Rightarrow> (None, w1)) of
                 (Some e, w2) \<Rightarrow> (Some (Joined cause e), w2)
               | (None, w2) \<Rightarrow>
                 (case op_Complete (os_claims s) msg w2 of
                    (Some e, w3) \<Rightarrow> (Some (Joined cause e), w3)
                  | (None, w3) \<Rightarrow>
                    (case ack w3 of
                       (Some e, w4) \<Rightarrow> (Some (Joined cause e), w4)
                     | (None, w4) \<Rightarrow> (None, w4)))))))"

section \<open>The contract of the world\<close>

text \<open>
  A world moves along a preorder \<open>le\<close>, which its invariant and facts about it survive: that an
  invoice is stored, that a request is completed, that an answer is recorded.  Only \<open>Submit\<close> adds to the invoices sent,
  and only the acknowledgement counts as one.
\<close>

definition quiet :: "('s \<Rightarrow> 's \<Rightarrow> bool) \<Rightarrow> ('s \<Rightarrow> 'x) \<Rightarrow> ('s \<Rightarrow> nat) \<Rightarrow> 's \<Rightarrow> 's \<Rightarrow> bool" where
  "quiet le sent acks w w' \<longleftrightarrow> le w w' \<and> sent w' = sent w \<and> acks w' = acks w"

text \<open>The invoice belongs to the envelope's bill, branch and UUID.\<close>

definition for_message :: "signed_invoice \<Rightarrow> message \<Rightarrow> bool" where
  "for_message i msg \<longleftrightarrow> i_SourceID i = m_ID msg \<and> i_BranchID i = m_BranchID msg \<and> i_UUID i = m_InvoiceUUID msg"

lemma checkStored_Inr: "checkStored i msg = Inr j \<Longrightarrow> j = i \<and> for_message i msg \<and> invoice_Validate i = None"
  by (auto simp: checkStored_def for_message_def split: option.splits if_splits)

lemma checkBuilt_None:
  "checkBuilt i msg b = None \<Longrightarrow> for_message i msg \<and> invoice_Validate i = None \<and>
     i_UUID i = b_UUID b \<and> i_ICV i = b_ICV b \<and> i_PIH i = b_PIH b"
  by (auto simp: checkBuilt_def for_message_def split: option.splits if_splits)

text \<open>What a preorder on worlds needs so that the preparation of an invoice moves along it.\<close>

locale chain_moves =
  fixes s :: "('s, 'p) ordered_stream"
    and mv :: "'s \<Rightarrow> 's \<Rightarrow> bool"
  assumes mv_trans: "mv w1 w2 \<Longrightarrow> mv w2 w3 \<Longrightarrow> mv w1 w3"
    and stored_mv: "op_Stored (os_chain s) msg w = (st, w') \<Longrightarrow> mv w w'"
    and book_mv: "op_Book (os_chain s) msg w = (bk, w') \<Longrightarrow> mv w w'"
    and free_mv: "op_Free (os_chain s) b w = (e, w') \<Longrightarrow> mv w w'"
    and commit_mv: "op_Commit (os_chain s) b i w = (e, w') \<Longrightarrow> mv w w'"
    and prepare_mv: "op_Prepare (os_pipeline s) msg w = (p, w') \<Longrightarrow> mv w w'"
    and build_mv: "op_Build (os_pipeline s) pr b w = (bi, w') \<Longrightarrow> mv w w'"
begin

lemma release_booking_mv: "release_booking s b cause w = (e, w') \<Longrightarrow> mv w w'"
  by (auto simp: release_booking_def split: prod.splits option.splits dest: free_mv)

lemma invoiceFor_mv:
  assumes "invoiceFor s msg w = (res, w')"
  shows "mv w w'"
proof -
  have free: "apfst Inl (release_booking s b e v) = (res, w') \<Longrightarrow> mv v w'" for b e v
    using release_booking_mv [of b e v] by (cases "release_booking s b e v") auto
  show ?thesis
    using assms
    by (auto simp: invoiceFor_def split: prod.splits sum.splits option.splits
        dest!: free stored_mv prepare_mv book_mv build_mv commit_mv intro: mv_trans)
      (meson mv_trans)+
qed

end

locale delivery_world =
  fixes s :: "('s, 'p) ordered_stream"
    and ack :: "'s \<Rightarrow> goerr option \<times> 's"
    and inv :: "'s \<Rightarrow> bool"
    and le :: "'s \<Rightarrow> 's \<Rightarrow> bool"
    and sent :: "'s \<Rightarrow> signed_invoice list"
    and acks :: "'s \<Rightarrow> nat"
    and stored_as :: "signed_invoice \<Rightarrow> 's \<Rightarrow> bool"
    and completed :: "message \<Rightarrow> 's \<Rightarrow> bool"
    and answered :: "message \<Rightarrow> 's \<Rightarrow> bool"
  assumes le_refl: "le w w"
    and le_trans: "le w1 w2 \<Longrightarrow> le w2 w3 \<Longrightarrow> le w1 w3"
    and inv_mono: "le w w' \<Longrightarrow> inv w \<Longrightarrow> inv w'"
    and stored_as_mono: "le w w' \<Longrightarrow> stored_as i w \<Longrightarrow> stored_as i w'"
    and completed_mono: "\<lbrakk>inv w; le w w'; completed msg w\<rbrakk> \<Longrightarrow> completed msg w'"
    and answered_mono: "le w w' \<Longrightarrow> answered msg w \<Longrightarrow> answered msg w'"
    and claim_quiet: "op_Claim (os_claims s) msg w = (d, w') \<Longrightarrow> quiet le sent acks w w'"
    and complete_quiet: "op_Complete (os_claims s) msg w = (e, w') \<Longrightarrow> quiet le sent acks w w'"
    and release_quiet: "op_Release (os_claims s) msg w = (e, w') \<Longrightarrow> quiet le sent acks w w'"
    and stored_quiet: "op_Stored (os_chain s) msg w = (st, w') \<Longrightarrow> quiet le sent acks w w'"
    and book_quiet: "op_Book (os_chain s) msg w = (bk, w') \<Longrightarrow> quiet le sent acks w w'"
    and free_quiet: "op_Free (os_chain s) b w = (e, w') \<Longrightarrow> quiet le sent acks w w'"
    and commit_quiet: "op_Commit (os_chain s) b i w = (e, w') \<Longrightarrow> quiet le sent acks w w'"
    and record_quiet: "op_Record (os_chain s) i oc w = (e, w') \<Longrightarrow> quiet le sent acks w w'"
    and prepare_quiet: "op_Prepare (os_pipeline s) msg w = (p, w') \<Longrightarrow> quiet le sent acks w w'"
    and build_quiet: "op_Build (os_pipeline s) pr b w = (bi, w') \<Longrightarrow> quiet le sent acks w w'"
    and submit_sends: "op_Submit (os_pipeline s) i w = (a, w') \<Longrightarrow>
      le w w' \<and> sent w' = sent w @ [i] \<and> acks w' = acks w"
    and ack_counts: "ack w = (e, w') \<Longrightarrow> le w w' \<and> sent w' = sent w \<and> acks w' = Suc (acks w)"
    and duplicate_completed: "op_Claim (os_claims s) msg w = (Inr ClaimDuplicate, w') \<Longrightarrow> completed msg w'"
    and complete_completed: "op_Complete (os_claims s) msg w = (None, w') \<Longrightarrow> completed msg w'"
    and stored_stored: "op_Stored (os_chain s) msg w = (Inr (Some i), w') \<Longrightarrow> stored_as i w'"
    and commit_stored: "op_Commit (os_chain s) b i w = (None, w') \<Longrightarrow> stored_as i w'"
    and answered_stored: "\<lbrakk>answered msg w; op_Stored (os_chain s) msg w = (Inr so, w')\<rbrakk> \<Longrightarrow>
      \<exists>i. so = Some i \<and> i_Outcome i \<noteq> []"
begin

lemma quiet_trans:
  "quiet le sent acks w1 w2 \<Longrightarrow> quiet le sent acks w2 w3 \<Longrightarrow> quiet le sent acks w1 w3"
  using le_trans by (auto simp: quiet_def)

end

sublocale delivery_world < moves: chain_moves s "quiet le sent acks"
  by unfold_locales
    (blast intro: quiet_trans stored_quiet book_quiet free_quiet commit_quiet prepare_quiet build_quiet)+

context delivery_world
begin

lemma complete_run:
  "op_Complete (os_claims s) msg w = (e, w') \<Longrightarrow> quiet le sent acks w w' \<and> (e = None \<longrightarrow> completed msg w')"
  using complete_quiet complete_completed by blast

lemma failed_run:
  assumes "failed s msg cause ack w = (r, w')" and "inv w"
  shows "le w w' \<and> sent w' = sent w \<and> (acks w' = acks w \<or> acks w' = Suc (acks w) \<and> completed msg w')"
  using assms
  by (auto simp: failed_def quiet_def split: prod.splits option.splits if_splits
      dest!: complete_run release_quiet ack_counts intro: le_trans)
    (meson completed_mono inv_mono)+

lemma finish_run:
  assumes "finish s msg ack result w = (r, w')" and "inv w"
  shows "le w w' \<and> sent w' = sent w \<and> (acks w' = acks w \<or> acks w' = Suc (acks w) \<and> completed msg w')"
proof -
  obtain e w1 where complete: "op_Complete (os_claims s) msg w = (e, w1)"
    by (cases "op_Complete (os_claims s) msg w")
  note run1 = complete_run [OF complete, unfolded quiet_def]
  then have inv1: "inv w1"
    using inv_mono assms(2) by blast
  show ?thesis
  proof (cases e)
    case None
    obtain a w2 where acked: "ack w1 = (a, w2)"
      by (cases "ack w1")
    then have "w' = w2"
      using assms complete None by (auto simp: finish_def split: option.splits)
    then show ?thesis
      using run1 ack_counts [OF acked] None le_trans completed_mono [OF inv1] by auto
  next
    case (Some c)
    then have "failed s msg (Wrapf ''complete ordered stream claim: '' c []) ack w1 = (r, w')"
      using assms complete by (simp add: finish_def)
    from failed_run [OF this inv1] show ?thesis
      using run1 le_trans by auto
  qed
qed

lemma build_commit_run:
  assumes "(case op_Build (os_pipeline s) pr b w of
      (Inl e, w4) \<Rightarrow> apfst Inl (release_booking s b e w4)
    | (Inr i, w4) \<Rightarrow>
      (case checkBuilt i msg b of
         Some e \<Rightarrow> apfst Inl (release_booking s b e w4)
       | None \<Rightarrow>
         (case op_Commit (os_chain s) b i w4 of
            (Some e, w5) \<Rightarrow> apfst Inl (release_booking s b e w5)
          | (None, w5) \<Rightarrow> (Inr i, w5)))) = (res, w')"
  shows "quiet le sent acks w w' \<and> (\<forall>i. res = Inr i \<longrightarrow> stored_as i w' \<and> for_message i msg)"
proof -
  have free: "quiet le sent acks v w' \<and> (\<exists>e. res = Inl e)"
    if "apfst Inl (release_booking s b e v) = (res, w')" for e v
    using that moves.release_booking_mv [of b e v] by (cases "release_booking s b e v") auto
  obtain bi w4 where build: "op_Build (os_pipeline s) pr b w = (bi, w4)"
    by (cases "op_Build (os_pipeline s) pr b w")
  note q4 = build_quiet [OF build]
  show ?thesis
  proof (cases bi)
    case (Inl e)
    then show ?thesis
      using assms build free [of e w4] q4 quiet_trans by auto
  next
    case (Inr i)
    obtain ce w5 where commit: "op_Commit (os_chain s) b i w4 = (ce, w5)"
      by (cases "op_Commit (os_chain s) b i w4")
    note q5 = quiet_trans [OF q4 commit_quiet [OF commit]]
    show ?thesis
    proof (cases "checkBuilt i msg b")
      case (Some e)
      then show ?thesis
        using assms build Inr free [of e w4] q4 quiet_trans by auto
    next
      case None
      then show ?thesis
        using assms build Inr commit free [of _ w5] q5 quiet_trans commit_stored [of b i w4 w5] checkBuilt_None [of i msg b]
        by (cases ce) auto
    qed
  qed
qed

lemma invoiceFor_run:
  assumes "invoiceFor s msg w = (res, w')"
  shows "quiet le sent acks w w' \<and>
    (\<forall>i. res = Inr i \<longrightarrow> stored_as i w' \<and> for_message i msg \<and> (answered msg w \<longrightarrow> i_Outcome i \<noteq> []))"
proof -
  obtain st w1 where stored: "op_Stored (os_chain s) msg w = (st, w1)"
    by (cases "op_Stored (os_chain s) msg w")
  note q1 = stored_quiet [OF stored]
  consider e where "st = Inl e" | i where "st = Inr (Some i)" | "st = Inr None"
    by (cases st) auto
  then show ?thesis
  proof cases
    case 1
    then show ?thesis using assms stored q1 by (auto simp: invoiceFor_def)
  next
    case 2
    then show ?thesis
      using assms stored q1 stored_stored answered_stored [of msg w "Some i" w1]
      by (auto simp: invoiceFor_def dest!: checkStored_Inr)
  next
    case 3
    then have free: "\<not> answered msg w"
      using answered_stored stored by blast
    obtain p w2 where prepare: "op_Prepare (os_pipeline s) msg w1 = (p, w2)"
      by (cases "op_Prepare (os_pipeline s) msg w1")
    obtain bk w3 where book: "op_Book (os_chain s) msg w2 = (bk, w3)"
      by (cases "op_Book (os_chain s) msg w2")
    note q2 = quiet_trans [OF q1 prepare_quiet [OF prepare]]
    note q3 = quiet_trans [OF q2 book_quiet [OF book]]
    show ?thesis
    proof (cases p)
      case (Inl e)
      then show ?thesis using assms stored 3 prepare q2 by (auto simp: invoiceFor_def)
    next
      case (Inr pr)
      show ?thesis
      proof (cases bk)
        case (Inl e)
        then show ?thesis using assms stored 3 prepare Inr book q3 by (auto simp: invoiceFor_def)
      next
        case (Inr b)
        then show ?thesis
          using assms stored 3 prepare \<open>p = Inr pr\<close> book free quiet_trans [OF q3] build_commit_run [where pr = pr and b = b and w = w3 and msg = msg and res = res and w' = w']
          by (auto simp: invoiceFor_def)
      qed
    qed
  qed
qed

text \<open>What one run of the protocol does: it sends at most one invoice, a stored one of the message.\<close>

lemma process_run:
  assumes "process s msg ack w = (r, w')" and "inv w"
  shows "le w w' \<and> (acks w' = acks w \<or> acks w' = Suc (acks w) \<and> completed msg w') \<and>
    (sent w' = sent w \<or> (\<exists>i. sent w' = sent w @ [i] \<and> stored_as i w' \<and> for_message i msg \<and>
       i_Outcome i = [] \<and> \<not> answered msg w))"
proof -
  obtain res w1 where inv_for: "invoiceFor s msg w = (res, w1)"
    by (cases "invoiceFor s msg w")
  note run1 = invoiceFor_run [OF inv_for, unfolded quiet_def]
  then have inv1: "inv w1"
    using inv_mono assms(2) by blast
  show ?thesis
  proof (cases res)
    case (Inl e)
    then show ?thesis
      using assms inv_for inv1 run1 failed_run [of msg e w1 r w'] le_trans by (auto simp: process_def)
  next
    case (Inr i)
    obtain a w2 where submit: "op_Submit (os_pipeline s) i w1 = (a, w2)"
      by (cases "op_Submit (os_pipeline s) i w1")
    obtain oc err where a: "a = (oc, err)"
      by (cases a)
    obtain re w3 where rec: "op_Record (os_chain s) i oc w2 = (re, w3)"
      by (cases "op_Record (os_chain s) i oc w2")
    note run2 = submit_sends [OF submit] and run3 = record_quiet [OF rec, unfolded quiet_def]
    have chain: "le w w2" "le w w3" "le w1 w2" "le w1 w3"
      using run1 run2 run3 le_trans by blast+
    then have inv23: "inv w2" "inv w3"
      using inv_mono assms(2) by blast+
    have tail: ?thesis if "i_Outcome i = []" "le w1 v" "le w v" "sent v = sent w @ [i]" "acks v = acks w"
      "le v w' \<and> sent w' = sent v \<and> (acks w' = acks v \<or> acks w' = Suc (acks v) \<and> completed msg w')" for v
    proof -
      have "stored_as i w'"
        using run1 Inr stored_as_mono [OF le_trans] that(2,6) by blast
      then show ?thesis
        using that run1 Inr le_trans by auto
    qed
    show ?thesis
    proof (cases "i_Outcome i = []")
      case False
      then show ?thesis
        using assms inv_for inv1 Inr run1 finish_run [of msg None w1 r w'] le_trans by (auto simp: process_def)
    next
      case True
      consider (technical) cause where "failed s msg cause ack w2 = (r, w')"
        | (unrecorded) cause where "failed s msg cause ack w3 = (r, w')"
        | (recorded) result where "finish s msg ack result w3 = (r, w')"
        using assms inv_for Inr True submit a rec by (auto simp: process_def split: if_splits option.splits)
      then show ?thesis
      proof cases
        case technical
        show ?thesis using tail [OF True chain(3,1) _ _ failed_run [OF technical inv23(1)]] run1 run2 by simp
      next
        case unrecorded
        show ?thesis using tail [OF True chain(4,2) _ _ failed_run [OF unrecorded inv23(2)]] run1 run2 run3 by simp
      next
        case recorded
        show ?thesis using tail [OF True chain(4,2) _ _ finish_run [OF recorded inv23(2)]] run1 run2 run3 by simp
      qed
    qed
  qed
qed

lemma HandleMessage_run:
  assumes "HandleMessage s msg (Some ack) w = (r, w')" and "inv w"
  shows "le w w' \<and>
    (acks w' = acks w \<or>
     acks w' = Suc (acks w) \<and> (completed msg w' \<or> (\<exists>e. r = Some e \<and> is_err e ErrFingerprintConflict))) \<and>
    (sent w' = sent w \<or> (\<exists>i. sent w' = sent w @ [i] \<and> stored_as i w' \<and> for_message i msg \<and>
       i_Outcome i = [] \<and> \<not> answered msg w))"
proof (cases "message_Validate msg")
  case (Some e)
  then show ?thesis using assms le_refl by (auto simp: HandleMessage_def)
next
  case None
  obtain d w1 where claim: "op_Claim (os_claims s) msg w = (d, w1)"
    by (cases "op_Claim (os_claims s) msg w")
  note run1 = claim_quiet [OF claim, unfolded quiet_def]
  obtain ae w2 where acked: "ack w1 = (ae, w2)"
    by (cases "ack w1")
  note run2 = ack_counts [OF acked]
  have le2: "le w w2"
    using run1 run2 le_trans by blast
  have inv1: "inv w1"
    using run1 inv_mono assms(2) by blast
  consider e where "d = Inl e" | "d = Inr ClaimDuplicate" | "d = Inr ClaimConflict" | "d = Inr ClaimInFlight"
    | "d = Inr ClaimProcess"
    by (metis claim_decision.exhaust sum.exhaust)
  then show ?thesis
  proof cases
    case 2
    then show ?thesis
      using assms None claim acked run1 run2 le2 duplicate_completed [of msg w w1] completed_mono [of w1 w2 msg] inv1
      by (simp add: HandleMessage_def)
  next
    case 3
    then show ?thesis
      using assms None claim acked run1 run2 le2
      by (auto simp: HandleMessage_def Let_def split: option.splits)
  next
    case 5
    then have "process s msg ack w1 = (r, w')"
      using assms None claim by (simp add: HandleMessage_def)
    from process_run [OF this inv1] show ?thesis
      using run1 le_trans answered_mono [of w w1 msg] by auto
  qed (use assms None claim run1 in \<open>simp_all add: HandleMessage_def\<close>)
qed

lemma Finalize_run:
  assumes "FinalizePermanentFailure s msg (Some cause) (Some ack) w = (r, w')" and "inv w"
  shows "le w w' \<and> sent w' = sent w \<and> (acks w' = acks w \<or> acks w' = Suc (acks w) \<and> completed msg w')"
  using assms
  by (auto simp: FinalizePermanentFailure_def quiet_def split: prod.splits option.splits sum.splits if_splits
      dest!: stored_quiet record_quiet complete_run ack_counts) (meson le_trans completed_mono inv_mono)+

end

end
