(* ===== verification/Delivery_World.thy ===== *)
theory Delivery_World
  imports Claim_Store Chain_Laws Ordered_Stream
begin

text \<open>
  The world the protocol runs in: the tenant database, shared with every other process that works on
  it, the invoices sent to ZATCA so far, and the acknowledgements.  A script says what the
  environment does at each call: which statements fail and what the clock shows, what the other
  processes did to the database since the call before, and what the pipeline and the broker
  answer.  All of it is arbitrary, so a theorem over all scripts covers every interleaving, crash
  and retry.
\<close>

section \<open>The database and the other processes\<close>

datatype other_step =
    OtherChain chain_op
  | OtherClaim claim_op sql_env message
  | OtherBranch int
  | OtherBill int int int

fun other_call :: "other_step \<Rightarrow> tenant_db \<Rightarrow> tenant_db" where
  "other_call (OtherChain op) db = chain_call op db"
| "other_call (OtherClaim op env msg) db = claim_call NewSQLClaimStore (op, env, msg) db"
| "other_call (OtherBranch branch) db =
     (if chain_of branch db = None then db\<lparr>db_chains := db_chains db @ [new_branch branch]\<rparr> else db)"
| "other_call (OtherBill bid branch state) db =
     (if bill_of bid db = None \<and> state \<noteq> 3
      then db\<lparr>db_bills := db_bills db @ [new_bill bid branch state]\<rparr> else db)"

inductive db_step :: "tenant_db \<Rightarrow> tenant_db \<Rightarrow> bool" where
  chain: "chain_effect db db' \<Longrightarrow> db_step db db'"
| claim: "claim_change st env msg db db' \<Longrightarrow> db_step db db'"

abbreviation db_later :: "tenant_db \<Rightarrow> tenant_db \<Rightarrow> bool" where
  "db_later \<equiv> db_step\<^sup>*\<^sup>*"

lemma other_call_step: "db_step db (other_call x db)"
proof (cases x)
  case (OtherClaim op env msg)
  then show ?thesis
    by (simp only: other_call.simps) (rule db_step.claim [OF claim_call_changes])
qed (auto intro!: db_step.chain intro: chain_call_effect chain_effect.intros)

lemma others_later: "db_later db (fold other_call os db)"
proof (induction os arbitrary: db)
  case (Cons x os)
  have "db_later db (other_call x db)"
    using other_call_step by (rule r_into_rtranclp)
  also have "db_later (other_call x db) (fold other_call os (other_call x db))"
    by (rule Cons.IH)
  finally show ?case by simp
qed simp

text \<open>Steps of the claims leave the chain tables alone, and the other way round.\<close>

lemma claim_change_frame:
  "claim_change st env msg db db' \<Longrightarrow> db_submissions db' = db_submissions db \<and> db_bills db' = db_bills db \<and>
     db_chains db' = db_chains db \<and> db_outcomes db' = db_outcomes db"
  by (erule claim_change.cases) auto

lemma chain_effect_frame: "chain_effect db db' \<Longrightarrow> db_claims db' = db_claims db"
  by (erule chain_effect.cases) (auto simp: booked_def freed_def committed_def recorded_def)

lemma db_later_induct:
  assumes "db_later db db'" and "I db"
    and "\<And>a b. \<lbrakk>chain_effect a b; I a\<rbrakk> \<Longrightarrow> I b" and "\<And>st env msg a b. \<lbrakk>claim_change st env msg a b; I a\<rbrakk> \<Longrightarrow> I b"
  shows "I db'"
  using assms(1) by (induction rule: rtranclp_induct) (auto simp: assms elim!: db_step.cases intro: assms)

lemma later_claims_wf: "db_later db db' \<Longrightarrow> claims_wf db \<Longrightarrow> claims_wf db'"
proof (erule db_later_induct)
  show "claims_wf b" if "chain_effect a b" "claims_wf a" for a b
    using chain_effect_frame [OF that(1)] that(2) by (simp add: claims_wf_def)
qed (auto intro: claim_change_wf)

lemma later_submission:
  assumes "db_later db db'" and "s \<in> set (db_submissions db)"
  shows "\<exists>s' \<in> set (db_submissions db'). successor s s'"
  using assms(1)
proof (rule db_later_induct)
  show "\<exists>s' \<in> set (db_submissions db). successor s s'"
    using assms(2) successor_refl by blast
next
  fix a b
  assume "chain_effect a b" "\<exists>s' \<in> set (db_submissions a). successor s s'"
  then show "\<exists>s' \<in> set (db_submissions b). successor s s'"
    using chain_effect_successor successor_trans by blast
qed (simp add: claim_change_frame)

lemma later_completed:
  assumes "db_later db db'" and "claims_wf db" and "r \<in> set (db_claims db)" and "c_state r = claimCompleted"
  shows "r \<in> set (db_claims db')"
proof -
  from assms(1) have "claims_wf db' \<and> r \<in> set (db_claims db')"
  proof (rule db_later_induct)
    show "claims_wf b \<and> r \<in> set (db_claims b)" if "chain_effect a b" "claims_wf a \<and> r \<in> set (db_claims a)" for a b
      using chain_effect_frame [OF that(1)] that(2) by (simp add: claims_wf_def)
  next
    show "claims_wf b \<and> r \<in> set (db_claims b)"
      if "claim_change st env msg a b" "claims_wf a \<and> r \<in> set (db_claims a)" for st env msg a b
      using that claim_change_wf change_keeps_completed assms(4) by blast
  qed (use assms in simp)
  then show ?thesis ..
qed

text \<open>The first submission of a bill stays its first one, and keeps its answer.\<close>

lemma effect_keeps_answer:
  assumes "chain_effect db db'" and "find (\<lambda>s. s_bill_id s = bid) (db_submissions db) = Some s"
    and "s_outcome_state s \<noteq> outcomePending"
  shows "find (\<lambda>s. s_bill_id s = bid) (db_submissions db') = Some s"
  using assms
  by (cases rule: chain_effect.cases)
    (auto simp: booked_def freed_def committed_def recorded_def find_append find_upd waiting_def)

lemma effect_keeps_bill:
  assumes "chain_effect db db'" and "bill_of bid db = Some b"
  shows "\<exists>b'. bill_of bid db' = Some b'"
  using assms
  by (cases rule: chain_effect.cases)
    (auto simp: bill_of_def booked_def freed_def committed_def recorded_def find_append find_upd
      bill_invoiced_def split: if_splits)

lemma later_answer:
  assumes "db_later db db'" and "stored_row bid db = Some (s, b)" and "s_outcome_state s \<noteq> outcomePending"
  shows "\<exists>b'. stored_row bid db' = Some (s, b')"
  using assms(1)
proof (rule db_later_induct)
  fix a c
  assume "chain_effect a c" "\<exists>b'. stored_row bid a = Some (s, b')"
  then show "\<exists>b'. stored_row bid c = Some (s, b')"
    using effect_keeps_answer [OF _ _ assms(3)] effect_keeps_bill
    by (fastforce simp: stored_row_def split: option.splits)
qed (use assms(2) in \<open>auto simp: stored_row_def bill_of_def claim_change_frame\<close>)

section \<open>The world\<close>

record 'p script =
  sc_env :: "nat \<Rightarrow> sql_env"
  sc_others :: "nat \<Rightarrow> other_step list"
  sc_prepare :: "nat \<Rightarrow> message \<Rightarrow> goerr + 'p"
  sc_build :: "nat \<Rightarrow> 'p \<Rightarrow> booking \<Rightarrow> goerr + signed_invoice"
  sc_submit :: "nat \<Rightarrow> signed_invoice \<Rightarrow> outcome \<times> goerr option"
  sc_ack :: "nat \<Rightarrow> goerr option"

record world =
  w_db :: tenant_db
  w_sent :: "signed_invoice list"
  w_acks :: nat
  w_calls :: nat

text \<open>A call on the database: the others first, then the call with its own clock and faults.\<close>

definition db_call :: "'p script \<Rightarrow> (sql_env \<Rightarrow> tenant_db \<Rightarrow> 'r \<times> tenant_db) \<Rightarrow> world \<Rightarrow> 'r \<times> world" where
  "db_call sc f w =
     (case f (sc_env sc (w_calls w)) (fold other_call (sc_others sc (w_calls w)) (w_db w)) of
        (r, db) \<Rightarrow> (r, w\<lparr>w_db := db, w_calls := Suc (w_calls w)\<rparr>))"

definition sql_claims_of :: "'p script \<Rightarrow> world claim_ops" where
  "sql_claims_of sc =
     \<lparr>op_Claim = (\<lambda>msg. db_call sc (\<lambda>env. Claim (Some NewSQLClaimStore) env msg)),
      op_Complete = (\<lambda>msg. db_call sc (\<lambda>env. claim_Complete (Some NewSQLClaimStore) env msg)),
      op_Release = (\<lambda>msg. db_call sc (\<lambda>env. claim_Release (Some NewSQLClaimStore) env msg))\<rparr>"

definition sql_chain_of :: "'p script \<Rightarrow> world chain_ops" where
  "sql_chain_of sc =
     \<lparr>op_Stored = (\<lambda>msg. db_call sc (\<lambda>env db. (Stored env msg db, db))),
      op_Book = (\<lambda>msg. db_call sc (\<lambda>env. Book NewSQLChain env msg)),
      op_Free = (\<lambda>b. db_call sc (\<lambda>env. chain_Release env b)),
      op_Commit = (\<lambda>b i. db_call sc (\<lambda>env. Commit env b i)),
      op_Record = (\<lambda>i oc. db_call sc (\<lambda>env. Record env i oc))\<rparr>"

definition step_of :: "world \<Rightarrow> world" where
  "step_of w = w\<lparr>w_calls := Suc (w_calls w)\<rparr>"

definition pipeline_of :: "'p script \<Rightarrow> (world, 'p) pipeline_ops" where
  "pipeline_of sc =
     \<lparr>op_Prepare = (\<lambda>msg w. (sc_prepare sc (w_calls w) msg, step_of w)),
      op_Build = (\<lambda>p b w. (sc_build sc (w_calls w) p b, step_of w)),
      op_Submit = (\<lambda>i w. (sc_submit sc (w_calls w) i, step_of (w\<lparr>w_sent := w_sent w @ [i]\<rparr>)))\<rparr>"

definition sql_stream :: "'p script \<Rightarrow> (world, 'p) ordered_stream" where
  "sql_stream sc = \<lparr>os_claims = sql_claims_of sc, os_chain = sql_chain_of sc, os_pipeline = pipeline_of sc\<rparr>"

definition broker_ack :: "'p script \<Rightarrow> world \<Rightarrow> goerr option \<times> world" where
  "broker_ack sc w = (sc_ack sc (w_calls w), step_of (w\<lparr>w_acks := Suc (w_acks w)\<rparr>))"

section \<open>What the world keeps\<close>

definition stored_invoice :: "signed_invoice \<Rightarrow> world \<Rightarrow> bool" where
  "stored_invoice i w \<longleftrightarrow> (\<exists>s \<in> set (db_submissions (w_db w)).
     s_bill_id s = i_SourceID i \<and> s_branch_id s = i_BranchID i \<and> s_invoice_icv s = i_ICV i \<and>
     s_previous_invoice_hash s = i_PIH i \<and> s_invoice_uuid s = i_UUID i \<and> s_invoice_hash s = i_Hash i \<and>
     s_invoice_kind s = i_Kind i \<and> s_signed_xml s = i_SignedXML i)"

definition completed_request :: "message \<Rightarrow> world \<Rightarrow> bool" where
  "completed_request msg w \<longleftrightarrow>
     (\<exists>r \<in> set (db_claims (w_db w)). same_request msg r \<and> c_state r = claimCompleted)"

definition answered_bill :: "message \<Rightarrow> world \<Rightarrow> bool" where
  "answered_bill msg w \<longleftrightarrow>
     (case stored_row (m_ID msg) (w_db w) of
        Some (s, b) \<Rightarrow> s_outcome_state s \<noteq> outcomePending \<and> s_outcome_state s \<noteq> []
      | None \<Rightarrow> False)"

definition world_later :: "world \<Rightarrow> world \<Rightarrow> bool" where
  "world_later w w' \<longleftrightarrow> db_later (w_db w) (w_db w')"

lemma db_call_quiet:
  assumes "\<And>env db r db'. f env db = (r, db') \<Longrightarrow> db_step db db'" and "db_call sc f w = (r, w')"
  shows "quiet world_later w_sent w_acks w w'"
proof -
  let ?db = "fold other_call (sc_others sc (w_calls w)) (w_db w)"
  obtain r' db where f: "f (sc_env sc (w_calls w)) ?db = (r', db)"
    by (cases "f (sc_env sc (w_calls w)) ?db")
  have "db_later (w_db w) db"
    using others_later [of "w_db w"] assms(1) [OF f] by (rule rtranclp.rtrancl_into_rtrancl)
  then show ?thesis
    using assms(2) f by (auto simp: quiet_def world_later_def db_call_def)
qed

lemma db_callE:
  assumes "db_call sc f w = (r, w')"
  obtains env db where "f env db = (r, w_db w')" and "db_later (w_db w) db"
  using assms others_later by (auto simp: db_call_def split: prod.splits)

lemma claim_ops_step:
  "Claim (Some NewSQLClaimStore) env msg db = (d, db') \<Longrightarrow> db_step db db'"
  "claim_Complete (Some NewSQLClaimStore) env msg db = (e, db') \<Longrightarrow> db_step db db'"
  "claim_Release (Some NewSQLClaimStore) env msg db = (e, db') \<Longrightarrow> db_step db db'"
  by (auto intro: db_step.claim dest: claim_call_change)

lemma chain_ops_step:
  "Book c env msg db = (bk, db') \<Longrightarrow> db_step db db'" "chain_Release env b db = (e, db') \<Longrightarrow> db_step db db'"
  "Commit env b i db = (e, db') \<Longrightarrow> db_step db db'" "Record env i oc db = (e, db') \<Longrightarrow> db_step db db'"
  using chain_call_effect [of db "OpBook c env msg"] chain_call_effect [of db "OpFree env b"]
    chain_call_effect [of db "OpCommit env b i"] chain_call_effect [of db "OpRecord env i oc"]
  by (auto intro: db_step.chain)

lemma Complete_completes:
  assumes "claim_Complete st env msg db = (None, db')"
  shows "\<exists>r \<in> set (db_claims db'). same_request msg r \<and> c_state r = claimCompleted"
proof -
  let ?rows = "upd (own_claim msg) (finish_claim env) (db_claims db)"
  have db': "db' = db\<lparr>db_claims := ?rows\<rparr>" and "0 < changed (own_claim msg) (finish_claim env) (db_claims db) \<or>
      claim_outcome_error CompleteQuery [] env msg db' = None"
    using assms by (auto simp: claim_Complete_def Let_def apply_at_None split: option.splits prod.splits if_splits)
  then consider r where "r \<in> set (db_claims db)" "own_claim msg r"
    | "claim_outcome_error CompleteQuery [] env msg db' = None"
    by (auto simp: changed_pos)
  then show ?thesis
  proof cases
    case 1
    then have "finish_claim env r \<in> set ?rows"
      by (force simp: upd_def)
    moreover have "same_request msg (finish_claim env r)"
      using 1 by (simp add: own_claim_def finish_claim_def)
    ultimately show ?thesis
      using db' by (intro bexI [of _ "finish_claim env r"]) simp_all
  next
    case 2
    then show ?thesis
      by (auto simp: claim_outcome_error_def query_row_Inr split: sum.splits if_splits dest!: find_SomeD)
  qed
qed

lemma Duplicate_completed:
  assumes "Claim st env msg db = (Inr ClaimDuplicate, db')"
  shows "\<exists>r \<in> set (db_claims db'). same_request msg r \<and> c_state r = claimCompleted"
proof -
  have "insertClaim s0 env msg db \<noteq> (Inr ClaimDuplicate, d)" for s0 d
    by (auto simp: insertClaim_def split: option.splits)
  then have "claimInTx s0 env msg db = (Inr ClaimDuplicate, d) \<Longrightarrow>
      d = db \<and> (\<exists>r. claim_of msg db = Some r \<and> c_state r = claimCompleted)" for s0 d
    by (auto simp: claimInTx_def Let_def query_row_Inr sqlClaimDecision_def
        split: sum.splits option.splits if_splits)
  then have "db' = db \<and> (\<exists>r. claim_of msg db = Some r \<and> c_state r = claimCompleted)"
    using assms by (auto simp: Claim_def apply_at_None split: option.splits sum.splits prod.splits if_splits)
  then show ?thesis
    by (auto simp: claim_of_def dest!: find_SomeD)
qed

lemma Stored_stored:
  assumes "Stored env msg (w_db w) = Inr (Some i)"
  shows "stored_invoice i w"
  using assms
  by (auto simp: Stored_def query_row_Inr stored_row_def stored_invoice_def invoice_of_row_def Let_def
      split: sum.splits if_splits option.splits prod.splits dest!: find_SomeD)

lemma Commit_stored:
  assumes "Commit env b i db = (None, w_db w)"
  shows "stored_invoice i w"
  using Commit_state [OF assms] by (auto simp: stored_invoice_def committed_def new_submission_def)

lemma Stored_answered:
  assumes "answered_bill msg w" and "db_later (w_db w) db" and "Stored env msg db = Inr so"
  shows "\<exists>i. so = Some i \<and> i_Outcome i \<noteq> []"
proof -
  obtain s b where s: "stored_row (m_ID msg) (w_db w) = Some (s, b)" "s_outcome_state s \<noteq> outcomePending"
    "s_outcome_state s \<noteq> []"
    using assms(1) by (auto simp: answered_bill_def split: option.splits)
  obtain b' where "stored_row (m_ID msg) db = Some (s, b')"
    using later_answer [OF assms(2) s(1,2)] by blast
  then show ?thesis
    using assms(3) s(2,3)
    by (auto simp: Stored_def query_row_def fails_sentinel invoice_of_row_def Let_def
        split: option.splits if_splits prod.splits)
qed

lemmas sql_stream_defs = sql_stream_def sql_claims_of_def sql_chain_of_def pipeline_of_def broker_ack_def

interpretation sql_delivery: delivery_world "sql_stream sc" "broker_ack sc" "\<lambda>w. claims_wf (w_db w)" world_later
  w_sent w_acks stored_invoice completed_request answered_bill for sc
proof
  fix w w' w2 :: world and i msg
  show "world_later w w"
    by (simp add: world_later_def)
  show "world_later w w' \<Longrightarrow> world_later w' w2 \<Longrightarrow> world_later w w2"
    by (auto simp: world_later_def)
  show "world_later w w' \<Longrightarrow> claims_wf (w_db w) \<Longrightarrow> claims_wf (w_db w')"
    using later_claims_wf by (simp add: world_later_def)
  show "world_later w w' \<Longrightarrow> stored_invoice i w \<Longrightarrow> stored_invoice i w'"
    using later_submission unfolding world_later_def stored_invoice_def successor_def sealed_def by fastforce
  show "claims_wf (w_db w) \<Longrightarrow> world_later w w' \<Longrightarrow> completed_request msg w \<Longrightarrow> completed_request msg w'"
    using later_completed unfolding world_later_def completed_request_def by blast
  show "world_later w w' \<Longrightarrow> answered_bill msg w \<Longrightarrow> answered_bill msg w'"
    using later_answer by (fastforce simp: world_later_def answered_bill_def split: option.splits)
  fix b and oc and p :: 'a and d e st bk pr bi a so
  show "op_Claim (os_claims (sql_stream sc)) msg w = (d, w') \<Longrightarrow> quiet world_later w_sent w_acks w w'"
    by (auto simp: sql_stream_defs intro: claim_ops_step elim!: db_call_quiet [rotated])
  show "op_Complete (os_claims (sql_stream sc)) msg w = (e, w') \<Longrightarrow> quiet world_later w_sent w_acks w w'"
    by (auto simp: sql_stream_defs intro: claim_ops_step elim!: db_call_quiet [rotated])
  show "op_Release (os_claims (sql_stream sc)) msg w = (e, w') \<Longrightarrow> quiet world_later w_sent w_acks w w'"
    by (auto simp: sql_stream_defs intro: claim_ops_step elim!: db_call_quiet [rotated])
  show "op_Stored (os_chain (sql_stream sc)) msg w = (st, w') \<Longrightarrow> quiet world_later w_sent w_acks w w'"
    by (auto simp: sql_stream_defs intro: db_step.chain chain_effect.idle elim!: db_call_quiet [rotated])
  show "op_Book (os_chain (sql_stream sc)) msg w = (bk, w') \<Longrightarrow> quiet world_later w_sent w_acks w w'"
    by (auto simp: sql_stream_defs intro: chain_ops_step elim!: db_call_quiet [rotated])
  show "op_Free (os_chain (sql_stream sc)) b w = (e, w') \<Longrightarrow> quiet world_later w_sent w_acks w w'"
    by (auto simp: sql_stream_defs intro: chain_ops_step elim!: db_call_quiet [rotated])
  show "op_Commit (os_chain (sql_stream sc)) b i w = (e, w') \<Longrightarrow> quiet world_later w_sent w_acks w w'"
    by (auto simp: sql_stream_defs intro: chain_ops_step elim!: db_call_quiet [rotated])
  show "op_Record (os_chain (sql_stream sc)) i oc w = (e, w') \<Longrightarrow> quiet world_later w_sent w_acks w w'"
    by (auto simp: sql_stream_defs intro: chain_ops_step elim!: db_call_quiet [rotated])
  show "op_Claim (os_claims (sql_stream sc)) msg w = (Inr ClaimDuplicate, w') \<Longrightarrow> completed_request msg w'"
    by (auto simp: sql_stream_defs completed_request_def elim!: db_callE dest!: Duplicate_completed)
  show "op_Complete (os_claims (sql_stream sc)) msg w = (None, w') \<Longrightarrow> completed_request msg w'"
    by (auto simp: sql_stream_defs completed_request_def elim!: db_callE dest!: Complete_completes)
  show "op_Stored (os_chain (sql_stream sc)) msg w = (Inr (Some i), w') \<Longrightarrow> stored_invoice i w'"
    by (auto simp: sql_stream_defs elim!: db_callE dest: Stored_stored)
  show "op_Commit (os_chain (sql_stream sc)) b i w = (None, w') \<Longrightarrow> stored_invoice i w'"
    by (auto simp: sql_stream_defs elim!: db_callE dest: Commit_stored)
  show "answered_bill msg w \<Longrightarrow> op_Stored (os_chain (sql_stream sc)) msg w = (Inr so, w') \<Longrightarrow>
      \<exists>i. so = Some i \<and> i_Outcome i \<noteq> []"
    by (auto simp: sql_stream_defs elim!: db_callE dest: Stored_answered)
qed (auto simp: sql_stream_defs quiet_def world_later_def step_of_def)

end
