(* ===== verification/Delivery_Laws.thy ===== *)
theory Delivery_Laws
  imports Delivery_World
begin

text \<open>
  What the delivery protocol guarantees on the SQL store and chain: only committed invoices are
  sent, an answered one never again, an acknowledgement only after the request is settled, a
  technical failure gives the request back, and a delivery with nothing in its way goes through.
\<close>

section \<open>A sample world\<close>

definition sample_accept :: outcome where
  "sample_accept = \<lparr>oc_State = OutcomeAccepted, oc_ProviderCode = ''200'', oc_Message = [],
     oc_Evidence = EvidenceUnspecified, oc_EvidenceID = []\<rparr>"

definition sample_script :: "unit script" where
  "sample_script =
     \<lparr>sc_env = (\<lambda>_. healthy_env 0), sc_others = (\<lambda>_. []), sc_prepare = (\<lambda>_ _. Inr ()),
      sc_build = (\<lambda>_ _ _. Inr sample_invoice), sc_submit = (\<lambda>_ _. (sample_accept, None)), sc_ack = (\<lambda>_. None)\<rparr>"

definition sample_world :: world where
  "sample_world = \<lparr>w_db = sample_start, w_sent = [], w_acks = 0, w_calls = 0\<rparr>"

lemma sample_start_claims: "claims_wf sample_start" "bills_wf sample_start" "db_claims sample_start = []"
  "claim_view_of sample_start k = Unclaimed" "event_free (claim_view_of sample_start) msg"
  by (simp_all add: sample_start_def claims_wf_def bills_wf_def new_bill_def claim_view_of_def row_view_def event_free_def)

lemma sample_world_simps [simp]:
  "w_db sample_world = sample_start" "w_sent sample_world = []" "w_acks sample_world = 0" "w_calls sample_world = 0"
  by (simp_all add: sample_world_def)

section \<open>Under every script\<close>

text \<open>C5: a delivery sends at most one invoice to ZATCA, and only one that is committed in the
  database, belongs to the envelope's bill, branch and UUID and has no recorded answer; with an
  answer recorded before the delivery, nothing is sent.  This holds whatever statements fail or
  stay unanswered, whatever other processes do to the database in between and whatever the
  pipeline and the broker answer.\<close>

theorem delivery_sends_committed:
  assumes "claims_wf (w_db w)"
    and "HandleMessage (sql_stream sc) msg (Some (broker_ack sc)) w = (r, w')"
  shows "w_sent w' = w_sent w \<or>
    (\<exists>i. w_sent w' = w_sent w @ [i] \<and> stored_invoice i w' \<and> for_message i msg \<and> i_Outcome i = [] \<and>
       \<not> answered_bill msg w)"
  using sql_delivery.HandleMessage_run [OF assms(2,1)] by blast

theorem delivery_sends_committed_witness:
  "\<exists>r w'. HandleMessage (sql_stream sample_script) sample_message (Some (broker_ack sample_script)) sample_world = (r, w') \<and>
     (w_sent w' = [] \<or> (\<exists>i. w_sent w' = [i] \<and> stored_invoice i w' \<and> for_message i sample_message))"
proof -
  obtain r w' where run: "HandleMessage (sql_stream sample_script) sample_message (Some (broker_ack sample_script)) sample_world = (r, w')"
    by fastforce
  show ?thesis
    using delivery_sends_committed [OF _ run] run sample_start_claims(1) by auto
qed

text \<open>C15: a delivery is acknowledged at most once, and only when the request is completed in the
  database or the envelope conflicts with the request as it was first claimed; every other delivery
  stays with the broker.  The same holds for the finalisation of a permanent failure, which sends
  nothing.\<close>

theorem delivery_acknowledges_settled:
  assumes "claims_wf (w_db w)"
    and "HandleMessage (sql_stream sc) msg (Some (broker_ack sc)) w = (r, w')"
    and "FinalizePermanentFailure (sql_stream sc) msg (Some cause) (Some (broker_ack sc)) w = (r2, w2)"
  shows "(w_acks w' = w_acks w \<or>
      w_acks w' = Suc (w_acks w) \<and>
      (completed_request msg w' \<or> (\<exists>e. r = Some e \<and> is_err e ErrFingerprintConflict))) \<and>
    (w_acks w2 = w_acks w \<or> w_acks w2 = Suc (w_acks w) \<and> completed_request msg w2) \<and>
    w_sent w2 = w_sent w"
  using sql_delivery.HandleMessage_run [OF assms(2,1)] sql_delivery.Finalize_run [OF assms(3,1)] by blast

theorem delivery_acknowledges_settled_witness:
  "\<exists>r w'. FinalizePermanentFailure (sql_stream sample_script) sample_message (Some (NewError ''budget exhausted''))
       (Some (broker_ack sample_script)) sample_world = (r, w') \<and>
     (w_acks w' = 0 \<or> w_acks w' = 1 \<and> completed_request sample_message w') \<and> w_sent w' = []"
proof -
  obtain r w' where run: "HandleMessage (sql_stream sample_script) sample_message (Some (broker_ack sample_script)) sample_world = (r, w')"
    by fastforce
  obtain r2 w2 where final: "FinalizePermanentFailure (sql_stream sample_script) sample_message (Some (NewError ''budget exhausted''))
      (Some (broker_ack sample_script)) sample_world = (r2, w2)"
    by fastforce
  show ?thesis
    using delivery_acknowledges_settled [OF _ run final] final sample_start_claims(1) by auto
qed

definition deliveries :: "'p script \<Rightarrow> message list \<Rightarrow> world \<Rightarrow> world" where
  "deliveries sc msgs w =
     fold (\<lambda>msg w. snd (HandleMessage (sql_stream sc) msg (Some (broker_ack sc)) w)) msgs w"

lemma later_bills_wf: "db_later db db' \<Longrightarrow> bills_wf db \<Longrightarrow> bills_wf db'"
proof (erule db_later_induct)
  show "bills_wf b" if "claim_change st env msg a b" "bills_wf a" for st env msg a b
    using claim_change_frame [OF that(1)] that(2) by (simp add: bills_wf_def)
qed (auto intro: chain_effect_bills)

lemma deliveries_induct:
  assumes "I w" and "\<And>msg w r w'. \<lbrakk>I w; HandleMessage (sql_stream sc) msg (Some (broker_ack sc)) w = (r, w')\<rbrakk> \<Longrightarrow> I w'"
  shows "I (deliveries sc msgs w)"
  using assms unfolding deliveries_def
proof (induction msgs arbitrary: w)
  case (Cons msg msgs)
  have "I (snd (HandleMessage (sql_stream sc) msg (Some (broker_ack sc)) w))"
    by (rule Cons.prems(2) [OF Cons.prems(1) prod.collapse [symmetric]])
  then show ?case
    using Cons by simp
qed simp

text \<open>C2: over any sequence of deliveries of any envelopes, every invoice that was ever sent is
  committed in the database, and all invoices sent for one bill are the same one: they share their
  UUID and their hash.\<close>

theorem one_invoice_per_bill:
  assumes "claims_wf (w_db w)" and "bills_wf (w_db w)" and "w_sent w = []"
  shows "(\<forall>i \<in> set (w_sent (deliveries sc msgs w)). stored_invoice i (deliveries sc msgs w)) \<and>
    (\<forall>i \<in> set (w_sent (deliveries sc msgs w)). \<forall>j \<in> set (w_sent (deliveries sc msgs w)).
       i_SourceID i = i_SourceID j \<longrightarrow> i_UUID i = i_UUID j \<and> i_Hash i = i_Hash j)"
proof -
  let ?I = "\<lambda>w. claims_wf (w_db w) \<and> bills_wf (w_db w) \<and> (\<forall>i \<in> set (w_sent w). stored_invoice i w)"
  have inv: "?I (deliveries sc msgs w)"
  proof (rule deliveries_induct)
    show "?I w" using assms by simp
  next
    fix msg w r w'
    assume w: "?I w" and run: "HandleMessage (sql_stream sc) msg (Some (broker_ack sc)) w = (r, w')"
    note result = sql_delivery.HandleMessage_run [OF run conjunct1 [OF w]]
    then have later: "world_later w w'" by blast
    then have "claims_wf (w_db w')" "bills_wf (w_db w')"
      using w later_claims_wf later_bills_wf unfolding world_later_def by blast+
    moreover have "stored_invoice i w'" if "i \<in> set (w_sent w)" for i
      using w that sql_delivery.stored_as_mono [OF later] by blast
    ultimately show "?I w'"
      using result by auto
  qed
  have "i_UUID i = i_UUID j \<and> i_Hash i = i_Hash j"
    if "stored_invoice i v" "stored_invoice j v" "i_SourceID i = i_SourceID j" "bills_wf (w_db v)" for i j v
    using that bills_wf_unique [OF that(4)] unfolding stored_invoice_def by metis
  then show ?thesis
    using inv by blast
qed

theorem one_invoice_per_bill_witness:
  "list_all (\<lambda>i. stored_invoice i (deliveries sample_script [sample_message, sample_retry, sample_message] sample_world))
     (w_sent (deliveries sample_script [sample_message, sample_retry, sample_message] sample_world))"
  using one_invoice_per_bill [of sample_world sample_script "[sample_message, sample_retry, sample_message]"]
    sample_start_claims(1,2) by (simp add: list_all_iff)

section \<open>Calm runs\<close>

text \<open>A calm script: no statement fails and no other process works on the database.\<close>

definition calm :: "'p script \<Rightarrow> bool" where
  "calm sc \<longleftrightarrow> (\<forall>n. healthy (sc_env sc n) \<and> sc_others sc n = [])"

lemma calm_call:
  "calm sc \<Longrightarrow> db_call sc f w =
     (case f (sc_env sc (w_calls w)) (w_db w) of (r, db) \<Rightarrow> (r, w\<lparr>w_db := db, w_calls := Suc (w_calls w)\<rparr>))"
  by (simp add: calm_def db_call_def)

text \<open>In a calm run the chain and the pipeline leave the claims alone.\<close>

definition same_claims :: "'p script \<Rightarrow> world \<Rightarrow> world \<Rightarrow> bool" where
  "same_claims sc w w' \<longleftrightarrow> (calm sc \<longrightarrow> db_claims (w_db w') = db_claims (w_db w) \<and> w_acks w' = w_acks w)"

lemma chain_ops_frame:
  "Book c env msg db = (bk, db') \<Longrightarrow> db_claims db' = db_claims db"
  "chain_Release env b db = (e, db') \<Longrightarrow> db_claims db' = db_claims db"
  "Commit env b i db = (e, db') \<Longrightarrow> db_claims db' = db_claims db"
  "Record env i oc db = (e, db') \<Longrightarrow> db_claims db' = db_claims db"
  using chain_effect_frame [OF chain_call_effect [of db "OpBook c env msg"]]
    chain_effect_frame [OF chain_call_effect [of db "OpFree env b"]]
    chain_effect_frame [OF chain_call_effect [of db "OpCommit env b i"]]
    chain_effect_frame [OF chain_call_effect [of db "OpRecord env i oc"]]
  by auto

interpretation calm_moves: chain_moves "sql_stream sc" "same_claims sc" for sc
  by unfold_locales
    (auto simp: same_claims_def sql_stream_defs calm_call step_of_def chain_ops_frame split: prod.splits)

abbreviation mine :: "message \<Rightarrow> time option \<Rightarrow> claim_view" where
  "mine msg l \<equiv> Held (m_EventID msg) (m_RequestFingerprint msg) l"

lemma same_claims_view: "db_claims a = db_claims b \<Longrightarrow> claim_view_of a = claim_view_of b \<and> claims_wf a = claims_wf b"
  by (simp add: claim_view_of_def claims_wf_def fun_eq_iff)

lemma calm_Claim:
  assumes "calm sc" and "claims_wf (w_db w)" and "message_Validate msg = None" and "event_free (claim_view_of (w_db w)) msg"
    and "fst (spec_claim defaultClaimLease (env_now (sc_env sc (w_calls w))) msg
      (claim_view_of (w_db w) (request_of msg))) = ClaimProcess"
  obtains db l where "op_Claim (os_claims (sql_stream sc)) msg w =
      (Inr ClaimProcess, w\<lparr>w_db := db, w_calls := Suc (w_calls w)\<rparr>)"
    "claims_wf db" "claim_view_of db (request_of msg) = mine msg (Some l)"
    "db_submissions db = db_submissions (w_db w)" "db_bills db = db_bills (w_db w)" "db_chains db = db_chains (w_db w)"
proof -
  let ?env = "sc_env sc (w_calls w)" and ?v = "claim_view_of (w_db w) (request_of msg)"
  have "healthy ?env"
    using assms(1) by (simp add: calm_def)
  then obtain db where db: "Claim (Some NewSQLClaimStore) ?env msg (w_db w) = (Inr ClaimProcess, db)" "claims_wf db"
    "claim_view_of db = (claim_view_of (w_db w))(request_of msg := snd (spec_claim defaultClaimLease (env_now ?env) msg ?v))"
    using Claim_refines [of NewSQLClaimStore ?env "w_db w" msg] assms(2-5) by auto
  moreover have "\<exists>l. snd (spec_claim defaultClaimLease (env_now ?env) msg ?v) = mine msg (Some l)"
    using assms(5) by (cases ?v) (auto split: if_splits)
  moreover note claim_change_frame [OF Claim_change [OF db(1)]]
  ultimately show thesis
    using assms(1) by (auto simp: sql_stream_defs calm_call intro!: that)
qed

lemma calm_Complete:
  assumes "calm sc" and "claims_wf (w_db w)" and "message_Validate msg = None"
    and "claim_view_of (w_db w) (request_of msg) = mine msg l"
  obtains db where "op_Complete (os_claims (sql_stream sc)) msg w = (None, w\<lparr>w_db := db, w_calls := Suc (w_calls w)\<rparr>)"
    "claims_wf db" "claim_view_of db (request_of msg) = Done (m_EventID msg) (m_RequestFingerprint msg)"
    "db_submissions db = db_submissions (w_db w)" "db_bills db = db_bills (w_db w)"
proof -
  let ?env = "sc_env sc (w_calls w)"
  have "healthy ?env"
    using assms(1) by (simp add: calm_def)
  then obtain db where db: "claim_Complete (Some NewSQLClaimStore) ?env msg (w_db w) = (None, db)" "claims_wf db"
    "claim_view_of db (request_of msg) = Done (m_EventID msg) (m_RequestFingerprint msg)"
    using claim_Complete_refines [of NewSQLClaimStore ?env "w_db w" msg] assms(2-4) by auto
  moreover note claim_change_frame [OF claim_Complete_change [OF db(1)]]
  ultimately show thesis
    using assms(1) by (auto simp: sql_stream_defs calm_call intro!: that)
qed

lemma calm_Release:
  assumes "calm sc" and "claims_wf (w_db w)" and "message_Validate msg = None"
    and "claim_view_of (w_db w) (request_of msg) = mine msg (Some l)"
  obtains db where "op_Release (os_claims (sql_stream sc)) msg w = (None, w\<lparr>w_db := db, w_calls := Suc (w_calls w)\<rparr>)"
    "claims_wf db" "claim_view_of db (request_of msg) = mine msg None"
proof -
  let ?env = "sc_env sc (w_calls w)"
  have "healthy ?env"
    using assms(1) by (simp add: calm_def)
  then obtain db where "claim_Release (Some NewSQLClaimStore) ?env msg (w_db w) = (None, db)" "claims_wf db"
    "claim_view_of db (request_of msg) = mine msg None"
    using claim_Release_refines [of NewSQLClaimStore ?env "w_db w" msg] assms(2-4) by auto
  then show thesis
    using assms(1) by (auto simp: sql_stream_defs calm_call intro!: that)
qed

text \<open>After its claim a calm delivery either completes the request and acknowledges, or fails and gives the
  claim back.  Where the acknowledgement arrives, the error of an acknowledged delivery is a final one.\<close>

definition final_error :: "goerr \<Rightarrow> bool" where
  "final_error e \<longleftrightarrow> is_err e ErrInvoiceRejected \<or> is_err e ErrOutcomeAmbiguous \<or> is_err e ErrRejectedInput"

definition settled :: "'p script \<Rightarrow> message \<Rightarrow> goerr option \<Rightarrow> world \<Rightarrow> world \<Rightarrow> bool" where
  "settled sc msg r w w' \<longleftrightarrow> claims_wf (w_db w') \<and>
     (w_acks w' = Suc (w_acks w) \<and> claim_view_of (w_db w') (request_of msg) = Done (m_EventID msg) (m_RequestFingerprint msg) \<and>
        ((\<forall>n. sc_ack sc n = None) \<longrightarrow> (case r of None \<Rightarrow> True | Some e \<Rightarrow> final_error e)) \<or>
      w_acks w' = w_acks w \<and> r \<noteq> None \<and> claim_view_of (w_db w') (request_of msg) = mine msg None)"

lemma failed_calm:
  assumes "calm sc" and "claims_wf (w_db w)" and "message_Validate msg = None"
    and "claim_view_of (w_db w) (request_of msg) = mine msg (Some l)"
    and "failed (sql_stream sc) msg cause (broker_ack sc) w = (r, w')"
  shows "settled sc msg r w w'"
proof (cases "is_err cause ErrRejectedInput")
  case True
  obtain db where "op_Complete (os_claims (sql_stream sc)) msg w = (None, w\<lparr>w_db := db, w_calls := Suc (w_calls w)\<rparr>)"
    "claims_wf db" "claim_view_of db (request_of msg) = Done (m_EventID msg) (m_RequestFingerprint msg)"
    using calm_Complete [OF assms(1-4)] by blast
  then show ?thesis
    using assms(5) True by (auto simp: failed_def settled_def final_error_def broker_ack_def step_of_def split: option.splits)
next
  case False
  obtain db where "op_Release (os_claims (sql_stream sc)) msg w = (None, w\<lparr>w_db := db, w_calls := Suc (w_calls w)\<rparr>)"
    "claims_wf db" "claim_view_of db (request_of msg) = mine msg None"
    using calm_Release [OF assms(1-4)] by blast
  then show ?thesis
    using assms(5) False by (auto simp: failed_def settled_def)
qed

lemma finish_calm:
  assumes "calm sc" and "claims_wf (w_db w)" and "message_Validate msg = None"
    and "claim_view_of (w_db w) (request_of msg) = mine msg (Some l)"
    and "finish (sql_stream sc) msg (broker_ack sc) result w = (r, w')" and "case result of None \<Rightarrow> True | Some e \<Rightarrow> final_error e"
  shows "settled sc msg r w w'"
proof -
  obtain db where "op_Complete (os_claims (sql_stream sc)) msg w = (None, w\<lparr>w_db := db, w_calls := Suc (w_calls w)\<rparr>)"
    "claims_wf db" "claim_view_of db (request_of msg) = Done (m_EventID msg) (m_RequestFingerprint msg)"
    using calm_Complete [OF assms(1-4)] by blast
  then show ?thesis
    using assms(5,6) by (auto simp: finish_def settled_def broker_ack_def step_of_def split: option.splits)
qed

lemma process_calm:
  assumes "calm sc" and "claims_wf (w_db w)" and "message_Validate msg = None"
    and "claim_view_of (w_db w) (request_of msg) = mine msg (Some l)"
    and "process (sql_stream sc) msg (broker_ack sc) w = (r, w')"
  shows "settled sc msg r w w'"
proof -
  have keep: "settled sc msg r w w'" if "db_claims (w_db v) = db_claims (w_db w)" "w_acks v = w_acks w"
    "failed (sql_stream sc) msg cause (broker_ack sc) v = (r, w') \<or>
     finish (sql_stream sc) msg (broker_ack sc) result v = (r, w') \<and> (case result of None \<Rightarrow> True | Some e \<Rightarrow> final_error e)"
    for v cause result
    using that same_claims_view [OF that(1)] assms(1-4) failed_calm [of sc v msg l cause r w']
      finish_calm [of sc v msg l result r w'] by (auto simp: settled_def)
  obtain res w1 where inv_for: "invoiceFor (sql_stream sc) msg w = (res, w1)"
    by (cases "invoiceFor (sql_stream sc) msg w")
  have w1: "db_claims (w_db w1) = db_claims (w_db w)" "w_acks w1 = w_acks w"
    using calm_moves.invoiceFor_mv [OF inv_for] assms(1) by (auto simp: same_claims_def)
  show ?thesis
  proof (cases res)
    case (Inl e)
    then show ?thesis
      using keep [OF w1] assms(5) inv_for by (auto simp: process_def)
  next
    case (Inr i)
    obtain a w2 where submit: "op_Submit (os_pipeline (sql_stream sc)) i w1 = (a, w2)"
      by (cases "op_Submit (os_pipeline (sql_stream sc)) i w1")
    obtain oc err where a: "a = (oc, err)"
      by (cases a)
    obtain re w3 where rec: "op_Record (os_chain (sql_stream sc)) i oc w2 = (re, w3)"
      by (cases "op_Record (os_chain (sql_stream sc)) i oc w2")
    have w2: "db_claims (w_db w2) = db_claims (w_db w)" "w_acks w2 = w_acks w"
      using submit w1 by (auto simp: sql_stream_defs step_of_def)
    have w3: "db_claims (w_db w3) = db_claims (w_db w)" "w_acks w3 = w_acks w"
      using rec w2 assms(1) by (auto simp: sql_stream_defs calm_call chain_ops_frame split: prod.splits)
    let ?result = "if oc_State oc = OutcomeRejected then Some (Wrapf [] (Sentinel ErrInvoiceRejected)
        ('': bill '' @ show_int (m_ID msg) @ '': '' @ oc_Message oc)) else err"
    have final: "case ?result of None \<Rightarrow> True | Some e \<Rightarrow> final_error e" if "\<not> (err \<noteq> None \<and> \<not> is_err (the err) ErrOutcomeAmbiguous)"
      using that by (auto simp: final_error_def split: option.splits)
    consider cause where "failed (sql_stream sc) msg cause (broker_ack sc) w2 = (r, w')"
      | cause where "failed (sql_stream sc) msg cause (broker_ack sc) w3 = (r, w')"
      | "finish (sql_stream sc) msg (broker_ack sc) ?result w3 = (r, w')" "case ?result of None \<Rightarrow> True | Some e \<Rightarrow> final_error e"
      | "finish (sql_stream sc) msg (broker_ack sc) None w1 = (r, w')"
      using assms(5) inv_for Inr submit a rec final
      unfolding process_def by (simp split: if_split_asm option.split_asm)
    then show ?thesis
      by cases (use keep [OF w1, of _ None] keep [OF w2] keep [OF w3, of _ ?result] in auto)
  qed
qed

lemma HandleMessage_calm:
  assumes "calm sc" and "claims_wf (w_db w)" and "message_Validate msg = None" and "event_free (claim_view_of (w_db w)) msg"
    and "fst (spec_claim defaultClaimLease (env_now (sc_env sc (w_calls w))) msg
      (claim_view_of (w_db w) (request_of msg))) = ClaimProcess"
    and "HandleMessage (sql_stream sc) msg (Some (broker_ack sc)) w = (r, w')"
  shows "settled sc msg r w w'"
proof -
  obtain db l where claim: "op_Claim (os_claims (sql_stream sc)) msg w =
      (Inr ClaimProcess, w\<lparr>w_db := db, w_calls := Suc (w_calls w)\<rparr>)" "claims_wf db"
    "claim_view_of db (request_of msg) = mine msg (Some l)"
    using calm_Claim [OF assms(1-5)] by metis
  then have "process (sql_stream sc) msg (broker_ack sc) (w\<lparr>w_db := db, w_calls := Suc (w_calls w)\<rparr>) = (r, w')"
    using assms(3,6) by (simp add: HandleMessage_def)
  from process_calm [OF assms(1) _ assms(3) _ this] claim show ?thesis
    by (simp add: settled_def)
qed

text \<open>In a calm run, a delivery that is granted its claim and does not acknowledge has given the
  claim back: the redelivery of the request, under any event and at any time, is granted at once.\<close>

theorem technical_failure_reopens:
  assumes "calm sc" and "claims_wf (w_db w)" and "message_Validate msg = None" and "event_free (claim_view_of (w_db w)) msg"
    and "fst (spec_claim defaultClaimLease (env_now (sc_env sc (w_calls w))) msg
      (claim_view_of (w_db w) (request_of msg))) = ClaimProcess"
    and "HandleMessage (sql_stream sc) msg (Some (broker_ack sc)) w = (r, w')" and "w_acks w' = w_acks w"
    and "message_Validate again = None" and "request_of again = request_of msg"
    and "m_RequestFingerprint again = m_RequestFingerprint msg" and "event_free (claim_view_of (w_db w')) again"
  shows "\<exists>db. Claim (Some NewSQLClaimStore) (healthy_env now) again (w_db w') = (Inr ClaimProcess, db)"
proof -
  from HandleMessage_calm [OF assms(1-6)]
  have "claims_wf (w_db w')" "claim_view_of (w_db w') (request_of again) = mine msg None"
    using assms(7,9) by (auto simp: settled_def)
  then show ?thesis
    using Claim_refines [of NewSQLClaimStore "healthy_env now" "w_db w'" again] assms(8,10,11)
    by (auto simp: lease_live_def)
qed

definition sample_broken :: "unit script" where
  "sample_broken = sample_script\<lparr>sc_prepare := (\<lambda>_ _. Inl (NewError ''connection refused''))\<rparr>"

lemma sample_broken_run:
  "HandleMessage (sql_stream sample_broken) sample_message (Some (broker_ack sample_broken)) sample_world =
     (Some (NewError ''connection refused''),
      sample_world\<lparr>w_db := sample_start\<lparr>db_claims := [give_back sample_claim]\<rparr>, w_calls := 4\<rparr>)"
proof -
  have calm: "calm sample_broken"
    by (simp add: calm_def sample_broken_def sample_script_def)
  have claim: "Claim (Some NewSQLClaimStore) (healthy_env 0) sample_message sample_start =
      (Inr ClaimProcess, sample_start\<lparr>db_claims := [sample_claim]\<rparr>)"
    by (simp add: Claim_def sample_message_valid claim_unset_def claimInTx_def claim_of_def insertClaim_def
        sample_claim_def sample_start_claims(3))
  have stored: "Stored (healthy_env 0) sample_message (sample_start\<lparr>db_claims := [sample_claim]\<rparr>) = Inr None"
    by (simp add: Stored_def stored_row_def sample_start_def)
  have own: "own_claim sample_message sample_claim" "give_back sample_claim \<noteq> sample_claim"
    by (simp_all add: own_claim_def sample_claim_def new_claim_def give_back_def)
  have release: "claim_Release (Some NewSQLClaimStore) (healthy_env 0) sample_message (sample_start\<lparr>db_claims := [sample_claim]\<rparr>) =
      (None, sample_start\<lparr>db_claims := [give_back sample_claim]\<rparr>)"
    using own by (simp add: claim_Release_def sample_message_valid claim_unset_def changed_def)
  have script: "sc_env sample_broken n = healthy_env 0" "sc_prepare sample_broken n msg = Inl (NewError ''connection refused'')" for n msg
    by (simp_all add: sample_broken_def sample_script_def)
  show ?thesis
    by (simp add: HandleMessage_def process_def invoiceFor_def failed_def sample_message_valid sql_stream_defs
        calm_call [OF calm] script claim stored release step_of_def)
qed

theorem technical_failure_reopens_witness:
  "\<exists>db. Claim (Some NewSQLClaimStore) (healthy_env 1) sample_retry
     (sample_start\<lparr>db_claims := [give_back sample_claim]\<rparr>) = (Inr ClaimProcess, db)"
proof -
  have "calm sample_broken"
    by (simp add: calm_def sample_broken_def sample_script_def)
  moreover have "event_free (claim_view_of (sample_start\<lparr>db_claims := [give_back sample_claim]\<rparr>)) sample_retry"
    by (simp add: event_free_def claim_view_of_def sample_claim_def row_view_def request_of_def)
  ultimately show ?thesis
    using technical_failure_reopens [OF _ _ sample_message_valid _ _ sample_broken_run _ sample_retry_valid, of 1]
      sample_start_claims by (simp add: request_of_def)
qed

section \<open>A delivery that goes through\<close>

text \<open>Nothing stands in the way of the bill: no invoice yet, the branch's chain is free, and the pipeline,
  ZATCA and the broker answer.  The answer names no source of its evidence, as those of
  \<open>BillPipeline.Submit\<close> do.\<close>

definition clear_way :: "'p script \<Rightarrow> message \<Rightarrow> chainRow \<Rightarrow> signed_invoice \<Rightarrow> outcome \<Rightarrow> tenant_db \<Rightarrow> bool" where
  "clear_way sc msg row i oc db \<longleftrightarrow>
     (\<forall>s \<in> set (db_submissions db). s_bill_id s \<noteq> m_ID msg) \<and>
     chain_of (m_BranchID msg) db = Some row \<and> unat (cr_lastICV row) + 1 < 2 ^ 63 \<and> cr_reservedICV row = None \<and>
     cr_leaseEnd row = None \<and>
     (\<exists>bl. bill_of (m_ID msg) db = Some bl \<and> bl_branch_id bl = m_BranchID msg \<and>
        bl_invoice_uuid bl = None \<and> bl_invoice_hash bl = None) \<and>
     (\<forall>n. \<exists>p. sc_prepare sc n msg = Inr p \<and> (\<forall>m. sc_build sc m p (booking_for row msg) = Inr i)) \<and>
     checkBuilt i msg (booking_for row msg) = None \<and> i_Outcome i = [] \<and>
     (\<forall>n. sc_submit sc n i = (oc, None)) \<and> (\<forall>n. sc_ack sc n = None) \<and>
     (oc_State oc = OutcomeAccepted \<or> oc_State oc = OutcomeWarning) \<and> oc_Evidence oc = EvidenceUnspecified"

lemma below_max: "unat (x :: u64) + 1 < 2 ^ 63 \<Longrightarrow> x \<noteq> - 1"
  by (auto simp: unsigned_minus_1_eq_mask mask_eq_exp_minus_1)

lemma clear_Book:
  assumes "clear_way sc msg row i oc db" and "healthy env" and "db_chains db' = db_chains db"
  shows "Book c env msg db' = (Inr (booking_for row msg), booked c env msg row db')"
proof -
  have "cr_lastICV row \<noteq> - 1"
    using assms(1) below_max unfolding clear_way_def by blast
  then show ?thesis
    using assms
    by (simp add: Book_def loadChainRow_def clear_way_def chain_of_def leaseLive_def Let_def booked_def)
qed

lemma clear_commit_ok:
  assumes "clear_way sc msg row i oc db" and "db_chains db' = db_chains db" and "db_bills db' = db_bills db"
    and "db_submissions db' = db_submissions db"
  shows "commit_ok (booking_for row msg) i (booked c env msg row db')" "unat (b_ICV (booking_for row msg)) < 2 ^ 63"
proof -
  note built = checkBuilt_None [of i msg "booking_for row msg"]
  have row: "chain_of (m_BranchID msg) db' = Some row" "cr_branch_id row = m_BranchID msg"
    using assms chain_of_SomeD [of "m_BranchID msg" db row] by (auto simp: clear_way_def chain_of_def)
  then have "chain_of (m_BranchID msg) (booked c env msg row db') = Some (reserve c env (booking_for row msg) row)"
    by (simp add: booked_def chain_of_def find_upd)
  moreover have "holds (reserve c env (booking_for row msg) row) (booking_for row msg)"
    by (simp add: holds_def ownedBy_def) (simp add: reserve_def)
  ultimately show "commit_ok (booking_for row msg) i (booked c env msg row db')"
    using assms built by (auto simp: commit_ok_def clear_way_def for_message_def bill_ok_def bill_of_def
        carries_other_def booked_def)
  have "cr_lastICV row \<noteq> - 1"
    using assms(1) below_max unfolding clear_way_def by blast
  then show "unat (b_ICV (booking_for row msg)) < 2 ^ 63"
    using assms(1) by (simp add: clear_way_def unat_succ)
qed

lemma clear_find:
  assumes "clear_way sc msg row i oc db" and "db_submissions db' = db_submissions db" and "for_message i msg"
  shows "find (\<lambda>s. s_bill_id s = m_ID msg) (db_submissions (committed b i db')) = Some (new_submission db' i)"
  using assms find_None_iff [of "\<lambda>s. s_bill_id s = m_ID msg" "db_submissions db'"]
  by (auto simp: clear_way_def committed_def find_append for_message_def)

lemma clear_Record:
  assumes "clear_way sc msg row i oc db" and "db_submissions db' = db_submissions db" and "healthy env"
    and "for_message i msg"
  shows "\<exists>st. Record env i oc (committed b i db') = (None, recorded env i oc st (next_submission_id db') (committed b i db'))"
proof -
  obtain st where st: "submissionStatus (oc_State oc) = Inr st"
    using assms(1) by (auto simp: clear_way_def submissionStatus_def outcome_defs)
  have find: "find (\<lambda>s. s_bill_id s = i_SourceID i) (db_submissions (committed b i db')) = Some (new_submission db' i)"
    using clear_find [OF assms(1,2,4)] assms(4) by (simp add: for_message_def)
  have "\<exists>t \<in> set (db_submissions (committed b i db')). waiting (next_submission_id db') t"
    by (auto simp: committed_def waiting_def)
  moreover have "oc_Evidence oc = EvidenceUnspecified"
    using assms(1) by (simp add: clear_way_def)
  ultimately show ?thesis
    using healthy_Record [OF assms(3) st _ _ find] by (auto simp: evidence_defs)
qed

lemma sql_ops:
  "op_Submit (os_pipeline (sql_stream sc)) i w = (sc_submit sc (w_calls w) i, step_of (w\<lparr>w_sent := w_sent w @ [i]\<rparr>))"
  "op_Record (os_chain (sql_stream sc)) i oc w = db_call sc (\<lambda>env. Record env i oc) w"
  by (simp_all add: sql_stream_defs)

lemma clear_invoiceFor:
  assumes "calm sc" and "clear_way sc msg row i oc db"
    and "db_submissions (w_db w) = db_submissions db" "db_bills (w_db w) = db_bills db" "db_chains (w_db w) = db_chains db"
  obtains b env where "invoiceFor (sql_stream sc) msg w =
      (Inr i, w\<lparr>w_db := committed b i (booked NewSQLChain env msg row (w_db w)), w_calls := w_calls w + 5\<rparr>)"
proof -
  let ?n = "w_calls w"
  let ?env = "sc_env sc (?n + 2)"
  let ?b = "booking_for row msg"
  let ?db = "booked NewSQLChain ?env msg row (w_db w)"
  obtain p where p: "sc_prepare sc (Suc ?n) msg = Inr p" "\<And>m. sc_build sc m p ?b = Inr i" and built: "checkBuilt i msg ?b = None"
    using assms(2) unfolding clear_way_def by meson
  have healthy: "healthy (sc_env sc m)" for m
    using assms(1) by (simp add: calm_def)
  have "stored_row (m_ID msg) (w_db w) = None"
    using assms(2,3) find_None_iff [of "\<lambda>s. s_bill_id s = m_ID msg" "db_submissions (w_db w)"]
    by (auto simp: clear_way_def stored_row_def split: option.splits)
  then have stored: "Stored (sc_env sc ?n) msg (w_db w) = Inr None"
    using healthy by (simp add: Stored_def)
  have book: "Book NewSQLChain ?env msg (w_db w) = (Inr ?b, ?db)"
    using clear_Book [OF assms(2) healthy assms(5)] .
  have commit: "Commit (sc_env sc m) ?b i ?db = (None, committed ?b i ?db)" for m
    using healthy_Commit [OF healthy clear_commit_ok(2) [OF assms(2,5,4,3)]]
      clear_commit_ok(1) [OF assms(2,5,4,3), of NewSQLChain ?env] by metis
  have "invoiceFor (sql_stream sc) msg w = (Inr i, w\<lparr>w_db := committed ?b i ?db, w_calls := ?n + 5\<rparr>)"
    using assms(1) stored p built book commit
    by (simp add: invoiceFor_def sql_stream_defs calm_call step_of_def numeral_eq_Suc)
  then show thesis ..
qed

text \<open>After a commit and an accepting answer the bill is issued and its submission carries the answer.\<close>

lemma clear_answered:
  assumes "clear_way sc msg row i oc db0" and "db_submissions db = db_submissions db0" and "db_bills db = db_bills db0"
  shows "\<exists>bl. bill_of (m_ID msg) (recorded env i oc st (next_submission_id db) (committed b i db)) = Some bl \<and> bl_state bl = 3"
    and "find (\<lambda>s. s_bill_id s = m_ID msg) (db_submissions (recorded env i oc st (next_submission_id db) (committed b i db))) =
      Some (answer env oc st (new_submission db i))"
proof -
  have i: "for_message i msg" "oc_State oc = OutcomeAccepted \<or> oc_State oc = OutcomeWarning"
    using assms(1) checkBuilt_None by (auto simp: clear_way_def)
  obtain bl where "bill_of (m_ID msg) db = Some bl"
    using assms(1,3) by (auto simp: clear_way_def bill_of_def)
  with i show "\<exists>bl. bill_of (m_ID msg) (recorded env i oc st (next_submission_id db) (committed b i db)) = Some bl \<and> bl_state bl = 3"
    by (auto simp: bill_of_def recorded_def committed_def find_upd for_message_def bill_invoiced_def dest: find_SomeD)
  show "find (\<lambda>s. s_bill_id s = m_ID msg) (db_submissions (recorded env i oc st (next_submission_id db) (committed b i db))) =
      Some (answer env oc st (new_submission db i))"
    using clear_find [OF assms(1) _ i(1), of db b] assms(2)
    by (simp add: recorded_def find_upd waiting_def next_submission_id_def)
qed

text \<open>C10: when nothing stands in the way, a delivery goes through to the end: it books, builds, commits,
  sends and records the invoice, completes the request, acknowledges once, marks the bill issued
  and returns no error.  The conditions: no statement fails, the message is valid, its request can be claimed
  and its event belongs to no other request; the bill exists on its branch and has no invoice, the
  branch's chain is free and not exhausted; the pipeline builds a valid invoice that matches its booking,
  ZATCA accepts it, with or without a warning, and the acknowledgement reaches the broker.\<close>

theorem delivery_goes_through:
  assumes "calm sc" and "claims_wf (w_db w)" and "message_Validate msg = None" and "event_free (claim_view_of (w_db w)) msg"
    and "fst (spec_claim defaultClaimLease (env_now (sc_env sc (w_calls w))) msg
      (claim_view_of (w_db w) (request_of msg))) = ClaimProcess"
    and "clear_way sc msg row i oc (w_db w)"
  shows "\<exists>w'. HandleMessage (sql_stream sc) msg (Some (broker_ack sc)) w = (None, w') \<and>
    w_sent w' = w_sent w @ [i] \<and> w_acks w' = Suc (w_acks w) \<and> completed_request msg w' \<and> stored_invoice i w' \<and>
    answered_bill msg w' \<and> (\<exists>bl. bill_of (m_ID msg) (w_db w') = Some bl \<and> bl_state bl = 3)"
proof -
  obtain db l where claim: "op_Claim (os_claims (sql_stream sc)) msg w =
      (Inr ClaimProcess, w\<lparr>w_db := db, w_calls := Suc (w_calls w)\<rparr>)" "claims_wf db"
    "claim_view_of db (request_of msg) = mine msg (Some l)"
    and same: "db_submissions db = db_submissions (w_db w)" "db_bills db = db_bills (w_db w)" "db_chains db = db_chains (w_db w)"
    using calm_Claim [OF assms(1-5)] by metis
  let ?w1 = "w\<lparr>w_db := db, w_calls := Suc (w_calls w)\<rparr>"
  obtain b env where inv_for: "invoiceFor (sql_stream sc) msg ?w1 =
      (Inr i, ?w1\<lparr>w_db := committed b i (booked NewSQLChain env msg row db), w_calls := w_calls ?w1 + 5\<rparr>)"
    using clear_invoiceFor [OF assms(1,6), of ?w1] same by auto
  let ?db2 = "booked NewSQLChain env msg row db"
  have i: "for_message i msg" "i_Outcome i = []" "\<And>n. sc_submit sc n i = (oc, None)" "\<And>n. sc_ack sc n = None"
    "oc_State oc = OutcomeAccepted \<or> oc_State oc = OutcomeWarning"
    using assms(6) checkBuilt_None by (auto simp: clear_way_def)
  let ?n = "w_calls w + 7"
  have healthy: "healthy (sc_env sc m)" for m
    using assms(1) by (simp add: calm_def)
  obtain st where rec: "Record (sc_env sc ?n) i oc (committed b i ?db2) =
      (None, recorded (sc_env sc ?n) i oc st (next_submission_id ?db2) (committed b i ?db2))" (is "_ = (None, ?db4)")
    using clear_Record [OF assms(6) _ healthy i(1), of ?db2] same(1) by (auto simp: booked_def)
  let ?w4 = "w\<lparr>w_sent := w_sent w @ [i], w_db := ?db4, w_calls := Suc ?n\<rparr>"
  have "db_claims ?db4 = db_claims db"
    by (simp add: recorded_def committed_def booked_def)
  then have "claims_wf ?db4" "claim_view_of ?db4 (request_of msg) = mine msg (Some l)"
    using same_claims_view [of ?db4 db] claim by auto
  then obtain db5 where complete: "op_Complete (os_claims (sql_stream sc)) msg ?w4 = (None, ?w4\<lparr>w_db := db5, w_calls := Suc (Suc ?n)\<rparr>)"
    and same5: "db_submissions db5 = db_submissions ?db4" "db_bills db5 = db_bills ?db4"
    using calm_Complete [OF assms(1) _ assms(3), of ?w4] by auto
  let ?w6 = "?w4\<lparr>w_db := db5, w_acks := Suc (w_acks w), w_calls := Suc (Suc (Suc ?n))\<rparr>"
  have run: "HandleMessage (sql_stream sc) msg (Some (broker_ack sc)) w = (None, ?w6)"
    using assms(1,3) claim(1) inv_for i rec complete
    by (auto simp: HandleMessage_def process_def finish_def sql_ops broker_ack_def step_of_def calm_call
        numeral_eq_Suc outcome_defs)
  moreover have "completed_request msg ?w6" "stored_invoice i ?w6"
    using sql_delivery.HandleMessage_run [OF run assms(2)] by auto
  moreover have issued: "\<exists>bl. bill_of (m_ID msg) db5 = Some bl \<and> bl_state bl = 3"
    using clear_answered(1) [OF assms(6), of ?db2] same same5(2) by (simp add: booked_def bill_of_def)
  moreover have "answered_bill msg ?w6"
    using clear_answered(2) [OF assms(6), of ?db2] same same5(1) issued i(5)
    by (auto simp: booked_def answered_bill_def stored_row_def outcome_defs)
  ultimately show ?thesis
    by (intro exI [of _ ?w6]) simp
qed

theorem delivery_goes_through_witness:
  "\<exists>w'. HandleMessage (sql_stream sample_script) sample_message (Some (broker_ack sample_script)) sample_world = (None, w') \<and>
     w_sent w' = [sample_invoice] \<and> w_acks w' = 1"
proof -
  have "calm sample_script"
    by (simp add: calm_def sample_script_def)
  moreover have "checkBuilt sample_invoice sample_message (booking_for (new_branch 7) sample_message) = None"
    by (simp add: checkBuilt_def sample_invoice_valid) (simp add: sample_invoice_def new_branch_def effectivePIH_def)
  then have "clear_way sample_script sample_message (new_branch 7) sample_invoice sample_accept sample_start"
    by (simp add: clear_way_def sample_start_def chain_of_def bill_of_def new_bill_def new_branch_def
        sample_script_def sample_accept_def sample_invoice_def)
  ultimately show ?thesis
    using delivery_goes_through [of sample_script sample_world sample_message "new_branch 7" sample_invoice sample_accept]
      sample_start_claims sample_message_valid by auto
qed

end
