(* ===== verification/Tenant_Registry.thy ===== *)
theory Tenant_Registry
  imports Queue_Message "HOL-Library.AList"
begin

text \<open>
  The tenant registry and the configuration: \<open>tenant/tenant.go\<close>, \<open>config/config.go\<close>,
  \<open>config/nats.go\<close>, \<open>config/taxpayer.go\<close> and \<open>dbutil/dsn.go\<close>.  A Go map is an association list with
  distinct keys; its iteration order is the list's.  Queries, \<open>url.Parse\<close>, the random source and the
  DSN format of the MySQL driver are arguments.
\<close>

section \<open>Environments\<close>

definition Sandbox :: string where
  "Sandbox = ''sandbox''"

definition Simulation :: string where
  "Simulation = ''simulation''"

definition Production :: string where
  "Production = ''production''"

definition BaseURL :: "string \<Rightarrow> string" where
  "BaseURL e =
     (if e = Sandbox then ''https://gw-fatoora.zatca.gov.sa/e-invoicing/developer-portal''
      else if e = Simulation then ''https://gw-fatoora.zatca.gov.sa/e-invoicing/simulation''
      else if e = Production then ''https://gw-fatoora.zatca.gov.sa/e-invoicing/core''
      else ''https://gw-fatoora.zatca.gov.sa/e-invoicing/developer-portal'')"

definition ParseEnv :: "string \<Rightarrow> goerr + string" where
  "ParseEnv s =
     (if s = Sandbox \<or> s = Simulation \<or> s = Production then Inr s
      else Inl (NewError (''invalid environment: '' @ go_quote s @
        '' (must be sandbox, simulation, or production)'')))"

section \<open>NATS configuration\<close>

definition NATSExternal :: string where
  "NATSExternal = ''external''"

definition NATSEmbedded :: string where
  "NATSEmbedded = ''embedded''"

text \<open>
  \<open>strings.ToLower\<close> on the ASCII letters.  No other rune has a letter of the two mode names as its
  lower case, so for the comparison with them this is the whole function.
\<close>

definition to_lower :: "string \<Rightarrow> string" where
  "to_lower = map ascii_lower"

definition ParseNATSMode :: "string \<Rightarrow> goerr + string" where
  "ParseNATSMode value =
     (let mode = to_lower (trim_space value) in
      if mode = NATSExternal \<or> mode = NATSEmbedded then Inr mode
      else Inl (NewError (''invalid NATS mode '' @ go_quote value @ '' (must be external or embedded)'')))"

record nats_config =
  nc_Mode :: string
  nc_URL :: string
  nc_Port :: int
  nc_MonitorPort :: int
  nc_DataDir :: string
  nc_AckWait :: time
  nc_MaxDeliver :: int
  nc_ReconcileInterval :: time

text \<open>\<open>url.Parse\<close> gives the scheme and the host.\<close>

definition nats_Validate :: "(string \<Rightarrow> (string \<times> string) option) \<Rightarrow> nats_config \<Rightarrow> goerr option" where
  "nats_Validate url_parse c =
     (case ParseNATSMode (nc_Mode c) of
        Inl e \<Rightarrow> Some e
      | Inr mode \<Rightarrow>
        (if nc_Port c < 0 \<or> nc_Port c > 65535 then Some (NewError ''NATS port must be between 0 and 65535'')
         else if nc_MonitorPort c < 0 \<or> nc_MonitorPort c > 65535
           then Some (NewError ''NATS monitor port must be between 0 and 65535'')
         else if nc_AckWait c \<le> 0 then Some (NewError ''NATS ACK wait must be positive'')
         else if nc_MaxDeliver c < 1 then Some (NewError ''NATS max deliveries must be positive'')
         else if nc_ReconcileInterval c \<le> 0
           then Some (NewError ''tenant reconciliation interval must be positive'')
         else
           case (if mode = NATSExternal then
                   (if trim_space (nc_URL c) = [] then Some (NewError ''NATS URL is required in external mode'')
                    else
                      case url_parse (nc_URL c) of
                        None \<Rightarrow> Some (NewError ''NATS URL must use nats:// or tls:// in external mode'')
                      | Some (scheme, host) \<Rightarrow>
                          (if scheme \<noteq> ''nats'' \<and> scheme \<noteq> ''tls''
                           then Some (NewError ''NATS URL must use nats:// or tls:// in external mode'')
                           else if host = []
                           then Some (NewError ''NATS URL must include a host in external mode'')
                           else None))
                 else None) of
             Some e \<Rightarrow> Some e
           | None \<Rightarrow>
               (if mode = NATSEmbedded \<and> trim_space (nc_DataDir c) = []
                then Some (NewError ''NATS data directory is required in embedded mode'')
                else None)))"

section \<open>Taxpayers\<close>

record csr_config =
  csr_CommonName :: string
  csr_SerialNumber :: string
  csr_OrgIdentifier :: string
  csr_OrgUnit :: string
  csr_OrgName :: string
  csr_Country :: string
  csr_InvoiceType :: string
  csr_Location :: string
  csr_BusinessCategory :: string

record seller_info =
  sl_Name :: string
  sl_NameAR :: string
  sl_VAT :: string
  sl_CRN :: string
  sl_Street :: string
  sl_Building :: string
  sl_District :: string
  sl_City :: string
  sl_PostalCode :: string
  sl_Country :: string

record config =
  cf_Env :: string
  cf_OTP :: string
  cf_ComplianceUsername :: string
  cf_CompliancePassword :: string
  cf_ProductionUsername :: string
  cf_ProductionPassword :: string
  cf_EGSID :: string
  cf_CSR :: csr_config
  cf_Seller :: seller_info

record taxpayer =
  tp_CompanyName :: string
  tp_CompanyNameAR :: string
  tp_VATNumber :: string
  tp_CRN :: string
  tp_BranchName :: string
  tp_BusinessCategory :: string
  tp_Street :: string
  tp_Building :: string
  tp_District :: string
  tp_City :: string
  tp_PostalCode :: string
  tp_InvoiceType :: string
  tp_LocationCode :: string
  tp_Country :: string
  tp_TIN :: string
  tp_ComputerNumber :: string

text \<open>\<open>%09d\<close> of a non-negative number; \<open>draw\<close> is the random number below \<open>999999999\<close>, if any.\<close>

definition pad9 :: "nat \<Rightarrow> string" where
  "pad9 n = replicate (9 - length (show_nat n)) (CHR ''0'') @ show_nat n"

definition generateTIN :: "nat option \<Rightarrow> string" where
  "generateTIN draw = (case draw of None \<Rightarrow> ''100000000'' | Some n \<Rightarrow> pad9 n)"

definition applyDefaults :: "nat option \<Rightarrow> string \<Rightarrow> taxpayer \<Rightarrow> taxpayer" where
  "applyDefaults draw new_uuid t =
     t\<lparr>tp_Country := (if tp_Country t = [] then ''SA'' else tp_Country t),
       tp_InvoiceType := (if tp_InvoiceType t = [] then ''1100'' else tp_InvoiceType t),
       tp_TIN := (if tp_TIN t = [] then generateTIN draw else tp_TIN t),
       tp_ComputerNumber := (if tp_ComputerNumber t = [] then new_uuid else tp_ComputerNumber t)\<rparr>"

text \<open>The methods have a pointer receiver: they return the taxpayer they leave behind as well.\<close>

definition taxpayer_CSR :: "nat option \<Rightarrow> string \<Rightarrow> taxpayer \<Rightarrow> csr_config \<times> taxpayer" where
  "taxpayer_CSR draw new_uuid t0 =
     (let t = applyDefaults draw new_uuid t0 in
      (\<lparr>csr_CommonName = ''TST-'' @ tp_TIN t @ ''-'' @ tp_VATNumber t,
        csr_SerialNumber = ''1-'' @ tp_CompanyName t @ ''|2-TST|3-'' @ tp_ComputerNumber t,
        csr_OrgIdentifier = tp_VATNumber t, csr_OrgUnit = tp_BranchName t, csr_OrgName = tp_CompanyName t,
        csr_Country = tp_Country t, csr_InvoiceType = tp_InvoiceType t, csr_Location = tp_LocationCode t,
        csr_BusinessCategory = tp_BusinessCategory t\<rparr>, t))"

definition taxpayer_Seller :: "nat option \<Rightarrow> string \<Rightarrow> taxpayer \<Rightarrow> seller_info \<times> taxpayer" where
  "taxpayer_Seller draw new_uuid t0 =
     (let t = applyDefaults draw new_uuid t0 in
      (\<lparr>sl_Name = tp_CompanyName t, sl_NameAR = tp_CompanyNameAR t, sl_VAT = tp_VATNumber t,
        sl_CRN = tp_CRN t, sl_Street = tp_Street t, sl_Building = tp_Building t, sl_District = tp_District t,
        sl_City = tp_City t, sl_PostalCode = tp_PostalCode t, sl_Country = tp_Country t\<rparr>, t))"

definition taxpayer_Config :: "nat option \<Rightarrow> string \<Rightarrow> string \<Rightarrow> string \<Rightarrow> taxpayer \<Rightarrow> config \<times> taxpayer" where
  "taxpayer_Config draw new_uuid env otp t0 =
     (let (csr, t1) = taxpayer_CSR draw new_uuid t0; (seller, t2) = taxpayer_Seller draw new_uuid t1 in
      (\<lparr>cf_Env = env, cf_OTP = otp, cf_ComplianceUsername = [], cf_CompliancePassword = [],
        cf_ProductionUsername = [], cf_ProductionPassword = [], cf_EGSID = [], cf_CSR = csr, cf_Seller = seller\<rparr>, t2))"

definition taxpayer_checks :: "taxpayer \<Rightarrow> (string \<times> string) list" where
  "taxpayer_checks t =
     [(tp_CompanyName t, ''CompanyName''), (tp_CompanyNameAR t, ''CompanyNameAR''),
      (tp_VATNumber t, ''VATNumber''), (tp_CRN t, ''CRN''), (tp_BranchName t, ''BranchName''),
      (tp_BusinessCategory t, ''BusinessCategory''), (tp_Street t, ''Street''), (tp_Building t, ''Building''),
      (tp_District t, ''District''), (tp_City t, ''City''), (tp_PostalCode t, ''PostalCode''),
      (tp_LocationCode t, ''LocationCode'')]"

definition taxpayer_Validate :: "taxpayer \<Rightarrow> goerr option" where
  "taxpayer_Validate t =
     (case find (\<lambda>c. fst c = []) (taxpayer_checks t) of
        Some c \<Rightarrow> Some (NewError (''Taxpayer.'' @ snd c @ '' is required''))
      | None \<Rightarrow>
          (if length (tp_VATNumber t) \<noteq> 15
           then Some (NewError (''VATNumber must be 15 digits, got '' @ show_nat (length (tp_VATNumber t))))
           else None))"

section \<open>Connection strings\<close>

text \<open>\<open>format\<close> is the driver's \<open>FormatDSN\<close> on user, password, network, address and database.\<close>

definition JoinHostPort :: "string \<Rightarrow> string \<Rightarrow> string" where
  "JoinHostPort host port =
     (if CHR '':'' \<in> set host then ''['' @ host @ '']:'' @ port else host @ '':'' @ port)"

type_synonym dsn_format = "string \<Rightarrow> string \<Rightarrow> string \<Rightarrow> string \<Rightarrow> string \<Rightarrow> string"

definition FormatDSN :: "dsn_format \<Rightarrow> string \<Rightarrow> string \<Rightarrow> string \<Rightarrow> string \<Rightarrow> string \<Rightarrow> string" where
  "FormatDSN format user pass host port dbName = format user pass ''tcp'' (JoinHostPort host port) dbName"

definition FormatBaseDSN :: "dsn_format \<Rightarrow> string \<Rightarrow> string \<Rightarrow> string \<Rightarrow> string \<Rightarrow> string" where
  "FormatBaseDSN format user pass host port = FormatDSN format user pass host port []"

definition ResolveDSN ::
    "dsn_format \<Rightarrow> string \<Rightarrow> string \<Rightarrow> string \<Rightarrow> string \<Rightarrow> string \<Rightarrow> string \<Rightarrow> goerr + string" where
  "ResolveDSN format dsn user pass host port dbName =
     (if dsn \<noteq> [] then Inr dsn
      else
        let missing = (if host = [] then [''db-host/HOST''] else []) @ (if port = [] then [''db-port/PORT''] else []) @
              (if user = [] then [''db-user/DBUSER''] else []) @ (if dbName = [] then [''db-name/DBNAME''] else [])
        in if missing \<noteq> [] then
             Inl (NewError (''missing required DB parameters: ['' @ join_with '' '' missing @ '']''))
           else Inr (FormatDSN format user pass host port dbName))"

section \<open>Tenants\<close>

record tenant =
  tn_ID :: int
  tn_TenantKey :: string
  tn_Name :: string
  tn_DBName :: string
  tn_ZATCAEnv :: string
  tn_AlertEmail :: string

definition validRegistryIdentity :: "string \<Rightarrow> bool" where
  "validRegistryIdentity value =
     (if trim_space value = [] \<or> trim_space value \<noteq> value \<or> \<not> valid_string value \<or> rune_count value > 64
      then False
      else \<not> list_ex (\<lambda>r. r = 0 \<or> r = 46 \<or> r = 42 \<or> r = 62 \<or> r < 32 \<or> r = 127) (runes value))"

definition tenant_Validate :: "tenant \<Rightarrow> goerr option" where
  "tenant_Validate t =
     (if \<not> validRegistryIdentity (tn_TenantKey t) then
        Some (NewError ''tenant_key is required and must be a safe value of at most 64 characters'')
      else if \<not> validRegistryIdentity (tn_DBName t) then
        Some (NewError ''db_name is required and must be a safe value of at most 64 characters'')
      else if tn_ZATCAEnv t \<noteq> [] then
        (case ParseEnv (tn_ZATCAEnv t) of Inl e \<Rightarrow> Some e | Inr _ \<Rightarrow> None)
      else None)"

fun validate_from :: "string list \<Rightarrow> string list \<Rightarrow> tenant list \<Rightarrow> goerr option" where
  "validate_from tenantKeys dbNames [] = None"
| "validate_from tenantKeys dbNames (t # ts) =
     (case tenant_Validate t of
        Some e \<Rightarrow> Some (Wrapf (''tenant '' @ show_int (tn_ID t) @ '' ('' @ tn_Name t @ ''): '') e [])
      | None \<Rightarrow>
        (if tn_TenantKey t \<in> set tenantKeys then
           Some (NewError (''tenant_key '' @ go_quote (tn_TenantKey t) @ '' is used by more than one tenant''))
         else if tn_DBName t \<in> set dbNames then
           Some (NewError (''db_name '' @ go_quote (tn_DBName t) @ '' is used by more than one tenant''))
         else validate_from (tn_TenantKey t # tenantKeys) (tn_DBName t # dbNames) ts))"

definition ValidateAll :: "tenant list \<Rightarrow> goerr option" where
  "ValidateAll tenants = validate_from [] [] tenants"

text \<open>The master query: an error, or rows (each scanned or failing) and the error at their end.\<close>

fun scan_tenants :: "(goerr + tenant) list \<Rightarrow> goerr + tenant list" where
  "scan_tenants [] = Inr []"
| "scan_tenants (Inl e # rows) = Inl (Wrapf ''scan tenant: '' e [])"
| "scan_tenants (Inr t # rows) = (case scan_tenants rows of Inl e \<Rightarrow> Inl e | Inr ts \<Rightarrow> Inr (t # ts))"

definition LoadAllContext :: "(goerr + (goerr + tenant) list \<times> goerr option) option \<Rightarrow> goerr + tenant list" where
  "LoadAllContext masterDB =
     (case masterDB of
        None \<Rightarrow> Inl (NewError ''master database is not configured'')
      | Some (Inl e) \<Rightarrow> Inl (Wrapf ''query tenants: '' e [])
      | Some (Inr (rows, rows_err)) \<Rightarrow>
        (case scan_tenants rows of
           Inl e \<Rightarrow> Inl e
         | Inr tenants \<Rightarrow>
           (case rows_err of
              Some e \<Rightarrow> Inl e
            | None \<Rightarrow>
              (case ValidateAll tenants of
                 Some e \<Rightarrow> Inl (Wrapf ''validate tenants: '' e [])
               | None \<Rightarrow> Inr tenants))))"

record reconcile_result =
  rs_Added :: "tenant list"
  rs_Removed :: "tenant list"
  rs_Updated :: "tenant list"
  rs_Unchanged :: "tenant list"

type_synonym registry = "(string \<times> tenant) list"

definition by_key :: "tenant list \<Rightarrow> registry" where
  "by_key ts = fold (\<lambda>t m. AList.update (tn_TenantKey t) t m) ts []"

definition registry_Reconcile ::
    "tenant list \<Rightarrow> registry option \<Rightarrow> (goerr + reconcile_result) \<times> registry option" where
  "registry_Reconcile next_ts reg =
     (case reg of
        None \<Rightarrow> (Inl (NewError ''tenant registry is not configured''), None)
      | Some r \<Rightarrow>
        (case ValidateAll next_ts of
           Some e \<Rightarrow> (Inl e, Some r)
         | None \<Rightarrow>
             (let nextByKey = by_key next_ts in
              (Inr \<lparr>rs_Added = filter (\<lambda>t. map_of r (tn_TenantKey t) = None) next_ts,
                    rs_Removed = map snd (filter (\<lambda>p. map_of nextByKey (fst p) = None) r),
                    rs_Updated = filter (\<lambda>t. map_of r (tn_TenantKey t) \<noteq> None \<and> map_of r (tn_TenantKey t) \<noteq> Some t) next_ts,
                    rs_Unchanged = filter (\<lambda>t. map_of r (tn_TenantKey t) = Some t) next_ts\<rparr>,
               Some nextByKey))))"

definition Snapshot :: "registry option \<Rightarrow> tenant list" where
  "Snapshot reg = (case reg of None \<Rightarrow> [] | Some r \<Rightarrow> map snd r)"

section \<open>What the registry guarantees\<close>

text \<open>The daemon routes by the identities the envelopes are checked against.\<close>

lemma validRegistryIdentity_text: "validRegistryIdentity v = validIdentityText v 64"
  by (auto simp: validRegistryIdentity_def validIdentityText_def list_ex_iff)

lemma validate_from_None:
  "validate_from ks ds ts = None \<longleftrightarrow>
     (\<forall>t \<in> set ts. tenant_Validate t = None \<and> tn_TenantKey t \<notin> set ks \<and> tn_DBName t \<notin> set ds) \<and>
     distinct (map tn_TenantKey ts) \<and> distinct (map tn_DBName ts)"
  by (induction ks ds ts rule: validate_from.induct) (auto simp: image_iff split: option.splits)

lemma ValidateAll_None:
  "ValidateAll ts = None \<longleftrightarrow>
     (\<forall>t \<in> set ts. tenant_Validate t = None) \<and> distinct (map tn_TenantKey ts) \<and> distinct (map tn_DBName ts)"
  by (auto simp: ValidateAll_def validate_from_None)

text \<open>A tenant list is accepted exactly when every tenant is valid and no two share their key or
  their database name.\<close>

theorem validate_all_iff:
  "ValidateAll ts = None \<longleftrightarrow>
     list_all (\<lambda>t. tenant_Validate t = None) ts \<and> distinct (map tn_TenantKey ts) \<and> distinct (map tn_DBName ts)"
  by (auto simp: ValidateAll_None list_all_iff)

definition registry_wf :: "registry \<Rightarrow> bool" where
  "registry_wf r \<longleftrightarrow> distinct (map fst r) \<and> (\<forall>p \<in> set r. fst p = tn_TenantKey (snd p))"

lemma update_fresh: "k \<notin> fst ` set m \<Longrightarrow> AList.update k v m = m @ [(k, v)]"
  by (induction m) auto

lemma fold_update_keyed:
  assumes "distinct (map f ts)"
  shows "fold (\<lambda>t. AList.update (f t) t) ts [] = map (\<lambda>t. (f t, t)) ts"
proof -
  have "distinct (map f ts) \<Longrightarrow> fst ` set m \<inter> f ` set ts = {} \<Longrightarrow>
      fold (\<lambda>t. AList.update (f t) t) ts m = m @ map (\<lambda>t. (f t, t)) ts" for m
    by (induction ts arbitrary: m) (auto simp: update_fresh)
  from this [OF assms, of "[]"] show ?thesis
    by simp
qed

lemma by_key_eq: "distinct (map tn_TenantKey ts) \<Longrightarrow> by_key ts = map (\<lambda>t. (tn_TenantKey t, t)) ts"
  by (simp add: by_key_def fold_update_keyed)

lemma map_of_keyed:
  "distinct (map f ts) \<Longrightarrow> map_of (map (\<lambda>t. (f t, t)) ts) k = Some t \<longleftrightarrow> t \<in> set ts \<and> f t = k"
  by (induction ts) (auto simp: image_iff)

lemma map_of_keyed_None:
  "map_of (map (\<lambda>t. (tn_TenantKey t, t)) ts) k = None \<longleftrightarrow> k \<notin> tn_TenantKey ` set ts"
  by (simp add: map_of_eq_None_iff image_image)

text \<open>A valid snapshot is taken over whole: the registry then holds exactly its tenants, each of
  them is reported added, updated or unchanged (exactly one of the three), the removed ones are
  those of the old registry whose key is gone, and taking the same snapshot again changes nothing.\<close>

theorem registry_reconcile_correct:
  assumes "registry_wf r" and "ValidateAll ts = None"
  shows "\<exists>res r'. registry_Reconcile ts (Some r) = (Inr res, Some r') \<and> registry_wf r' \<and>
    set (Snapshot (Some r')) = set ts \<and>
    set (rs_Added res) \<union> set (rs_Updated res) \<union> set (rs_Unchanged res) = set ts \<and>
    set (rs_Added res) \<inter> set (rs_Updated res) = {} \<and> set (rs_Added res) \<inter> set (rs_Unchanged res) = {} \<and>
    set (rs_Updated res) \<inter> set (rs_Unchanged res) = {} \<and>
    set (rs_Removed res) = {t \<in> set (Snapshot (Some r)). tn_TenantKey t \<notin> tn_TenantKey ` set ts} \<and>
    registry_Reconcile ts (Some r') =
      (Inr \<lparr>rs_Added = [], rs_Removed = [], rs_Updated = [], rs_Unchanged = ts\<rparr>, Some r')"
proof -
  have keys: "distinct (map tn_TenantKey ts)"
    using assms(2) by (simp add: ValidateAll_None)
  let ?r' = "map (\<lambda>t. (tn_TenantKey t, t)) ts"
  have again: "filter (\<lambda>t. map_of ?r' (tn_TenantKey t) = Some t) ts = ts"
    "filter (\<lambda>t. map_of ?r' (tn_TenantKey t) = None) ts = []"
    "filter (\<lambda>t. map_of ?r' (tn_TenantKey t) \<noteq> None \<and> map_of ?r' (tn_TenantKey t) \<noteq> Some t) ts = []"
    "filter (\<lambda>p. map_of ?r' (fst p) = None) ?r' = []"
    using keys by (auto simp: filter_empty_conv filter_id_conv map_of_keyed map_of_keyed_None)
  have removed: "set (map snd (filter (\<lambda>p. map_of ?r' (fst p) = None) r)) =
      {t \<in> set (map snd r). tn_TenantKey t \<notin> tn_TenantKey ` set ts}"
    using assms(1) by (force simp: registry_wf_def map_of_keyed_None)
  let ?res = "\<lparr>rs_Added = filter (\<lambda>t. map_of r (tn_TenantKey t) = None) ts,
      rs_Removed = map snd (filter (\<lambda>p. map_of ?r' (fst p) = None) r),
      rs_Updated = filter (\<lambda>t. map_of r (tn_TenantKey t) \<noteq> None \<and> map_of r (tn_TenantKey t) \<noteq> Some t) ts,
      rs_Unchanged = filter (\<lambda>t. map_of r (tn_TenantKey t) = Some t) ts\<rparr>"
  have "registry_Reconcile ts (Some r) = (Inr ?res, Some ?r')"
    using assms(2) by (simp add: registry_Reconcile_def Let_def by_key_eq [OF keys])
  moreover have "registry_Reconcile ts (Some ?r') =
      (Inr \<lparr>rs_Added = [], rs_Removed = [], rs_Updated = [], rs_Unchanged = ts\<rparr>, Some ?r')"
    using assms(2) again by (simp add: registry_Reconcile_def Let_def by_key_eq [OF keys])
  moreover have "registry_wf ?r'" "set (Snapshot (Some ?r')) = set ts"
    using keys by (simp_all add: registry_wf_def comp_def Snapshot_def)
  ultimately show ?thesis
    using removed by (intro exI [of _ ?res] exI [of _ ?r']) (auto simp: Snapshot_def)
qed

section \<open>Tenant databases\<close>

text \<open>The MySQL driver: parsing a DSN, setting its database name and formatting it again, opening a pool, and
  a ping on it.\<close>

record 'c mysql_driver =
  md_ParseDSN :: "string \<Rightarrow> goerr + 'c"
  md_set_DBName :: "string \<Rightarrow> 'c \<Rightarrow> 'c"
  md_FormatDSN :: "'c \<Rightarrow> string"
  md_Open :: "string \<Rightarrow> goerr option"
  md_Ping :: "string \<Rightarrow> goerr option"

record db_pool =
  dp_dsn :: string
  dp_ConnMaxLifetime :: time
  dp_ConnMaxIdleTime :: time
  dp_MaxOpenConns :: int
  dp_MaxIdleConns :: int

text \<open>The pool, and the pools that were opened and closed again.\<close>

definition OpenDB :: "'c mysql_driver \<Rightarrow> tenant \<Rightarrow> string \<Rightarrow> (goerr + db_pool) \<times> db_pool list" where
  "OpenDB d t baseDSN =
     (case md_ParseDSN d baseDSN of
        Inl e \<Rightarrow> (Inl (Wrapf ''parse base DSN: '' e []), [])
      | Inr cfg \<Rightarrow>
        (let dsn = md_FormatDSN d (md_set_DBName d (tn_DBName t) cfg) in
         case md_Open d dsn of
           Some e \<Rightarrow> (Inl (Wrapf (''open tenant db '' @ tn_DBName t @ '': '') e []), [])
         | None \<Rightarrow>
           (let db = \<lparr>dp_dsn = dsn, dp_ConnMaxLifetime = 3 * 60 * 1000000000, dp_ConnMaxIdleTime = 60 * 1000000000,
                  dp_MaxOpenConns = 10, dp_MaxIdleConns = 5\<rparr> in
            case md_Ping d dsn of
              Some e \<Rightarrow> (Inl (Wrapf (''ping tenant db '' @ tn_DBName t @ '': '') e []), [db])
            | None \<Rightarrow> (Inr db, []))))"

text \<open>A pool that is handed out names the database of its tenant and answered a ping; one that did not is
  closed again.\<close>

lemma OpenDB_outcome:
  assumes "OpenDB d t baseDSN = (r, closed)"
  shows "r = Inr db \<Longrightarrow> closed = [] \<and> md_Ping d (dp_dsn db) = None \<and>
      (\<exists>cfg. md_ParseDSN d baseDSN = Inr cfg \<and> dp_dsn db = md_FormatDSN d (md_set_DBName d (tn_DBName t) cfg))"
    and "db \<in> set closed \<Longrightarrow> md_Open d (dp_dsn db) = None \<and> md_Ping d (dp_dsn db) \<noteq> None \<and> (\<exists>e. r = Inl e)"
  using assms by (auto simp: OpenDB_def Let_def split: sum.splits option.splits)

definition sample_tenant :: tenant where
  "sample_tenant = \<lparr>tn_ID = 1, tn_TenantKey = ''acme-0001'', tn_Name = ''Acme'', tn_DBName = ''tenant_acme'',
     tn_ZATCAEnv = ''sandbox'', tn_AlertEmail = ''ops@example.com''\<rparr>"

lemma sample_tenant_valid: "ValidateAll [sample_tenant] = None"
  by (simp add: ValidateAll_None tenant_Validate_def sample_tenant_def validRegistryIdentity_text sample_texts
      ParseEnv_def Sandbox_def)

theorem registry_reconcile_correct_witness:
  "\<exists>res r'. registry_Reconcile [sample_tenant] (Some []) = (Inr res, Some r') \<and> set (Snapshot (Some r')) = {sample_tenant} \<and>
     set (rs_Added res) \<union> set (rs_Updated res) \<union> set (rs_Unchanged res) = {sample_tenant}"
  using registry_reconcile_correct [OF _ sample_tenant_valid, of "[]"] by (auto simp: registry_wf_def)

text \<open>A generated serial has nine digits.\<close>

lemma show_nat_length: "n < 10 ^ k \<Longrightarrow> 0 < k \<Longrightarrow> length (show_nat n) \<le> k"
proof (induction n arbitrary: k rule: show_nat.induct)
  case (1 n)
  show ?case
  proof (cases "n < 10")
    case True
    then show ?thesis using 1(3) by (simp add: show_nat.simps)
  next
    case False
    then obtain k' where k: "k = Suc k'" "0 < k'"
      using 1(2,3) by (cases k; cases "k - 1") auto
    then have "n div 10 < 10 ^ k'"
      using 1(2) by (simp add: less_mult_imp_div_less mult.commute)
    then show ?thesis
      using 1(1) [OF False, of k'] k False by (simp add: show_nat.simps [of n])
  qed
qed

lemma generateTIN_digits:
  "(\<And>n. draw = Some n \<Longrightarrow> n < 999999999) \<Longrightarrow>
     length (generateTIN draw) = 9 \<and> list_all is_digit (generateTIN draw)"
  using show_nat_length [of _ 9] show_nat_digits
  by (auto simp: generateTIN_def pad9_def is_digit_def list_all_iff split: option.splits)

end
