(* ===== verification/Daemon_Delivery.thy ===== *)
theory Daemon_Delivery
  imports Delivery_Laws Tenant_Registry
begin

text \<open>
  The worker of one branch and the onboarding responder of one tenant (\<open>cmd/daemon/worker.go\<close>).
  What a handler tells the outside is a list of events; the deliveries themselves run on the world
  of the ordered stream.  Logging is left out.
\<close>

section \<open>Tenant contexts and branch keys\<close>

text \<open>A context is known by its address; databases and stores are those of its tenant.\<close>

record tenantCtx =
  tc_id :: nat
  tc_tenant :: tenant
  tc_adminDB :: bool
  tc_env :: string
  tc_ackWait :: time
  tc_maxDeliver :: int
  tc_expectedBranches :: "int list"
  tc_onboardingStopping :: bool

definition expectedBranchSnapshot :: "tenantCtx \<Rightarrow> int list" where
  "expectedBranchSnapshot tc = tc_expectedBranches tc"

definition branchKey :: "string \<Rightarrow> int \<Rightarrow> string" where
  "branchKey dbName branchID = dbName @ '':'' @ show_int branchID"

text \<open>The two global tables of branch keys.\<close>

definition markBranchActive :: "string \<Rightarrow> int \<Rightarrow> string list \<Rightarrow> bool \<times> string list" where
  "markBranchActive dbName branchID active =
     (let k = branchKey dbName branchID in
      if k \<in> set active then (False, active) else (True, k # active))"

definition unmarkBranchActive :: "string \<Rightarrow> int \<Rightarrow> string list \<Rightarrow> string list" where
  "unmarkBranchActive dbName branchID active = filter (\<lambda>k. k \<noteq> branchKey dbName branchID) active"

definition beginOnboarding :: "string \<Rightarrow> int \<Rightarrow> string list \<Rightarrow> bool \<times> string list" where
  "beginOnboarding dbName branchID running =
     (let k = branchKey dbName branchID in
      if k \<in> set running then (False, running) else (True, k # running))"

definition endOnboarding :: "string \<Rightarrow> int \<Rightarrow> string list \<Rightarrow> string list" where
  "endOnboarding dbName branchID running = filter (\<lambda>k. k \<noteq> branchKey dbName branchID) running"

section \<open>One delivery\<close>

text \<open>A message of the broker; \<open>Metadata\<close> fails or gives the number of deliveries.\<close>

record nats_msg =
  nm_Subject :: string
  nm_Data :: string
  nm_NumDelivered :: "u64 option"

datatype event =
    Term
  | Mail string string string goerr
  | PullSubscribe string string time int
  | Unsubscribe
  | Sleep time
  | Respond string

definition alert :: "tenantCtx \<Rightarrow> string \<Rightarrow> goerr \<Rightarrow> event list" where
  "alert tc what e =
     (if tn_AlertEmail (tc_tenant tc) \<noteq> []
      then [Mail (tn_AlertEmail (tc_tenant tc)) what (tn_DBName (tc_tenant tc)) e] else [])"

text \<open>\<open>int(meta.NumDelivered)\<close> reads the 64 bits as a signed number.\<close>

definition deliveryBudgetExhausted :: "nats_msg option \<Rightarrow> int \<Rightarrow> bool" where
  "deliveryBudgetExhausted raw maxDeliver =
     (case raw of
        None \<Rightarrow> False
      | Some m \<Rightarrow>
          (if maxDeliver < 1 then False
           else case nm_NumDelivered m of None \<Rightarrow> False | Some n \<Rightarrow> sint n \<ge> maxDeliver))"

definition bill_of_branch :: "message \<Rightarrow> string" where
  "bill_of_branch msg = ''bill '' @ show_int (m_ID msg) @ '' of branch '' @ show_int (m_BranchID msg)"

definition handleDelivery ::
    "(string \<Rightarrow> string + message) \<Rightarrow> ('s, 'p) ordered_stream \<Rightarrow> 's ack_fun \<Rightarrow> tenantCtx \<Rightarrow> string \<Rightarrow> int \<Rightarrow>
     nats_msg \<Rightarrow> 's \<Rightarrow> event list \<times> 's" where
  "handleDelivery json stream ack tc dbName branchID raw w =
     (case DecodeEnvelope json (nm_Data raw) of
        Inl _ \<Rightarrow> ([Term], w)
      | Inr msg \<Rightarrow>
        (if m_DBName msg \<noteq> dbName \<or> m_BranchID msg \<noteq> branchID \<or> m_TenantKey msg \<noteq> tn_TenantKey (tc_tenant tc)
         then ([Term], w)
         else
           case HandleMessage stream msg (Some ack) w of
             (None, w1) \<Rightarrow> ([], w1)
           | (Some e, w1) \<Rightarrow>
             (if is_err e ErrClaimInFlight \<or> is_err e ErrChainBusy then ([], w1)
              else if is_err e ErrInvoiceRejected then
                (alert tc (bill_of_branch msg @ '' rejected by ZATCA'') e, w1)
              else if is_err e ErrOutcomeAmbiguous then
                (alert tc (bill_of_branch msg @ '' needs reconciliation with ZATCA'') e, w1)
              else if is_err e ErrRejectedInput \<or> is_err e ErrFingerprintConflict then
                (alert tc (bill_of_branch msg) e, w1)
              else if deliveryBudgetExhausted (Some raw) (tc_maxDeliver tc) \<and>
                      \<not> is_err e ErrClaimInFlight \<and> \<not> is_err e ErrChainBusy then
                (case FinalizePermanentFailure stream msg (Some e) (Some ack) w1 of
                   (None, w2) \<Rightarrow> (alert tc (bill_of_branch msg @ '' reached the retry limit'') e, w2)
                 | (Some _, w2) \<Rightarrow>
                     (Term # alert tc (bill_of_branch msg @ '' could not be finalized after the retry limit'') e, w2))
              else (alert tc (bill_of_branch msg) e, w1))))"

section \<open>The worker loop\<close>

text \<open>
  One round of the loop: the context is done, the fetch fails (with the context done, as a
  timeout, or otherwise), or it yields messages.
\<close>

datatype round =
    Stopped
  | FetchFailed bool bool \<comment> \<open>context done, timeout\<close>
  | Fetched "nats_msg list"

fun handle_all :: "(nats_msg \<Rightarrow> 's \<Rightarrow> event list \<times> 's) \<Rightarrow> nats_msg list \<Rightarrow> 's \<Rightarrow> event list \<times> 's" where
  "handle_all h [] w = ([], w)"
| "handle_all h (m # ms) w =
     (case h m w of (evs, w1) \<Rightarrow> case handle_all h ms w1 of (evs', w2) \<Rightarrow> (evs @ evs', w2))"

fun worker_loop :: "(nats_msg \<Rightarrow> 's \<Rightarrow> event list \<times> 's) \<Rightarrow> round list \<Rightarrow> 's \<Rightarrow> event list \<times> 's" where
  "worker_loop h [] w = ([], w)"
| "worker_loop h (Stopped # rs) w = ([Unsubscribe], w)"
| "worker_loop h (FetchFailed cancelled timeout # rs) w =
     (if cancelled then ([Unsubscribe], w)
      else if timeout then worker_loop h rs w
      else (case worker_loop h rs w of (evs, w') \<Rightarrow> (Sleep (5 * 1000000000) # evs, w')))"
| "worker_loop h (Fetched ms # rs) w =
     (case handle_all h ms w of
        (evs, w1) \<Rightarrow> case worker_loop h rs w1 of (evs', w2) \<Rightarrow> (evs @ evs', w2))"

text \<open>\<open>sub_err\<close> is the answer of \<open>PullSubscribe\<close>, and \<open>rounds\<close> the rounds the loop has run so far.\<close>

definition runWorkerContext ::
    "(string \<Rightarrow> string + message) \<Rightarrow> ('s, 'p) ordered_stream \<Rightarrow> 's ack_fun \<Rightarrow> goerr option \<Rightarrow> round list \<Rightarrow>
     tenantCtx \<Rightarrow> string \<Rightarrow> int \<Rightarrow> 's \<Rightarrow> event list \<times> 's" where
  "runWorkerContext json stream ack sub_err rounds tc dbName branchID w =
     (let ackWait = (if tc_ackWait tc \<le> 0 then 5 * 60 * 1000000000 else tc_ackWait tc);
          maxDeliver = (if tc_maxDeliver tc \<le> 0 then 10 else tc_maxDeliver tc);
          sub = PullSubscribe (OrderedSubject dbName branchID) (OrderedConsumerName dbName branchID) ackWait maxDeliver
      in case sub_err of
           Some _ \<Rightarrow> ([sub], w)
         | None \<Rightarrow> apfst ((#) sub) (worker_loop (handleDelivery json stream ack tc dbName branchID) rounds w))"

section \<open>The onboarding responder\<close>

definition checkOnboardRequest :: "string \<Rightarrow> tenantCtx \<Rightarrow> onboard_request \<Rightarrow> goerr option" where
  "checkOnboardRequest subject tc req =
     (if or_DBName req \<noteq> tn_DBName (tc_tenant tc) \<or> or_TenantKey req \<noteq> tn_TenantKey (tc_tenant tc)
      then Some (NewError ''the request is for another tenant'')
      else if subject \<noteq> OnboardSubject (or_DBName req) (or_BranchID req)
      then Some (NewError ''the request subject does not name its branch'')
      else None)"

text \<open>\<open>json.Marshal\<close> of the reply is the argument \<open>marshal\<close>.\<close>

definition replyOnboard :: "(onboard_reply \<Rightarrow> string option) \<Rightarrow> goerr option \<Rightarrow> event list" where
  "replyOnboard marshal cause =
     (case marshal \<lparr>ory_Accepted = (cause = None), ory_Error = (case cause of None \<Rightarrow> [] | Some e \<Rightarrow> err_text e)\<rparr> of
        None \<Rightarrow> []
      | Some data \<Rightarrow> [Respond data])"

text \<open>
  The subscription callback: the events, the request to onboard in the background (if any), and
  the table of running onboardings.  \<open>endOnboarding\<close> of a finished one is the deferred call.
\<close>

definition onboard_callback ::
    "(string \<Rightarrow> string + onboard_request) \<Rightarrow> (onboard_reply \<Rightarrow> string option) \<Rightarrow> tenantCtx \<Rightarrow> nats_msg \<Rightarrow>
     string list \<Rightarrow> event list \<times> onboard_request option \<times> string list" where
  "onboard_callback json marshal tc m running =
     (let dbName = tn_DBName (tc_tenant tc) in
      case DecodeOnboardRequest json (nm_Data m) of
        Inl e \<Rightarrow> (replyOnboard marshal (Some e), None, running)
      | Inr req \<Rightarrow>
        (case checkOnboardRequest (nm_Subject m) tc req of
           Some e \<Rightarrow> (replyOnboard marshal (Some e), None, running)
         | None \<Rightarrow>
           (case beginOnboarding dbName (or_BranchID req) running of
              (False, running1) \<Rightarrow>
                (replyOnboard marshal (Some (NewError ''onboarding of this branch is already running'')), None, running1)
            | (True, running1) \<Rightarrow>
                (if tc_onboardingStopping tc then
                   (replyOnboard marshal (Some (Sentinel ErrTenantStopping)), None,
                    endOnboarding dbName (or_BranchID req) running1)
                 else (replyOnboard marshal None, Some req, running1)))))"

text \<open>The background run: the onboarding's result decides between an alert and the start of the worker.\<close>

definition onboardBranch :: "goerr option \<Rightarrow> tenantCtx \<Rightarrow> onboard_request \<Rightarrow> event list \<times> (string \<times> int) option" where
  "onboardBranch result tc req =
     (case result of
        Some e \<Rightarrow> (alert tc (''onboarding of branch '' @ show_int (or_BranchID req)) e, None)
      | None \<Rightarrow> ([], Some (or_DBName req, or_BranchID req)))"

text \<open>Without a reconciler the worker is spawned here, unless the branch already has one.\<close>

definition spawnBranchWorkers :: "string \<Rightarrow> int \<Rightarrow> string list \<Rightarrow> bool \<times> string list" where
  "spawnBranchWorkers dbName branchID active = markBranchActive dbName branchID active"

section \<open>What the handler does\<close>

text \<open>The three ways out of a delivery.\<close>

lemma handleDelivery_cases:
  assumes "handleDelivery json stream ack tc dbName branchID raw w = (evs, w')"
  shows "(\<exists>e. DecodeEnvelope json (nm_Data raw) = Inl e) \<and> evs = [Term] \<and> w' = w \<or>
    (\<exists>msg. DecodeEnvelope json (nm_Data raw) = Inr msg \<and>
      (\<not> (m_DBName msg = dbName \<and> m_BranchID msg = branchID \<and> m_TenantKey msg = tn_TenantKey (tc_tenant tc)) \<and>
         evs = [Term] \<and> w' = w \<or>
       m_DBName msg = dbName \<and> m_BranchID msg = branchID \<and> m_TenantKey msg = tn_TenantKey (tc_tenant tc) \<and>
         (\<exists>r. HandleMessage stream msg (Some ack) w = (r, w') \<and> Term \<notin> set evs \<or>
            (\<exists>e w1 f. r = Some e \<and> HandleMessage stream msg (Some ack) w = (r, w1) \<and>
               deliveryBudgetExhausted (Some raw) (tc_maxDeliver tc) \<and>
               FinalizePermanentFailure stream msg (Some e) (Some ack) w1 = (f, w') \<and>
               (Term \<in> set evs \<longleftrightarrow> f \<noteq> None)))))"
  using assms
  by (auto simp: handleDelivery_def alert_def split: sum.splits if_splits prod.splits option.splits)

section \<open>Isolation of a worker\<close>

definition addressed :: "message \<Rightarrow> tenantCtx \<Rightarrow> string \<Rightarrow> int \<Rightarrow> bool" where
  "addressed msg tc dbName branchID \<longleftrightarrow>
     m_DBName msg = dbName \<and> m_BranchID msg = branchID \<and> m_TenantKey msg = tn_TenantKey (tc_tenant tc)"

text \<open>What the deliveries of a branch may add to the invoices sent.\<close>

definition branch_sends :: "int \<Rightarrow> nat \<Rightarrow> world \<Rightarrow> world \<Rightarrow> bool" where
  "branch_sends branchID n w w' \<longleftrightarrow> world_later w w' \<and>
     (\<exists>new. w_sent w' = w_sent w @ new \<and> length new \<le> n \<and>
        (\<forall>i \<in> set new. i_BranchID i = branchID \<and> stored_invoice i w'))"

lemma branch_sends_refl [simp]: "branch_sends b n w w"
  by (simp add: branch_sends_def world_later_def)

lemma branch_sends_trans:
  assumes "branch_sends b n w1 w2" and "branch_sends b m w2 w3"
  shows "branch_sends b (n + m) w1 w3"
proof -
  from assms obtain new1 new2 where
    "w_sent w2 = w_sent w1 @ new1" "length new1 \<le> n" "\<forall>i \<in> set new1. i_BranchID i = b \<and> stored_invoice i w2"
    "w_sent w3 = w_sent w2 @ new2" "length new2 \<le> m" "\<forall>i \<in> set new2. i_BranchID i = b \<and> stored_invoice i w3"
    unfolding branch_sends_def by blast
  moreover have "world_later w1 w2" "world_later w2 w3" "world_later w1 w3"
    using assms sql_delivery.le_trans unfolding branch_sends_def by blast+
  ultimately show ?thesis
    using sql_delivery.stored_as_mono unfolding branch_sends_def
    by (intro conjI exI [of _ "new1 @ new2"]) auto
qed

lemma handleDelivery_sends:
  assumes "claims_wf (w_db w)"
    and "handleDelivery json (sql_stream sc) (broker_ack sc) tc dbName branchID raw w = (evs, w')"
  shows "branch_sends branchID 1 w w'"
proof -
  have handled: "branch_sends branchID 1 w v \<and> claims_wf (w_db v)"
    if "HandleMessage (sql_stream sc) msg (Some (broker_ack sc)) w = (r, v)" "m_BranchID msg = branchID" for msg r v
    using sql_delivery.HandleMessage_run [OF that(1) assms(1)] that(2) later_claims_wf assms(1)
    unfolding branch_sends_def world_later_def for_message_def by force
  have finalized: "branch_sends branchID 0 v w'"
    if "FinalizePermanentFailure (sql_stream sc) msg (Some e) (Some (broker_ack sc)) v = (f, w')" "claims_wf (w_db v)" for msg e f v
    using sql_delivery.Finalize_run [OF that] unfolding branch_sends_def by auto
  from handleDelivery_cases [OF assms(2)] consider "w' = w"
    | msg r where "HandleMessage (sql_stream sc) msg (Some (broker_ack sc)) w = (r, w')" "m_BranchID msg = branchID"
    | msg e w1 f where "HandleMessage (sql_stream sc) msg (Some (broker_ack sc)) w = (Some e, w1)" "m_BranchID msg = branchID"
        "FinalizePermanentFailure (sql_stream sc) msg (Some e) (Some (broker_ack sc)) w1 = (f, w')"
    by blast
  then show ?thesis
  proof cases
    case 3
    then show ?thesis
      using handled [OF 3(1,2)] branch_sends_trans [OF _ finalized [OF 3(3)], of 1 w] by simp
  qed (use handled in auto)
qed

lemma branch_sends_claims: "branch_sends b n w w' \<Longrightarrow> claims_wf (w_db w) \<Longrightarrow> claims_wf (w_db w')"
  unfolding branch_sends_def world_later_def using later_claims_wf by blast

lemma handle_all_sends:
  assumes "claims_wf (w_db w)"
    and "handle_all (handleDelivery json (sql_stream sc) (broker_ack sc) tc dbName branchID) ms w = (evs, w')"
  shows "branch_sends branchID (length ms) w w'"
  using assms
proof (induction ms arbitrary: w evs)
  case (Cons m ms)
  obtain evs1 w1 where one: "handleDelivery json (sql_stream sc) (broker_ack sc) tc dbName branchID m w = (evs1, w1)"
    by fastforce
  obtain evs2 where rest: "handle_all (handleDelivery json (sql_stream sc) (broker_ack sc) tc dbName branchID) ms w1 = (evs2, w')"
    using Cons.prems(2) one by (auto split: prod.splits)
  note first = handleDelivery_sends [OF Cons.prems(1) one]
  from branch_sends_trans [OF first Cons.IH [OF branch_sends_claims [OF first Cons.prems(1)] rest]] show ?case
    by simp
qed simp

fun round_msgs :: "round \<Rightarrow> nats_msg list" where
  "round_msgs (Fetched ms) = ms"
| "round_msgs _ = []"

lemma branch_sends_weaken: "branch_sends b n w w' \<Longrightarrow> n \<le> m \<Longrightarrow> branch_sends b m w w'"
  unfolding branch_sends_def by (meson order_trans)

lemma worker_loop_sends:
  assumes "claims_wf (w_db w)"
    and "worker_loop (handleDelivery json (sql_stream sc) (broker_ack sc) tc dbName branchID) rounds w = (evs, w')"
  shows "branch_sends branchID (length (concat (map round_msgs rounds))) w w'"
  using assms
proof (induction rounds arbitrary: w evs)
  case (Cons r rounds)
  let ?h = "handleDelivery json (sql_stream sc) (broker_ack sc) tc dbName branchID"
  show ?case
  proof (cases r)
    case (Fetched ms)
    obtain evs1 w1 where one: "handle_all ?h ms w = (evs1, w1)"
      by fastforce
    obtain evs2 where rest: "worker_loop ?h rounds w1 = (evs2, w')"
      using Cons.prems(2) one Fetched by (auto split: prod.splits)
    note first = handle_all_sends [OF Cons.prems(1) one]
    from branch_sends_trans [OF first Cons.IH [OF branch_sends_claims [OF first Cons.prems(1)] rest]] show ?thesis
      using Fetched by simp
  qed (use Cons in \<open>auto split: if_splits prod.splits\<close>)
qed simp

text \<open>C19: the worker of a branch sends only invoices of that branch, all of them committed in the
  tenant's database, and at most one per delivery it fetched.  This holds for any messages on its
  subject, any failures of the database, the pipeline and the broker, and any other processes.\<close>

theorem worker_isolated:
  assumes "claims_wf (w_db w)"
    and "runWorkerContext json (sql_stream sc) (broker_ack sc) sub_err rounds tc dbName branchID w = (evs, w')"
  shows "\<exists>new. w_sent w' = w_sent w @ new \<and> length new \<le> length (concat (map round_msgs rounds)) \<and>
    (\<forall>i \<in> set new. i_BranchID i = branchID \<and> stored_invoice i w')"
proof (cases sub_err)
  case None
  then obtain evs' where "worker_loop (handleDelivery json (sql_stream sc) (broker_ack sc) tc dbName branchID) rounds w = (evs', w')"
    using assms(2) by (auto simp: runWorkerContext_def apfst_def map_prod_def split: prod.splits)
  from worker_loop_sends [OF assms(1) this] show ?thesis
    by (simp add: branch_sends_def)
qed (use assms in \<open>simp add: runWorkerContext_def\<close>)

definition sample_ctx :: tenantCtx where
  "sample_ctx = \<lparr>tc_id = 0, tc_tenant = sample_tenant, tc_adminDB = False, tc_env = Sandbox, tc_ackWait = 0,
     tc_maxDeliver = 10, tc_expectedBranches = [7], tc_onboardingStopping = False\<rparr>"

definition sample_raw :: "u64 \<Rightarrow> nats_msg" where
  "sample_raw n = \<lparr>nm_Subject = ''zatca.bill.tenant_acme.7'', nm_Data = ''{}'', nm_NumDelivered = Some n\<rparr>"

definition sample_json :: "string \<Rightarrow> string + message" where
  "sample_json _ = Inr sample_message"

theorem worker_isolated_witness:
  "\<exists>evs w' new. runWorkerContext sample_json (sql_stream sample_script) (broker_ack sample_script) None
       [Fetched [sample_raw 1], FetchFailed False True, Stopped] sample_ctx ''tenant_acme'' 7 sample_world = (evs, w') \<and>
     w_sent w' = new \<and> length new \<le> 1 \<and> list_all (\<lambda>i. i_BranchID i = 7) new"
proof -
  obtain evs w' where run: "runWorkerContext sample_json (sql_stream sample_script) (broker_ack sample_script) None
       [Fetched [sample_raw 1], FetchFailed False True, Stopped] sample_ctx ''tenant_acme'' 7 sample_world = (evs, w')"
    by fastforce
  show ?thesis
    using worker_isolated [OF _ run] run sample_start_claims(1) by (auto simp: list_all_iff)
qed

section \<open>Termination, alerts and the retry limit\<close>

text \<open>An error that leaves the delivery to be retried.\<close>

definition retried :: "goerr \<Rightarrow> bool" where
  "retried e \<longleftrightarrow> \<not> (is_err e ErrClaimInFlight \<or> is_err e ErrChainBusy \<or> is_err e ErrInvoiceRejected \<or>
     is_err e ErrOutcomeAmbiguous \<or> is_err e ErrRejectedInput \<or> is_err e ErrFingerprintConflict)"

text \<open>A delivery is terminated at the broker exactly when its envelope is invalid or addressed to
  another tenant or branch, where nothing else happens, or when the delivery limit is reached by a
  failure that would be retried and could not be finalised.\<close>

theorem delivery_terminated_exactly:
  assumes "handleDelivery json stream ack tc dbName branchID raw w = (evs, w')"
  shows "Term \<in> set evs \<longleftrightarrow>
    (case DecodeEnvelope json (nm_Data raw) of
       Inl _ \<Rightarrow> w' = w
     | Inr msg \<Rightarrow>
         (if addressed msg tc dbName branchID then
            \<exists>e w1 f. HandleMessage stream msg (Some ack) w = (Some e, w1) \<and> retried e \<and>
              deliveryBudgetExhausted (Some raw) (tc_maxDeliver tc) \<and>
              FinalizePermanentFailure stream msg (Some e) (Some ack) w1 = (Some f, w')
          else w' = w))"
  using assms
  by (auto simp: handleDelivery_def alert_def addressed_def retried_def
      split: sum.splits if_splits prod.splits option.splits)

theorem delivery_terminated_exactly_witness:
  "Term \<in> set (fst (handleDelivery (\<lambda>_. Inl ''unexpected end of JSON input'') (sql_stream sample_script)
     (broker_ack sample_script) sample_ctx ''tenant_acme'' 7 (sample_raw 1) sample_world))"
proof -
  obtain evs w' where run: "handleDelivery (\<lambda>_. Inl ''unexpected end of JSON input'') (sql_stream sample_script)
     (broker_ack sample_script) sample_ctx ''tenant_acme'' 7 (sample_raw 1) sample_world = (evs, w')"
    by fastforce
  then have "w' = sample_world"
    by (simp add: handleDelivery_def DecodeEnvelope_def strictDecode_def)
  then show ?thesis
    using delivery_terminated_exactly [OF run] run by (simp add: DecodeEnvelope_def strictDecode_def)
qed

text \<open>After the limit the invoice of the bill, if it has one, no longer waits for an answer.\<close>

definition not_pending :: "message \<Rightarrow> tenant_db \<Rightarrow> bool" where
  "not_pending msg db \<longleftrightarrow>
     (case stored_row (m_ID msg) db of Some (s, b) \<Rightarrow> s_outcome_state s \<noteq> outcomePending | None \<Rightarrow> True)"

abbreviation give_up :: "goerr \<Rightarrow> outcome" where
  "give_up e \<equiv> \<lparr>oc_State = OutcomeTerminalFailure, oc_ProviderCode = ''DAEMON_RETRY_EXHAUSTED'',
     oc_Message = err_text e, oc_Evidence = EvidenceLocal, oc_EvidenceID = []\<rparr>"

lemma give_up_recorded:
  assumes "healthy env" and "stored_row (m_ID msg) db = Some (s, b)"
  shows "\<exists>db'. Record env (invoice_of_row s b) (give_up e) db = (None, db') \<and> not_pending msg db' \<and>
    db_claims db' = db_claims db"
proof -
  have find: "find (\<lambda>t. s_bill_id t = m_ID msg) (db_submissions db) = Some s" and bill: "bill_of (m_ID msg) db = Some b"
    using assms(2) by (auto simp: stored_row_def split: option.splits)
  have source: "i_SourceID (invoice_of_row s b) = m_ID msg"
    using find_SomeD [OF find] by (simp add: invoice_of_row_def Let_def split: prod.splits)
  have status: "submissionStatus (oc_State (give_up e)) = Inr 5"
    by (simp add: submissionStatus_def outcome_defs)
  let ?db = "recorded env (invoice_of_row s b) (give_up e) 5 (s_id s) db"
  have rec: "Record env (invoice_of_row s b) (give_up e) db =
      (None, if \<exists>t \<in> set (db_submissions db). waiting (s_id s) t then ?db else db)"
    by (rule healthy_Record [OF assms(1) status]) (use find source in \<open>auto simp: evidence_defs\<close>)
  have state: "OutcomeTerminalFailure \<noteq> outcomePending"
    by (simp add: outcome_defs)
  have "not_pending msg ?db"
    using find bill state
    by (auto simp: not_pending_def stored_row_def recorded_def find_upd waiting_def bill_of_def OutcomeTerminalFailure_def
        OutcomeAccepted_def OutcomeWarning_def)
  moreover have "not_pending msg db" if "\<not> (\<exists>t \<in> set (db_submissions db). waiting (s_id s) t)"
    using that find find_SomeD [OF find] by (auto simp: not_pending_def stored_row_def waiting_def split: option.splits)
  moreover have "db_claims ?db = db_claims db"
    by (simp add: recorded_def)
  ultimately show ?thesis
    using rec by auto
qed

abbreviation give_up_step :: "'p script \<Rightarrow> message \<Rightarrow> goerr \<Rightarrow> world \<Rightarrow> goerr option \<times> world" where
  "give_up_step sc msg cause w \<equiv>
     (case map_option (\<lambda>(s, b). invoice_of_row s b) (stored_row (m_ID msg) (w_db w)) of
        Some i \<Rightarrow> (if i_Outcome i = [] then op_Record (os_chain (sql_stream sc)) i (give_up cause) (w\<lparr>w_calls := Suc (w_calls w)\<rparr>)
                   else (None, w\<lparr>w_calls := Suc (w_calls w)\<rparr>))
      | None \<Rightarrow> (None, w\<lparr>w_calls := Suc (w_calls w)\<rparr>))"

lemma give_up_calm:
  assumes "calm sc"
  shows "\<exists>db m. give_up_step sc msg cause w = (None, w\<lparr>w_db := db, w_calls := m\<rparr>) \<and> not_pending msg db \<and>
    db_claims db = db_claims (w_db w)"
proof (cases "stored_row (m_ID msg) (w_db w)")
  case None
  then show ?thesis
    by (intro exI [of _ "w_db w"] exI [of _ "Suc (w_calls w)"]) (simp add: not_pending_def)
next
  case (Some sb)
  obtain s b where sb: "sb = (s, b)"
    by (cases sb)
  have healthy: "healthy (sc_env sc m)" for m
    using assms by (simp add: calm_def)
  show ?thesis
  proof (cases "i_Outcome (invoice_of_row s b) = []")
    case True
    obtain db where "Record (sc_env sc (Suc (w_calls w))) (invoice_of_row s b) (give_up cause) (w_db w) = (None, db)"
      "not_pending msg db" "db_claims db = db_claims (w_db w)"
      using give_up_recorded [OF healthy] Some sb by blast
    then show ?thesis
      using Some sb True assms by (intro exI [of _ db] exI [of _ "Suc (Suc (w_calls w))"]) (simp add: sql_ops calm_call)
  next
    case False
    then have "not_pending msg (w_db w)"
      using Some sb by (auto simp: not_pending_def invoice_of_row_def Let_def split: prod.splits if_splits)
    then show ?thesis
      using Some sb False by (intro exI [of _ "w_db w"] exI [of _ "Suc (w_calls w)"]) simp
  qed
qed

text \<open>In a calm run the finalisation of a request whose claim is held by its event always succeeds.\<close>

lemma finalize_calm:
  assumes "calm sc" and "claims_wf (w_db w)" and "message_Validate msg = None"
    and "claim_view_of (w_db w) (request_of msg) = mine msg l" and "\<And>n. sc_ack sc n = None"
  obtains w' where "FinalizePermanentFailure (sql_stream sc) msg (Some cause) (Some (broker_ack sc)) w = (None, w')"
    "w_acks w' = Suc (w_acks w)" "not_pending msg (w_db w')" "completed_request msg w'" "w_sent w' = w_sent w"
proof -
  have stored: "op_Stored (os_chain (sql_stream sc)) msg w =
      (Inr (map_option (\<lambda>(s, b). invoice_of_row s b) (stored_row (m_ID msg) (w_db w))), w\<lparr>w_calls := Suc (w_calls w)\<rparr>)"
    using assms(1) by (auto simp: sql_stream_defs calm_call Stored_def calm_def split: option.splits)
  obtain db m where recorded: "give_up_step sc msg cause w = (None, w\<lparr>w_db := db, w_calls := m\<rparr>)"
    and db: "not_pending msg db" "db_claims db = db_claims (w_db w)"
    using give_up_calm [OF assms(1)] by metis
  let ?w2 = "w\<lparr>w_db := db, w_calls := m\<rparr>"
  have "claims_wf db" "claim_view_of db (request_of msg) = mine msg l"
    using same_claims_view [OF db(2)] assms(2,4) by auto
  then obtain db3 where complete: "op_Complete (os_claims (sql_stream sc)) msg ?w2 = (None, w\<lparr>w_db := db3, w_calls := Suc m\<rparr>)"
    and db3: "db_submissions db3 = db_submissions db" "db_bills db3 = db_bills db"
    using calm_Complete [OF assms(1) _ assms(3), of ?w2] by auto
  let ?w3 = "w\<lparr>w_acks := Suc (w_acks w), w_db := db3, w_calls := Suc (Suc m)\<rparr>"
  have final: "FinalizePermanentFailure (sql_stream sc) msg (Some cause) (Some (broker_ack sc)) w = (None, ?w3)"
    using stored recorded complete assms(5) by (simp add: FinalizePermanentFailure_def broker_ack_def step_of_def)
  show thesis
    by (rule that [OF final])
      (use db(1) db3 sql_delivery.Finalize_run [OF final assms(2)] in \<open>auto simp: not_pending_def stored_row_def bill_of_def\<close>)
qed

text \<open>C18: the retry limit settles a failing bill.  In a run where no statement fails and acknowledgements reach
  the broker, take the delivery of a valid message for this worker whose request it may claim and whose event
  no other request holds.  If it fails with an error that is retried, without an acknowledgement, and the
  retry limit is reached, the worker completes the request, acknowledges once, sends nothing more, leaves no
  invoice of the bill waiting for an answer, does not terminate the message, and alerts the tenant that has
  an alert address.  A delivery at the limit that may not claim its request is not settled.\<close>

theorem retry_limit_settles:
  assumes "calm sc" and "claims_wf (w_db w)" and "event_free (claim_view_of (w_db w)) msg"
    and "fst (spec_claim defaultClaimLease (env_now (sc_env sc (w_calls w))) msg
      (claim_view_of (w_db w) (request_of msg))) = ClaimProcess"
    and "DecodeEnvelope json (nm_Data raw) = Inr msg" and "addressed msg tc dbName branchID"
    and "HandleMessage (sql_stream sc) msg (Some (broker_ack sc)) w = (Some e, w1)"
    and "w_acks w1 = w_acks w" and "retried e"
    and "deliveryBudgetExhausted (Some raw) (tc_maxDeliver tc)" and "\<And>n. sc_ack sc n = None"
  shows "\<exists>w'. handleDelivery json (sql_stream sc) (broker_ack sc) tc dbName branchID raw w =
      (alert tc (bill_of_branch msg @ '' reached the retry limit'') e, w') \<and>
    completed_request msg w' \<and> w_acks w' = Suc (w_acks w) \<and> w_sent w' = w_sent w1 \<and> not_pending msg (w_db w')"
proof -
  have valid: "message_Validate msg = None"
    using assms(5) by (auto simp: DecodeEnvelope_def split: sum.splits option.splits)
  from HandleMessage_calm [OF assms(1,2) valid assms(3,4,7)]
  have w1: "claims_wf (w_db w1)" "claim_view_of (w_db w1) (request_of msg) = mine msg None"
    using assms(8) by (auto simp: settled_def)
  obtain w' where "FinalizePermanentFailure (sql_stream sc) msg (Some e) (Some (broker_ack sc)) w1 = (None, w')"
    "w_acks w' = Suc (w_acks w1)" "not_pending msg (w_db w')" "completed_request msg w'" "w_sent w' = w_sent w1"
    using finalize_calm [OF assms(1) w1(1) valid w1(2) assms(11)] by blast
  then show ?thesis
    using assms by (auto simp: handleDelivery_def addressed_def retried_def)
qed

theorem retry_limit_settles_witness:
  "\<exists>w'. handleDelivery sample_json (sql_stream sample_broken) (broker_ack sample_broken) sample_ctx ''tenant_acme'' 7
      (sample_raw 10) sample_world =
      (alert sample_ctx (bill_of_branch sample_message @ '' reached the retry limit'') (NewError ''connection refused''), w') \<and>
    completed_request sample_message w' \<and> w_acks w' = 1"
proof -
  have "calm sample_broken" "\<And>n. sc_ack sample_broken n = None"
    by (simp_all add: calm_def sample_broken_def sample_script_def)
  moreover have "DecodeEnvelope sample_json (nm_Data (sample_raw 10)) = Inr sample_message"
    by (simp add: DecodeEnvelope_def strictDecode_def sample_json_def sample_message_valid)
  moreover have "addressed sample_message sample_ctx ''tenant_acme'' 7"
    by (simp add: addressed_def sample_ctx_def sample_tenant_def sample_message_def)
  moreover have "deliveryBudgetExhausted (Some (sample_raw 10)) (tc_maxDeliver sample_ctx)"
    by (simp add: deliveryBudgetExhausted_def sample_raw_def sample_ctx_def)
  ultimately show ?thesis
    using retry_limit_settles [OF _ _ _ _ _ _ sample_broken_run, of sample_json "sample_raw 10" sample_ctx "''tenant_acme''" 7]
      sample_start_claims by (auto simp: retried_def)
qed

text \<open>An operator hears of every delivery of an addressed envelope that fails, unless it is in flight
  elsewhere: exactly one mail goes to the tenant's alert address, if it has one.\<close>

theorem delivery_failure_alerts:
  assumes "handleDelivery json stream ack tc dbName branchID raw w = (evs, w')"
    and "DecodeEnvelope json (nm_Data raw) = Inr msg" and "addressed msg tc dbName branchID"
    and "tn_AlertEmail (tc_tenant tc) \<noteq> []"
  shows "length (filter (\<lambda>ev. ev \<noteq> Term) evs) =
    (case fst (HandleMessage stream msg (Some ack) w) of
       None \<Rightarrow> 0
     | Some e \<Rightarrow> if is_err e ErrClaimInFlight \<or> is_err e ErrChainBusy then 0 else 1)"
  using assms
  by (auto simp: handleDelivery_def alert_def addressed_def split: if_splits prod.splits option.splits)

theorem delivery_failure_alerts_witness:
  "length (filter (\<lambda>ev. ev \<noteq> Term) (fst (handleDelivery sample_json (sql_stream sample_broken) (broker_ack sample_broken)
     sample_ctx ''tenant_acme'' 7 (sample_raw 1) sample_world))) = 1"
proof -
  obtain evs w' where run: "handleDelivery sample_json (sql_stream sample_broken) (broker_ack sample_broken)
     sample_ctx ''tenant_acme'' 7 (sample_raw 1) sample_world = (evs, w')"
    by fastforce
  have "DecodeEnvelope sample_json (nm_Data (sample_raw 1)) = Inr sample_message"
    by (simp add: DecodeEnvelope_def strictDecode_def sample_json_def sample_message_valid)
  moreover have "addressed sample_message sample_ctx ''tenant_acme'' 7" "tn_AlertEmail (tc_tenant sample_ctx) \<noteq> []"
    by (simp_all add: addressed_def sample_ctx_def sample_tenant_def sample_message_def)
  ultimately show ?thesis
    using delivery_failure_alerts [OF run] run sample_broken_run by simp
qed

section \<open>Onboarding requests\<close>

text \<open>An onboarding starts only for a valid request of this tenant, on the subject of its branch,
  while the tenant is not being removed and no onboarding of the branch runs; then the branch is
  marked as running, and a second request for it is refused until \<open>endOnboarding\<close> clears the mark.\<close>

theorem onboarding_single_flight:
  assumes "onboard_callback json marshal tc m running = (evs, Some req, running')"
  shows "or_DBName req = tn_DBName (tc_tenant tc) \<and> or_TenantKey req = tn_TenantKey (tc_tenant tc) \<and>
    nm_Subject m = OnboardSubject (or_DBName req) (or_BranchID req) \<and> 0 < or_BranchID req \<and>
    \<not> tc_onboardingStopping tc \<and> branchKey (or_DBName req) (or_BranchID req) \<notin> set running \<and>
    fst (snd (onboard_callback json marshal tc m running')) = None \<and>
    (fst (snd (onboard_callback json marshal tc m (endOnboarding (or_DBName req) (or_BranchID req) running'))) = Some req)"
  using assms
  by (auto simp: onboard_callback_def Let_def checkOnboardRequest_def beginOnboarding_def endOnboarding_def
      DecodeOnboardRequest_def split: sum.splits option.splits if_splits)

definition sample_onboard :: onboard_request where
  "sample_onboard = \<lparr>or_DBName = ''tenant_acme'', or_TenantKey = ''acme-0001'', or_BranchID = 7, or_OTP = ''123456''\<rparr>"

definition sample_onboard_msg :: nats_msg where
  "sample_onboard_msg = \<lparr>nm_Subject = OnboardSubject ''tenant_acme'' 7, nm_Data = ''{}'', nm_NumDelivered = None\<rparr>"

theorem onboarding_single_flight_witness:
  "fst (snd (onboard_callback (\<lambda>_. Inr sample_onboard) (\<lambda>_. Some ''ok'') sample_ctx sample_onboard_msg
     [''tenant_acme:7''])) = None"
proof -
  have otp: "trim_space ''123456'' = ''123456''"
    by (rule trim_space_graphic) (simp add: graphic_def)
  have key: "branchKey ''tenant_acme'' 7 = ''tenant_acme:7''"
    by (simp add: branchKey_def sample_number)
  have "onboard_callback (\<lambda>_. Inr sample_onboard) (\<lambda>_. Some ''ok'') sample_ctx sample_onboard_msg [] =
      ([Respond ''ok''], Some sample_onboard, [''tenant_acme:7''])"
    by (simp add: onboard_callback_def Let_def checkOnboardRequest_def beginOnboarding_def DecodeOnboardRequest_def
        strictDecode_def sample_onboard_def sample_onboard_msg_def sample_ctx_def sample_tenant_def sample_texts otp
        replyOnboard_def key)
  from onboarding_single_flight [OF this] show ?thesis
    by blast
qed

end
