(* ===== verification/Redelivery.thy ===== *)
theory Redelivery
  imports Daemon_Delivery
begin

text \<open>
  The redeliveries of one message.  The broker delivers a message again, with its delivery number raised
  by one, until a delivery is acknowledged or terminated, and at most as often as the consumer allows
  (\<open>PullSubscribe\<close> of \<open>runWorkerContext\<close> sets this limit).  The worker that handles each delivery is
  \<open>handleDelivery\<close> of \<open>cmd/daemon/worker.go\<close>.
\<close>

definition numbered :: "nats_msg \<Rightarrow> nat \<Rightarrow> nats_msg" where
  "numbered raw n = raw\<lparr>nm_NumDelivered := Some (of_nat n)\<rparr>"

datatype broker_end =
    Ended nat world \<comment> \<open>the number of the last delivery, and the world after it\<close>
  | GivenUp world

fun redeliver :: "(nats_msg \<Rightarrow> world \<Rightarrow> event list \<times> world) \<Rightarrow> nats_msg \<Rightarrow> nat \<Rightarrow> nat \<Rightarrow> world \<Rightarrow> broker_end" where
  "redeliver h raw 0 n w = GivenUp w"
| "redeliver h raw (Suc k) n w =
     (case h (numbered raw n) w of
        (evs, w') \<Rightarrow> if Term \<in> set evs \<or> w_acks w' \<noteq> w_acks w then Ended n w' else redeliver h raw k (Suc n) w')"

text \<open>The claim of the request can be taken now.\<close>

definition claimable :: "'p script \<Rightarrow> message \<Rightarrow> world \<Rightarrow> bool" where
  "claimable sc msg w \<longleftrightarrow> claims_wf (w_db w) \<and> event_free (claim_view_of (w_db w)) msg \<and>
     fst (spec_claim defaultClaimLease (env_now (sc_env sc (w_calls w))) msg
       (claim_view_of (w_db w) (request_of msg))) = ClaimProcess"

lemma own_event_free:
  assumes "claims_wf db" and "claim_view_of db (request_of msg) = mine msg l"
  shows "event_free (claim_view_of db) msg"
proof -
  obtain r where r: "find (\<lambda>r. claim_key r = request_of msg) (db_claims db) = Some r" "c_event_id r = m_EventID msg"
    using assms(2) by (auto simp: claim_view_of_def row_view_def split: option.splits if_splits)
  have "k = request_of msg" if ev: "view_event (claim_view_of db k) = Some (m_EventID msg)" for k
  proof -
    obtain r' where r': "find (\<lambda>r. claim_key r = k) (db_claims db) = Some r'" "c_event_id r' = m_EventID msg"
      using ev by (auto simp: claim_view_of_def row_view_def split: option.splits if_splits)
    have "r' = r"
      using assms(1) find_SomeD [OF r(1)] find_SomeD [OF r'(1)] r(2) r'(2)
      unfolding claims_wf_def by (metis distinct_map inj_onD)
    then show ?thesis
      using find_SomeD [OF r(1)] find_SomeD [OF r'(1)] by simp
  qed
  then show ?thesis
    by (auto simp: event_free_def)
qed

lemma released_claimable:
  "claims_wf (w_db w) \<Longrightarrow> claim_view_of (w_db w) (request_of msg) = mine msg None \<Longrightarrow> claimable sc msg w"
  by (simp add: claimable_def own_event_free lease_live_def)

lemma view_completed: "claim_view_of (w_db w) (request_of msg) = Done e f \<Longrightarrow> completed_request msg w"
  by (auto simp: completed_request_def claim_view_request row_view_def claim_of_def split: option.splits if_splits dest!: find_SomeD)

text \<open>One delivery in a calm run: it is acknowledged with the request completed, or its error leaves the
  claim open, and at the limit this is an error the worker does not retry.\<close>

lemma delivery_step:
  assumes "calm sc" and "\<And>m. sc_ack sc m = None" and "claimable sc msg w"
    and "DecodeEnvelope json (nm_Data raw) = Inr msg" and "addressed msg tc dbName branchID"
    and "handleDelivery json (sql_stream sc) (broker_ack sc) tc dbName branchID raw w = (evs, w')"
  shows "w_acks w' = Suc (w_acks w) \<and> Term \<notin> set evs \<and> completed_request msg w' \<or>
    w_acks w' = w_acks w \<and> Term \<notin> set evs \<and> claimable sc msg w' \<and>
      (\<exists>e. HandleMessage (sql_stream sc) msg (Some (broker_ack sc)) w = (Some e, w') \<and>
        (deliveryBudgetExhausted (Some raw) (tc_maxDeliver tc) \<longrightarrow> \<not> retried e))"
proof -
  have valid: "message_Validate msg = None"
    using assms(4) by (auto simp: DecodeEnvelope_def split: sum.splits option.splits)
  obtain r w1 where run: "HandleMessage (sql_stream sc) msg (Some (broker_ack sc)) w = (r, w1)"
    by fastforce
  have wf: "claims_wf (w_db w)"
    using assms(3) by (simp add: claimable_def)
  from HandleMessage_calm [OF assms(1) _ valid _ _ run] assms(3) have st: "settled sc msg r w w1"
    by (simp add: claimable_def)
  show ?thesis
  proof (cases "w_acks w1 = w_acks w")
    case True
    then obtain e where r: "r = Some e" and w1: "claims_wf (w_db w1)" "claim_view_of (w_db w1) (request_of msg) = mine msg None"
      using st by (auto simp: settled_def)
    show ?thesis
    proof (cases "retried e \<and> deliveryBudgetExhausted (Some raw) (tc_maxDeliver tc)")
      case exhausted: True
      obtain w2 where final: "FinalizePermanentFailure (sql_stream sc) msg (Some e) (Some (broker_ack sc)) w1 = (None, w2)"
        "w_acks w2 = Suc (w_acks w1)" "completed_request msg w2"
        using finalize_calm [OF assms(1) w1(1) valid w1(2) assms(2)] by blast
      have "evs = alert tc (bill_of_branch msg @ '' reached the retry limit'') e" "w' = w2"
        using assms(4-6) run r final(1) exhausted by (auto simp: handleDelivery_def addressed_def retried_def)
      then show ?thesis
        using True final(2,3) by (simp add: alert_def)
    next
      case False
      then have "w' = w1" "Term \<notin> set evs"
        using assms(4-6) run r by (auto simp: handleDelivery_def addressed_def retried_def alert_def split: if_splits)
      then show ?thesis
        using True False run r released_claimable [OF w1] by auto
    qed
  next
    case False
    then have acked: "w_acks w1 = Suc (w_acks w)" "completed_request msg w1" "case r of None \<Rightarrow> True | Some e \<Rightarrow> \<not> retried e"
      using st view_completed assms(2) by (auto simp: settled_def final_error_def retried_def split: option.splits)
    then have "w' = w1" "Term \<notin> set evs"
      using assms(4-6) run
      by (auto simp: handleDelivery_def addressed_def retried_def alert_def split: option.splits if_splits)
    with acked show ?thesis
      by simp
  qed
qed

lemma exhausted_numbered:
  assumes "1 \<le> tc_maxDeliver tc" and "tc_maxDeliver tc < 2 ^ 63" and "n \<le> nat (tc_maxDeliver tc)"
  shows "deliveryBudgetExhausted (Some (numbered raw n)) (tc_maxDeliver tc) \<longleftrightarrow> n = nat (tc_maxDeliver tc)"
proof -
  have "sint (of_nat n :: u64) = int n"
    using assms signed_take_bit_int_eq_self [of 63 "int n"] by (simp add: signed_of_nat)
  then show ?thesis
    using assms by (auto simp: deliveryBudgetExhausted_def numbered_def)
qed

text \<open>C16: redelivery ends.  In a calm run, with a limit of at least one delivery, a message whose claim can be
  taken is delivered at most as often as the limit says, and then its request is completed and its
  delivery acknowledged once; or the broker gives up after a last delivery whose error the worker does
  not retry: the claim or the chain is busy, or the pipeline reports a final error without an outcome.\<close>

theorem redelivery_ends:
  assumes "calm sc" and "\<And>m. sc_ack sc m = None" and "claimable sc msg w"
    and "DecodeEnvelope json (nm_Data raw) = Inr msg" and "addressed msg tc dbName branchID"
    and "1 \<le> tc_maxDeliver tc" and "tc_maxDeliver tc < 2 ^ 63"
  shows "case redeliver (handleDelivery json (sql_stream sc) (broker_ack sc) tc dbName branchID) raw (nat (tc_maxDeliver tc)) 1 w of
      Ended n w' \<Rightarrow> n \<le> nat (tc_maxDeliver tc) \<and> w_acks w' = Suc (w_acks w) \<and> completed_request msg w'
    | GivenUp w' \<Rightarrow> w_acks w' = w_acks w \<and> claimable sc msg w' \<and>
        (\<exists>v e. HandleMessage (sql_stream sc) msg (Some (broker_ack sc)) v = (Some e, w') \<and> \<not> retried e)"
proof -
  let ?h = "handleDelivery json (sql_stream sc) (broker_ack sc) tc dbName branchID" and ?max = "nat (tc_maxDeliver tc)"
  have "case redeliver ?h raw k n v of
      Ended m w' \<Rightarrow> m \<le> ?max \<and> w_acks w' = Suc (w_acks v) \<and> completed_request msg w'
    | GivenUp w' \<Rightarrow> w_acks w' = w_acks v \<and> claimable sc msg w' \<and>
        (\<exists>v e. HandleMessage (sql_stream sc) msg (Some (broker_ack sc)) v = (Some e, w') \<and> \<not> retried e)"
    if "claimable sc msg v" and "n + k = Suc ?max" and "0 < k" for k n v
    using that
  proof (induction k arbitrary: n v)
    case (Suc k)
    obtain evs v' where run: "?h (numbered raw n) v = (evs, v')"
      by fastforce
    have data: "DecodeEnvelope json (nm_Data (numbered raw n)) = Inr msg"
      using assms(4) by (simp add: numbered_def)
    from delivery_step [OF assms(1,2) Suc.prems(1) data assms(5) run]
    consider "w_acks v' = Suc (w_acks v)" "completed_request msg v'"
      | e where "w_acks v' = w_acks v" "Term \<notin> set evs" "claimable sc msg v'"
          "HandleMessage (sql_stream sc) msg (Some (broker_ack sc)) v = (Some e, v')" "n = ?max \<longrightarrow> \<not> retried e"
      using exhausted_numbered [OF assms(6,7)] Suc.prems(2) by auto
    then show ?case
    proof cases
      case 1
      then show ?thesis
        using run Suc.prems(2,3) by simp
    next
      case 2
      then show ?thesis
        using run Suc.IH [of v' "Suc n"] Suc.prems(2) by (cases "k = 0") (auto split: broker_end.splits)
    qed
  qed simp
  from this [OF assms(3), of 1 ?max] show ?thesis
    using assms(6) by simp
qed

theorem redelivery_ends_witness:
  "case redeliver (handleDelivery sample_json (sql_stream sample_broken) (broker_ack sample_broken) sample_ctx ''tenant_acme'' 7)
      (sample_raw 1) 10 1 sample_world of
    Ended n w' \<Rightarrow> n \<le> 10 \<and> w_acks w' = 1 \<and> completed_request sample_message w'
  | GivenUp w' \<Rightarrow> w_acks w' = 0 \<and> claimable sample_broken sample_message w' \<and>
      (\<exists>v e. HandleMessage (sql_stream sample_broken) sample_message (Some (broker_ack sample_broken)) v = (Some e, w') \<and> \<not> retried e)"
proof -
  have "calm sample_broken" "\<And>n. sc_ack sample_broken n = None"
    by (simp_all add: calm_def sample_broken_def sample_script_def)
  moreover have "claimable sample_broken sample_message sample_world"
    using sample_start_claims by (simp add: claimable_def)
  moreover have "DecodeEnvelope sample_json (nm_Data (sample_raw 1)) = Inr sample_message"
    by (simp add: DecodeEnvelope_def strictDecode_def sample_json_def sample_message_valid)
  moreover have "addressed sample_message sample_ctx ''tenant_acme'' 7"
    by (simp add: addressed_def sample_ctx_def sample_tenant_def sample_message_def)
  moreover have "tc_maxDeliver sample_ctx = 10"
    by (simp add: sample_ctx_def)
  ultimately show ?thesis
    using redelivery_ends [of sample_broken sample_message sample_world sample_json "sample_raw 1" sample_ctx "''tenant_acme''" 7]
    by (simp only:) (simp add: sample_world_simps split: broker_end.splits)
qed

end
