(* ===== verification/Float64.thy ===== *)
theory Float64
  imports Complex_Main
begin

text \<open>
  The type \<open>float64\<close> of Go: IEEE 754 binary64 with rounding to nearest, ties to even.  A finite number is its
  value, so the two zeros are one value.  Operations are rounded one by one: the compiler does not
  fuse them on amd64.
\<close>

section \<open>Rounding\<close>

function bits :: "int \<Rightarrow> int" where
  "bits n = (if n \<le> 0 then 0 else 1 + bits (n div 2))"
  by pat_completeness auto
termination
  by (relation "measure nat") auto

declare bits.simps [simp del]

text \<open>The exponent of the highest binary digit of a positive number.\<close>

definition top_bit :: "rat \<Rightarrow> int" where
  "top_bit x = (let (n, d) = quotient_of x; e = bits n - bits d in if x < 2 powi e then e - 1 else e)"

definition round_even :: "rat \<Rightarrow> int" where
  "round_even y = (let f = \<lfloor>y\<rfloor>; r = y - of_int f in if r < 1 / 2 then f else if 1 / 2 < r then f + 1 else if even f then f else f + 1)"

text \<open>The distance of neighbouring numbers around \<open>x\<close>: 53 binary digits, but not below the smallest positive
  number.\<close>

definition ulp :: "rat \<Rightarrow> rat" where
  "ulp x = 2 powi (max (top_bit \<bar>x\<bar> - 52) (- 1074))"

definition rnd :: "rat \<Rightarrow> rat" where
  "rnd x = (if x = 0 then 0 else of_int (round_even (x / ulp x)) * ulp x)"

lemma bits_bounds: "0 < n \<Longrightarrow> 0 < bits n \<and> 2 powi (bits n - 1) \<le> (of_int n :: rat) \<and> of_int n < (2 powi bits n :: rat)"
proof (induction n rule: bits.induct)
  case (1 n)
  show ?case
  proof (cases "n = 1")
    case True
    then show ?thesis by (simp add: bits.simps)
  next
    case False
    let ?k = "bits (n div 2)"
    have m: "0 < n div 2" using "1.prems" False by auto
    with "1.IH" "1.prems" have ih: "0 < ?k" "2 powi (?k - 1) \<le> (of_int (n div 2) :: rat)" "of_int (n div 2) < (2 powi ?k :: rat)" by simp_all
    have bits: "bits n = 1 + ?k" using "1.prems" by (simp add: bits.simps [of n])
    have "(2 powi ?k :: rat) = of_int (2 ^ nat ?k)" using ih(1) by (simp add: power_int_def)
    with ih(3) have "n div 2 < 2 ^ nat ?k" by (simp only: of_int_less_iff)
    then have "n < 2 * 2 ^ nat ?k" by linarith
    then have "(of_int n :: rat) < of_int (2 * 2 ^ nat ?k)" by (simp only: of_int_less_iff)
    also have "\<dots> = 2 powi (1 + ?k)" using ih(1) by (simp add: power_int_def nat_add_distrib)
    finally have up: "of_int n < (2 powi (1 + ?k) :: rat)" .
    have "(2 powi ?k :: rat) = 2 powi (?k - 1) * 2" by (simp add: power_int_diff)
    also have "\<dots> \<le> of_int (n div 2) * 2" using ih(2) by simp
    also have "\<dots> = of_int (n div 2 * 2)" by simp
    also have "\<dots> \<le> of_int n" by (simp only: of_int_le_iff div_times_less_eq_dividend zero_less_numeral)
    finally show ?thesis using up ih(1) by (simp add: bits)
  qed
qed

lemma top_bit_bounds:
  assumes "0 < x"
  shows "2 powi top_bit x \<le> x" "x < 2 powi (top_bit x + 1)"
proof -
  obtain n d where q: "quotient_of x = (n, d)" by fastforce
  then have d: "0 < d" and x: "x = of_int n / of_int d" using quotient_of_denom_pos quotient_of_div by auto
  with assms have n: "0 < n" by (simp add: zero_less_divide_iff)
  let ?e = "bits n - bits d"
  note N = bits_bounds [OF n, THEN conjunct2] and D = bits_bounds [OF d, THEN conjunct2]
  have pos: "0 < (of_int d :: rat)" "0 < (of_int n :: rat)" using d n by simp_all
  have "2 powi (?e - 1) = 2 powi (bits n - 1) / (2 powi bits d :: rat)"
    by (subst power_int_diff [symmetric]) (simp_all add: algebra_simps)
  also have "\<dots> \<le> of_int n / of_int d"
    using N D pos by (intro frac_le) simp_all
  finally have low: "2 powi (?e - 1) \<le> x" unfolding x .
  have "of_int n / of_int d < 2 powi bits n / (2 powi (bits d - 1) :: rat)"
    using N D pos by (intro frac_less) simp_all
  also have "\<dots> = 2 powi (?e + 1)"
    by (subst power_int_diff [symmetric]) (simp_all add: algebra_simps)
  finally have high: "x < 2 powi (?e + 1)" unfolding x .
  have t: "top_bit x = (if x < 2 powi ?e then ?e - 1 else ?e)" by (simp add: top_bit_def q Let_def)
  show "2 powi top_bit x \<le> x" "x < 2 powi (top_bit x + 1)"
    using low high unfolding t by (auto simp: not_less)
qed

lemma powi_less: "(2 :: rat) powi a < 2 powi b \<Longrightarrow> a < b"
  using power_int_increasing [of b a "2 :: rat"] by (meson not_le one_le_numeral)

lemma round_even_close: "\<bar>of_int (round_even y) - y\<bar> \<le> 1 / 2"
proof -
  have "of_int \<lfloor>y\<rfloor> \<le> y" "y < of_int \<lfloor>y\<rfloor> + 1" by linarith+
  then show ?thesis by (auto simp: round_even_def Let_def abs_le_iff)
qed

lemma round_even_int [simp]: "round_even (of_int n) = n"
  by (simp add: round_even_def Let_def)

lemma ulp_pos [simp]: "0 < ulp x"
  by (simp add: ulp_def)

lemma rnd_ulp: "\<bar>rnd x - x\<bar> \<le> ulp x / 2"
proof (cases "x = 0")
  case False
  have "rnd x - x = (of_int (round_even (x / ulp x)) - x / ulp x) * ulp x"
    using False ulp_pos [of x] less_imp_neq [OF ulp_pos, of x] by (simp add: rnd_def left_diff_distrib)
  then have "\<bar>rnd x - x\<bar> = \<bar>of_int (round_even (x / ulp x)) - x / ulp x\<bar> * ulp x"
    using less_imp_le [OF ulp_pos, of x] by (simp add: abs_mult)
  also have "\<dots> \<le> 1 / 2 * ulp x"
    using less_imp_le [OF ulp_pos, of x] round_even_close by (intro mult_right_mono)
  finally show ?thesis by simp
qed (simp add: rnd_def less_imp_le)

text \<open>The rounding error is at most half a unit in the 53rd binary digit.\<close>

lemma rnd_error:
  assumes "\<bar>x\<bar> \<le> 2 ^ m"
  shows "\<bar>rnd x - x\<bar> \<le> 2 ^ m / 2 ^ 53"
proof (cases "x = 0")
  case False
  have "2 powi top_bit \<bar>x\<bar> \<le> \<bar>x\<bar>" using top_bit_bounds(1) [of "\<bar>x\<bar>"] False by simp
  also have "\<dots> < 2 powi (int m + 1)" using assms by (simp add: power_int_add_1 less_le_trans [of _ "2 ^ m * 2"] order.strict_trans1)
  finally have "top_bit \<bar>x\<bar> \<le> int m" using powi_less by fastforce
  then have "max (top_bit \<bar>x\<bar> - 52) (- 1074) \<le> int m - 52" by simp
  then have "ulp x \<le> 2 powi (int m - 52)" unfolding ulp_def by (intro power_int_increasing) simp_all
  also have "\<dots> = 2 ^ m / 2 ^ 52" by (simp add: power_int_diff)
  finally show ?thesis using rnd_ulp [of x] by simp
qed (simp add: rnd_def)

lemma rnd_int:
  assumes "\<bar>n\<bar> < 2 ^ 53"
  shows "rnd (of_int n) = of_int n"
proof (cases "n = 0")
  case False
  let ?x = "of_int n :: rat"
  let ?k = "max (top_bit \<bar>?x\<bar> - 52) (- 1074)"
  have "(2 powi top_bit \<bar>?x\<bar> :: rat) \<le> \<bar>?x\<bar>" using top_bit_bounds(1) [of "\<bar>?x\<bar>"] False by simp
  also have "\<dots> < 2 powi 53"
  proof -
    have "\<bar>?x\<bar> = of_int \<bar>n\<bar>" by simp
    also have "\<dots> < of_int (2 ^ 53)" using assms by (simp only: of_int_less_iff)
    finally show ?thesis by simp
  qed
  finally have "top_bit \<bar>?x\<bar> < 53" by (rule powi_less)
  then have k: "?k \<le> 0" by simp
  have "?x / ulp ?x = of_int (n * 2 ^ nat (- ?k))"
  proof -
    have "ulp ?x = inverse (2 ^ nat (- ?k))" using k by (cases "?k = 0") (simp_all add: ulp_def power_int_def power_one_over inverse_eq_divide)
    then show ?thesis by (simp add: divide_inverse)
  qed
  then have "round_even (?x / ulp ?x) = n * 2 ^ nat (- ?k)" by (simp only: round_even_int)
  then have "rnd ?x = of_int (n * 2 ^ nat (- ?k)) * ulp ?x" using False by (simp add: rnd_def)
  also have "\<dots> = ?x / ulp ?x * ulp ?x" using \<open>?x / ulp ?x = of_int (n * 2 ^ nat (- ?k))\<close> by simp
  finally show ?thesis using ulp_pos [of ?x] by simp
qed (simp add: rnd_def)

section \<open>Numbers and operations\<close>

datatype float64 = Fin rat | Inf bool \<comment> \<open>negative\<close> | NaN

definition f64 :: "rat \<Rightarrow> float64" where
  "f64 x = (if 2 ^ 1024 \<le> \<bar>rnd x\<bar> then Inf (x < 0) else Fin (rnd x))"

lemma f64_code [code]: "f64 x = (let y = rnd x in if (2 ^ 32) ^ 32 \<le> \<bar>y\<bar> then Inf (x < 0) else Fin y)"
  by (simp add: f64_def Let_def flip: power_mult)

fun f64_neg :: "float64 \<Rightarrow> float64" where
  "f64_neg (Fin x) = Fin (- x)"
| "f64_neg (Inf s) = Inf (\<not> s)"
| "f64_neg NaN = NaN"

fun f64_add :: "float64 \<Rightarrow> float64 \<Rightarrow> float64" where
  "f64_add (Fin x) (Fin y) = f64 (x + y)"
| "f64_add (Fin _) (Inf s) = Inf s"
| "f64_add (Inf s) (Fin _) = Inf s"
| "f64_add (Inf s) (Inf t) = (if s = t then Inf s else NaN)"
| "f64_add _ _ = NaN"

definition f64_sub :: "float64 \<Rightarrow> float64 \<Rightarrow> float64" where
  "f64_sub x y = f64_add x (f64_neg y)"

fun f64_mul :: "float64 \<Rightarrow> float64 \<Rightarrow> float64" where
  "f64_mul (Fin x) (Fin y) = f64 (x * y)"
| "f64_mul (Fin x) (Inf s) = (if x = 0 then NaN else Inf (s \<noteq> (x < 0)))"
| "f64_mul (Inf s) (Fin y) = (if y = 0 then NaN else Inf (s \<noteq> (y < 0)))"
| "f64_mul (Inf s) (Inf t) = Inf (s \<noteq> t)"
| "f64_mul _ _ = NaN"

text \<open>The sign of a zero divisor is lost; the code only divides by 100.\<close>

fun f64_div :: "float64 \<Rightarrow> float64 \<Rightarrow> float64" where
  "f64_div (Fin x) (Fin y) = (if y = 0 then if x = 0 then NaN else Inf (x < 0) else f64 (x / y))"
| "f64_div (Fin x) (Inf s) = Fin 0"
| "f64_div (Inf s) (Fin y) = Inf (s \<noteq> (y < 0))"
| "f64_div _ _ = NaN"

text \<open>\<open>int(v)\<close> truncates; outside the range of \<open>int\<close> the result is the one of amd64.\<close>

fun f64_trunc :: "float64 \<Rightarrow> int" where
  "f64_trunc (Fin x) = (let n = (if x < 0 then - \<lfloor>- x\<rfloor> else \<lfloor>x\<rfloor>) in if - (2 ^ 63) \<le> n \<and> n < 2 ^ 63 then n else - (2 ^ 63))"
| "f64_trunc _ = - (2 ^ 63)"

fun f64_lt :: "float64 \<Rightarrow> float64 \<Rightarrow> bool" where
  "f64_lt (Fin x) (Fin y) = (x < y)"
| "f64_lt (Fin _) (Inf s) = (\<not> s)"
| "f64_lt (Inf s) (Fin _) = s"
| "f64_lt (Inf s) (Inf t) = (s \<and> \<not> t)"
| "f64_lt _ _ = False"

definition f64_le :: "float64 \<Rightarrow> float64 \<Rightarrow> bool" where
  "f64_le x y \<longleftrightarrow> f64_lt x y \<or> x = y \<and> x \<noteq> NaN"

lemma f64_close:
  assumes "\<bar>x\<bar> \<le> 2 ^ m" and "m \<le> 1000"
  obtains y where "f64 x = Fin y" and "\<bar>y - x\<bar> \<le> 2 ^ m / 2 ^ 53"
proof -
  have "\<bar>rnd x - x\<bar> \<le> 2 ^ m / 2 ^ 53" by (rule rnd_error [OF assms(1)])
  moreover have "(2 :: rat) ^ m / 2 ^ 53 \<le> 2 ^ m" by (simp add: divide_le_eq)
  ultimately have "\<bar>rnd x\<bar> \<le> 2 * 2 ^ m" using assms(1) by linarith
  also have "(2 :: rat) * 2 ^ m = 2 ^ Suc m" by simp
  also have "(2 :: rat) ^ Suc m < 2 ^ 1024" using assms(2) by (intro power_strict_increasing) simp_all
  finally have "f64 x = Fin (rnd x)" by (simp add: f64_def)
  with \<open>\<bar>rnd x - x\<bar> \<le> 2 ^ m / 2 ^ 53\<close> that show thesis by blast
qed

lemma f64_int: "\<bar>n\<bar> < 2 ^ 53 \<Longrightarrow> f64 (of_int n) = Fin (of_int n)"
proof -
  assume n: "\<bar>n\<bar> < 2 ^ 53"
  have "\<bar>of_int n :: rat\<bar> = of_int \<bar>n\<bar>" by simp
  also have "\<dots> < of_int (2 ^ 53)" using n by (simp only: of_int_less_iff)
  also have "\<dots> < (2 :: rat) ^ 1024" by simp
  finally show ?thesis using rnd_int [OF n] by (simp add: f64_def)
qed

end
