(* ===== verification/Invoice_Model.thy ===== *)
theory Invoice_Model
  imports Queue_Message Float64
begin

text \<open>
  The invoice of \<open>invoice/invoice.go\<close> with its amounts.  Floating-point numbers are a type \<open>'f\<close> with the
  operations the source uses, collected in a record: \<open>ieee\<close> holds the operations of \<open>float64\<close>, and what the
  amounts are is stated of them; the rest of the development does not depend on how numbers are
  rounded.  The layouts of \<open>time.Format\<close> are arguments.
\<close>

section \<open>Numbers\<close>

record 'f flops =
  fl_int :: "int \<Rightarrow> 'f"
  fl_half :: 'f
  fl_neg :: "'f \<Rightarrow> 'f"
  fl_add :: "'f \<Rightarrow> 'f \<Rightarrow> 'f"
  fl_sub :: "'f \<Rightarrow> 'f \<Rightarrow> 'f"
  fl_mul :: "'f \<Rightarrow> 'f \<Rightarrow> 'f"
  fl_div :: "'f \<Rightarrow> 'f \<Rightarrow> 'f"
  fl_trunc :: "'f \<Rightarrow> int"
  fl_le :: "'f \<Rightarrow> 'f \<Rightarrow> bool"
  fl_lt :: "'f \<Rightarrow> 'f \<Rightarrow> bool"

definition ieee :: "float64 flops" where
  "ieee = \<lparr>fl_int = (\<lambda>n. f64 (of_int n)), fl_half = Fin (1 / 2), fl_neg = f64_neg, fl_add = f64_add, fl_sub = f64_sub,
     fl_mul = f64_mul, fl_div = f64_div, fl_trunc = f64_trunc, fl_le = f64_le, fl_lt = f64_lt\<rparr>"

definition roundTo2 :: "'f flops \<Rightarrow> 'f \<Rightarrow> 'f" where
  "roundTo2 F v =
     fl_div F (fl_int F (fl_trunc F (fl_add F (fl_mul F v (fl_int F 100)) (fl_half F)))) (fl_int F 100)"

section \<open>The invoice\<close>

definition TypeInvoice :: int where "TypeInvoice = 388"
definition TypeCreditNote :: int where "TypeCreditNote = 381"
definition TypeDebitNote :: int where "TypeDebitNote = 383"

definition SubTypeStandard :: string where "SubTypeStandard = ''0100000''"
definition SubTypeSimplified :: string where "SubTypeSimplified = ''0200000''"

definition TaxStandard :: string where "TaxStandard = ''S''"
definition TaxZero :: string where "TaxZero = ''Z''"
definition TaxExempt :: string where "TaxExempt = ''E''"
definition TaxOutScope :: string where "TaxOutScope = ''O''"

definition PaymentCash :: string where "PaymentCash = ''10''"

record party =
  pt_RegistrationName :: string
  pt_RegistrationNameAR :: string
  pt_VAT :: string
  pt_SchemeID :: string
  pt_ID :: string
  pt_Street :: string
  pt_Building :: string
  pt_District :: string
  pt_City :: string
  pt_PostalCode :: string
  pt_Country :: string

record 'f line_item =
  li_ID :: string
  li_Name :: string
  li_Quantity :: 'f
  li_UnitCode :: string
  li_UnitPrice :: 'f
  li_Discount :: 'f
  li_TaxCategory :: string
  li_TaxPercent :: 'f

definition line_NetAmount :: "'f flops \<Rightarrow> 'f line_item \<Rightarrow> 'f" where
  "line_NetAmount F l = roundTo2 F (fl_sub F (fl_mul F (li_Quantity l) (li_UnitPrice l)) (li_Discount l))"

definition line_TaxAmount :: "'f flops \<Rightarrow> 'f line_item \<Rightarrow> 'f" where
  "line_TaxAmount F l = roundTo2 F (fl_div F (fl_mul F (line_NetAmount F l) (li_TaxPercent l)) (fl_int F 100))"

definition line_TotalWithTax :: "'f flops \<Rightarrow> 'f line_item \<Rightarrow> 'f" where
  "line_TotalWithTax F l = roundTo2 F (fl_add F (line_NetAmount F l) (line_TaxAmount F l))"

record 'f invoice =
  in_ID :: string
  in_UUID :: string
  in_IssueDate :: time
  in_IssueTime :: time
  in_TypeCode :: int
  in_SubType :: string
  in_DocumentCurrency :: string
  in_TaxCurrency :: string
  in_Note :: string
  in_NoteLang :: string
  in_Supplier :: party
  in_Customer :: party
  in_DeliveryDate :: "time option" \<comment> \<open>\<open>None\<close> is the zero time\<close>
  in_PaymentMeans :: string
  in_InstructionNote :: string
  in_BillingReferenceID :: string
  in_Discount :: 'f
  in_DiscountTax :: string
  in_DiscountTaxPercent :: 'f
  in_Lines :: "'f line_item list"
  in_PreviousInvoiceHash :: string
  in_InvoiceCounterValue :: int
  in_ProfileID :: string

definition TaxableAmount :: "'f flops \<Rightarrow> 'f invoice \<Rightarrow> 'f" where
  "TaxableAmount F i =
     roundTo2 F (foldl (\<lambda>total l. fl_add F total (line_NetAmount F l)) (fl_neg F (in_Discount i)) (in_Lines i))"

definition TotalTax :: "'f flops \<Rightarrow> 'f invoice \<Rightarrow> 'f" where
  "TotalTax F i =
     (let total = foldl (\<lambda>total l. fl_add F total (line_TaxAmount F l)) (fl_int F 0) (in_Lines i) in
      roundTo2 F
        (if fl_lt F (fl_int F 0) (in_Discount i) \<and> fl_lt F (fl_int F 0) (in_DiscountTaxPercent i)
         then fl_sub F total
           (roundTo2 F (fl_div F (fl_mul F (in_Discount i) (in_DiscountTaxPercent i)) (fl_int F 100)))
         else total))"

definition TotalWithTax :: "'f flops \<Rightarrow> 'f invoice \<Rightarrow> 'f" where
  "TotalWithTax F i = roundTo2 F (fl_add F (TaxableAmount F i) (TotalTax F i))"

definition IsSimplified :: "'f invoice \<Rightarrow> bool" where
  "IsSimplified i \<longleftrightarrow> in_SubType i = SubTypeSimplified"

definition IsStandard :: "'f invoice \<Rightarrow> bool" where
  "IsStandard i \<longleftrightarrow> in_SubType i = SubTypeStandard"

definition profileID :: "'f invoice \<Rightarrow> string" where
  "profileID i =
     (if in_ProfileID i \<noteq> [] then in_ProfileID i
      else if IsStandard i then ''reporting:1.0''
      else ''reporting:1.0'')"

text \<open>\<open>date\<close> and \<open>clock\<close> are the layouts of the date and of the time of day.\<close>

definition dateStr :: "(time \<Rightarrow> string) \<Rightarrow> 'f invoice \<Rightarrow> string" where
  "dateStr date i = date (in_IssueDate i)"

definition timeStr :: "(time \<Rightarrow> string) \<Rightarrow> 'f invoice \<Rightarrow> string" where
  "timeStr clock i = clock (in_IssueTime i)"

definition deliveryDateStr :: "(time \<Rightarrow> string) \<Rightarrow> 'f invoice \<Rightarrow> string" where
  "deliveryDateStr date i = (case in_DeliveryDate i of None \<Rightarrow> dateStr date i | Some t \<Rightarrow> date t)"

section \<open>Amounts in cents\<close>

lemma ieee_simps [simp]:
  "fl_int ieee n = f64 (of_int n)" "fl_half ieee = Fin (1 / 2)" "fl_neg ieee = f64_neg" "fl_add ieee = f64_add"
  "fl_sub ieee = f64_sub" "fl_mul ieee = f64_mul" "fl_div ieee = f64_div" "fl_trunc ieee = f64_trunc"
  "fl_le ieee = f64_le" "fl_lt ieee = f64_lt"
  by (simp_all add: ieee_def)

lemma f64_small [simp]: "f64 0 = Fin 0" "f64 100 = Fin 100"
  using f64_int [of 0] f64_int [of 100] by simp_all

text \<open>The number nearest to \<open>n\<close> cents.\<close>

definition money :: "int \<Rightarrow> float64" where
  "money n = f64 (of_int n / 100)"

lemma money_close:
  assumes "0 \<le> n" and "n \<le> 2 ^ 37"
  obtains y where "money n = Fin y" and "\<bar>y - of_int n / 100\<bar> \<le> 1 / 2 ^ 22"
proof -
  have "(of_int n :: rat) \<le> of_int (2 ^ 37)" using assms(2) by (simp only: of_int_le_iff)
  then have "\<bar>of_int n / 100 :: rat\<bar> \<le> 2 ^ 31" using assms(1) by simp
  then obtain y where "f64 (of_int n / 100) = Fin y" "\<bar>y - of_int n / 100\<bar> \<le> 2 ^ 31 / 2 ^ 53" by (rule f64_close [of _ 31]) simp_all
  then show thesis using that by (simp add: money_def)
qed

text \<open>From just below zero on, an amount becomes a whole number of cents within half a cent and the error of
  the two roundings on the way.\<close>

lemma roundTo2_near:
  assumes "- (1 / 1000) \<le> v" and "v \<le> 2 ^ 31"
  obtains n where "roundTo2 ieee (Fin v) = money n" and "0 \<le> n" and "\<bar>of_int n - v * 100\<bar> \<le> 1 / 2 + 1 / 2 ^ 14"
proof -
  have "\<bar>v * 100\<bar> \<le> 2 ^ 38" using assms unfolding abs_le_iff by simp
  then obtain a where a: "f64 (v * 100) = Fin a" "\<bar>a - v * 100\<bar> \<le> 2 ^ 38 / 2 ^ 53" by (rule f64_close [of _ 38]) simp_all
  then have "\<bar>a + 1 / 2\<bar> \<le> 2 ^ 38" using assms unfolding abs_le_iff by simp
  then obtain w where w: "f64 (a + 1 / 2) = Fin w" "\<bar>w - (a + 1 / 2)\<bar> \<le> 2 ^ 38 / 2 ^ 53" by (rule f64_close [of _ 38]) simp_all
  have err: "\<bar>w - (v * 100 + 1 / 2)\<bar> \<le> 1 / 2 ^ 14" using a(2) w(2) unfolding abs_le_iff by simp
  then have w0: "0 \<le> w" and w1: "w < 2 ^ 39" using assms unfolding abs_le_iff by simp_all
  define n where "n = \<lfloor>w\<rfloor>"
  have n: "of_int n \<le> w" "w < of_int n + 1" unfolding n_def by linarith+
  have pos: "0 \<le> n" using w0 by (simp add: n_def)
  have "(of_int n :: rat) < of_int (2 ^ 39)" using n(1) w1 by simp
  then have le: "n < 2 ^ 39" by (simp only: of_int_less_iff)
  have "roundTo2 ieee (Fin v) = money n"
    using a(1) w(1) w0 pos le f64_int [of n] by (simp add: roundTo2_def money_def Let_def flip: n_def)
  moreover have "\<bar>of_int n - v * 100\<bar> \<le> 1 / 2 + 1 / 2 ^ 14" using err n unfolding abs_le_iff by simp
  ultimately show thesis using pos that by blast
qed

lemma roundTo2_cents:
  assumes "\<bar>v - of_int m / 100\<bar> \<le> 1 / 1000" and "0 \<le> m" and "v \<le> 2 ^ 31"
  shows "roundTo2 ieee (Fin v) = money m"
proof (cases "- (1 / 1000) \<le> v")
  case True
  then obtain n where n: "roundTo2 ieee (Fin v) = money n" "\<bar>of_int n - v * 100\<bar> \<le> 1 / 2 + 1 / 2 ^ 14"
    using assms(3) by (rule roundTo2_near)
  then have "\<bar>of_int n - of_int m :: rat\<bar> < 1" using assms(1) unfolding abs_le_iff abs_less_iff by simp
  then have "n = m" by linarith
  with n(1) show ?thesis by simp
next
  case False
  moreover have "0 \<le> (of_int m :: rat)" using assms(2) by simp
  ultimately show ?thesis using assms(1) unfolding abs_le_iff by simp
qed

text \<open>A running total stays close to the sum of the cents.\<close>

lemma sum_of_cents:
  assumes "\<forall>l \<in> set ls. f l = money (c l) \<and> 0 \<le> c l" and "\<bar>s - of_int a / 100\<bar> \<le> e" and "0 \<le> a"
    and "a + sum_list (map c ls) \<le> 2 ^ 37" and "e + of_nat (length ls) / 2 ^ 20 \<le> 1"
  shows "\<exists>y. foldl (\<lambda>total l. f64_add total (f l)) (Fin s) ls = Fin y \<and>
    \<bar>y - of_int (a + sum_list (map c ls)) / 100\<bar> \<le> e + of_nat (length ls) / 2 ^ 20"
  using assms
proof (induction ls arbitrary: s a e)
  case (Cons l ls)
  have rest: "0 \<le> sum_list (map c ls)" using Cons.prems(1) by (intro sum_list_nonneg) auto
  have c: "0 \<le> c l" "c l \<le> 2 ^ 37" and fl: "f l = money (c l)" using Cons.prems(1,3,4) rest by auto
  obtain y where y: "money (c l) = Fin y" "\<bar>y - of_int (c l) / 100\<bar> \<le> 1 / 2 ^ 22" by (rule money_close [OF c])
  have "a + c l \<le> 2 ^ 37" using Cons.prems(4) rest by simp
  then have "(of_int (a + c l) :: rat) \<le> of_int (2 ^ 37)" by (simp only: of_int_le_iff)
  moreover have "0 \<le> (of_int a :: rat)" "0 \<le> (of_int (c l) :: rat)" using Cons.prems(3) c(1) by simp_all
  moreover have "e \<le> 1" using Cons.prems(5) by (rule order_trans [rotated]) simp
  ultimately have "\<bar>s + y\<bar> \<le> 2 ^ 31" using y(2) Cons.prems(2) unfolding abs_le_iff by simp
  then obtain z where z: "f64 (s + y) = Fin z" "\<bar>z - (s + y)\<bar> \<le> 2 ^ 31 / 2 ^ 53" by (rule f64_close [of _ 31]) simp_all
  have "\<bar>z - of_int (a + c l) / 100\<bar> \<le> e + 1 / 2 ^ 20"
    using z(2) y(2) Cons.prems(2) unfolding abs_le_iff by (simp add: add_divide_distrib)
  moreover have "e + 1 / 2 ^ 20 + of_nat (length ls) / 2 ^ 20 \<le> 1" using Cons.prems(5) by (simp add: add_divide_distrib)
  ultimately have "\<exists>x. foldl (\<lambda>total l. f64_add total (f l)) (Fin z) ls = Fin x \<and>
      \<bar>x - of_int (a + c l + sum_list (map c ls)) / 100\<bar> \<le> e + 1 / 2 ^ 20 + of_nat (length ls) / 2 ^ 20"
    using Cons.prems(1,3,4) c(1) by (intro Cons.IH) simp_all
  then show ?case using fl y(1) z(1) by (simp add: add_divide_distrib algebra_simps)
qed simp

text \<open>A sale as the pipeline builds it: no document discount, and every line has an amount that is not
  negative.  The bounds leave room for the rounding errors of all the lines.\<close>

fun val :: "float64 \<Rightarrow> rat" where
  "val (Fin x) = x"
| "val _ = 0"

fun is_fin :: "float64 \<Rightarrow> bool" where
  "is_fin (Fin x) = True"
| "is_fin _ = False"

definition finite_line :: "float64 line_item \<Rightarrow> bool" where
  "finite_line l \<longleftrightarrow> is_fin (li_Quantity l) \<and> is_fin (li_UnitPrice l) \<and> is_fin (li_Discount l) \<and> is_fin (li_TaxPercent l)"

lemma is_fin_iff: "is_fin x \<longleftrightarrow> (\<exists>v. x = Fin v)"
  by (cases x) auto

definition line_value :: "float64 line_item \<Rightarrow> rat" where
  "line_value l = val (li_Quantity l) * val (li_UnitPrice l) - val (li_Discount l)"

definition plain_line :: "float64 line_item \<Rightarrow> bool" where
  "plain_line l \<longleftrightarrow> finite_line l \<and> \<bar>val (li_Quantity l) * val (li_UnitPrice l)\<bar> \<le> 10 ^ 9 \<and>
     0 \<le> line_value l \<and> line_value l \<le> 10 ^ 9 \<and> 0 \<le> val (li_TaxPercent l) \<and> val (li_TaxPercent l) \<le> 100"

definition plain_sale :: "float64 invoice \<Rightarrow> bool" where
  "plain_sale i \<longleftrightarrow> length (in_Lines i) \<le> 1000 \<and> list_all plain_line (in_Lines i) \<and>
     sum_list (map line_value (in_Lines i)) \<le> 10 ^ 9 \<and> in_Discount i = Fin 0"

lemma line_net:
  assumes "plain_line l"
  obtains n where "line_NetAmount ieee l = money n" and "0 \<le> n" and "\<bar>of_int n - line_value l * 100\<bar> \<le> 1 / 2 + 1 / 1000"
proof -
  obtain q p d t where l: "li_Quantity l = Fin q" "li_UnitPrice l = Fin p" "li_Discount l = Fin d" "li_TaxPercent l = Fin t"
    using assms by (auto simp: plain_line_def finite_line_def is_fin_iff)
  have amount: "line_value l = q * p - d" by (simp add: line_value_def l)
  have b: "\<bar>q * p\<bar> \<le> 10 ^ 9" "0 \<le> q * p - d" "q * p - d \<le> 10 ^ 9" using assms by (simp_all add: plain_line_def amount l)
  then have "\<bar>q * p\<bar> \<le> 2 ^ 30" by simp
  then obtain a where a: "f64 (q * p) = Fin a" "\<bar>a - q * p\<bar> \<le> 2 ^ 30 / 2 ^ 53" by (rule f64_close [of _ 30]) simp_all
  then have "\<bar>a - d\<bar> \<le> 2 ^ 30" using b unfolding abs_le_iff by simp
  then obtain v where v: "f64 (a - d) = Fin v" "\<bar>v - (a - d)\<bar> \<le> 2 ^ 30 / 2 ^ 53" by (rule f64_close [of _ 30]) simp_all
  have err: "\<bar>v - (q * p - d)\<bar> \<le> 1 / 2 ^ 22" using a(2) v(2) unfolding abs_le_iff by simp
  then have "- (1 / 1000) \<le> v" "v \<le> 2 ^ 31" using b unfolding abs_le_iff by simp_all
  then obtain n where n: "roundTo2 ieee (Fin v) = money n" "0 \<le> n" "\<bar>of_int n - v * 100\<bar> \<le> 1 / 2 + 1 / 2 ^ 14"
    by (rule roundTo2_near)
  have "line_NetAmount ieee l = money n" using a(1) v(1) n(1) by (simp add: line_NetAmount_def l f64_sub_def)
  moreover have "\<bar>of_int n - line_value l * 100\<bar> \<le> 1 / 2 + 1 / 1000" using n(3) err unfolding abs_le_iff amount by (simp add: algebra_simps)
  ultimately show thesis using n(2) that by blast
qed

lemma line_tax:
  assumes "plain_line l" and "line_NetAmount ieee l = money n" and "0 \<le> n" and "n \<le> 10 ^ 11 + 1000"
  obtains k where "line_TaxAmount ieee l = money k" and "0 \<le> k"
    and "\<bar>of_int k - of_int n * val (li_TaxPercent l) / 100\<bar> \<le> 1 / 2 + 1 / 1000"
proof -
  obtain t where l: "li_TaxPercent l = Fin t" and t: "0 \<le> t" "t \<le> 100"
    using assms(1) by (auto simp: plain_line_def finite_line_def is_fin_iff)
  define x :: rat where "x = of_int n / 100"
  have "(of_int n :: rat) \<le> of_int (10 ^ 11 + 1000)" using assms(4) by (simp only: of_int_le_iff)
  then have x: "0 \<le> x" "x \<le> 10 ^ 9 + 10" using assms(3) by (simp_all add: x_def)
  have "n \<le> 2 ^ 37" using assms(4) by simp
  then obtain y where y: "money n = Fin y" "\<bar>y - x\<bar> \<le> 1 / 2 ^ 22" unfolding x_def by (rule money_close [OF assms(3)])
  have "\<bar>(y - x) * t\<bar> \<le> 1 / 2 ^ 22 * 100" using y(2) t unfolding abs_mult by (intro mult_mono) simp_all
  then have yt: "\<bar>y * t - x * t\<bar> \<le> 100 / 2 ^ 22" by (simp add: left_diff_distrib)
  have "0 \<le> x * t" using x t by simp
  moreover have "x * t \<le> (10 ^ 9 + 10) * 100" using x t by (intro mult_mono) simp_all
  ultimately have xt: "0 \<le> x * t" "x * t \<le> 10 ^ 11 + 1000" by simp_all
  then have "\<bar>y * t\<bar> \<le> 2 ^ 37" using yt unfolding abs_le_iff by simp
  then obtain a where a: "f64 (y * t) = Fin a" "\<bar>a - y * t\<bar> \<le> 2 ^ 37 / 2 ^ 53" by (rule f64_close [of _ 37]) simp_all
  then have "\<bar>a / 100\<bar> \<le> 2 ^ 31" using xt yt unfolding abs_le_iff by simp
  then obtain v where v: "f64 (a / 100) = Fin v" "\<bar>v - a / 100\<bar> \<le> 2 ^ 31 / 2 ^ 53" by (rule f64_close [of _ 31]) simp_all
  have err: "\<bar>v - x * t / 100\<bar> \<le> 1 / 2 ^ 20" using a(2) v(2) yt unfolding abs_le_iff by (simp add: mult.commute [of t])
  then have "- (1 / 1000) \<le> v" "v \<le> 2 ^ 31" using xt unfolding abs_le_iff by (simp_all add: mult.commute [of t])
  then obtain k where k: "roundTo2 ieee (Fin v) = money k" "0 \<le> k" "\<bar>of_int k - v * 100\<bar> \<le> 1 / 2 + 1 / 2 ^ 14"
    by (rule roundTo2_near)
  have "line_TaxAmount ieee l = money k" using y(1) a(1) v(1) k(1) by (simp add: line_TaxAmount_def assms(2) l)
  moreover have "\<bar>of_int k - of_int n * val (li_TaxPercent l) / 100\<bar> \<le> 1 / 2 + 1 / 1000"
    using k(3) err unfolding abs_le_iff l x_def by simp
  ultimately show thesis using k(2) that by blast
qed

text \<open>Every line has its net amount and its tax in whole cents, and their sums stay below the bounds.\<close>

definition line_cents :: "(float64 line_item \<Rightarrow> int) \<Rightarrow> (float64 line_item \<Rightarrow> int) \<Rightarrow> float64 line_item \<Rightarrow> bool" where
  "line_cents net tax l \<longleftrightarrow> line_NetAmount ieee l = money (net l) \<and> 0 \<le> net l \<and>
     \<bar>of_int (net l) - line_value l * 100\<bar> \<le> 1 / 2 + 1 / 1000 \<and>
     line_TaxAmount ieee l = money (tax l) \<and> 0 \<le> tax l \<and>
     \<bar>of_int (tax l) - of_int (net l) * val (li_TaxPercent l) / 100\<bar> \<le> 1 / 2 + 1 / 1000"

lemma line_cents_exist:
  assumes "plain_line l"
  shows "\<exists>n k. line_cents (\<lambda>_. n) (\<lambda>_. k) l"
proof -
  obtain n where n: "line_NetAmount ieee l = money n" "0 \<le> n" "\<bar>of_int n - line_value l * 100\<bar> \<le> 1 / 2 + 1 / 1000"
    by (rule line_net [OF assms])
  moreover have "line_value l \<le> 10 ^ 9" using assms by (simp add: plain_line_def)
  ultimately have "(of_int n :: rat) \<le> of_int (10 ^ 11 + 1000)" unfolding abs_le_iff by simp
  then have "n \<le> 10 ^ 11 + 1000" by (simp only: of_int_le_iff)
  then obtain k where "line_TaxAmount ieee l = money k" "0 \<le> k"
      "\<bar>of_int k - of_int n * val (li_TaxPercent l) / 100\<bar> \<le> 1 / 2 + 1 / 1000"
    by (rule line_tax [OF assms n(1,2)])
  with n show ?thesis by (auto simp: line_cents_def)
qed

lemma sale_cents:
  assumes "list_all plain_line ls"
  obtains net tax where "\<forall>l \<in> set ls. line_cents net tax l"
proof -
  have "\<forall>l. plain_line l \<longrightarrow> (\<exists>n k. line_cents (\<lambda>_. n) (\<lambda>_. k) l)" using line_cents_exist by blast
  then obtain net tax where "\<forall>l. plain_line l \<longrightarrow> line_cents (\<lambda>_. net l) (\<lambda>_. tax l) l" by metis
  with assms have "\<forall>l \<in> set ls. line_cents net tax l" by (auto simp: list_all_iff line_cents_def)
  then show thesis by (rule that)
qed

lemma sale_bounds:
  assumes "list_all plain_line ls" and "\<forall>l \<in> set ls. line_cents net tax l"
  shows "of_int (sum_list (map net ls)) \<le> sum_list (map line_value ls) * 100 + of_nat (length ls)"
    and "sum_list (map tax ls) \<le> sum_list (map net ls) + int (length ls)"
proof -
  show "of_int (sum_list (map net ls)) \<le> sum_list (map line_value ls) * 100 + of_nat (length ls)"
    using assms(2)
  proof (induction ls)
    case (Cons l ls)
    have "\<bar>of_int (net l) - line_value l * 100\<bar> \<le> 1 / 2 + 1 / 1000" using Cons.prems by (simp add: line_cents_def)
    then have "of_int (net l) \<le> line_value l * 100 + 1" unfolding abs_le_iff by simp
    with Cons show ?case by (simp add: distrib_right)
  qed simp
  show "sum_list (map tax ls) \<le> sum_list (map net ls) + int (length ls)"
    using assms
  proof (induction ls)
    case (Cons l ls)
    have c: "\<bar>of_int (tax l) - of_int (net l) * val (li_TaxPercent l) / 100\<bar> \<le> 1 / 2 + 1 / 1000" "0 \<le> net l"
      and t: "0 \<le> val (li_TaxPercent l)" "val (li_TaxPercent l) \<le> 100"
      using Cons.prems by (simp_all add: line_cents_def plain_line_def)
    have "of_int (net l) * val (li_TaxPercent l) \<le> of_int (net l) * 100" using c(2) t by (intro mult_left_mono) simp_all
    then have "(of_int (tax l) :: rat) \<le> of_int (net l + 1)" using c(1) unfolding abs_le_iff by simp
    then have "tax l \<le> net l + 1" by (simp only: of_int_le_iff)
    with Cons show ?case by simp
  qed simp
qed

lemma total_cents:
  assumes "\<forall>l \<in> set ls. f l = money (c l) \<and> 0 \<le> c l" and "sum_list (map c ls) \<le> 2 ^ 37" and "length ls \<le> 1000"
  shows "roundTo2 ieee (foldl (\<lambda>total l. f64_add total (f l)) (Fin 0) ls) = money (sum_list (map c ls))"
proof -
  let ?s = "sum_list (map c ls)"
  have k: "(of_nat (length ls) :: rat) / 2 ^ 20 \<le> 1 / 1000" using assms(3) by (simp add: field_simps)
  then obtain y where y: "foldl (\<lambda>total l. f64_add total (f l)) (Fin 0) ls = Fin y"
      "\<bar>y - of_int ?s / 100\<bar> \<le> of_nat (length ls) / 2 ^ 20"
    using sum_of_cents [of ls f c 0 0 0] assms(1,2) by auto
  have "0 \<le> ?s" using assms(1) by (intro sum_list_nonneg) auto
  moreover have "(of_int ?s :: rat) \<le> of_int (2 ^ 37)" using assms(2) by (simp only: of_int_le_iff)
  moreover have "\<bar>y - of_int ?s / 100\<bar> \<le> 1 / 1000" using y(2) k by (rule order_trans)
  ultimately show ?thesis
    unfolding y(1) by (intro roundTo2_cents) (simp_all only: abs_le_iff, simp)
qed

lemma money_less_zero:
  assumes "0 \<le> n" and "n \<le> 2 ^ 37"
  shows "roundTo2 ieee (f64_sub (money n) (Fin 0)) = money n"
proof -
  obtain x where x: "money n = Fin x" "\<bar>x - of_int n / 100\<bar> \<le> 1 / 2 ^ 22" by (rule money_close [OF assms])
  have "0 \<le> (of_int n :: rat)" "(of_int n :: rat) \<le> of_int (2 ^ 37)" using assms by (simp_all only: of_int_le_iff of_int_0_le_iff)
  then have r: "0 \<le> (of_int n :: rat)" "(of_int n :: rat) \<le> 2 ^ 37" by simp_all
  then have "\<bar>x\<bar> \<le> 2 ^ 31" using x(2) unfolding abs_le_iff by simp
  then obtain z where z: "f64 x = Fin z" "\<bar>z - x\<bar> \<le> 2 ^ 31 / 2 ^ 53" by (rule f64_close [of _ 31]) simp_all
  then have "\<bar>z - of_int n / 100\<bar> \<le> 1 / 1000" "z \<le> 2 ^ 31" using x(2) r unfolding abs_le_iff by simp_all
  then show ?thesis using x(1) z(1) roundTo2_cents [of z n] assms(1) by (simp add: f64_sub_def)
qed

lemma sale_totals:
  assumes "plain_sale i"
  obtains net tax where "\<forall>l \<in> set (in_Lines i). line_cents net tax l"
    and "sum_list (map net (in_Lines i)) \<le> 2 ^ 37" and "sum_list (map tax (in_Lines i)) \<le> 2 ^ 37"
    and "TaxableAmount ieee i = money (sum_list (map net (in_Lines i)))"
    and "TotalTax ieee i = money (sum_list (map tax (in_Lines i)))"
    and "TotalWithTax ieee i = money (sum_list (map net (in_Lines i)) + sum_list (map tax (in_Lines i)))"
proof -
  let ?ls = "in_Lines i"
  have len: "length ?ls \<le> 1000" and plain: "list_all plain_line ?ls" and most: "sum_list (map line_value ?ls) \<le> 10 ^ 9"
    and disc: "in_Discount i = Fin 0" using assms by (simp_all add: plain_sale_def)
  obtain net tax where c: "\<forall>l \<in> set ?ls. line_cents net tax l" by (rule sale_cents [OF plain])
  let ?n = "sum_list (map net ?ls)" and ?t = "sum_list (map tax ?ls)"
  have "(of_nat (length ?ls) :: rat) \<le> 1000" using len by simp
  then have "(of_int ?n :: rat) \<le> of_int (10 ^ 11 + 1000)" using sale_bounds(1) [OF plain c] most by simp
  then have n: "?n \<le> 10 ^ 11 + 1000" by (simp only: of_int_le_iff)
  moreover have t: "?t \<le> 10 ^ 11 + 2000" using n sale_bounds(2) [OF plain c] len by simp
  ultimately have b: "?n \<le> 2 ^ 37" "?t \<le> 2 ^ 37" by simp_all
  have pos: "0 \<le> ?n" "0 \<le> ?t" using c by (auto intro!: sum_list_nonneg simp: line_cents_def)
  have taxable: "TaxableAmount ieee i = money ?n"
    using total_cents [of ?ls "line_NetAmount ieee" net] c b len disc by (simp add: TaxableAmount_def line_cents_def)
  have total_tax: "TotalTax ieee i = money ?t"
    using total_cents [of ?ls "line_TaxAmount ieee" tax] c b len disc by (simp add: TotalTax_def Let_def line_cents_def)
  obtain x where x: "money ?n = Fin x" "\<bar>x - of_int ?n / 100\<bar> \<le> 1 / 2 ^ 22" by (rule money_close [OF pos(1) b(1)])
  obtain y where y: "money ?t = Fin y" "\<bar>y - of_int ?t / 100\<bar> \<le> 1 / 2 ^ 22" by (rule money_close [OF pos(2) b(2)])
  have r: "(of_int ?n :: rat) \<le> of_int (10 ^ 11 + 1000)" "(of_int ?t :: rat) \<le> of_int (10 ^ 11 + 2000)"
    "0 \<le> (of_int ?n :: rat)" "0 \<le> (of_int ?t :: rat)" using n t pos by (simp_all only: of_int_le_iff of_int_0_le_iff)
  then have "\<bar>x + y\<bar> \<le> 2 ^ 31" using x(2) y(2) unfolding abs_le_iff by simp
  then obtain z where z: "f64 (x + y) = Fin z" "\<bar>z - (x + y)\<bar> \<le> 2 ^ 31 / 2 ^ 53" by (rule f64_close [of _ 31]) simp_all
  then have "\<bar>z - of_int (?n + ?t) / 100\<bar> \<le> 1 / 1000" "z \<le> 2 ^ 31"
    using x(2) y(2) r unfolding abs_le_iff by (simp_all add: add_divide_distrib)
  then have "roundTo2 ieee (Fin z) = money (?n + ?t)" using pos by (intro roundTo2_cents) simp_all
  then have "TotalWithTax ieee i = money (?n + ?t)" using x(1) y(1) z(1) by (simp add: TotalWithTax_def taxable total_tax)
  then show thesis using c b taxable total_tax by (intro that)
qed


text \<open>Below zero the rounding moves an amount up by a cent: even an amount of whole cents changes.\<close>

theorem rounding_below_zero:
  assumes "0 < n" and "n \<le> 2 ^ 37"
  shows "roundTo2 ieee (money (- n)) = money (- n + 1)"
proof -
  let ?n = "of_int n :: rat"
  have n: "1 \<le> ?n" "?n \<le> of_int (2 ^ 37)" using assms by (simp_all only: of_int_le_iff of_int_1_le_iff)
  then have "\<bar>- ?n / 100\<bar> \<le> 2 ^ 31" by simp
  then obtain v where v: "f64 (- ?n / 100) = Fin v" "\<bar>v - (- ?n / 100)\<bar> \<le> 2 ^ 31 / 2 ^ 53" by (rule f64_close [of _ 31]) simp_all
  then have "\<bar>v * 100\<bar> \<le> 2 ^ 38" using n unfolding abs_le_iff by simp
  then obtain a where a: "f64 (v * 100) = Fin a" "\<bar>a - v * 100\<bar> \<le> 2 ^ 38 / 2 ^ 53" by (rule f64_close [of _ 38]) simp_all
  then have "\<bar>a + 1 / 2\<bar> \<le> 2 ^ 38" using n v(2) unfolding abs_le_iff by simp
  then obtain w where w: "f64 (a + 1 / 2) = Fin w" "\<bar>w - (a + 1 / 2)\<bar> \<le> 2 ^ 38 / 2 ^ 53" by (rule f64_close [of _ 38]) simp_all
  have err: "\<bar>w - (1 / 2 - ?n)\<bar> \<le> 1 / 4" using v(2) a(2) w(2) unfolding abs_le_iff by simp
  then have "w < 0" using n unfolding abs_le_iff by simp
  moreover have "\<lfloor>- w\<rfloor> = n - 1" using err unfolding abs_le_iff by (intro floor_unique) simp_all
  ultimately have "f64_trunc (Fin w) = - n + 1" using assms by simp
  then show ?thesis
    using v(1) a(1) w(1) f64_int [of "- n + 1"] assms by (simp add: roundTo2_def money_def)
qed

theorem rounding_below_zero_witness: "roundTo2 ieee (money (- 2)) = money (- 1)"
  using rounding_below_zero [of 2] by simp

text \<open>Two lines whose net amounts do not add up in \<open>float64\<close>: 0.10 and 0.20.\<close>

definition sample_line :: "float64 line_item" where
  "sample_line = \<lparr>li_ID = ''1'', li_Name = ''tea'', li_Quantity = Fin 1, li_UnitCode = ''PCE'', li_UnitPrice = Fin (rnd (1 / 10)),
     li_Discount = Fin 0, li_TaxCategory = TaxStandard, li_TaxPercent = Fin 15\<rparr>"

definition no_party :: party where
  "no_party = \<lparr>pt_RegistrationName = [], pt_RegistrationNameAR = [], pt_VAT = [], pt_SchemeID = [], pt_ID = [], pt_Street = [],
     pt_Building = [], pt_District = [], pt_City = [], pt_PostalCode = [], pt_Country = []\<rparr>"

definition sample_sale :: "float64 invoice" where
  "sample_sale = \<lparr>in_ID = ''INV-1'', in_UUID = [], in_IssueDate = 0, in_IssueTime = 0, in_TypeCode = TypeInvoice,
     in_SubType = SubTypeSimplified, in_DocumentCurrency = ''SAR'', in_TaxCurrency = ''SAR'', in_Note = [], in_NoteLang = [],
     in_Supplier = no_party, in_Customer = no_party, in_DeliveryDate = None, in_PaymentMeans = PaymentCash,
     in_InstructionNote = [], in_BillingReferenceID = [], in_Discount = Fin 0, in_DiscountTax = [], in_DiscountTaxPercent = Fin 0,
     in_Lines = [sample_line, sample_line\<lparr>li_UnitPrice := Fin (rnd (1 / 5))\<rparr>], in_PreviousInvoiceHash = [],
     in_InvoiceCounterValue = 1, in_ProfileID = []\<rparr>"

lemma sample_sale_plain: "plain_sale sample_sale"
  by code_simp

lemma sample_nets:
  "line_NetAmount ieee sample_line = money 10" "line_NetAmount ieee (sample_line\<lparr>li_UnitPrice := Fin (rnd (1 / 5))\<rparr>) = money 20"
  "f64_add (money 10) (money 20) \<noteq> money 30"
  by code_simp+


end
