(* ===== verification/Ubl_Xml.thy ===== *)
theory Ubl_Xml
  imports Invoice_Model
begin

text \<open>
  The UBL 2.1 document of an invoice, \<open>invoice/xml.go\<close>, as the text that the writer builds.  The
  layouts of \<open>fmt\<close> and \<open>time\<close> are arguments, and \<open>xml.EscapeText\<close> is written out on UTF-8 bytes.
\<close>

section \<open>Text\<close>

record 'f layouts =
  ly_amount :: "'f \<Rightarrow> string" \<comment> \<open>\<open>%.2f\<close>\<close>
  ly_float :: "'f \<Rightarrow> string" \<comment> \<open>\<open>%f\<close>\<close>
  ly_date :: "time \<Rightarrow> string"
  ly_clock :: "time \<Rightarrow> string"

text \<open>\<open>encoding/xml\<close>'s \<open>isInCharacterRange\<close>.\<close>

definition isInCharacterRange :: "rune \<Rightarrow> bool" where
  "isInCharacterRange r \<longleftrightarrow>
     r = 9 \<or> r = 10 \<or> r = 13 \<or> (32 \<le> r \<and> r \<le> 55295) \<or> (57344 \<le> r \<and> r \<le> 65533) \<or> (65536 \<le> r \<and> r \<le> 1114111)"

definition escape_rune :: "rune \<Rightarrow> nat \<Rightarrow> string \<Rightarrow> string" where
  "escape_rune r n bytes =
     (if r = 34 then ''&#34;'' else if r = 39 then ''&#39;'' else if r = 38 then ''&amp;''
      else if r = 60 then ''&lt;'' else if r = 62 then ''&gt;'' else if r = 9 then ''&#x9;''
      else if r = 10 then ''&#xA;'' else if r = 13 then ''&#xD;''
      else if \<not> isInCharacterRange r \<or> (r = rune_error \<and> n = 1) then encode_rune rune_error
      else bytes)"

function xmlEscape :: "string \<Rightarrow> string" where
  "xmlEscape [] = []"
| "xmlEscape (c # cs) =
     (let (r, n) = decode_rune (c # cs) in
      escape_rune r n (take n (c # cs)) @ xmlEscape (drop n (c # cs)))"
  by pat_completeness auto
termination
proof (relation "measure length")
  fix c cs x xa y
  assume "x = decode_rune (c # cs)" and "(xa, y) = x"
  then have "y = snd (decode_rune (c # cs))" by (metis snd_conv)
  then show "(drop y (c # cs), c # cs) \<in> measure length"
    using decode_rune_width [of "c # cs"] by (simp del: decode_rune.simps)
qed simp

declare xmlEscape.simps(2) [simp del]

definition orDefault :: "string \<Rightarrow> string \<Rightarrow> string" where
  "orDefault s d = (if s = [] then d else s)"

text \<open>Indentation, a tag on a line of its own, and an element on a line.\<close>

definition sp :: "nat \<Rightarrow> string" where
  "sp n = replicate n (CHR '' '')"

definition open_with :: "nat \<Rightarrow> string \<Rightarrow> string \<Rightarrow> string" where
  "open_with n tag attrs = sp n @ ''<'' @ tag @ attrs @ ''>'' @ newline"

definition opn :: "nat \<Rightarrow> string \<Rightarrow> string" where
  "opn n tag = open_with n tag []"

definition cls :: "nat \<Rightarrow> string \<Rightarrow> string" where
  "cls n tag = sp n @ ''</'' @ tag @ ''>'' @ newline"

definition attr :: "string \<Rightarrow> string \<Rightarrow> string" where
  \<open>attr k v = '' '' @ k @ ''="'' @ v @ ''"''\<close>

definition el :: "nat \<Rightarrow> string \<Rightarrow> string \<Rightarrow> string \<Rightarrow> string" where
  "el n tag attrs body = sp n @ ''<'' @ tag @ attrs @ ''>'' @ body @ ''</'' @ tag @ ''>'' @ newline"

definition writeElementIndent :: "nat \<Rightarrow> string \<Rightarrow> string \<Rightarrow> string" where
  "writeElementIndent n tag v = el n tag [] (xmlEscape v)"

definition writeElement :: "string \<Rightarrow> string \<Rightarrow> string" where
  "writeElement tag v = writeElementIndent 4 tag v"

section \<open>Parts of the document\<close>

definition nsInvoice :: string where "nsInvoice = ''urn:oasis:names:specification:ubl:schema:xsd:Invoice-2''"
definition nsCAC :: string where "nsCAC = ''urn:oasis:names:specification:ubl:schema:xsd:CommonAggregateComponents-2''"
definition nsCBC :: string where "nsCBC = ''urn:oasis:names:specification:ubl:schema:xsd:CommonBasicComponents-2''"
definition nsEXT :: string where "nsEXT = ''urn:oasis:names:specification:ubl:schema:xsd:CommonExtensionComponents-2''"
definition nsSIG :: string where "nsSIG = ''urn:oasis:names:specification:ubl:schema:xsd:CommonSignatureComponents-2''"
definition nsSAC :: string where "nsSAC = ''urn:oasis:names:specification:ubl:schema:xsd:SignatureAggregateComponents-2''"
definition nsSBC :: string where "nsSBC = ''urn:oasis:names:specification:ubl:schema:xsd:SignatureBasicComponents-2''"

definition invoice_validate :: "'f invoice \<Rightarrow> goerr option" where
  "invoice_validate i =
     (if in_ID i = [] then Some (NewError ''invoice ID is required'')
      else if in_UUID i = [] then Some (NewError ''invoice UUID is required'')
      else if in_Lines i = [] then Some (NewError ''invoice must have at least one line item'')
      else if pt_VAT (in_Supplier i) = [] then Some (NewError ''supplier VAT number is required'')
      else if IsStandard i \<and> pt_VAT (in_Customer i) = [] then
        Some (NewError ''customer VAT number is required for standard invoices'')
      else if in_PreviousInvoiceHash i = [] then Some (NewError ''previous invoice hash (PIH) is required'')
      else None)"

definition writeUBLExtensions :: string where
  "writeUBLExtensions =
     opn 0 ''ext:UBLExtensions'' @ opn 4 ''ext:UBLExtension'' @
     el 8 ''ext:ExtensionURI'' [] ''urn:oasis:names:specification:ubl:dsig:enveloped:xades'' @
     opn 8 ''ext:ExtensionContent'' @
     open_with 12 ''sig:UBLDocumentSignatures'' (attr ''xmlns:sig'' nsSIG @ attr ''xmlns:sac'' nsSAC @ attr ''xmlns:sbc'' nsSBC) @
     opn 16 ''sac:SignatureInformation'' @
     el 20 ''cbc:ID'' [] ''urn:oasis:names:specification:ubl:signature:1'' @
     el 20 ''sbc:ReferencedSignatureID'' [] ''urn:oasis:names:specification:ubl:signature:Invoice'' @
     cls 16 ''sac:SignatureInformation'' @ cls 12 ''sig:UBLDocumentSignatures'' @ cls 8 ''ext:ExtensionContent'' @
     cls 4 ''ext:UBLExtension'' @ cls 0 ''ext:UBLExtensions''"

definition embedded :: "string \<Rightarrow> string" where
  "embedded body = el 12 ''cbc:EmbeddedDocumentBinaryObject'' (attr ''mimeCode'' ''text/plain'') body"

definition writeAdditionalDocRefs :: "'f invoice \<Rightarrow> string" where
  "writeAdditionalDocRefs i =
     opn 4 ''cac:AdditionalDocumentReference'' @ writeElementIndent 8 ''cbc:ID'' ''ICV'' @
     writeElementIndent 8 ''cbc:UUID'' (show_int (in_InvoiceCounterValue i)) @ cls 4 ''cac:AdditionalDocumentReference'' @
     opn 4 ''cac:AdditionalDocumentReference'' @ writeElementIndent 8 ''cbc:ID'' ''PIH'' @ opn 8 ''cac:Attachment'' @
     embedded (in_PreviousInvoiceHash i) @ cls 8 ''cac:Attachment'' @ cls 4 ''cac:AdditionalDocumentReference'' @
     opn 4 ''cac:AdditionalDocumentReference'' @ writeElementIndent 8 ''cbc:ID'' ''QR'' @ opn 8 ''cac:Attachment'' @
     embedded [] @ cls 8 ''cac:Attachment'' @ cls 4 ''cac:AdditionalDocumentReference''"

definition writeAddress :: "nat \<Rightarrow> party \<Rightarrow> string" where
  "writeAddress n p =
     opn n ''cac:PostalAddress'' @ writeElementIndent (n + 4) ''cbc:StreetName'' (pt_Street p) @
     (if pt_Building p \<noteq> [] then writeElementIndent (n + 4) ''cbc:BuildingNumber'' (pt_Building p) else []) @
     (if pt_District p \<noteq> [] then writeElementIndent (n + 4) ''cbc:CitySubdivisionName'' (pt_District p) else []) @
     writeElementIndent (n + 4) ''cbc:CityName'' (pt_City p) @
     writeElementIndent (n + 4) ''cbc:PostalZone'' (pt_PostalCode p) @
     opn (n + 4) ''cac:Country'' @ writeElementIndent (n + 8) ''cbc:IdentificationCode'' (orDefault (pt_Country p) ''SA'') @
     cls (n + 4) ''cac:Country'' @ cls n ''cac:PostalAddress''"

definition registration_name :: "party \<Rightarrow> string" where
  "registration_name p =
     (if pt_RegistrationNameAR p \<noteq> [] then pt_RegistrationNameAR p @ '' | '' @ pt_RegistrationName p
      else pt_RegistrationName p)"

definition party_tax_scheme :: "party \<Rightarrow> string" where
  "party_tax_scheme p =
     opn 12 ''cac:PartyTaxScheme'' @ writeElementIndent 16 ''cbc:CompanyID'' (pt_VAT p) @
     opn 16 ''cac:TaxScheme'' @ writeElementIndent 20 ''cbc:ID'' ''VAT'' @ cls 16 ''cac:TaxScheme'' @
     cls 12 ''cac:PartyTaxScheme''"

definition party_legal_entity :: "party \<Rightarrow> string" where
  "party_legal_entity p =
     opn 12 ''cac:PartyLegalEntity'' @ writeElementIndent 16 ''cbc:RegistrationName'' (registration_name p) @
     cls 12 ''cac:PartyLegalEntity''"

definition writeSupplier :: "'f invoice \<Rightarrow> string" where
  "writeSupplier i =
     (let p = in_Supplier i in
      opn 4 ''cac:AccountingSupplierParty'' @ opn 8 ''cac:Party'' @
      (if pt_ID p \<noteq> [] then
         opn 12 ''cac:PartyIdentification'' @
         el 16 ''cbc:ID'' (attr ''schemeID'' (xmlEscape (orDefault (pt_SchemeID p) ''CRN''))) (xmlEscape (pt_ID p)) @
         cls 12 ''cac:PartyIdentification''
       else []) @
      writeAddress 12 p @ party_tax_scheme p @ party_legal_entity p @
      cls 8 ''cac:Party'' @ cls 4 ''cac:AccountingSupplierParty'')"

definition writeCustomer :: "'f invoice \<Rightarrow> string" where
  "writeCustomer i =
     (let p = in_Customer i in
      opn 4 ''cac:AccountingCustomerParty'' @ opn 8 ''cac:Party'' @ writeAddress 12 p @
      (if pt_VAT p \<noteq> [] then party_tax_scheme p else []) @
      (if pt_RegistrationName p \<noteq> [] then party_legal_entity p else []) @
      cls 8 ''cac:Party'' @ cls 4 ''cac:AccountingCustomerParty'')"

definition currency :: "'f invoice \<Rightarrow> string" where
  "currency i = orDefault (in_DocumentCurrency i) ''SAR''"

definition amount_el :: "nat \<Rightarrow> string \<Rightarrow> string \<Rightarrow> string \<Rightarrow> string" where
  "amount_el n tag cur v = el n tag (attr ''currencyID'' cur) v"

definition un_scheme :: "string \<Rightarrow> string" where
  "un_scheme k = attr ''schemeID'' (''UN/ECE '' @ k) @ attr ''schemeAgencyID'' ''6''"

definition tax_category :: "nat \<Rightarrow> string \<Rightarrow> string \<Rightarrow> string" where
  "tax_category n cat percent =
     opn n ''cac:TaxCategory'' @ el (n + 4) ''cbc:ID'' (un_scheme ''5305'') cat @ el (n + 4) ''cbc:Percent'' [] percent @
     opn (n + 4) ''cac:TaxScheme'' @ el (n + 8) ''cbc:ID'' (un_scheme ''5153'') ''VAT'' @ cls (n + 4) ''cac:TaxScheme'' @
     cls n ''cac:TaxCategory''"

definition allowance_category :: "'f invoice \<Rightarrow> string" where
  "allowance_category i = (if in_DiscountTax i = [] then TaxStandard else in_DiscountTax i)"

text \<open>\<open>taxPct == 0\<close> is read as neither below nor above zero.\<close>

definition allowance_percent :: "'f flops \<Rightarrow> 'f invoice \<Rightarrow> 'f" where
  "allowance_percent F i =
     (let p = in_DiscountTaxPercent i; zero = fl_int F 0 in
      if fl_le F p zero \<and> fl_le F zero p \<and> allowance_category i = TaxStandard then fl_int F 15 else p)"

definition writeAllowanceCharge :: "'f flops \<Rightarrow> 'f layouts \<Rightarrow> 'f invoice \<Rightarrow> string" where
  "writeAllowanceCharge F L i =
     opn 4 ''cac:AllowanceCharge'' @ writeElementIndent 8 ''cbc:ChargeIndicator'' ''false'' @
     writeElementIndent 8 ''cbc:AllowanceChargeReason'' ''discount'' @
     amount_el 8 ''cbc:Amount'' (currency i) (ly_amount L (in_Discount i)) @
     tax_category 8 (allowance_category i) (ly_amount L (allowance_percent F i)) @ cls 4 ''cac:AllowanceCharge''"

section \<open>Tax groups\<close>

record 'f taxGroup =
  tg_category :: string
  tg_percent :: 'f
  tg_taxable :: 'f
  tg_tax :: 'f

definition group_key :: "'f layouts \<Rightarrow> 'f line_item \<Rightarrow> string" where
  "group_key L l = li_TaxCategory l @ ''-'' @ ly_amount L (li_TaxPercent l)"

definition add_line :: "'f flops \<Rightarrow> 'f line_item \<Rightarrow> 'f taxGroup \<Rightarrow> 'f taxGroup" where
  "add_line F l g = g\<lparr>tg_taxable := fl_add F (tg_taxable g) (line_NetAmount F l), tg_tax := fl_add F (tg_tax g) (line_TaxAmount F l)\<rparr>"

text \<open>The map together with the order of its keys: an association list.\<close>

definition group_line :: "'f flops \<Rightarrow> 'f layouts \<Rightarrow> (string \<times> 'f taxGroup) list \<Rightarrow> 'f line_item \<Rightarrow> (string \<times> 'f taxGroup) list" where
  "group_line F L gs l =
     (let key = group_key L l;
          gs1 = (case map_of gs key of
              None \<Rightarrow> gs @ [(key, \<lparr>tg_category = li_TaxCategory l, tg_percent = li_TaxPercent l, tg_taxable = fl_int F 0, tg_tax = fl_int F 0\<rparr>)]
            | Some _ \<Rightarrow> gs)
      in map (\<lambda>(k, g). (k, if k = key then add_line F l g else g)) gs1)"

definition round_group :: "'f flops \<Rightarrow> 'f taxGroup \<Rightarrow> 'f taxGroup" where
  "round_group F g = g\<lparr>tg_taxable := roundTo2 F (tg_taxable g), tg_tax := roundTo2 F (tg_tax g)\<rparr>"

definition taxGroups :: "'f flops \<Rightarrow> 'f layouts \<Rightarrow> 'f invoice \<Rightarrow> 'f taxGroup list" where
  "taxGroups F L i = map (round_group F \<circ> snd) (foldl (group_line F L) [] (in_Lines i))"

definition tax_subtotal :: "'f layouts \<Rightarrow> string \<Rightarrow> 'f taxGroup \<Rightarrow> string" where
  "tax_subtotal L cur g =
     opn 8 ''cac:TaxSubtotal'' @ amount_el 12 ''cbc:TaxableAmount'' cur (ly_amount L (tg_taxable g)) @
     amount_el 12 ''cbc:TaxAmount'' cur (ly_amount L (tg_tax g)) @
     tax_category 12 (tg_category g) (ly_amount L (tg_percent g)) @ cls 8 ''cac:TaxSubtotal''"

definition writeTaxTotals :: "'f flops \<Rightarrow> 'f layouts \<Rightarrow> 'f invoice \<Rightarrow> string" where
  "writeTaxTotals F L i =
     (let total = amount_el 8 ''cbc:TaxAmount'' (currency i) (ly_amount L (TotalTax F i)) in
      opn 4 ''cac:TaxTotal'' @ total @ cls 4 ''cac:TaxTotal'' @
      opn 4 ''cac:TaxTotal'' @ total @ concat (map (tax_subtotal L (currency i)) (taxGroups F L i)) @ cls 4 ''cac:TaxTotal'')"

section \<open>Totals, lines and the whole document\<close>

definition line_extension :: "'f flops \<Rightarrow> 'f invoice \<Rightarrow> 'f" where
  "line_extension F i = roundTo2 F (foldl (\<lambda>s l. fl_add F s (line_NetAmount F l)) (fl_int F 0) (in_Lines i))"

definition tax_exclusive :: "'f flops \<Rightarrow> 'f invoice \<Rightarrow> 'f" where
  "tax_exclusive F i = roundTo2 F (fl_sub F (line_extension F i) (in_Discount i))"

definition tax_inclusive :: "'f flops \<Rightarrow> 'f invoice \<Rightarrow> 'f" where
  "tax_inclusive F i = roundTo2 F (fl_add F (tax_exclusive F i) (TotalTax F i))"

definition writeLegalMonetaryTotal :: "'f flops \<Rightarrow> 'f layouts \<Rightarrow> 'f invoice \<Rightarrow> string" where
  "writeLegalMonetaryTotal F L i =
     (let amount = (\<lambda>tag v. amount_el 8 tag (currency i) v) in
      opn 4 ''cac:LegalMonetaryTotal'' @ amount ''cbc:LineExtensionAmount'' (ly_amount L (line_extension F i)) @
      amount ''cbc:TaxExclusiveAmount'' (ly_amount L (tax_exclusive F i)) @
      amount ''cbc:TaxInclusiveAmount'' (ly_amount L (tax_inclusive F i)) @
      amount ''cbc:AllowanceTotalAmount'' (ly_amount L (in_Discount i)) @ amount ''cbc:PrepaidAmount'' ''0.00'' @
      amount ''cbc:PayableAmount'' (ly_amount L (tax_inclusive F i)) @ cls 4 ''cac:LegalMonetaryTotal'')"

definition writeLine :: "'f flops \<Rightarrow> 'f layouts \<Rightarrow> 'f invoice \<Rightarrow> 'f line_item \<Rightarrow> nat \<Rightarrow> string" where
  "writeLine F L i l seq =
     (let cur = currency i in
      opn 4 ''cac:InvoiceLine'' @ writeElementIndent 8 ''cbc:ID'' (if li_ID l = [] then show_nat seq else li_ID l) @
      el 8 ''cbc:InvoicedQuantity'' (attr ''unitCode'' (orDefault (li_UnitCode l) ''PCE'')) (ly_float L (li_Quantity l)) @
      amount_el 8 ''cbc:LineExtensionAmount'' cur (ly_amount L (line_NetAmount F l)) @
      opn 8 ''cac:TaxTotal'' @ amount_el 12 ''cbc:TaxAmount'' cur (ly_amount L (line_TaxAmount F l)) @
      amount_el 12 ''cbc:RoundingAmount'' cur (ly_amount L (line_TotalWithTax F l)) @ cls 8 ''cac:TaxTotal'' @
      opn 8 ''cac:Item'' @ writeElementIndent 12 ''cbc:Name'' (li_Name l) @ opn 12 ''cac:ClassifiedTaxCategory'' @
      writeElementIndent 16 ''cbc:ID'' (li_TaxCategory l) @ el 16 ''cbc:Percent'' [] (ly_amount L (li_TaxPercent l)) @
      opn 16 ''cac:TaxScheme'' @ writeElementIndent 20 ''cbc:ID'' ''VAT'' @ cls 16 ''cac:TaxScheme'' @
      cls 12 ''cac:ClassifiedTaxCategory'' @ cls 8 ''cac:Item'' @
      opn 8 ''cac:Price'' @ amount_el 12 ''cbc:PriceAmount'' cur (ly_amount L (li_UnitPrice l)) @
      (if fl_lt F (fl_int F 0) (li_Discount l) then
         opn 12 ''cac:AllowanceCharge'' @ writeElementIndent 16 ''cbc:ChargeIndicator'' ''false'' @
         writeElementIndent 16 ''cbc:AllowanceChargeReason'' ''discount'' @
         amount_el 16 ''cbc:Amount'' cur (ly_amount L (li_Discount l)) @ cls 12 ''cac:AllowanceCharge''
       else []) @
      cls 8 ''cac:Price'' @ cls 4 ''cac:InvoiceLine'')"

definition write_lines :: "'f flops \<Rightarrow> 'f layouts \<Rightarrow> 'f invoice \<Rightarrow> string" where
  "write_lines F L i = concat (map (\<lambda>(l, seq). writeLine F L i l seq) (zip (in_Lines i) [1..<length (in_Lines i) + 1]))"

definition xml_head :: string where
  \<open>xml_head = ''<?xml version="1.0" encoding="UTF-8"?>'' @ newline @
     ''<Invoice'' @ attr ''xmlns'' nsInvoice @ attr ''xmlns:cac'' nsCAC @ attr ''xmlns:cbc'' nsCBC @ attr ''xmlns:ext'' nsEXT @ ''>''\<close>

definition document_header :: "'f layouts \<Rightarrow> 'f invoice \<Rightarrow> string" where
  "document_header L i =
     writeElement ''cbc:ProfileID'' (profileID i) @ writeElement ''cbc:ID'' (in_ID i) @ writeElement ''cbc:UUID'' (in_UUID i) @
     writeElement ''cbc:IssueDate'' (dateStr (ly_date L) i) @ writeElement ''cbc:IssueTime'' (timeStr (ly_clock L) i) @
     el 4 ''cbc:InvoiceTypeCode'' (attr ''name'' (in_SubType i)) (show_int (in_TypeCode i)) @
     (if in_Note i \<noteq> [] then
        el 4 ''cbc:Note'' (attr ''languageID'' (xmlEscape (orDefault (in_NoteLang i) ''ar''))) (xmlEscape (in_Note i))
      else []) @
     writeElement ''cbc:DocumentCurrencyCode'' (orDefault (in_DocumentCurrency i) ''SAR'') @
     writeElement ''cbc:TaxCurrencyCode'' (orDefault (in_TaxCurrency i) ''SAR'') @
     (if in_BillingReferenceID i \<noteq> [] then
        opn 4 ''cac:BillingReference'' @ opn 8 ''cac:InvoiceDocumentReference'' @
        writeElementIndent 12 ''cbc:ID'' (in_BillingReferenceID i) @
        cls 8 ''cac:InvoiceDocumentReference'' @ cls 4 ''cac:BillingReference''
      else [])"

definition signature_reference :: string where
  "signature_reference =
     opn 4 ''cac:Signature'' @
     writeElementIndent 6 ''cbc:ID'' ''urn:oasis:names:specification:ubl:signature:Invoice'' @
     writeElementIndent 6 ''cbc:SignatureMethod'' ''urn:oasis:names:specification:ubl:dsig:enveloped:xades'' @
     cls 4 ''cac:Signature''"

definition delivery_and_payment :: "'f layouts \<Rightarrow> 'f invoice \<Rightarrow> string" where
  "delivery_and_payment L i =
     (if IsStandard i \<or> in_DeliveryDate i \<noteq> None then
        opn 4 ''cac:Delivery'' @ writeElementIndent 8 ''cbc:ActualDeliveryDate'' (deliveryDateStr (ly_date L) i) @
        cls 4 ''cac:Delivery''
      else []) @
     opn 4 ''cac:PaymentMeans'' @ writeElementIndent 8 ''cbc:PaymentMeansCode'' (orDefault (in_PaymentMeans i) PaymentCash) @
     (if in_InstructionNote i \<noteq> [] then writeElementIndent 8 ''cbc:InstructionNote'' (in_InstructionNote i) else []) @
     cls 4 ''cac:PaymentMeans''"

definition ToXML :: "'f flops \<Rightarrow> 'f layouts \<Rightarrow> 'f invoice \<Rightarrow> goerr + string" where
  "ToXML F L i =
     (case invoice_validate i of
        Some e \<Rightarrow> Inl e
      | None \<Rightarrow>
          Inr (xml_head @ writeUBLExtensions @ document_header L i @ writeAdditionalDocRefs i @ signature_reference @
            writeSupplier i @ writeCustomer i @ delivery_and_payment L i @
            (if fl_lt F (fl_int F 0) (in_Discount i) then writeAllowanceCharge F L i else []) @
            writeTaxTotals F L i @ writeLegalMonetaryTotal F L i @ write_lines F L i @ ''</Invoice>''))"

section \<open>Escaping\<close>

text \<open>Characters that may stand in the text of the document and in an attribute value as they are.\<close>

definition xml_plain :: "char \<Rightarrow> bool" where
  "xml_plain c \<longleftrightarrow> c \<notin> set [CHR ''<'', CHR ''>'', CHR 0x22, CHR 0x0A]"

abbreviation plain :: "string \<Rightarrow> bool" where
  "plain \<equiv> list_all xml_plain"

lemma wide_bytes_plain: "128 \<le> byte_of c \<Longrightarrow> xml_plain c \<and> c \<noteq> CHR ''&''"
  by (auto simp: xml_plain_def)

lemma rune_bytes:
  assumes "b \<in> set (take (snd (decode_rune (c # cs))) (c # cs))"
  shows "128 \<le> byte_of b \<or> (snd (decode_rune (c # cs)) = 1 \<and> b = c \<and> fst (decode_rune (c # cs)) = byte_of b)"
proof (cases "byte_of b < 128")
  case True
  have r: "fst (decode_rune (c # cs)) = byte_of b"
    using decode_rune_narrow_ascii [OF assms] True by simp
  have "snd (decode_rune (c # cs)) = 1"
    using decode_rune_wide_bytes [OF _ assms] True decode_rune_pos [of c cs] by fastforce
  with assms r show ?thesis by simp
qed simp

lemma decode_rune_small:
  assumes "decode_rune (c # cs) = (r, n)" and "r < 128"
  shows "r = byte_of c \<and> n = 1"
proof (cases "byte_of c < 128")
  case False
  then have "128 \<le> r"
    using assms(1)
    by (auto simp: Let_def rune_error_def second_lo_def split: if_splits list.splits)
  with assms(2) show ?thesis by simp
qed (use assms(1) in simp)

lemma replacement_plain: "plain (encode_rune rune_error)"
  using wide_bytes_plain [of "char_of (239 :: nat)"] wide_bytes_plain [of "char_of (191 :: nat)"]
    wide_bytes_plain [of "char_of (189 :: nat)"]
  by (simp add: encode_rune_def rune_error_def Let_def of_char_of)

lemma escape_rune_plain:
  assumes "decode_rune (c # cs) = (r, n)"
  shows "plain (escape_rune r n (take n (c # cs)))"
proof -
  have "plain (take n (c # cs))" if "r \<notin> {34, 60, 62, 10}"
  proof -
    have "xml_plain b" if "b \<in> set (take n (c # cs))" for b
      using rune_bytes [of b c cs] wide_bytes_plain [of b] assms that \<open>r \<notin> {34, 60, 62, 10}\<close>
      by (auto simp: xml_plain_def)
    then show ?thesis by (simp add: list_all_iff)
  qed
  then show ?thesis
    by (auto simp: escape_rune_def replacement_plain) (simp_all add: xml_plain_def)
qed

lemma xmlEscape_plain [simp]: "plain (xmlEscape s)"
proof (induction s rule: xmlEscape.induct)
  case (2 c cs)
  then show ?case
    by (cases "decode_rune (c # cs)") (simp add: xmlEscape.simps(2) escape_rune_plain del: decode_rune.simps)
qed simp

text \<open>A reader of character data that knows the references the writer uses.\<close>

definition xml_refs :: "(string \<times> char) list" where
  "xml_refs = [(''#34;'', CHR 0x22), (''#39;'', CHR 0x27), (''amp;'', CHR ''&''), (''lt;'', CHR ''<''), (''gt;'', CHR ''>''),
     (''#x9;'', CHR 0x09), (''#xA;'', CHR 0x0A), (''#xD;'', CHR 0x0D)]"

fun xml_unescape :: "string \<Rightarrow> string" where
  "xml_unescape [] = []"
| "xml_unescape (c # cs) =
     (if c \<noteq> CHR ''&'' then c # xml_unescape cs
      else case find (\<lambda>(ref, d). has_prefix cs ref) xml_refs of
             None \<Rightarrow> c # xml_unescape cs
           | Some (ref, d) \<Rightarrow> d # xml_unescape (drop (length ref) cs))"

declare xml_unescape.simps(2) [simp del]

lemma xml_unescape_refs:
  "xml_unescape (''&#34;'' @ s) = CHR 0x22 # xml_unescape s" "xml_unescape (''&#39;'' @ s) = CHR 0x27 # xml_unescape s"
  "xml_unescape (''&amp;'' @ s) = CHR ''&'' # xml_unescape s" "xml_unescape (''&lt;'' @ s) = CHR ''<'' # xml_unescape s"
  "xml_unescape (''&gt;'' @ s) = CHR ''>'' # xml_unescape s" "xml_unescape (''&#x9;'' @ s) = CHR 0x09 # xml_unescape s"
  "xml_unescape (''&#xA;'' @ s) = CHR 0x0A # xml_unescape s" "xml_unescape (''&#xD;'' @ s) = CHR 0x0D # xml_unescape s"
  by (simp_all add: xml_unescape.simps(2) xml_refs_def has_prefix_def)

text \<open>Valid UTF-8 whose characters XML allows.\<close>

function xml_text :: "string \<Rightarrow> bool" where
  "xml_text [] = True"
| "xml_text (c # cs) =
     (let (r, n) = decode_rune (c # cs) in
      isInCharacterRange r \<and> \<not> (r = rune_error \<and> n = 1) \<and> xml_text (drop n (c # cs)))"
  by pat_completeness auto
termination
proof (relation "measure length")
  fix c cs x xa y
  assume "x = decode_rune (c # cs)" and "(xa, y) = x"
  then have "y = snd (decode_rune (c # cs))" by (metis snd_conv)
  then show "(drop y (c # cs), c # cs) \<in> measure length"
    using decode_rune_width [of "c # cs"] by (simp del: decode_rune.simps)
qed simp

declare xml_text.simps(2) [simp del]

lemma ref_chars:
  "char_of (34 :: nat) = CHR 0x22" "char_of (39 :: nat) = CHR 0x27" "char_of (38 :: nat) = CHR ''&''"
  "char_of (60 :: nat) = CHR ''<''" "char_of (62 :: nat) = CHR ''>''" "char_of (9 :: nat) = CHR 0x09"
  "char_of (10 :: nat) = CHR 0x0A" "char_of (13 :: nat) = CHR 0x0D"
  by code_simp+

lemma xml_unescape_copy: "list_all (\<lambda>c. c \<noteq> CHR ''&'') a \<Longrightarrow> xml_unescape (a @ b) = a @ xml_unescape b"
  by (induction a) (auto simp: xml_unescape.simps(2))

lemma unescape_escape_rune:
  assumes "decode_rune (c # cs) = (r, n)" and "isInCharacterRange r" and "\<not> (r = rune_error \<and> n = 1)"
  shows "xml_unescape (escape_rune r n (take n (c # cs)) @ rest) = take n (c # cs) @ xml_unescape rest"
proof (cases "r \<in> {34, 39, 38, 60, 62, 9, 10, 13}")
  case True
  then have "r < 128" by auto
  then have c: "r = byte_of c" and n: "n = 1"
    using decode_rune_small [OF assms(1)] by simp_all
  have "xml_unescape (escape_rune r 1 [char_of r] @ rest) = char_of r # xml_unescape rest"
    using True xml_unescape_refs [of rest] by (auto simp: escape_rune_def ref_chars)
  with c n show ?thesis by simp
next
  case False
  then have "escape_rune r n (take n (c # cs)) = take n (c # cs)"
    using assms(2,3) by (auto simp: escape_rune_def)
  moreover have "b \<noteq> CHR ''&''" if "b \<in> set (take n (c # cs))" for b
    using rune_bytes [of b c cs] wide_bytes_plain [of b] assms(1) False that by auto
  then have "list_all (\<lambda>b. b \<noteq> CHR ''&'') (take n (c # cs))"
    by (simp add: list_all_iff)
  ultimately show ?thesis by (simp add: xml_unescape_copy)
qed

lemma xml_unescape_escape: "xml_text s \<Longrightarrow> xml_unescape (xmlEscape s) = s"
proof (induction s rule: xml_text.induct)
  case (2 c cs)
  obtain r n where d: "decode_rune (c # cs) = (r, n)" by fastforce
  with 2 have ok: "isInCharacterRange r" "\<not> (r = rune_error \<and> n = 1)" "xml_text (drop n (c # cs))"
    by (auto simp: xml_text.simps(2) simp del: decode_rune.simps)
  have "xml_unescape (xmlEscape (c # cs)) = take n (c # cs) @ xml_unescape (xmlEscape (drop n (c # cs)))"
    by (simp add: xmlEscape.simps(2) d unescape_escape_rune [OF d ok(1,2)] del: decode_rune.simps)
  also have "\<dots> = c # cs" using "2.IH" [OF d [symmetric]] ok by simp
  finally show ?case .
qed simp

end
