(* ===== verification/Sdk_Tool.thy ===== *)
theory Sdk_Tool
  imports Tenant_Registry
begin

text \<open>
  The wrapper of the ZATCA command line tool, \<open>sdk/sdk.go\<close>: the scripts it hands to bash and how it
  reads the answers.  Running a script is an argument, \<open>localExec\<close>: the standard output and error of
  the process and the error of \<open>cmd.Run\<close>.  A slice out of range, where Go panics, is the value \<open>None\<close>.
\<close>

section \<open>Credentials\<close>

record SDK =
  sdk_env :: string
  sdk_privateKey :: string
  sdk_certPEM :: string

definition sdk_New :: "config \<Rightarrow> SDK" where
  "sdk_New cfg = \<lparr>sdk_env = cf_Env cfg, sdk_privateKey = [], sdk_certPEM = []\<rparr>"

definition SetCredentials :: "string \<Rightarrow> string \<Rightarrow> SDK \<Rightarrow> SDK" where
  "SetCredentials privateKeyPEM certPEM s = s\<lparr>sdk_privateKey := privateKeyPEM, sdk_certPEM := certPEM\<rparr>"

definition pem_marker :: "string \<Rightarrow> bool" where
  "pem_marker t \<longleftrightarrow> has_prefix t ''-----BEGIN '' \<or> has_prefix t ''-----END ''"

text \<open>Blank, tab, carriage return and line feed.\<close>

definition blank_rune :: "rune \<Rightarrow> bool" where
  "blank_rune r \<longleftrightarrow> r = 32 \<or> r = 9 \<or> r = 13 \<or> r = 10"

definition blank :: "char \<Rightarrow> bool" where
  "blank c \<longleftrightarrow> blank_rune (byte_of c)"

definition stripPEMArmor :: "string \<Rightarrow> string" where
  "stripPEMArmor s =
     (if s = [] then s
      else
        let out = concat (filter (\<lambda>t. t \<noteq> [] \<and> \<not> pem_marker t) (map trim_space (split_on (CHR 0x0A) s))) in
        if \<not> list_ex blank out then out
        else concat (map encode_rune (filter (\<lambda>r. \<not> blank_rune r) (runes out))))"

section \<open>Scripts\<close>

definition apos :: string where
  "apos = [CHR 0x27]"

definition quoted :: "string \<Rightarrow> string" where
  "quoted s = apos @ s @ apos"

definition sdk_dir :: string where
  "sdk_dir = ''/SDK/zatca-einvoicing-sdk-238-R4.0.0/''"

definition lines_text :: "string list \<Rightarrow> string" where
  "lines_text ls = concat (map (\<lambda>l. l @ newline) ls)"

definition write_file :: "string \<Rightarrow> string \<Rightarrow> string" where
  "write_file body file =
     ''printf '' @ quoted ''%s'' @ '' '' @ quoted body @ '' > '' @ sdk_dir @ ''Data/Certificates/'' @ file @ newline"

definition credentialScript :: "SDK \<Rightarrow> string" where
  "credentialScript s =
     (if sdk_privateKey s = [] \<and> sdk_certPEM s = [] then []
      else (if sdk_privateKey s \<noteq> [] then write_file (stripPEMArmor (sdk_privateKey s)) ''ec-secp256k1-priv-key.pem'' else []) @
        (if sdk_certPEM s \<noteq> [] then write_file (stripPEMArmor (sdk_certPEM s)) ''cert.pem'' else []))"

definition envFlag :: "SDK \<Rightarrow> string" where
  "envFlag s =
     (if sdk_env s = Sandbox then ''-nonprod'' else if sdk_env s = Simulation then ''-sim''
      else if sdk_env s = Production then [] else ''-nonprod'')"

text \<open>\<open>strings.ReplaceAll\<close> of an apostrophe: close the quotes, an escaped one, open them again.\<close>

definition escape_apos :: "string \<Rightarrow> string" where
  "escape_apos s = concat (map (\<lambda>c. if c = CHR 0x27 then apos @ [CHR 0x5C] @ apos @ apos else [c]) s)"

definition csr_props :: "csr_config \<Rightarrow> string" where
  "csr_props c =
     ''csr.common.name='' @ csr_CommonName c @ newline @ ''csr.serial.number='' @ csr_SerialNumber c @ newline @
     ''csr.organization.identifier='' @ csr_OrgIdentifier c @ newline @
     ''csr.organization.unit.name='' @ csr_OrgUnit c @ newline @ ''csr.organization.name='' @ csr_OrgName c @ newline @
     ''csr.country.name='' @ csr_Country c @ newline @ ''csr.invoice.type='' @ csr_InvoiceType c @ newline @
     ''csr.location.address='' @ csr_Location c @ newline @ ''csr.industry.business.category='' @ csr_BusinessCategory c"

definition csr_script :: "string \<Rightarrow> string \<Rightarrow> string" where
  \<open>csr_script props flag =
     newline @ ''echo '' @ quoted (escape_apos props) @ lines_text
      ['' > /tmp/csr.properties'',
       ''cd '' @ sdk_dir @ ''Apps'',
       ''fatoora -csr -csrConfig /tmp/csr.properties -pem '' @ flag @ '' 1>&2'',
       ''CSR_FILE=$(ls -t generated-csr-*.csr 2>/dev/null | head -1)'',
       ''KEY_FILE=$(ls -t generated-private-key-*.key 2>/dev/null | head -1)'',
       ''if [ -z "$CSR_FILE" ] || [ -z "$KEY_FILE" ]; then'',
       ''  echo "ERROR: CSR generation failed" >&2'',
       ''  exit 1'',
       ''fi'',
       ''echo "===CSR==="'',
       ''cat "$CSR_FILE"'',
       ''echo "===KEY==="'',
       ''cat "$KEY_FILE"'']\<close>

definition csr_mark :: string where "csr_mark = ''===CSR===''"
definition key_mark :: string where "key_mark = ''===KEY===''"
definition signed_mark :: string where "signed_mark = ''===SIGNED===''"

section \<open>Commands\<close>

type_synonym local_exec = "string \<Rightarrow> (string \<times> string) \<times> goerr option"

definition parseCSROutput :: "string \<Rightarrow> (goerr + string \<times> string) option" where
  "parseCSROutput output =
     (case (str_index output csr_mark, str_index output key_mark) of
        (Some csrIdx, Some keyIdx) \<Rightarrow>
          (if keyIdx < csrIdx + length csr_mark then None
           else Some (Inr (trim_space (drop (csrIdx + length csr_mark) (take keyIdx output)),
             trim_space (drop (keyIdx + length key_mark) output))))
      | _ \<Rightarrow> Some (Inl (NewError ''missing CSR or KEY markers in output'')))"

definition GenerateCSR :: "local_exec \<Rightarrow> SDK \<Rightarrow> csr_config \<Rightarrow> (goerr + string \<times> string) option" where
  "GenerateCSR localExec s csrCfg =
     (case localExec (csr_script (csr_props csrCfg) (envFlag s)) of
        ((stdout, stderr), Some e) \<Rightarrow> Some (Inl (Wrapf ''GenerateCSR: '' e (newline @ ''stderr: '' @ stderr)))
      | ((stdout, stderr), None) \<Rightarrow>
        (case parseCSROutput stdout of
           None \<Rightarrow> None
         | Some (Inl e) \<Rightarrow> Some (Inl (Wrapf ''GenerateCSR: parsing output: '' e (newline @ ''raw output: '' @ stdout)))
         | Some (Inr r) \<Rightarrow> Some (Inr r)))"

definition validate_script :: "SDK \<Rightarrow> string \<Rightarrow> string" where
  "validate_script s xmlContent =
     lines_text [[], ''cat > /tmp/invoice.xml << '' @ quoted ''XMLEOF'', xmlContent, ''XMLEOF'',
       ''fatoora -validate -invoice /tmp/invoice.xml '' @ envFlag s]"

definition ValidateInvoice :: "local_exec \<Rightarrow> SDK \<Rightarrow> string \<Rightarrow> string \<times> goerr option" where
  "ValidateInvoice localExec s xmlContent =
     (case localExec (validate_script s xmlContent) of
        ((stdout, stderr), err) \<Rightarrow>
          (let combined = stdout @ newline @ stderr in
           case err of
             None \<Rightarrow> (combined, None)
           | Some e \<Rightarrow>
               (if str_contains combined ''GLOBAL VALIDATION RESULT'' then (combined, None)
                else (combined, Some (Wrapf ''ValidateInvoice: '' e [])))))"

text \<open>The value after the equals sign of a line that reports the hash.\<close>

definition hash_line :: "string \<Rightarrow> string option" where
  "hash_line line =
     (if str_contains line ''INVOICE HASH ='' then
        (case split2 line (CHR ''='') of [_, v] \<Rightarrow> Some (trim_space v) | _ \<Rightarrow> None)
      else None)"

definition hash_script :: "SDK \<Rightarrow> string \<Rightarrow> string" where
  "hash_script s xmlContent =
     lines_text [[], ''cat > /tmp/invoice.xml << '' @ quoted ''XMLEOF'', xmlContent, ''XMLEOF'',
       ''fatoora -generateHash -invoice /tmp/invoice.xml '' @ envFlag s]"

definition GenerateHash :: "local_exec \<Rightarrow> SDK \<Rightarrow> string \<Rightarrow> goerr + string" where
  "GenerateHash localExec s xmlContent =
     (case localExec (hash_script s xmlContent) of
        ((stdout, stderr), err) \<Rightarrow>
          (let combined = stdout @ newline @ stderr in
           case err of
             Some e \<Rightarrow> Inl (Wrapf ''GenerateHash: '' e (newline @ ''output: '' @ combined))
           | None \<Rightarrow>
             (case find (\<lambda>l. hash_line l \<noteq> None) (split_on (CHR 0x0A) combined) of
                Some l \<Rightarrow> Inr (the (hash_line l))
              | None \<Rightarrow> Inl (NewError (''GenerateHash: could not find hash in output: '' @ combined)))))"

definition sign_script :: "SDK \<Rightarrow> string \<Rightarrow> string" where
  \<open>sign_script s xmlContent =
     credentialScript s @ lines_text
       [[], ''cat > /tmp/invoice.xml << '' @ quoted ''XMLEOF'', xmlContent, ''XMLEOF'',
        ''fatoora -sign -invoice /tmp/invoice.xml -signedInvoice /tmp/signed.xml '' @ envFlag s,
        ''echo "===SIGNED==="'', ''cat /tmp/signed.xml'']\<close>

text \<open>The last line that reports a hash wins.\<close>

definition last_hash :: "string list \<Rightarrow> string" where
  "last_hash ls = fold (\<lambda>l h. case hash_line l of None \<Rightarrow> h | Some v \<Rightarrow> v) ls []"

definition sdk_SignInvoice :: "local_exec \<Rightarrow> SDK \<Rightarrow> string \<Rightarrow> goerr + string \<times> string" where
  "sdk_SignInvoice localExec s xmlContent =
     (case localExec (sign_script s xmlContent) of
        ((stdout, stderr), Some e) \<Rightarrow>
          Inl (Wrapf ''SignInvoice: '' e (newline @ ''stdout: '' @ stdout @ newline @ ''stderr: '' @ stderr))
      | ((stdout, stderr), None) \<Rightarrow>
          (let hash = last_hash (split_on (CHR 0x0A) (stdout @ newline @ stderr));
               signedXML = (case str_index stdout signed_mark of
                   None \<Rightarrow> [] | Some idx \<Rightarrow> trim_space (drop (idx + length signed_mark) stdout)) in
           if signedXML = [] then Inl (NewError ''SignInvoice: no signed XML in output'')
           else Inr (signedXML, hash)))"

text \<open>
  The expression \<open>qrEmbeddedRe\<close>: the reference with the id QR, then, as early as possible, an
  embedded object with a text that is not empty.  Every repetition in it stops at a character it cannot
  match itself, so the matcher needs no other way back than a later start.
\<close>

definition re_space :: "char \<Rightarrow> bool" where
  "re_space c \<longleftrightarrow> c \<in> {CHR 0x09, CHR 0x0A, CHR 0x0C, CHR 0x0D, CHR 0x20}"

definition literal :: "string \<Rightarrow> string \<Rightarrow> string option" where
  "literal p s = (if has_prefix s p then Some (drop (length p) s) else None)"

definition qr_head :: "string \<Rightarrow> string option" where
  "qr_head s =
     Option.bind (literal ''<cac:AdditionalDocumentReference>'' s) (\<lambda>s1.
     Option.bind (literal ''<cbc:ID>'' (dropWhile re_space s1)) (\<lambda>s2.
     Option.bind (literal ''QR'' (dropWhile re_space s2)) (\<lambda>s3.
     literal ''</cbc:ID>'' (dropWhile re_space s3))))"

definition qr_object :: "string \<Rightarrow> string option" where
  "qr_object s =
     Option.bind (literal ''<cbc:EmbeddedDocumentBinaryObject'' s) (\<lambda>s1.
     Option.bind (literal ''>'' (dropWhile (\<lambda>c. c \<noteq> CHR ''>'') s1)) (\<lambda>s2.
     let body = takeWhile (\<lambda>c. c \<noteq> CHR ''<'') s2 in
     if body \<noteq> [] \<and> has_prefix (dropWhile (\<lambda>c. c \<noteq> CHR ''<'') s2) ''</cbc:EmbeddedDocumentBinaryObject>''
     then Some body else None))"

fun first_object :: "string \<Rightarrow> string option" where
  "first_object [] = None"
| "first_object (c # cs) = (case qr_object (c # cs) of Some b \<Rightarrow> Some b | None \<Rightarrow> first_object cs)"

fun qrEmbeddedRe :: "string \<Rightarrow> string option" where
  "qrEmbeddedRe [] = None"
| "qrEmbeddedRe (c # cs) =
     (case Option.bind (qr_head (c # cs)) first_object of Some b \<Rightarrow> Some b | None \<Rightarrow> qrEmbeddedRe cs)"

definition sdk_GenerateQR :: "string \<Rightarrow> goerr + string" where
  "sdk_GenerateQR xmlContent =
     (case qrEmbeddedRe xmlContent of
        Some b \<Rightarrow>
          (if trim_space b \<noteq> [] then Inr (trim_space b)
           else Inl (NewError ''GenerateQR: QR EmbeddedDocumentBinaryObject not found in signed XML''))
      | None \<Rightarrow> Inl (NewError ''GenerateQR: QR EmbeddedDocumentBinaryObject not found in signed XML''))"

definition api_script :: "SDK \<Rightarrow> string \<Rightarrow> string" where
  "api_script s xmlContent =
     credentialScript s @ lines_text
       [[], ''cat > /tmp/invoice.xml << '' @ quoted ''XMLEOF'', xmlContent, ''XMLEOF'',
        ''fatoora -invoice /tmp/invoice.xml -invoiceRequest -apiRequest /tmp/api.json '' @ envFlag s,
        ''cat /tmp/api.json'']"

definition GenerateAPIRequest :: "local_exec \<Rightarrow> SDK \<Rightarrow> string \<Rightarrow> goerr + string" where
  "GenerateAPIRequest localExec s xmlContent =
     (case localExec (api_script s xmlContent) of
        ((stdout, stderr), Some e) \<Rightarrow> Inl (Wrapf ''GenerateAPIRequest: '' e (newline @ ''stderr: '' @ stderr))
      | ((stdout, stderr), None) \<Rightarrow>
        (case find (\<lambda>t. has_prefix t ''{'') (map trim_space (split_on (CHR 0x0A) stdout)) of
           Some t \<Rightarrow> Inr t
         | None \<Rightarrow> Inr (trim_space stdout)))"

section \<open>Credentials reach the tool as one base64 word\<close>

lemma encode_rune_blank: "c \<in> set (encode_rune r) \<Longrightarrow> blank c \<Longrightarrow> blank_rune r"
  by (auto simp: encode_rune_def Let_def blank_def blank_rune_def rune_error_def of_char_of split: if_splits)

lemma strip_no_blank: "c \<in> set (stripPEMArmor s) \<Longrightarrow> \<not> blank c"
  by (auto simp: stripPEMArmor_def Let_def list_ex_iff split: if_splits dest: encode_rune_blank)

definition pem_text :: "string \<Rightarrow> string list \<Rightarrow> string" where
  "pem_text label ls =
     lines_text ((''-----BEGIN '' @ label @ ''-----'') # ls @ [''-----END '' @ label @ ''-----''])"

definition base64_char :: "char \<Rightarrow> bool" where
  "base64_char c \<longleftrightarrow> byte_of c \<in> {43, 47, 61} \<union> {48..57} \<union> {65..90} \<union> {97..122}"

definition base64_lines :: "string list \<Rightarrow> bool" where
  "base64_lines ls \<longleftrightarrow> list_all (\<lambda>l. l \<noteq> [] \<and> list_all base64_char l) ls"

lemma base64_linesD: "base64_lines ls \<Longrightarrow> l \<in> set ls \<Longrightarrow> l \<noteq> [] \<and> list_all base64_char l"
  by (simp add: base64_lines_def list_all_iff)

lemma base64_graphic: "base64_char c \<Longrightarrow> graphic c"
  by (auto simp: base64_char_def graphic_def)

lemma base64_not_blank: "base64_char c \<Longrightarrow> \<not> blank c"
  by (auto simp: base64_char_def blank_def blank_rune_def)

lemma split_lines_text: 
  "(\<And>l. l \<in> set ls \<Longrightarrow> CHR 0x0A \<notin> set l) \<Longrightarrow> split_on (CHR 0x0A) (lines_text ls) = ls @ [[]]"
  by (induction ls) (auto simp: lines_text_def newline_def split_on_append)


lemma marker_line:
  "trim_space (''-----BEGIN '' @ label @ ''-----'') = ''-----BEGIN '' @ label @ ''-----''"
  "trim_space (''-----END '' @ label @ ''-----'') = ''-----END '' @ label @ ''-----''"
  "pem_marker (''-----BEGIN '' @ x)" "pem_marker (''-----END '' @ x)"
  by (simp_all add: trim_space_ends graphic_def pem_marker_def has_prefix_def)

lemma base64_line:
  assumes "l \<noteq> []" and "list_all base64_char l"
  shows "trim_space l = l" "\<not> pem_marker l" "CHR 0x0A \<notin> set l"
proof -
  have all: "base64_char c" if "c \<in> set l" for c using assms(2) that by (simp add: list_all_iff)
  then show "trim_space l = l"
    by (intro trim_space_graphic) (simp add: list_all_iff base64_graphic)
  have "hd l \<noteq> CHR ''-''" using all [of "hd l"] assms(1) by (auto simp: base64_char_def)
  then show "\<not> pem_marker l" by (cases l) (auto simp: pem_marker_def has_prefix_def)
  show "CHR 0x0A \<notin> set l" using all [of "CHR 0x0A"] by (auto simp: base64_char_def)
qed

text \<open>A PEM text becomes the base64 text between its markers.\<close>

lemma stripPEMArmor_pem:
  assumes "base64_lines ls" and "CHR 0x0A \<notin> set label"
  shows "stripPEMArmor (pem_text label ls) = concat ls"
proof -
  let ?keep = "\<lambda>t. t \<noteq> [] \<and> \<not> pem_marker t"
  have lines: "split_on (CHR 0x0A) (pem_text label ls) =
      ((''-----BEGIN '' @ label @ ''-----'') # ls @ [''-----END '' @ label @ ''-----'']) @ [[]]"
    unfolding pem_text_def using assms(2) base64_line(3) base64_linesD [OF assms(1)]
    by (intro split_lines_text) auto
  have "map trim_space ls = ls" and "filter ?keep ls = ls"
    using base64_linesD [OF assms(1)] base64_line(1,2) by (auto simp: map_idI filter_id_conv)
  then have out: "concat (filter ?keep (map trim_space (split_on (CHR 0x0A) (pem_text label ls)))) = concat ls"
    unfolding lines by (simp del: append_Cons add: marker_line)
  have "\<not> list_ex blank (concat ls)"
    using base64_linesD [OF assms(1)] base64_not_blank by (fastforce simp: list_ex_iff list_all_iff)
  moreover have "pem_text label ls \<noteq> []" by (simp add: pem_text_def lines_text_def)
  ultimately show ?thesis by (simp add: stripPEMArmor_def Let_def out)
qed

section \<open>What bash reads\<close>

text \<open>
  A word of a command as POSIX shells read it, for the characters that need no expansion: text between
  apostrophes stands for itself, a backslash outside them for the character after it, and white space
  or an operator ends the word.  \<open>None\<close> is an open quote or a character outside this fragment.
\<close>

definition shell_special :: "char \<Rightarrow> bool" where
  "shell_special c \<longleftrightarrow> c \<in> set [CHR 0x22, CHR ''$'', CHR 0x60, CHR ''*'', CHR ''?'', CHR ''['', CHR ''~'', CHR ''{'', CHR ''!'', CHR ''#'']"

definition shell_end :: "char \<Rightarrow> bool" where
  "shell_end c \<longleftrightarrow> blank c \<or> c \<in> set [CHR ''>'', CHR ''<'', CHR ''|'', CHR ''&'', CHR '';'', CHR ''('', CHR '')'']"

fun shell_word :: "bool \<Rightarrow> string \<Rightarrow> (string \<times> string) option" where
  "shell_word quote [] = (if quote then None else Some ([], []))"
| "shell_word True (c # cs) =
     (if c = CHR 0x27 then shell_word False cs else map_option (apfst (Cons c)) (shell_word True cs))"
| "shell_word False (c # cs) =
     (if c = CHR 0x27 then shell_word True cs
      else if c = CHR 0x5C then
        (case cs of [] \<Rightarrow> None | d # ds \<Rightarrow> map_option (apfst (Cons d)) (shell_word False ds))
      else if shell_end c then Some ([], c # cs)
      else if shell_special c then None
      else map_option (apfst (Cons c)) (shell_word False cs))"

lemma shell_word_escaped:
  "shell_word True (escape_apos s @ apos @ rest) = map_option (apfst ((@) s)) (shell_word False rest)"
proof (induction s)
  case Nil
  show ?case by (cases "shell_word False rest") (auto simp: escape_apos_def apos_def)
next
  case (Cons c s)
  have "shell_word True (escape_apos (c # s) @ apos @ rest) =
      map_option (apfst (Cons c)) (shell_word True (escape_apos s @ apos @ rest))"
    by (simp add: escape_apos_def apos_def)
  then show ?case using Cons.IH by (simp add: option.map_comp comp_def apfst_compose)
qed

lemma escape_none: "CHR 0x27 \<notin> set s \<Longrightarrow> escape_apos s = s"
  by (induction s) (auto simp: escape_apos_def)

lemma shell_word_quoted:
  "shell_end c \<Longrightarrow> c \<noteq> CHR 0x27 \<Longrightarrow> c \<noteq> CHR 0x5C \<Longrightarrow>
     shell_word False (quoted (escape_apos s) @ c # rest) = Some (s, c # rest)"
  using shell_word_escaped [of s "c # rest"] by (simp add: quoted_def apos_def)

text \<open>The private key and the certificate reach the tool's files as one base64 text: for a PEM text
  with base64 lines, the last argument of the \<open>printf\<close> that bash reads is the concatenation of those
  lines, without the markers, a blank or a line end; what follows the argument is the redirection.\<close>

theorem credential_word:
  assumes "base64_lines ls" and "CHR 0x0A \<notin> set label"
  shows "\<exists>rest. write_file (stripPEMArmor (pem_text label ls)) file = ''printf '' @ quoted ''%s'' @ '' '' @ rest \<and>
    shell_word False rest = Some (concat ls, '' > '' @ sdk_dir @ ''Data/Certificates/'' @ file @ newline) \<and>
    \<not> list_ex blank (concat ls)"
proof -
  have body: "stripPEMArmor (pem_text label ls) = concat ls"
    using stripPEMArmor_pem assms by blast
  then have clean: "\<not> list_ex blank (concat ls)"
    using strip_no_blank [of _ "pem_text label ls"] by (auto simp: list_ex_iff)
  have "CHR 0x27 \<notin> set (concat ls)"
    using base64_linesD [OF assms(1)] by (fastforce simp: list_all_iff base64_char_def)
  then have esc: "escape_apos (concat ls) = concat ls"
    by (rule escape_none)
  let ?rest = "quoted (concat ls) @ CHR '' '' # ''> '' @ sdk_dir @ ''Data/Certificates/'' @ file @ newline"
  have "shell_word False ?rest = Some (concat ls, CHR '' '' # ''> '' @ sdk_dir @ ''Data/Certificates/'' @ file @ newline)"
    using shell_word_quoted [of "CHR '' ''" "concat ls"] by (simp add: esc shell_end_def blank_def blank_rune_def)
  moreover have "write_file (stripPEMArmor (pem_text label ls)) file = ''printf '' @ quoted ''%s'' @ '' '' @ ?rest"
    by (simp add: body write_file_def)
  ultimately show ?thesis using clean by auto
qed

theorem credential_word_witness:
  "\<exists>rest. write_file (stripPEMArmor (pem_text ''EC PRIVATE KEY'' [''MHcCAQE'', ''GByqGSM49==''])) ''cert.pem'' =
      ''printf '' @ quoted ''%s'' @ '' '' @ rest \<and>
    shell_word False rest = Some (concat [''MHcCAQE'', ''GByqGSM49==''],
      '' > '' @ sdk_dir @ ''Data/Certificates/'' @ ''cert.pem'' @ newline) \<and>
    \<not> list_ex blank (concat [''MHcCAQE'', ''GByqGSM49==''])"
  by (rule credential_word) (simp_all add: base64_lines_def base64_char_def)

text \<open>C40: whatever the company entered, bash hands the properties of the certificate request to \<open>echo\<close>
  unchanged: the first argument of the script's first command is exactly the text of the properties, and
  what follows it is the redirection to the properties file.\<close>

theorem csr_properties_quoted:
  "\<exists>arg rest. csr_script (csr_props c) flag = newline @ ''echo '' @ arg \<and>
     shell_word False arg = Some (csr_props c, '' > /tmp/csr.properties'' @ newline @ rest)"
proof -
  obtain rest where "csr_script (csr_props c) flag =
      newline @ ''echo '' @ quoted (escape_apos (csr_props c)) @ CHR '' '' # ''> /tmp/csr.properties'' @ newline @ rest"
    by (simp add: csr_script_def lines_text_def)
  moreover have "shell_word False (quoted (escape_apos (csr_props c)) @ CHR '' '' # ''> /tmp/csr.properties'' @ newline @ rest) =
      Some (csr_props c, CHR '' '' # ''> /tmp/csr.properties'' @ newline @ rest)"
    by (rule shell_word_quoted) (simp_all add: shell_end_def blank_def blank_rune_def)
  ultimately show ?thesis by auto
qed

section \<open>The here-document\<close>

lemma split_single_line: "CHR 0x0A \<notin> set l \<Longrightarrow> split_on (CHR 0x0A) (l @ newline @ b) = l # split_on (CHR 0x0A) b"
  by (simp add: newline_def split_on_append)

text \<open>
  A run of a script up to the call of the tool, for the commands the wrapper writes: \<open>printf\<close> of one
  word into a file, and \<open>cat\<close> of a here-document into a file.  The delimiter is quoted, so nothing in
  the document is expanded, and the document ends at the first line that is the delimiter.  The result is
  the contents of the files at the call, the line of the call and the lines after it.
\<close>

definition printf_write :: "string \<Rightarrow> (string \<times> string) option" where
  "printf_write l =
     Option.bind (literal (''printf '' @ quoted ''%s'' @ '' '') l) (\<lambda>s.
     Option.bind (shell_word False s) (\<lambda>(w, r).
     Option.bind (literal '' > '' r) (\<lambda>t.
     Option.bind (shell_word False t) (\<lambda>(path, e). if e = [] then Some (path, w) else None))))"

definition cat_write :: "string \<Rightarrow> (string \<times> string) option" where
  "cat_write l =
     Option.bind (literal ''cat > '' l) (\<lambda>s.
     Option.bind (shell_word False s) (\<lambda>(path, r).
     Option.bind (literal ('' << '' @ apos) r) (\<lambda>t.
     Option.bind (shell_word True t) (\<lambda>(delim, e). if e = [] then Some (path, delim) else None))))"

lemma length_after_delimiter: "length (dropWhile P ls) - Suc 0 < Suc (length ls)"
  using length_dropWhile_le [of P ls] by linarith

function (sequential) bash_run ::
    "(string \<Rightarrow> string option) \<Rightarrow> string list \<Rightarrow> ((string \<Rightarrow> string option) \<times> string \<times> string list) option" where
  "bash_run files [] = None"
| "bash_run files (l # ls) =
     (if l = [] then bash_run files ls
      else if has_prefix l ''fatoora '' then Some (files, l, ls)
      else case printf_write l of
        Some (path, w) \<Rightarrow> bash_run (files(path \<mapsto> w)) ls
      | None \<Rightarrow>
        (case cat_write l of
           Some (path, delim) \<Rightarrow>
             bash_run (files(path \<mapsto> lines_text (takeWhile (\<lambda>d. d \<noteq> delim) ls))) (tl (dropWhile (\<lambda>d. d \<noteq> delim) ls))
         | None \<Rightarrow> None))"
  by pat_completeness auto
termination
  by (relation "measure (\<lambda>(files, ls). length ls)") (auto simp: length_after_delimiter)

lemma printf_write_file:
  assumes "CHR 0x27 \<notin> set body" and "shell_word False (sdk_dir @ ''Data/Certificates/'' @ file) = Some (path, [])"
  shows "printf_write (''printf '' @ quoted ''%s'' @ '' '' @ quoted body @ '' > '' @ sdk_dir @ ''Data/Certificates/'' @ file) = Some (path, body)"
proof -
  have "shell_word False (quoted body @ CHR '' '' # ''> '' @ sdk_dir @ ''Data/Certificates/'' @ file) =
      Some (body, CHR '' '' # ''> '' @ sdk_dir @ ''Data/Certificates/'' @ file)"
    using shell_word_quoted [of "CHR '' ''" body] escape_none [OF assms(1)] by (simp add: shell_end_def blank_def blank_rune_def)
  with assms(2) show ?thesis
    by (simp add: printf_write_def literal_def has_prefix_def quoted_def apos_def)
qed

lemma cat_write_invoice: "cat_write (''cat > /tmp/invoice.xml << '' @ quoted ''XMLEOF'') = Some (''/tmp/invoice.xml'', ''XMLEOF'')"
  by (simp add: cat_write_def literal_def has_prefix_def quoted_def apos_def shell_end_def shell_special_def blank_def blank_rune_def)

lemma bash_run_invoice:
  "bash_run files ((''cat > /tmp/invoice.xml << '' @ quoted ''XMLEOF'') # ls) =
     bash_run (files(''/tmp/invoice.xml'' \<mapsto> lines_text (takeWhile (\<lambda>d. d \<noteq> ''XMLEOF'') ls))) (tl (dropWhile (\<lambda>d. d \<noteq> ''XMLEOF'') ls))"
proof -
  have "printf_write (''cat > /tmp/invoice.xml << '' @ quoted ''XMLEOF'') = None"
    by (simp add: printf_write_def literal_def has_prefix_def)
  then show ?thesis using cat_write_invoice by (simp add: has_prefix_def)
qed

lemma certificate_paths:
  "shell_word False (sdk_dir @ ''Data/Certificates/'' @ ''ec-secp256k1-priv-key.pem'') =
     Some (''/SDK/zatca-einvoicing-sdk-238-R4.0.0/Data/Certificates/ec-secp256k1-priv-key.pem'', [])"
  "shell_word False (sdk_dir @ ''Data/Certificates/'' @ ''cert.pem'') = Some (''/SDK/zatca-einvoicing-sdk-238-R4.0.0/Data/Certificates/cert.pem'', [])"
  by (simp_all add: sdk_dir_def shell_end_def shell_special_def blank_def blank_rune_def)

text \<open>The files of the tool with the credentials of the wrapper in them.\<close>

definition credential_files :: "SDK \<Rightarrow> (string \<Rightarrow> string option) \<Rightarrow> string \<Rightarrow> string option" where
  "credential_files s files =
     (let f = (if sdk_privateKey s = [] then files
               else files(''/SDK/zatca-einvoicing-sdk-238-R4.0.0/Data/Certificates/ec-secp256k1-priv-key.pem'' \<mapsto> stripPEMArmor (sdk_privateKey s))) in
      if sdk_certPEM s = [] then f
      else f(''/SDK/zatca-einvoicing-sdk-238-R4.0.0/Data/Certificates/cert.pem'' \<mapsto> stripPEMArmor (sdk_certPEM s)))"

definition unquoted :: "SDK \<Rightarrow> bool" where
  "unquoted s \<longleftrightarrow> CHR 0x27 \<notin> set (stripPEMArmor (sdk_privateKey s)) \<and> CHR 0x27 \<notin> set (stripPEMArmor (sdk_certPEM s))"

lemma lines_text_split: "lines_text (split_on (CHR 0x0A) s) = s @ newline"
proof (induction s)
  case (Cons c s)
  obtain p ps where "split_on (CHR 0x0A) s = p # ps"
    using split_on_nonempty by (cases "split_on (CHR 0x0A) s") auto
  with Cons show ?case by (auto simp: lines_text_def newline_def)
qed (simp add: lines_text_def)

lemma split_lines_Cons:
  "CHR 0x0A \<notin> set l \<Longrightarrow> split_on (CHR 0x0A) (lines_text (l # ls)) = l # split_on (CHR 0x0A) (lines_text ls)"
  by (simp add: lines_text_def newline_def split_on_append)

lemma strip_no_newline: "CHR 0x0A \<notin> set (stripPEMArmor s)"
  using strip_no_blank [of "CHR 0x0A" s] by (auto simp: blank_def blank_rune_def)

lemma bash_run_write:
  assumes "CHR 0x27 \<notin> set (stripPEMArmor body)" and "CHR 0x0A \<notin> set file"
    and "shell_word False (sdk_dir @ ''Data/Certificates/'' @ file) = Some (path, [])"
  shows "bash_run files (split_on (CHR 0x0A) (write_file (stripPEMArmor body) file @ rest)) =
    bash_run (files(path \<mapsto> stripPEMArmor body)) (split_on (CHR 0x0A) rest)"
proof -
  let ?l = "''printf '' @ quoted ''%s'' @ '' '' @ quoted (stripPEMArmor body) @ '' > '' @ sdk_dir @ ''Data/Certificates/'' @ file"
  have "CHR 0x0A \<notin> set ?l"
    using strip_no_newline [of body] assms(2) by (simp add: quoted_def apos_def sdk_dir_def)
  then have "split_on (CHR 0x0A) (write_file (stripPEMArmor body) file @ rest) = ?l # split_on (CHR 0x0A) rest"
    using split_single_line [of ?l rest] by (simp add: write_file_def)
  then show ?thesis
    using printf_write_file [OF assms(1,3)] by (simp add: has_prefix_def)
qed

lemma bash_run_credentials:
  assumes "unquoted s"
  shows "bash_run files (split_on (CHR 0x0A) (credentialScript s @ rest)) = bash_run (credential_files s files) (split_on (CHR 0x0A) rest)"
proof -
  note key = bash_run_write [where body = "sdk_privateKey s", OF _ _ certificate_paths(1)]
    and cert = bash_run_write [where body = "sdk_certPEM s", OF _ _ certificate_paths(2)]
  show ?thesis
    using assms key cert by (simp add: credentialScript_def credential_files_def unquoted_def Let_def)
qed

lemma bash_run_document:
  assumes "''XMLEOF'' \<notin> set (split_on (CHR 0x0A) xml)" and "CHR 0x0A \<notin> set call" and "has_prefix call ''fatoora ''"
    and "\<forall>l \<in> set after. CHR 0x0A \<notin> set l"
  shows "bash_run files (split_on (CHR 0x0A) (lines_text
      ([[], ''cat > /tmp/invoice.xml << '' @ quoted ''XMLEOF'', xml, ''XMLEOF'', call] @ after))) =
    Some (files(''/tmp/invoice.xml'' \<mapsto> xml @ newline), call, after @ [[]])"
proof -
  let ?cat = "''cat > /tmp/invoice.xml << '' @ quoted ''XMLEOF''"
  let ?tail = "''XMLEOF'' # call # after @ [[]]"
  have tail: "split_on (CHR 0x0A) (lines_text (''XMLEOF'' # call # after)) = ?tail"
    using assms(2,4) by (subst split_lines_text) auto
  have "split_on (CHR 0x0A) (lines_text (xml # ''XMLEOF'' # call # after)) = split_on (CHR 0x0A) xml @ ?tail"
    using split_on_join [of "CHR 0x0A" xml "lines_text (''XMLEOF'' # call # after)"] tail by (simp add: lines_text_def newline_def)
  moreover have "CHR 0x0A \<notin> set ?cat" by (simp add: quoted_def apos_def)
  ultimately have lines: "split_on (CHR 0x0A) (lines_text ([[], ?cat, xml, ''XMLEOF'', call] @ after)) =
      [] # ?cat # split_on (CHR 0x0A) xml @ ?tail"
    using split_lines_Cons [of ?cat] split_lines_Cons [of "[]"] by simp
  have "takeWhile (\<lambda>d. d \<noteq> ''XMLEOF'') (split_on (CHR 0x0A) xml @ ?tail) = split_on (CHR 0x0A) xml"
    "dropWhile (\<lambda>d. d \<noteq> ''XMLEOF'') (split_on (CHR 0x0A) xml @ ?tail) = ?tail"
    using assms(1) by (auto simp: takeWhile_append dropWhile_append)
  moreover have "call \<noteq> []" using assms(3) by (auto simp: has_prefix_def)
  ultimately show ?thesis
    using assms(3) unfolding lines bash_run.simps(2) [of files "[]"] bash_run_invoice by (simp add: lines_text_split)
qed

lemma envFlag_line: "CHR 0x0A \<notin> set (envFlag s)"
  by (simp add: envFlag_def)

text \<open>The four scripts, for a document without the line of the delimiter.\<close>

lemma scripts_run:
  assumes "''XMLEOF'' \<notin> set (split_on (CHR 0x0A) xml)"
  shows "bash_run files (split_on (CHR 0x0A) (validate_script s xml)) =
      Some (files(''/tmp/invoice.xml'' \<mapsto> xml @ newline), ''fatoora -validate -invoice /tmp/invoice.xml '' @ envFlag s, [[]])"
    and "bash_run files (split_on (CHR 0x0A) (hash_script s xml)) =
      Some (files(''/tmp/invoice.xml'' \<mapsto> xml @ newline), ''fatoora -generateHash -invoice /tmp/invoice.xml '' @ envFlag s, [[]])"
    and "unquoted s \<Longrightarrow> bash_run files (split_on (CHR 0x0A) (sign_script s xml)) =
      Some ((credential_files s files)(''/tmp/invoice.xml'' \<mapsto> xml @ newline),
        ''fatoora -sign -invoice /tmp/invoice.xml -signedInvoice /tmp/signed.xml '' @ envFlag s,
        [''echo \"===SIGNED===\"'', ''cat /tmp/signed.xml'', []])"
    and "unquoted s \<Longrightarrow> bash_run files (split_on (CHR 0x0A) (api_script s xml)) =
      Some ((credential_files s files)(''/tmp/invoice.xml'' \<mapsto> xml @ newline),
        ''fatoora -invoice /tmp/invoice.xml -invoiceRequest -apiRequest /tmp/api.json '' @ envFlag s, [''cat /tmp/api.json'', []])"
  using bash_run_document [OF assms, of "''fatoora -validate -invoice /tmp/invoice.xml '' @ envFlag s" "[]" files]
    bash_run_document [OF assms, of "''fatoora -generateHash -invoice /tmp/invoice.xml '' @ envFlag s" "[]" files]
    bash_run_document [OF assms, of "''fatoora -sign -invoice /tmp/invoice.xml -signedInvoice /tmp/signed.xml '' @ envFlag s"
      "[''echo \"===SIGNED===\"'', ''cat /tmp/signed.xml'']" "credential_files s files"]
    bash_run_document [OF assms, of "''fatoora -invoice /tmp/invoice.xml -invoiceRequest -apiRequest /tmp/api.json '' @ envFlag s"
      "[''cat /tmp/api.json'']" "credential_files s files"]
  by (simp_all add: validate_script_def hash_script_def sign_script_def api_script_def bash_run_credentials envFlag_line has_prefix_def)

text \<open>A document with a line that is the delimiter ends there, and bash runs the rest of it.\<close>

lemma delimiter_in_document:
  "bash_run (\<lambda>_. None) (split_on (CHR 0x0A) (validate_script \<lparr>sdk_env = Sandbox, sdk_privateKey = [], sdk_certPEM = []\<rparr>
      (''<a>'' @ newline @ ''XMLEOF'' @ newline @ ''fatoora -csr''))) =
    Some ([''/tmp/invoice.xml'' \<mapsto> ''<a>'' @ newline], ''fatoora -csr'',
      [''XMLEOF'', ''fatoora -validate -invoice /tmp/invoice.xml -nonprod'', []])"
proof -
  let ?cat = "''cat > /tmp/invoice.xml << '' @ quoted ''XMLEOF''"
  have "split_on (CHR 0x0A) (validate_script \<lparr>sdk_env = Sandbox, sdk_privateKey = [], sdk_certPEM = []\<rparr>
      (''<a>'' @ newline @ ''XMLEOF'' @ newline @ ''fatoora -csr'')) =
      [[], ?cat, ''<a>'', ''XMLEOF'', ''fatoora -csr'', ''XMLEOF'', ''fatoora -validate -invoice /tmp/invoice.xml -nonprod'', []]"
    by (simp add: validate_script_def lines_text_def newline_def quoted_def apos_def envFlag_def Sandbox_def)
  then show ?thesis
    by (simp only: bash_run.simps(2) [of _ "[]"] bash_run_invoice if_True) (simp add: has_prefix_def lines_text_def)
qed

section \<open>Reading the answers\<close>

text \<open>The certificate request and the key that the script prints between its markers are returned
  with the white space around them removed; the slices of the parser are in range.\<close>

theorem csr_output_parsed:
  assumes "localExec (csr_script (csr_props csrCfg) (envFlag s)) =
      ((csr_mark @ newline @ csr @ key_mark @ newline @ key, stderr), None)"
    and "\<not> str_contains (csr_mark @ newline @ csr) key_mark" and "csr = [] \<or> last csr \<notin> set key_mark"
  shows "GenerateCSR localExec s csrCfg = Some (Inr (trim_space (newline @ csr), trim_space (newline @ key)))"
proof -
  let ?out = "csr_mark @ newline @ csr @ key_mark @ newline @ key"
  have "str_index ?out csr_mark = Some 0"
    by (simp add: csr_mark_def has_prefix_def)
  moreover have "str_index ?out key_mark = Some (length (csr_mark @ newline @ csr))"
    using str_index_first [of "csr_mark @ newline @ csr" key_mark "newline @ key"] assms(2,3)
    by (auto simp: newline_def key_mark_def last_append)
  ultimately have "parseCSROutput ?out = Some (Inr (trim_space (newline @ csr), trim_space (newline @ key)))"
    by (simp add: parseCSROutput_def)
  then show ?thesis by (simp add: GenerateCSR_def assms(1))
qed

definition sample_csr_config :: csr_config where
  "sample_csr_config = \<lparr>csr_CommonName = ''TST-1'', csr_SerialNumber = ''1-A'', csr_OrgIdentifier = ''300000000000003'',
     csr_OrgUnit = ''Main'', csr_OrgName = ''Bint AlHana'', csr_Country = ''SA'', csr_InvoiceType = ''1100'',
     csr_Location = ''RRRD2929'', csr_BusinessCategory = ''Retail''\<rparr>"

theorem csr_output_parsed_witness:
  "GenerateCSR (\<lambda>_. ((csr_mark @ newline @ ''REQ'' @ key_mark @ newline @ ''SECRET'', []), None))
     \<lparr>sdk_env = Sandbox, sdk_privateKey = [], sdk_certPEM = []\<rparr> sample_csr_config =
   Some (Inr (trim_space (newline @ ''REQ''), trim_space (newline @ ''SECRET'')))"
  by (rule csr_output_parsed)
    (simp_all add: csr_mark_def key_mark_def newline_def str_contains_def has_prefix_def)

text \<open>A signature is returned only with a signed document that is not blank.\<close>

lemma sdk_SignInvoice_signed: "sdk_SignInvoice localExec s xml = Inr (doc, hash) \<Longrightarrow> doc \<noteq> []"
  by (auto simp: sdk_SignInvoice_def Let_def split: prod.splits option.splits if_splits)

end
