(* ===== verification/Ubl_Laws.thy ===== *)
theory Ubl_Laws
  imports Ubl_Xml Sdk_Tool
begin

text \<open>
  Laws of the UBL writer: its tags are balanced, its lines start with a blank or a tag, and therefore the
  SDK wrapper hands the document to the tool unchanged.
\<close>

section \<open>Balanced tags\<close>

text \<open>
  A reader of tags: the elements that are open, innermost first, after a text that starts outside or
  inside (\<open>Some\<close>, with what was read of it) a tag.  \<open>None\<close> is a text that is not well formed.
\<close>

definition end_tag :: "string \<Rightarrow> string list \<Rightarrow> string list option" where
  "end_tag t st =
     (case t of
        [] \<Rightarrow> None
      | c # name \<Rightarrow>
          (if c = CHR ''?'' then Some st
           else if c = CHR ''/'' then
             (case st of [] \<Rightarrow> None | t1 # st' \<Rightarrow> if t1 = name then Some st' else None)
           else if last t = CHR ''/'' then Some st
           else Some (takeWhile (\<lambda>d. d \<noteq> CHR '' '') t # st)))"

fun scan :: "string option \<Rightarrow> string list \<Rightarrow> string \<Rightarrow> string list option" where
  "scan None st [] = Some st"
| "scan (Some t) st [] = None"
| "scan None st (c # cs) =
     (if c = CHR ''<'' then scan (Some []) st cs else if c = CHR ''>'' then None else scan None st cs)"
| "scan (Some t) st (c # cs) =
     (if c = CHR ''<'' then None
      else if c = CHR ''>'' then (case end_tag t st of None \<Rightarrow> None | Some st' \<Rightarrow> scan None st' cs)
      else scan (Some (t @ [c])) st cs)"

definition no_angle :: "string \<Rightarrow> bool" where
  "no_angle s \<longleftrightarrow> list_all (\<lambda>c. c \<noteq> CHR ''<'' \<and> c \<noteq> CHR ''>'') s"

definition tag_name :: "string \<Rightarrow> bool" where
  "tag_name t \<longleftrightarrow> no_angle t \<and> list_all (\<lambda>c. c \<noteq> CHR '' '') t \<and> t \<noteq> [] \<and> hd t \<noteq> CHR ''?'' \<and>
     hd t \<noteq> CHR ''/'' \<and> last t \<noteq> CHR ''/''"

definition attr_text :: "string \<Rightarrow> bool" where
  "attr_text a \<longleftrightarrow> no_angle a \<and> (a = [] \<or> hd a = CHR '' '' \<and> last a \<noteq> CHR ''/'')"

lemma plain_no_angle: "plain s \<Longrightarrow> no_angle s"
  by (auto simp: no_angle_def xml_plain_def list_all_iff)

lemma no_angle_simps [simp]:
  "no_angle []" "no_angle (c # cs) \<longleftrightarrow> c \<noteq> CHR ''<'' \<and> c \<noteq> CHR ''>'' \<and> no_angle cs"
  "no_angle (a @ b) \<longleftrightarrow> no_angle a \<and> no_angle b"
  by (simp_all add: no_angle_def)

lemma scan_text: "no_angle a \<Longrightarrow> scan None st (a @ r) = scan None st r"
  by (induction a) (auto simp: no_angle_def)

lemma scan_tag:
  "no_angle a \<Longrightarrow> scan (Some t) st (a @ CHR ''>'' # r) =
     (case end_tag (t @ a) st of None \<Rightarrow> None | Some st' \<Rightarrow> scan None st' r)"
  by (induction a arbitrary: t) (auto simp: no_angle_def)

lemma no_angle_blank: "no_angle (sp n)" "no_angle newline"
  by (simp_all add: no_angle_def sp_def newline_def list_all_iff)

lemma takeWhile_name:
  "list_all (\<lambda>c. c \<noteq> CHR '' '') t \<Longrightarrow> takeWhile (\<lambda>d. d \<noteq> CHR '' '') (t @ a) = t @ takeWhile (\<lambda>d. d \<noteq> CHR '' '') a"
  by (induction t) auto

lemma end_tag_open:
  assumes "tag_name t" and "attr_text attrs"
  shows "end_tag (t @ attrs) st = Some (t # st)"
proof -
  obtain c cs where t: "t = c # cs" "c \<noteq> CHR ''?''" "c \<noteq> CHR ''/''"
    using assms(1) by (cases t) (auto simp: tag_name_def)
  have "takeWhile (\<lambda>d. d \<noteq> CHR '' '') (t @ attrs) = t"
    using assms takeWhile_name [of t attrs] by (cases attrs) (auto simp: tag_name_def attr_text_def)
  moreover have "last (t @ attrs) \<noteq> CHR ''/''"
    using assms by (auto simp: tag_name_def attr_text_def last_append)
  ultimately show ?thesis using t by (simp add: end_tag_def)
qed

lemma end_tag_close: "end_tag (CHR ''/'' # t) (t # st) = Some st"
  by (simp add: end_tag_def)

text \<open>The lines the writer is made of: an open tag is pushed, its closing tag pops it, and an element
  on a line leaves the stack as it is.\<close>

lemma scan_open:
  assumes "tag_name t" and "attr_text attrs"
  shows "scan None st (''<'' @ t @ attrs @ ''>'' @ r) = scan None (t # st) r"
  using scan_tag [of "t @ attrs" "[]" st r] assms end_tag_open [OF assms] by (simp add: tag_name_def attr_text_def)

lemma scan_close:
  "tag_name t \<Longrightarrow> scan None (t # st) (''</'' @ t @ ''>'' @ r) = scan None st r"
  using scan_tag [of t "''/''" "t # st" r] by (simp add: tag_name_def end_tag_close)

lemma scan_open_with:
  assumes "tag_name t" and "attr_text attrs"
  shows "scan None st (open_with n t attrs @ r) = scan None (t # st) r"
  using scan_open [OF assms, of st "newline @ r"] by (simp add: open_with_def scan_text no_angle_blank)

lemma scan_opn: "tag_name t \<Longrightarrow> scan None st (opn n t @ r) = scan None (t # st) r"
  by (simp add: opn_def scan_open_with attr_text_def)

lemma scan_cls: "tag_name t \<Longrightarrow> scan None (t # st) (cls n t @ r) = scan None st r"
  using scan_close [of t st "newline @ r"] by (simp add: cls_def scan_text no_angle_blank)

lemma scan_el:
  assumes "tag_name t" and "attr_text attrs" and "no_angle body"
  shows "scan None st (el n t attrs body @ r) = scan None st r"
proof -
  have "scan None st (el n t attrs body @ r) = scan None (t # st) (body @ ''</'' @ t @ ''>'' @ newline @ r)"
    using scan_open [OF assms(1,2), of st "body @ ''</'' @ t @ ''>'' @ newline @ r"]
    by (simp add: el_def scan_text no_angle_blank)
  also have "\<dots> = scan None st r"
    using scan_text [OF assms(3), of "t # st" "''</'' @ t @ ''>'' @ newline @ r"] scan_close [OF assms(1), of st "newline @ r"]
    by (simp add: scan_text no_angle_blank)
  finally show ?thesis .
qed

section \<open>Lines\<close>

text \<open>Every line starts with a blank or with a tag.\<close>

fun lined :: "bool \<Rightarrow> string \<Rightarrow> bool" where
  "lined start [] = True"
| "lined start (c # cs) = ((start \<longrightarrow> c = CHR '' '' \<or> c = CHR ''<'') \<and> lined (c = CHR 0x0A) cs)"

definition block :: "string \<Rightarrow> bool" where
  "block s \<longleftrightarrow> lined True s \<and> (s = [] \<or> last s = CHR 0x0A)"

lemma lined_append:
  "lined b (x @ y) \<longleftrightarrow> lined b x \<and> lined (if x = [] then b else last x = CHR 0x0A) y"
  by (induction x arbitrary: b) auto

lemma lined_line: "CHR 0x0A \<notin> set x \<Longrightarrow> lined False x"
  by (induction x) auto

lemma block_append: "block x \<Longrightarrow> block y \<Longrightarrow> block (x @ y)"
  by (auto simp: block_def lined_append last_append)

lemma block_Nil: "block []"
  by (simp add: block_def)

lemma block_concat: "(\<And>x. x \<in> set xs \<Longrightarrow> block x) \<Longrightarrow> block (concat xs)"
  by (induction xs) (auto intro: block_append block_Nil)

lemma block_line:
  assumes "x \<noteq> []" and "hd x = CHR '' '' \<or> hd x = CHR ''<''" and "CHR 0x0A \<notin> set x"
  shows "block (x @ newline)"
proof -
  obtain c cs where x: "x = c # cs" using assms(1) by (cases x) auto
  have "c \<noteq> CHR 0x0A" "lined False cs" using assms(3) lined_line by (auto simp: x)
  moreover have "last x \<noteq> CHR 0x0A" using assms(1,3) last_in_set by metis
  ultimately show ?thesis using assms(2) by (auto simp: block_def lined_append newline_def x)
qed

lemma plain_no_newline: "plain s \<Longrightarrow> CHR 0x0A \<notin> set s"
  by (auto simp: xml_plain_def list_all_iff)

lemma no_newline_sp: "CHR 0x0A \<notin> set (sp n)"
  by (simp add: sp_def)

lemma hd_sp: "hd (sp n @ ''<'' @ x) = CHR '' '' \<or> hd (sp n @ ''<'' @ x) = CHR ''<''"
  by (cases n) (auto simp: sp_def)

lemma block_el:
  assumes "CHR 0x0A \<notin> set t" and "CHR 0x0A \<notin> set attrs" and "CHR 0x0A \<notin> set body"
  shows "block (el n t attrs body)"
  using block_line [of "sp n @ ''<'' @ t @ attrs @ ''>'' @ body @ ''</'' @ t @ ''>''"] hd_sp [of n] assms
  by (simp add: el_def no_newline_sp)

lemma block_open_with: "CHR 0x0A \<notin> set t \<Longrightarrow> CHR 0x0A \<notin> set attrs \<Longrightarrow> block (open_with n t attrs)"
  using block_line [of "sp n @ ''<'' @ t @ attrs @ ''>''"] hd_sp [of n] by (simp add: open_with_def no_newline_sp)

lemma block_opn: "CHR 0x0A \<notin> set t \<Longrightarrow> block (opn n t)"
  by (simp add: opn_def block_open_with)

lemma block_cls: "CHR 0x0A \<notin> set t \<Longrightarrow> block (cls n t)"
  using block_line [of "sp n @ ''</'' @ t @ ''>''"] hd_sp [of n] by (simp add: cls_def no_newline_sp)

text \<open>No line of such a text starts with a letter.\<close>

lemma lined_lines:
  "lined b s \<Longrightarrow> l \<in> set (if b then split_on (CHR 0x0A) s else tl (split_on (CHR 0x0A) s)) \<Longrightarrow>
     l = [] \<or> hd l = CHR '' '' \<or> hd l = CHR ''<''"
proof (induction s arbitrary: b l)
  case (Cons c cs)
  show ?case
  proof (cases "c = CHR 0x0A")
    case True
    with Cons show ?thesis by (cases b) fastforce+
  next
    case False
    obtain p ps where sp: "split_on (CHR 0x0A) cs = p # ps"
      using split_on_nonempty by (cases "split_on (CHR 0x0A) cs") auto
    have "lined False cs" using Cons.prems(1) False by simp
    then have "l = [] \<or> hd l = CHR '' '' \<or> hd l = CHR ''<''" if "l \<in> set ps" for l
      using Cons.IH [of False l] sp that by simp
    with Cons.prems False sp show ?thesis by (cases b) auto
  qed
qed (auto split: if_splits)

section \<open>The document is well formed\<close>

text \<open>
  The values that the writer does not escape: the subtype, the previous hash, the currency, the tax
  categories and the unit codes, and what the layouts of numbers produce.
\<close>

definition raw_plain :: "'f invoice \<Rightarrow> bool" where
  "raw_plain i \<longleftrightarrow> plain (in_SubType i) \<and> plain (in_PreviousInvoiceHash i) \<and> plain (in_DocumentCurrency i) \<and>
     plain (in_DiscountTax i) \<and> list_all (\<lambda>l. plain (li_UnitCode l) \<and> plain (li_TaxCategory l)) (in_Lines i)"

definition number_layouts :: "'f layouts \<Rightarrow> bool" where
  "number_layouts L \<longleftrightarrow> (\<forall>v. plain (ly_amount L v) \<and> plain (ly_float L v))"

lemma number_layoutsD: "number_layouts L \<Longrightarrow> plain (ly_amount L v)" "number_layouts L \<Longrightarrow> plain (ly_float L v)"
  by (simp_all add: number_layouts_def)

lemma digits_plain: "plain (show_nat n)"
proof -
  have "is_digit c \<Longrightarrow> xml_plain c" for c by (auto simp: is_digit_def xml_plain_def)
  then show ?thesis using show_nat_digits [of n] by (auto simp: list_all_iff)
qed

lemma show_int_plain: "plain (show_int k)"
  by (simp add: show_int_def digits_plain) (simp add: xml_plain_def)

lemma orDefault_plain: "plain s \<Longrightarrow> plain d \<Longrightarrow> plain (orDefault s d)"
  by (simp add: orDefault_def)

lemma attr_facts [simp]:
  "attr k v \<noteq> []" "last (attr k v) = CHR 0x22" "hd (attr k v @ x) = CHR '' ''" "hd (attr k v) = CHR '' ''"
  "no_angle (attr k v) \<longleftrightarrow> no_angle k \<and> no_angle v"
  "CHR 0x0A \<in> set (attr k v) \<longleftrightarrow> CHR 0x0A \<in> set k \<or> CHR 0x0A \<in> set v"
  by (auto simp: attr_def no_angle_def)

lemma attr_text_simps [simp]:
  "attr_text []" "attr_text (attr k v) \<longleftrightarrow> no_angle k \<and> no_angle v"
  "attr_text (attr k v @ b) \<longleftrightarrow> no_angle k \<and> no_angle v \<and> (b = [] \<or> no_angle b \<and> last b \<noteq> CHR ''/'')"
  "last (a @ attr k v) = CHR 0x22"
  by (auto simp: attr_text_def last_append)

lemma element_facts:
  "tag_name t \<Longrightarrow> scan None st (writeElementIndent n t v @ r) = scan None st r"
  "tag_name t \<Longrightarrow> scan None st (writeElement t v @ r) = scan None st r"
  "CHR 0x0A \<notin> set t \<Longrightarrow> block (writeElementIndent n t v)"
  "CHR 0x0A \<notin> set t \<Longrightarrow> block (writeElement t v)"
  by (simp_all add: writeElement_def writeElementIndent_def scan_el block_el plain_no_angle plain_no_newline)

lemma amount_facts:
  "tag_name t \<Longrightarrow> plain cur \<Longrightarrow> plain v \<Longrightarrow> scan None st (amount_el n t cur v @ r) = scan None st r"
  "CHR 0x0A \<notin> set t \<Longrightarrow> plain cur \<Longrightarrow> plain v \<Longrightarrow> block (amount_el n t cur v)"
  by (simp_all add: amount_el_def scan_el block_el plain_no_angle plain_no_newline)

lemmas scan_rules = scan_opn scan_open_with scan_cls scan_el element_facts(1,2) amount_facts(1)
lemmas block_rules = block_append block_Nil block_opn block_open_with block_cls block_el element_facts(3,4) amount_facts(2)
lemmas namespaces = nsInvoice_def nsCAC_def nsCBC_def nsEXT_def nsSIG_def nsSAC_def nsSBC_def

lemma scan_writeUBLExtensions: "scan None st (writeUBLExtensions @ r) = scan None st r"
  by (simp add: writeUBLExtensions_def scan_rules tag_name_def namespaces)

lemma block_writeUBLExtensions: "block writeUBLExtensions"
  unfolding writeUBLExtensions_def by (intro block_rules) (simp_all add: namespaces)

lemma doc_refs_facts:
  assumes "plain (in_PreviousInvoiceHash i)"
  shows "scan None st (writeAdditionalDocRefs i @ r) = scan None st r" "block (writeAdditionalDocRefs i)"
  unfolding writeAdditionalDocRefs_def embedded_def using assms
  by (simp add: scan_rules tag_name_def plain_no_angle,
      intro block_rules, simp_all add: plain_no_newline)

lemma address_facts:
  "scan None st (writeAddress n p @ r) = scan None st r" "block (writeAddress n p)"
  by (simp add: writeAddress_def scan_rules tag_name_def)
    (unfold writeAddress_def, intro block_rules, simp_all add: block_rules)

lemma party_facts:
  "scan None st (party_tax_scheme p @ r) = scan None st r" "block (party_tax_scheme p)"
  "scan None st (party_legal_entity p @ r) = scan None st r" "block (party_legal_entity p)"
  by (simp add: party_tax_scheme_def scan_rules tag_name_def)
    (unfold party_tax_scheme_def party_legal_entity_def, intro block_rules, simp_all add: scan_rules tag_name_def block_rules)

lemma supplier_facts:
  "scan None st (writeSupplier i @ r) = scan None st r" "block (writeSupplier i)"
  by (simp add: writeSupplier_def Let_def scan_rules tag_name_def address_facts party_facts plain_no_angle)
    (unfold writeSupplier_def Let_def, intro block_rules,
     simp_all add: block_rules address_facts party_facts plain_no_newline)

lemma customer_facts:
  "scan None st (writeCustomer i @ r) = scan None st r" "block (writeCustomer i)"
  by (simp add: writeCustomer_def Let_def scan_rules tag_name_def address_facts party_facts)
    (unfold writeCustomer_def Let_def, intro block_rules, simp_all add: block_rules address_facts party_facts)

lemma tax_category_facts:
  assumes "plain cat" and "plain percent"
  shows "scan None st (tax_category n cat percent @ r) = scan None st r" "block (tax_category n cat percent)"
  using assms by (simp add: tax_category_def un_scheme_def scan_rules tag_name_def plain_no_angle)
    (unfold tax_category_def un_scheme_def, intro block_rules, use assms in \<open>simp_all add: plain_no_newline\<close>)

lemma currency_plain: "raw_plain i \<Longrightarrow> plain (currency i)"
  unfolding currency_def by (rule orDefault_plain) (simp_all add: raw_plain_def xml_plain_def)

lemma allowance_facts:
  assumes "number_layouts L" and "raw_plain i"
  shows "scan None st (writeAllowanceCharge F L i @ r) = scan None st r" "block (writeAllowanceCharge F L i)"
proof -
  have cat: "plain (allowance_category i)"
    using assms(2) by (simp add: allowance_category_def raw_plain_def TaxStandard_def xml_plain_def)
  note facts = cat currency_plain [OF assms(2)] number_layoutsD [OF assms(1)] tax_category_facts
  show "scan None st (writeAllowanceCharge F L i @ r) = scan None st r"
    by (simp add: writeAllowanceCharge_def scan_rules tag_name_def facts)
  show "block (writeAllowanceCharge F L i)"
    unfolding writeAllowanceCharge_def by (intro block_rules) (simp_all add: facts)
qed

text \<open>The category of a group is the category of one of the lines.\<close>

definition categories :: "(string \<times> 'f taxGroup) list \<Rightarrow> string list" where
  "categories gs = map (\<lambda>(k, g). tg_category g) gs"

lemma group_line_categories:
  "categories (group_line F L gs l) = categories gs @ (if map_of gs (group_key L l) = None then [li_TaxCategory l] else [])"
proof -
  have keep: "categories (map (\<lambda>(k, g). (k, if k = key then add_line F l g else g)) xs) = categories xs" for key xs
    by (auto simp: categories_def add_line_def)
  show ?thesis unfolding group_line_def Let_def keep by (simp add: categories_def split: option.splits)
qed

lemma taxGroups_categories:
  assumes "g \<in> set (taxGroups F L i)"
  shows "tg_category g \<in> li_TaxCategory ` set (in_Lines i)"
proof -
  have step: "set (categories (foldl (group_line F L) gs ls)) \<subseteq> set (categories gs) \<union> li_TaxCategory ` set ls" for gs ls
  proof (induction ls arbitrary: gs)
    case (Cons l ls)
    from Cons [of "group_line F L gs l"] show ?case
      by (auto simp: group_line_categories split: if_splits)
  qed simp
  obtain k h where "(k, h) \<in> set (foldl (group_line F L) [] (in_Lines i))" "tg_category g = tg_category h"
    using assms by (auto simp: taxGroups_def round_group_def)
  then have "tg_category g \<in> set (categories (foldl (group_line F L) [] (in_Lines i)))"
    by (force simp: categories_def)
  with step [of "[]" "in_Lines i"] show ?thesis by (auto simp: categories_def)
qed

lemma taxGroups_plain: "raw_plain i \<Longrightarrow> g \<in> set (taxGroups F L i) \<Longrightarrow> plain (tg_category g)"
  using taxGroups_categories [of g F L i] by (auto simp: raw_plain_def list_all_iff)

lemma tax_subtotal_facts:
  assumes "number_layouts L" and "plain cur" and "plain (tg_category g)"
  shows "scan None st (tax_subtotal L cur g @ r) = scan None st r" "block (tax_subtotal L cur g)"
proof -
  note facts = assms(2,3) number_layoutsD [OF assms(1)] tax_category_facts
  show "scan None st (tax_subtotal L cur g @ r) = scan None st r"
    by (simp add: tax_subtotal_def scan_rules tag_name_def facts)
  show "block (tax_subtotal L cur g)"
    unfolding tax_subtotal_def by (intro block_rules) (simp_all add: facts)
qed

lemma scan_concat:
  "(\<And>x st r. x \<in> set xs \<Longrightarrow> scan None st (x @ r) = scan None st r) \<Longrightarrow> scan None st (concat xs @ r) = scan None st r"
  by (induction xs) auto

lemma tax_totals_facts:
  assumes "number_layouts L" and "raw_plain i"
  shows "scan None st (writeTaxTotals F L i @ r) = scan None st r" "block (writeTaxTotals F L i)"
proof -
  note facts = currency_plain [OF assms(2)] number_layoutsD [OF assms(1)]
  note subtotal = tax_subtotal_facts [OF assms(1) facts(1) taxGroups_plain [OF assms(2)]]
  have all: "scan None st (concat (map (tax_subtotal L (currency i)) (taxGroups F L i)) @ r) = scan None st r" for st r
    by (rule scan_concat) (auto simp: subtotal)
  show "scan None st (writeTaxTotals F L i @ r) = scan None st r"
    by (simp add: writeTaxTotals_def Let_def scan_rules tag_name_def facts all)
  show "block (writeTaxTotals F L i)"
    unfolding writeTaxTotals_def Let_def by (intro block_rules block_concat) (auto simp: facts subtotal)
qed

lemma monetary_total_facts:
  assumes "number_layouts L" and "raw_plain i"
  shows "scan None st (writeLegalMonetaryTotal F L i @ r) = scan None st r" "block (writeLegalMonetaryTotal F L i)"
proof -
  have zero: "plain ''0.00''" by (simp add: xml_plain_def)
  note facts = currency_plain [OF assms(2)] number_layoutsD [OF assms(1)] zero
  show "scan None st (writeLegalMonetaryTotal F L i @ r) = scan None st r"
    by (simp add: writeLegalMonetaryTotal_def Let_def scan_rules tag_name_def facts xml_plain_def)
  show "block (writeLegalMonetaryTotal F L i)"
    unfolding writeLegalMonetaryTotal_def Let_def by (intro block_rules) (simp_all add: facts xml_plain_def)
qed

lemma line_facts:
  assumes "number_layouts L" and "raw_plain i" and "plain (li_UnitCode l)"
  shows "scan None st (writeLine F L i l k @ r) = scan None st r" "block (writeLine F L i l k)"
proof -
  have unit: "plain (orDefault (li_UnitCode l) ''PCE'')"
    using assms(3) by (rule orDefault_plain) (simp add: xml_plain_def)
  note facts = currency_plain [OF assms(2)] number_layoutsD [OF assms(1)] plain_no_angle [OF unit] plain_no_newline [OF unit]
  show "scan None st (writeLine F L i l k @ r) = scan None st r"
    by (simp add: writeLine_def Let_def scan_rules tag_name_def facts plain_no_angle)
  show "block (writeLine F L i l k)"
    unfolding writeLine_def Let_def by (intro block_rules) (simp_all add: block_rules facts plain_no_newline)
qed

lemma lines_facts:
  assumes "number_layouts L" and "raw_plain i"
  shows "scan None st (write_lines F L i @ r) = scan None st r" "block (write_lines F L i)"
proof -
  have unit: "plain (li_UnitCode l)" if "(l, k) \<in> set (zip (in_Lines i) ks)" for l k ks
    using assms(2) that by (auto simp: raw_plain_def list_all_iff dest: set_zip_leftD)
  show "scan None st (write_lines F L i @ r) = scan None st r"
    unfolding write_lines_def by (rule scan_concat) (auto intro!: line_facts(1) assms unit)
  show "block (write_lines F L i)"
    unfolding write_lines_def by (rule block_concat) (auto intro!: line_facts(2) assms unit)
qed

lemma header_facts:
  assumes "raw_plain i"
  shows "scan None st (document_header L i @ r) = scan None st r" "block (document_header L i)"
proof -
  have sub: "plain (in_SubType i)" using assms by (simp add: raw_plain_def)
  note facts = plain_no_angle [OF sub] plain_no_newline [OF sub] plain_no_angle [OF show_int_plain] plain_no_newline [OF show_int_plain]
  show "scan None st (document_header L i @ r) = scan None st r"
    by (simp add: document_header_def scan_rules tag_name_def facts plain_no_angle)
  show "block (document_header L i)"
    unfolding document_header_def by (intro block_rules) (simp_all add: block_rules facts plain_no_newline)
qed

lemma middle_facts:
  "scan None st (signature_reference @ r) = scan None st r" "block signature_reference"
  "scan None st (delivery_and_payment L i @ r) = scan None st r" "block (delivery_and_payment L i)"
  by (simp add: signature_reference_def scan_rules tag_name_def)
    (unfold signature_reference_def delivery_and_payment_def, intro block_rules,
     simp_all add: scan_rules tag_name_def block_rules)

lemma scan_head: "scan None st (xml_head @ r) = scan None (''Invoice'' # st) r"
proof -
  have "scan None st (xml_head @ r) =
      scan None st (''<'' @ ''Invoice'' @ (attr ''xmlns'' nsInvoice @ attr ''xmlns:cac'' nsCAC @ attr ''xmlns:cbc'' nsCBC @ attr ''xmlns:ext'' nsEXT) @ ''>'' @ r)"
    by (simp add: xml_head_def newline_def end_tag_def)
  also have "\<dots> = scan None (''Invoice'' # st) r"
    by (rule scan_open) (simp_all add: tag_name_def namespaces)
  finally show ?thesis .
qed

lemma ToXML_form:
  assumes "ToXML F L i = Inr xml" and "number_layouts L" and "raw_plain i"
  obtains body where "xml = xml_head @ body @ ''</Invoice>''" and "block body"
    and "\<And>st r. scan None st (body @ r) = scan None st r"
proof -
  let ?charge = "if fl_lt F (fl_int F 0) (in_Discount i) then writeAllowanceCharge F L i else []"
  let ?body = "writeUBLExtensions @ document_header L i @ writeAdditionalDocRefs i @ signature_reference @
    writeSupplier i @ writeCustomer i @ delivery_and_payment L i @ ?charge @
    writeTaxTotals F L i @ writeLegalMonetaryTotal F L i @ write_lines F L i"
  have pih: "plain (in_PreviousInvoiceHash i)" using assms(3) by (simp add: raw_plain_def)
  note facts = header_facts [OF assms(3)] doc_refs_facts [OF pih] supplier_facts customer_facts middle_facts
    allowance_facts [OF assms(2,3)] tax_totals_facts [OF assms(2,3)] monetary_total_facts [OF assms(2,3)] lines_facts [OF assms(2,3)]
  show thesis
  proof (rule that)
    show "xml = xml_head @ ?body @ ''</Invoice>''"
      using assms(1) by (auto simp: ToXML_def split: option.splits)
    show "block ?body"
      by (intro block_append) (simp_all add: block_writeUBLExtensions block_Nil facts)
    show "scan None st (?body @ r) = scan None st r" for st r
      by (simp add: scan_writeUBLExtensions facts)
  qed
qed

lemma ToXML_scan:
  assumes "ToXML F L i = Inr xml" and "number_layouts L" and "raw_plain i"
  shows "scan None [] xml = Some []"
proof -
  obtain body where xml: "xml = xml_head @ body @ ''</Invoice>''"
    and body: "\<And>st r. scan None st (body @ r) = scan None st r"
    using ToXML_form [OF assms] by metis
  have "scan None [] xml = scan None [''Invoice''] ''</Invoice>''"
    unfolding xml scan_head body ..
  also have "\<dots> = Some []" by (simp add: end_tag_def)
  finally show ?thesis .
qed

text \<open>C32: the document is well formed: in the XML of every invoice that the writer accepts, each closing tag
  closes the element that was opened last, and at the end every element is closed.  Names, notes and
  addresses may hold any text; the values that the writer does not escape (subtype, previous hash,
  currency, tax category, unit code) and the formatted numbers hold no angle bracket, quote or line
  end.\<close>

theorem ubl_tags_balanced:
  assumes "ToXML F L i = Inr xml" and "number_layouts L" and "raw_plain i"
  shows "scan None [] xml = Some []"
  using assms by (rule ToXML_scan)

lemma lined_weaken: "lined True s \<Longrightarrow> lined False s"
  by (cases s) auto

lemma ToXML_lined:
  assumes "ToXML F L i = Inr xml" and "number_layouts L" and "raw_plain i"
  shows "lined True xml"
proof -
  obtain body where xml: "xml = xml_head @ body @ ''</Invoice>''" and body: "block body"
    using ToXML_form [OF assms] by metis
  have "last xml_head \<noteq> CHR 0x0A" "xml_head \<noteq> []" "lined True xml_head"
    by (simp_all add: xml_head_def attr_def namespaces newline_def)
  moreover have "lined False body" "lined (if body = [] then False else last body = CHR 0x0A) ''</Invoice>''"
    using body lined_weaken by (auto simp: block_def)
  ultimately show ?thesis by (auto simp: xml lined_append)
qed

text \<open>C33: the SDK wrapper hands the document to the tool unchanged.  For the XML of an accepted invoice whose
  unescaped fields (subtype, previous hash, currency, tax categories, unit codes) hold no angle bracket,
  quotation mark or line end, and for credentials whose base64 bodies hold no apostrophe, bash runs each of
  the four scripts of the wrapper, whole, up to the wrapper's own call of the tool.  At that call the file
  of the invoice holds exactly the XML and a line end, for signing and for the API request the two
  credential files hold the bodies of the key and the certificate, and what follows the call are the
  wrapper's own commands.\<close>

theorem ubl_reaches_tool:
  assumes "ToXML F L i = Inr xml" and "number_layouts L" and "raw_plain i" and "unquoted s"
  shows "bash_run files (split_on (CHR 0x0A) (sign_script s xml)) =
      Some ((credential_files s files)(''/tmp/invoice.xml'' \<mapsto> xml @ newline),
        ''fatoora -sign -invoice /tmp/invoice.xml -signedInvoice /tmp/signed.xml '' @ envFlag s,
        [''echo \"===SIGNED===\"'', ''cat /tmp/signed.xml'', []]) \<and>
    bash_run files (split_on (CHR 0x0A) (api_script s xml)) =
      Some ((credential_files s files)(''/tmp/invoice.xml'' \<mapsto> xml @ newline),
        ''fatoora -invoice /tmp/invoice.xml -invoiceRequest -apiRequest /tmp/api.json '' @ envFlag s, [''cat /tmp/api.json'', []]) \<and>
    bash_run files (split_on (CHR 0x0A) (validate_script s xml)) =
      Some (files(''/tmp/invoice.xml'' \<mapsto> xml @ newline), ''fatoora -validate -invoice /tmp/invoice.xml '' @ envFlag s, [[]]) \<and>
    bash_run files (split_on (CHR 0x0A) (hash_script s xml)) =
      Some (files(''/tmp/invoice.xml'' \<mapsto> xml @ newline), ''fatoora -generateHash -invoice /tmp/invoice.xml '' @ envFlag s, [[]])"
proof -
  have "''XMLEOF'' \<notin> set (split_on (CHR 0x0A) xml)"
    using lined_lines [OF ToXML_lined [OF assms(1-3)], of "''XMLEOF''"] by auto
  from scripts_run [OF this] assms(4) show ?thesis by blast
qed

section \<open>Subtotals\<close>

definition lines_of :: "'f layouts \<Rightarrow> 'f line_item list \<Rightarrow> string \<Rightarrow> 'f line_item list" where
  "lines_of L ls k = filter (\<lambda>l. group_key L l = k) ls"

text \<open>The keys of the lines, each where it first appears.\<close>

definition keys_of :: "'f layouts \<Rightarrow> 'f line_item list \<Rightarrow> string list" where
  "keys_of L ls = rev (remdups (rev (map (group_key L) ls)))"

definition group_of :: "'f flops \<Rightarrow> 'f layouts \<Rightarrow> 'f line_item list \<Rightarrow> string \<Rightarrow> 'f taxGroup" where
  "group_of F L ls k = \<lparr>tg_category = li_TaxCategory (hd (lines_of L ls k)), tg_percent = li_TaxPercent (hd (lines_of L ls k)),
     tg_taxable = foldl (\<lambda>s l. fl_add F s (line_NetAmount F l)) (fl_int F 0) (lines_of L ls k),
     tg_tax = foldl (\<lambda>s l. fl_add F s (line_TaxAmount F l)) (fl_int F 0) (lines_of L ls k)\<rparr>"

lemma keys_of_snoc: "keys_of L (ls @ [l]) = (if group_key L l \<in> set (keys_of L ls) then keys_of L ls else keys_of L ls @ [group_key L l])"
  by (auto simp: keys_of_def)

lemma keys_of_facts: "distinct (keys_of L ls)" "set (keys_of L ls) = group_key L ` set ls"
  by (simp_all add: keys_of_def)

lemma lines_of_empty: "lines_of L ls k = [] \<longleftrightarrow> k \<notin> set (keys_of L ls)"
  by (auto simp: lines_of_def keys_of_facts filter_empty_conv)

lemma group_of_snoc:
  "group_of F L (ls @ [l]) k =
     (if k \<noteq> group_key L l then group_of F L ls k
      else add_line F l (if k \<in> set (keys_of L ls) then group_of F L ls k
        else \<lparr>tg_category = li_TaxCategory l, tg_percent = li_TaxPercent l, tg_taxable = fl_int F 0, tg_tax = fl_int F 0\<rparr>))"
proof -
  have "lines_of L (ls @ [l]) k = lines_of L ls k @ (if k = group_key L l then [l] else [])"
    by (simp add: lines_of_def)
  then show ?thesis
    using lines_of_empty [of L ls k] by (auto simp: group_of_def add_line_def hd_append)
qed

lemma map_of_keys: "map_of (map (\<lambda>k. (k, f k)) ks) k = (if k \<in> set ks then Some (f k) else None)"
  by (induction ks) auto

text \<open>The groups the writer collects are those of the keys, with the amounts of the lines of each key.\<close>

lemma groups_of_lines: "foldl (group_line F L) [] ls = map (\<lambda>k. (k, group_of F L ls k)) (keys_of L ls)"
proof (induction ls rule: rev_induct)
  case (snoc l ls)
  then show ?case
    by (auto simp: group_line_def Let_def map_of_keys keys_of_snoc group_of_snoc)
qed (simp add: keys_of_def)

lemma sum_over_keys:
  fixes f :: "'f line_item \<Rightarrow> int"
  shows "(\<Sum>k \<leftarrow> keys_of L ls. sum_list (map f (lines_of L ls k))) = sum_list (map f ls)"
proof -
  have "set (keys_of L ls) \<subseteq> K \<Longrightarrow> finite K \<Longrightarrow> (\<Sum>k \<in> K. sum_list (map f (lines_of L ls k))) = sum_list (map f ls)" for K
  proof (induction ls)
    case (Cons l ls)
    then have "group_key L l \<in> K" "set (keys_of L ls) \<subseteq> K" by (auto simp: keys_of_facts)
    moreover have "(\<Sum>k \<in> K. sum_list (map f (lines_of L (l # ls) k))) =
        (\<Sum>k \<in> K. (if k = group_key L l then f l else 0) + sum_list (map f (lines_of L ls k)))"
      by (intro sum.cong) (auto simp: lines_of_def)
    ultimately show ?case using Cons by (simp add: sum.distrib)
  qed (simp add: lines_of_def)
  from this [of "set (keys_of L ls)"] show ?thesis
    using keys_of_facts(1) [of L ls] by (simp add: sum_list_distinct_conv_sum_set)
qed

lemma round_group_of:
  assumes "\<forall>l \<in> set ls. line_cents net tax l" and "sum_list (map net ls) \<le> 2 ^ 37" and "sum_list (map tax ls) \<le> 2 ^ 37"
    and "length ls \<le> 1000"
  shows "round_group ieee (group_of ieee L ls k) =
    \<lparr>tg_category = li_TaxCategory (hd (lines_of L ls k)), tg_percent = li_TaxPercent (hd (lines_of L ls k)),
     tg_taxable = money (sum_list (map net (lines_of L ls k))), tg_tax = money (sum_list (map tax (lines_of L ls k)))\<rparr>"
proof -
  let ?ks = "lines_of L ls k"
  have part: "sum_list (map f ?ks) \<le> sum_list (map f ls)" if "\<forall>l \<in> set ls. 0 \<le> f l" for f :: "float64 line_item \<Rightarrow> int"
    using that by (induction ls) (auto simp: lines_of_def)
  have c: "\<forall>l \<in> set ?ks. line_cents net tax l" using assms(1) by (auto simp: lines_of_def)
  moreover have "length ?ks \<le> 1000" using assms(4) length_filter_le order_trans unfolding lines_of_def by blast
  moreover have "sum_list (map net ?ks) \<le> 2 ^ 37" "sum_list (map tax ?ks) \<le> 2 ^ 37"
    using part [of net] part [of tax] assms(1-3) by (auto simp: line_cents_def)
  ultimately show ?thesis
    using total_cents [of ?ks "line_NetAmount ieee" net] total_cents [of ?ks "line_TaxAmount ieee" tax]
    by (simp add: round_group_def group_of_def line_cents_def)
qed


section \<open>A concrete document\<close>

definition sample_layouts :: "float64 layouts" where
  "sample_layouts = \<lparr>ly_amount = \<lambda>v. show_int \<lfloor>val v\<rfloor> @ ''.00'', ly_float = \<lambda>v. show_int \<lfloor>val v\<rfloor> @ ''.000000'',
     ly_date = \<lambda>_. ''2024-01-01'', ly_clock = \<lambda>_. ''10:00:00''\<rparr>"


definition sample_document :: "float64 invoice" where
  "sample_document = sample_sale\<lparr>in_UUID := ''u-1'', in_PreviousInvoiceHash := ''NWZl'', in_Note := ''a < b & c'' @ newline @ ''XMLEOF'',
     in_Supplier := no_party\<lparr>pt_VAT := ''300000000000003''\<rparr>\<rparr>"

lemma sample_document_ok:
  "number_layouts sample_layouts" "raw_plain sample_document" "\<exists>xml. ToXML ieee sample_layouts sample_document = Inr xml"
proof -
  show "number_layouts sample_layouts"
    by (simp add: number_layouts_def sample_layouts_def show_int_plain) (simp add: xml_plain_def)
  show "raw_plain sample_document"
    by (simp add: raw_plain_def sample_document_def sample_sale_def sample_line_def SubTypeSimplified_def TaxStandard_def xml_plain_def)
  have "invoice_validate sample_document = None"
    by (simp add: invoice_validate_def sample_document_def sample_sale_def IsStandard_def SubTypeSimplified_def SubTypeStandard_def)
  then show "\<exists>xml. ToXML ieee sample_layouts sample_document = Inr xml"
    by (simp add: ToXML_def)
qed

theorem ubl_tags_balanced_witness:
  "\<exists>xml. ToXML ieee sample_layouts sample_document = Inr xml \<and> scan None [] xml = Some []"
  using ubl_tags_balanced [OF _ sample_document_ok(1,2)] sample_document_ok(3) by blast

theorem ubl_reaches_tool_witness:
  "\<exists>xml. ToXML ieee sample_layouts sample_document = Inr xml \<and>
     (\<exists>rest. bash_run (\<lambda>_. None) (split_on (CHR 0x0A) (sign_script \<lparr>sdk_env = Sandbox, sdk_privateKey = ''a2V5'', sdk_certPEM = ''Y2VydA==''\<rparr> xml)) =
       Some ((credential_files \<lparr>sdk_env = Sandbox, sdk_privateKey = ''a2V5'', sdk_certPEM = ''Y2VydA==''\<rparr> (\<lambda>_. None))(''/tmp/invoice.xml'' \<mapsto> xml @ newline), rest))"
proof -
  have creds: "unquoted \<lparr>sdk_env = Sandbox, sdk_privateKey = ''a2V5'', sdk_certPEM = ''Y2VydA==''\<rparr>"
    by (simp add: unquoted_def stripPEMArmor_def pem_marker_def has_prefix_def trim_space_graphic graphic_def list_ex_iff blank_def blank_rune_def)
  from sample_document_ok(3) obtain xml where xml: "ToXML ieee sample_layouts sample_document = Inr xml" by blast
  from ubl_reaches_tool [OF xml sample_document_ok(1,2) creds] xml show ?thesis by blast
qed

text \<open>C35: escaping loses nothing and lets nothing through: for every text of valid UTF-8 whose characters XML
  allows, reading the escaped text back gives the text, and the escaped text has no angle bracket, no
  quotation mark and no line end.\<close>

theorem escape_roundtrip:
  assumes "xml_text s"
  shows "xml_unescape (xmlEscape s) = s \<and> plain (xmlEscape s)"
  using xml_unescape_escape [OF assms] by simp

theorem escape_roundtrip_witness:
  "xml_unescape (xmlEscape ''a < b & <c>'') = ''a < b & <c>'' \<and> plain (xmlEscape ''a < b & <c>'')"
  by (rule escape_roundtrip) (simp add: xml_text.simps(2) isInCharacterRange_def rune_error_def)

end
