(* ===== verification/Text_Codec.thy ===== *)
theory Text_Codec
  imports Go_Prelude
begin

text \<open>
  The text encodings the sources use: \<open>base64.StdEncoding\<close> of the Go library, with its error
  offsets, and the hexadecimal decoder of \<open>secutil/secutil.go\<close>.
\<close>

section \<open>Base64\<close>

definition b64_char :: "nat \<Rightarrow> char" where
  "b64_char n =
     char_of (if n < 26 then 65 + n else if n < 52 then 71 + n else if n < 62 then n - 4
              else if n = 62 then 43 else 47)"

definition b64_val :: "char \<Rightarrow> nat option" where
  "b64_val c =
     (let b = byte_of c in
      if 65 \<le> b \<and> b \<le> 90 then Some (b - 65)
      else if 97 \<le> b \<and> b \<le> 122 then Some (b - 71)
      else if 48 \<le> b \<and> b \<le> 57 then Some (b + 4)
      else if b = 43 then Some 62
      else if b = 47 then Some 63
      else None)"

text \<open>\<open>EncodeToString\<close>: three bytes become four characters, the last group is padded.\<close>

fun b64_encode :: "string \<Rightarrow> string" where
  "b64_encode [] = []"
| "b64_encode [x] =
     [b64_char (byte_of x div 4), b64_char (byte_of x mod 4 * 16), CHR ''='', CHR ''='']"
| "b64_encode [x, y] =
     [b64_char (byte_of x div 4), b64_char (byte_of x mod 4 * 16 + byte_of y div 16),
      b64_char (byte_of y mod 16 * 4), CHR ''='']"
| "b64_encode (x # y # z # rest) =
     b64_char (byte_of x div 4) # b64_char (byte_of x mod 4 * 16 + byte_of y div 16) #
     b64_char (byte_of y mod 16 * 4 + byte_of z div 64) # b64_char (byte_of z mod 64) # b64_encode rest"

text \<open>The bytes of a group of two, three or four sextets.\<close>

fun b64_bytes :: "nat list \<Rightarrow> string" where
  "b64_bytes [a, b] = [char_of (a * 4 + b div 16)]"
| "b64_bytes [a, b, c] = [char_of (a * 4 + b div 16), char_of (b mod 16 * 16 + c div 4)]"
| "b64_bytes [a, b, c, d] =
     [char_of (a * 4 + b div 16), char_of (b mod 16 * 16 + c div 4), char_of (c mod 4 * 64 + d)]"
| "b64_bytes _ = []"

definition is_newline :: "char \<Rightarrow> bool" where
  "is_newline c \<longleftrightarrow> c = CHR 0x0A \<or> c = CHR 0x0D"

definition skip_newlines :: "nat \<times> string \<Rightarrow> nat \<times> string" where
  "skip_newlines p = (fst p + length (takeWhile is_newline (snd p)), dropWhile is_newline (snd p))"

text \<open>After the first padding character: \<open>Inl\<close> is the offset of the error.\<close>

definition b64_pad :: "nat \<Rightarrow> nat list \<Rightarrow> string \<Rightarrow> nat + string" where
  "b64_pad pos acc cs =
     (if length acc < 2 then Inl pos
      else
        let (p1, r1) = skip_newlines (pos + 1, cs) in
        if length acc = 2 \<and> r1 = [] then Inl p1
        else if length acc = 2 \<and> hd r1 \<noteq> CHR ''='' then Inl (p1 - 1)
        else
          let (p2, r2) = skip_newlines (if length acc = 2 then (p1 + 1, tl r1) else (p1, r1)) in
          if r2 = [] then Inr (b64_bytes acc) else Inl p2)"

text \<open>\<open>DecodeString\<close>, with the sextets of the current group.  Newlines are skipped anywhere.\<close>

fun b64_run :: "nat \<Rightarrow> nat list \<Rightarrow> string \<Rightarrow> nat + string" where
  "b64_run pos acc [] = (if acc = [] then Inr [] else Inl (pos - length acc))"
| "b64_run pos acc (c # cs) =
     (if is_newline c then b64_run (pos + 1) acc cs
      else if c = CHR ''='' then b64_pad pos acc cs
      else
        case b64_val c of
          None \<Rightarrow> Inl pos
        | Some v \<Rightarrow>
            (if length acc = 3 then
               (case b64_run (pos + 1) [] cs of
                  Inl k \<Rightarrow> Inl k
                | Inr rest \<Rightarrow> Inr (b64_bytes (acc @ [v]) @ rest))
             else b64_run (pos + 1) (acc @ [v]) cs))"

definition CorruptInputError :: "nat \<Rightarrow> goerr" where
  "CorruptInputError k = NewError (''illegal base64 data at input byte '' @ show_nat k)"

definition b64_decode :: "string \<Rightarrow> goerr + string" where
  "b64_decode s = (case b64_run 0 [] s of Inl k \<Rightarrow> Inl (CorruptInputError k) | Inr bs \<Rightarrow> Inr bs)"

lemma b64_char_facts [simp]:
  assumes "n < 64"
  shows "b64_val (b64_char n) = Some n" "\<not> is_newline (b64_char n)" "b64_char n \<noteq> CHR ''=''"
proof -
  have val: "b64_val (b64_char n) = Some n"
    using assms by (auto simp: b64_val_def b64_char_def Let_def of_char_of)
  then show "b64_val (b64_char n) = Some n" .
  show "\<not> is_newline (b64_char n)" "b64_char n \<noteq> CHR ''=''"
    using val by (auto simp: is_newline_def b64_val_def)
qed

lemma byte_bound: "byte_of c < (256 :: nat)"
  by (metis mod_less_divisor of_char_mod_256 zero_less_numeral)

lemma byte_parts [simp]:
  "byte_of x div 4 < (64 :: nat)" "byte_of x div 16 < (16 :: nat)" "byte_of x div 64 < (4 :: nat)"
  using byte_bound [of x] by linarith+

lemma sextets [simp]:
  "byte_of x mod 4 * 16 < (64 :: nat)" "byte_of x mod 16 * 4 < (64 :: nat)"
  "byte_of x mod 4 * 16 + byte_of y div 16 < (64 :: nat)"
  "byte_of x mod 16 * 4 + byte_of y div 64 < (64 :: nat)"
  using byte_parts [of y] mod_less_divisor [of 4 "byte_of x"] mod_less_divisor [of 16 "byte_of x"] by linarith+

lemma pad_not_newline [simp]: "\<not> is_newline (CHR ''='')"
  by (simp add: is_newline_def)

text \<open>Splitting a byte over two sextets and joining it again.\<close>

lemma digits: "q < m \<Longrightarrow> (a * m + q) div m = a" "q < m \<Longrightarrow> (a * m + q) mod m = (q :: nat)"
  by auto

lemma digit_zero: "0 < m \<Longrightarrow> a * m div m = (a :: nat)"
  by simp

lemma group_bytes:
  "b64_bytes [byte_of x div 4, byte_of x mod 4 * 16] = [x]"
  "b64_bytes [byte_of x div 4, byte_of x mod 4 * 16 + byte_of y div 16, byte_of y mod 16 * 4] = [x, y]"
  "b64_bytes [byte_of x div 4, byte_of x mod 4 * 16 + byte_of y div 16, byte_of y mod 16 * 4 + byte_of z div 64,
     byte_of z mod 64] = [x, y, z]"
  using byte_parts(2) [of y] byte_parts(3) [of z]
  by (simp_all only: b64_bytes.simps digits digit_zero zero_less_numeral div_mult_mod_eq char_of_char)

lemma b64_run_encode: "b64_run pos [] (b64_encode s) = Inr s"
proof (induction s arbitrary: pos rule: b64_encode.induct)
  case (4 x y z rest)
  then show ?case by (simp add: group_bytes del: b64_bytes.simps)
qed (simp_all add: b64_pad_def skip_newlines_def group_bytes del: b64_bytes.simps)

lemma b64_decode_encode [simp]: "b64_decode (b64_encode s) = Inr s"
  by (simp add: b64_decode_def b64_run_encode)

lemma b64_encode_length: "length (b64_encode s) = 4 * ((length s + 2) div 3)"
proof (induction s rule: b64_encode.induct)
  case (4 x y z rest)
  have "(length (x # y # z # rest) + 2) div 3 = Suc ((length rest + 2) div 3)"
    by simp
  with 4 show ?case by (simp del: One_nat_def)
qed auto

section \<open>Hexadecimal\<close>

definition hexVal :: "char \<Rightarrow> goerr + nat" where
  "hexVal c =
     (case hex_val c of
        Some v \<Rightarrow> Inr v
      | None \<Rightarrow> Inl (NewError (''invalid hex char: '' @ encode_rune (byte_of c))))"

fun hex_pairs :: "string \<Rightarrow> goerr + string" where
  "hex_pairs (c # d # rest) =
     (case hexVal c of
        Inl e \<Rightarrow> Inl e
      | Inr hi \<Rightarrow>
        (case hexVal d of
           Inl e \<Rightarrow> Inl e
         | Inr lo \<Rightarrow>
           (case hex_pairs rest of Inl e \<Rightarrow> Inl e | Inr bs \<Rightarrow> Inr (char_of (hi * 16 + lo) # bs))))"
| "hex_pairs _ = Inr []"

definition decodeHex :: "string \<Rightarrow> goerr + string" where
  "decodeHex s = (if length s mod 2 \<noteq> 0 then Inl (NewError ''odd-length hex'') else hex_pairs s)"

text \<open>The usual spelling of bytes in hexadecimal.\<close>

fun hex_encode :: "string \<Rightarrow> string" where
  "hex_encode [] = []"
| "hex_encode (c # cs) = hex_digit (byte_of c div 16) # hex_digit (byte_of c mod 16) # hex_encode cs"

lemma hexVal_digit [simp]: "n < 16 \<Longrightarrow> hexVal (hex_digit n) = Inr n"
  by (auto simp: hexVal_def hex_digit_def hex_val_def Let_def of_char_of)

lemma hex_encode_length [simp]: "length (hex_encode s) = 2 * length s"
  by (induction s) auto

lemma hex_pairs_encode: "hex_pairs (hex_encode s) = Inr s"
proof (induction s)
  case (Cons c cs)
  then show ?case by simp
qed simp

lemma decodeHex_encode [simp]: "decodeHex (hex_encode s) = Inr s"
  by (simp add: decodeHex_def hex_pairs_encode)

lemma hex_pairs_length: "hex_pairs s = Inr bs \<Longrightarrow> length bs = length s div 2"
  by (induction s arbitrary: bs rule: hex_pairs.induct) (auto split: sum.splits)

end
