(* ===== verification/Invoice_Hash.thy ===== *)
theory Invoice_Hash
  imports Text_Codec
begin

text \<open>
  The hash of an invoice document, \<open>crypto/hash.go\<close>: three parts are taken out of the document tree and the
  rest is canonicalized and hashed.  Documents are trees of the tokens of the \<open>etree\<close> package; its
  parser and writer, the C14N11 canonicalizer and SHA-256 are arguments.
\<close>

section \<open>Document trees\<close>

record attribute =
  at_Space :: string
  at_Key :: string
  at_Value :: string

datatype element = Element (el_Space: string) (el_Tag: string) (el_Attr: "attribute list") (el_Child: "token list")
  and token = Node element | CharData string | Comment string | OtherToken string

text \<open>\<open>ChildElements\<close> and \<open>Text\<close> of an element: the character data before the first other token, comments
  aside.\<close>

fun node_of :: "token \<Rightarrow> element option" where
  "node_of (Node e) = Some e"
| "node_of _ = None"

definition ChildElements :: "element \<Rightarrow> element list" where
  "ChildElements e = List.map_filter node_of (el_Child e)"

fun leading_text :: "token list \<Rightarrow> string" where
  "leading_text (CharData d # ts) = d @ leading_text ts"
| "leading_text (Comment _ # ts) = leading_text ts"
| "leading_text _ = []"

definition elem_text :: "element \<Rightarrow> string" where
  "elem_text e = leading_text (el_Child e)"

text \<open>\<open>RemoveChild\<close> of the first child element that satisfies a test, if there is one.\<close>

fun remove_first :: "(element \<Rightarrow> bool) \<Rightarrow> token list \<Rightarrow> token list" where
  "remove_first p [] = []"
| "remove_first p (t # ts) =
     (case node_of t of
        Some e \<Rightarrow> if p e then ts else t # remove_first p ts
      | None \<Rightarrow> t # remove_first p ts)"

definition with_children :: "token list \<Rightarrow> element \<Rightarrow> element" where
  "with_children ts e = Element (el_Space e) (el_Tag e) (el_Attr e) ts"

section \<open>Removing the excluded parts\<close>

definition nsExt :: string where "nsExt = ''urn:oasis:names:specification:ubl:schema:xsd:CommonExtensionComponents-2''"
definition hash_nsCAC :: string where "hash_nsCAC = ''urn:oasis:names:specification:ubl:schema:xsd:CommonAggregateComponents-2''"

text \<open>An element is given with its ancestors, nearest first, by their attributes.\<close>

definition declares :: "string \<Rightarrow> attribute \<Rightarrow> bool" where
  "declares prefix a \<longleftrightarrow> (at_Space a = ''xmlns'' \<and> at_Key a = prefix) \<or> (at_Space a = [] \<and> at_Key a = ''xmlns'' \<and> prefix = [])"

definition resolveNamespace :: "attribute list list \<Rightarrow> string \<Rightarrow> string" where
  "resolveNamespace chain prefix =
     (case find (declares prefix) (concat chain) of None \<Rightarrow> [] | Some a \<Rightarrow> at_Value a)"

definition child_named :: "attribute list list \<Rightarrow> element \<Rightarrow> string \<Rightarrow> string \<Rightarrow> element \<Rightarrow> bool" where
  "child_named outer parent space tag child \<longleftrightarrow>
     (el_Space child \<noteq> [] \<and> resolveNamespace (el_Attr parent # outer) (el_Space child) = space \<and> el_Tag child = tag) \<or>
     (el_Tag child = tag \<and>
      list_ex (\<lambda>a. at_Key a = el_Space child \<and> at_Space a = ''xmlns'' \<and> at_Value a = space) (el_Attr parent))"

definition removeChildElement :: "attribute list list \<Rightarrow> string \<Rightarrow> string \<Rightarrow> element \<Rightarrow> element" where
  "removeChildElement outer space tag parent =
     with_children (remove_first (child_named outer parent space tag) (el_Child parent)) parent"

definition qr_reference :: "element \<Rightarrow> bool" where
  "qr_reference child \<longleftrightarrow> el_Tag child = ''AdditionalDocumentReference'' \<and>
     list_ex (\<lambda>sub. el_Tag sub = ''ID'' \<and> trim_space (elem_text sub) = ''QR'') (ChildElements child)"

definition removeQRReference :: "element \<Rightarrow> element" where
  "removeQRReference root = with_children (remove_first qr_reference (el_Child root)) root"

text \<open>The three removals; the root's only ancestor is the document, which has no attributes.\<close>

definition strip_excluded :: "element \<Rightarrow> element" where
  "strip_excluded root =
     removeQRReference (removeChildElement [[]] hash_nsCAC ''Signature'' (removeChildElement [[]] nsExt ''UBLExtensions'' root))"

section \<open>Hashes\<close>

record xml_env =
  xe_read :: "string \<Rightarrow> goerr + element option" \<comment> \<open>\<open>ReadFromString\<close> and \<open>Root\<close>\<close>
  xe_c14n :: "element \<Rightarrow> goerr + string"
  xe_write :: "string \<Rightarrow> element \<Rightarrow> string" \<comment> \<open>\<open>Indent(0)\<close> and \<open>WriteToString\<close> of the document with this root\<close>
  xe_sha256 :: "string \<Rightarrow> string"

definition canonicalizeForHashing :: "xml_env \<Rightarrow> string \<Rightarrow> goerr + string" where
  "canonicalizeForHashing X xmlContent =
     (case xe_read X xmlContent of
        Inl e \<Rightarrow> Inl (Wrapf ''parsing XML: '' e [])
      | Inr None \<Rightarrow> Inl (NewError ''no root element'')
      | Inr (Some root) \<Rightarrow>
        (case xe_c14n X (strip_excluded root) of
           Inl e \<Rightarrow> Inl (Wrapf ''C14N11: '' e [])
         | Inr canonicalized \<Rightarrow> Inr canonicalized))"

definition InvoiceHash :: "xml_env \<Rightarrow> string \<Rightarrow> goerr + string" where
  "InvoiceHash X xmlContent =
     (case canonicalizeForHashing X xmlContent of
        Inl e \<Rightarrow> Inl e
      | Inr canonicalized \<Rightarrow> Inr (b64_encode (xe_sha256 X canonicalized)))"

definition InvoiceHashBytes :: "xml_env \<Rightarrow> string \<Rightarrow> goerr + string" where
  "InvoiceHashBytes X xmlContent =
     (case canonicalizeForHashing X xmlContent of
        Inl e \<Rightarrow> Inl e
      | Inr canonicalized \<Rightarrow> Inr (xe_sha256 X canonicalized))"

definition ExportStripForHashing :: "xml_env \<Rightarrow> string \<Rightarrow> string" where
  "ExportStripForHashing X xmlContent =
     (case xe_read X xmlContent of
        Inr (Some root) \<Rightarrow> xe_write X xmlContent (strip_excluded root)
      | _ \<Rightarrow> xmlContent)"

definition ExportCanonicalizedXML :: "xml_env \<Rightarrow> string \<Rightarrow> goerr + string" where
  "ExportCanonicalizedXML X xmlContent = canonicalizeForHashing X xmlContent"

definition PIHHash :: "xml_env \<Rightarrow> string \<Rightarrow> string" where
  "PIHHash X signedXML = b64_encode (xe_sha256 X signedXML)"

section \<open>What the transforms exclude\<close>

text \<open>
  The reference is what the signature declares to its readers (\<open>crypto/sign.go\<close>, lines 196 to 202): a node
  is left out when it or an ancestor of it is \<open>ext:UBLExtensions\<close>, \<open>cac:Signature\<close>, or
  \<open>cac:AdditionalDocumentReference[cbc:ID='QR']\<close>.  It is read as XPath reads it: names are compared by
  the namespace that is in scope at the element, own declarations included, at every depth of the document,
  and the text of an element is all character data in it, untrimmed.
\<close>

definition scope :: "(string \<times> string) list \<Rightarrow> attribute list \<Rightarrow> (string \<times> string) list" where
  "scope env attrs =
     List.map_filter (\<lambda>a. if at_Space a = ''xmlns'' then Some (at_Key a, at_Value a)
       else if at_Space a = [] \<and> at_Key a = ''xmlns'' then Some ([], at_Value a) else None) attrs @ env"

definition named :: "(string \<times> string) list \<Rightarrow> string \<Rightarrow> string \<Rightarrow> element \<Rightarrow> bool" where
  "named env uri name e \<longleftrightarrow> el_Tag e = name \<and> map_of (scope env (el_Attr e)) (el_Space e) = Some uri"

fun string_value :: "element \<Rightarrow> string" and tokens_value :: "token list \<Rightarrow> string" where
  "string_value (Element space tag attrs ts) = tokens_value ts"
| "tokens_value [] = []"
| "tokens_value (Node e # ts) = string_value e @ tokens_value ts"
| "tokens_value (CharData d # ts) = d @ tokens_value ts"
| "tokens_value (Comment _ # ts) = tokens_value ts"
| "tokens_value (OtherToken _ # ts) = tokens_value ts"

definition is_extensions :: "(string \<times> string) list \<Rightarrow> element \<Rightarrow> bool" where
  "is_extensions env e \<longleftrightarrow> named env ''urn:oasis:names:specification:ubl:schema:xsd:CommonExtensionComponents-2'' ''UBLExtensions'' e"

definition is_signature :: "(string \<times> string) list \<Rightarrow> element \<Rightarrow> bool" where
  "is_signature env e \<longleftrightarrow> named env ''urn:oasis:names:specification:ubl:schema:xsd:CommonAggregateComponents-2'' ''Signature'' e"

definition is_code :: "(string \<times> string) list \<Rightarrow> element \<Rightarrow> bool" where
  "is_code env e \<longleftrightarrow>
     named env ''urn:oasis:names:specification:ubl:schema:xsd:CommonAggregateComponents-2'' ''AdditionalDocumentReference'' e \<and>
     list_ex (\<lambda>sub. named (scope env (el_Attr e)) ''urn:oasis:names:specification:ubl:schema:xsd:CommonBasicComponents-2'' ''ID'' sub \<and>
       string_value sub = ''QR'') (ChildElements e)"

definition excluded :: "(string \<times> string) list \<Rightarrow> element \<Rightarrow> bool" where
  "excluded env e \<longleftrightarrow> is_extensions env e \<or> is_signature env e \<or> is_code env e"

fun transformed :: "(string \<times> string) list \<Rightarrow> element \<Rightarrow> element"
  and transformed_tokens :: "(string \<times> string) list \<Rightarrow> token list \<Rightarrow> token list" where
  "transformed env (Element space tag attrs ts) = Element space tag attrs (transformed_tokens (scope env attrs) ts)"
| "transformed_tokens env [] = []"
| "transformed_tokens env (Node e # ts) =
     (if excluded env e then transformed_tokens env ts else Node (transformed env e) # transformed_tokens env ts)"
| "transformed_tokens env (CharData d # ts) = CharData d # transformed_tokens env ts"
| "transformed_tokens env (Comment d # ts) = Comment d # transformed_tokens env ts"
| "transformed_tokens env (OtherToken d # ts) = OtherToken d # transformed_tokens env ts"

text \<open>
  The shape of a UBL invoice, in the same terms.  The root declares every prefix once, and its default
  namespace is not one of the component namespaces; its children declare nothing; each of the three parts
  occurs at most once among them, and none deeper.  An additional document reference, and the ids in one,
  are elements of the UBL namespaces, and an id is one text without white space around it.
\<close>

definition declarations :: "attribute list \<Rightarrow> (string \<times> string) list" where
  "declarations attrs = scope [] attrs"

definition plain_id :: "(string \<times> string) list \<Rightarrow> element \<Rightarrow> bool" where
  "plain_id env sub \<longleftrightarrow> (el_Tag sub = ''ID'' \<longrightarrow>
     named env ''urn:oasis:names:specification:ubl:schema:xsd:CommonBasicComponents-2'' ''ID'' sub \<and>
     (\<exists>d. el_Child sub = [CharData d] \<and> trim_space d = d))"

definition ubl_child :: "(string \<times> string) list \<Rightarrow> element \<Rightarrow> bool" where
  "ubl_child env c \<longleftrightarrow> declarations (el_Attr c) = [] \<and> (\<not> excluded env c \<longrightarrow> transformed env c = c) \<and>
     (el_Tag c = ''AdditionalDocumentReference'' \<longrightarrow>
        named env ''urn:oasis:names:specification:ubl:schema:xsd:CommonAggregateComponents-2'' ''AdditionalDocumentReference'' c \<and>
        list_all (plain_id env) (ChildElements c))"

definition ubl_shape :: "element \<Rightarrow> bool" where
  "ubl_shape root \<longleftrightarrow>
     (let env = declarations (el_Attr root) in
      distinct (map fst env) \<and> list_all (\<lambda>a. at_Space a = ''xmlns'' \<longrightarrow> at_Key a \<noteq> []) (el_Attr root) \<and>
      map_of env [] \<notin> {Some ''urn:oasis:names:specification:ubl:schema:xsd:CommonExtensionComponents-2'',
        Some ''urn:oasis:names:specification:ubl:schema:xsd:CommonAggregateComponents-2''} \<and>
      list_all (ubl_child env) (ChildElements root) \<and>
      length (filter (is_extensions env) (ChildElements root)) \<le> 1 \<and>
      length (filter (is_signature env) (ChildElements root)) \<le> 1 \<and> length (filter (is_code env) (ChildElements root)) \<le> 1)"

section \<open>Removing one of each\<close>

definition keep_tokens :: "(element \<Rightarrow> bool) \<Rightarrow> token list \<Rightarrow> token list" where
  "keep_tokens p ts = filter (\<lambda>t. case node_of t of Some e \<Rightarrow> \<not> p e | None \<Rightarrow> True) ts"

lemma with_children_simps [simp]:
  "el_Child (with_children ts e) = ts" "el_Attr (with_children ts e) = el_Attr e"
  "with_children us (with_children ts e) = with_children us e"
  by (simp_all add: with_children_def)

lemma child_named_children [simp]: "child_named outer (with_children ts e) = child_named outer e"
  by (intro ext) (simp add: child_named_def)

lemma remove_first_none: "filter p (List.map_filter node_of ts) = [] \<Longrightarrow> remove_first p ts = keep_tokens p ts"
  by (induction ts) (auto simp: keep_tokens_def List.map_filter_simps split: option.splits if_splits)

lemma keep_tokens_none: "filter p (List.map_filter node_of ts) = [] \<Longrightarrow> keep_tokens p ts = ts"
  by (induction ts) (auto simp: keep_tokens_def List.map_filter_simps split: option.splits if_splits)

lemma remove_first_keep:
  "length (filter p (List.map_filter node_of ts)) \<le> 1 \<Longrightarrow> remove_first p ts = keep_tokens p ts"
proof (induction ts)
  case (Cons t ts)
  show ?case
  proof (cases "node_of t")
    case None
    with Cons show ?thesis by (simp add: keep_tokens_def List.map_filter_simps)
  next
    case (Some e)
    show ?thesis
    proof (cases "p e")
      case True
      with Cons.prems Some have "filter p (List.map_filter node_of ts) = []"
        by (simp add: List.map_filter_simps)
      with True Some keep_tokens_none [of p ts] show ?thesis by (simp add: keep_tokens_def)
    next
      case False
      with Cons Some show ?thesis by (simp add: keep_tokens_def List.map_filter_simps)
    qed
  qed
qed (simp add: keep_tokens_def)

lemma filter_keep_le:
  "length (filter p (List.map_filter node_of (keep_tokens q ts))) \<le> length (filter p (List.map_filter node_of ts))"
  by (induction ts) (auto simp: keep_tokens_def List.map_filter_simps split: option.splits)

lemma keep_keep: "keep_tokens p (keep_tokens q ts) = keep_tokens (\<lambda>e. q e \<or> p e) ts"
  by (auto simp: keep_tokens_def intro!: filter_cong split: option.splits)

lemma remove_first_cong:
  "(\<And>e. e \<in> set (List.map_filter node_of ts) \<Longrightarrow> p e = q e) \<Longrightarrow> remove_first p ts = remove_first q ts"
  by (induction ts) (auto simp: List.map_filter_simps split: option.splits)

lemma keep_children: "set (List.map_filter node_of (keep_tokens p ts)) \<subseteq> set (List.map_filter node_of ts)"
  by (induction ts) (auto simp: keep_tokens_def List.map_filter_simps split: option.splits)

text \<open>Removing the first of each of three kinds that occur at most once.\<close>

lemma remove_three:
  assumes "\<And>c. c \<in> set (List.map_filter node_of ts) \<Longrightarrow> p1 c = q1 c \<and> p2 c = q2 c \<and> p3 c = q3 c"
    and "length (filter q1 (List.map_filter node_of ts)) \<le> 1" and "length (filter q2 (List.map_filter node_of ts)) \<le> 1"
    and "length (filter q3 (List.map_filter node_of ts)) \<le> 1"
  shows "remove_first p3 (remove_first p2 (remove_first p1 ts)) = keep_tokens (\<lambda>c. q1 c \<or> q2 c \<or> q3 c) ts"
proof -
  have 1: "remove_first p1 ts = keep_tokens q1 ts"
    using assms(1) remove_first_cong [of ts p1 q1] remove_first_keep [OF assms(2)] by simp
  have 2: "remove_first p2 (keep_tokens q1 ts) = keep_tokens (\<lambda>c. q1 c \<or> q2 c) ts"
    using assms(1,3) keep_children [of q1 ts] filter_keep_le [of q2 q1 ts]
    by (subst remove_first_cong [of _ p2 q2], fastforce) (simp add: remove_first_keep keep_keep)
  have 3: "remove_first p3 (keep_tokens (\<lambda>c. q1 c \<or> q2 c) ts) = keep_tokens (\<lambda>c. q1 c \<or> q2 c \<or> q3 c) ts"
    using assms(1,4) keep_children [of "\<lambda>c. q1 c \<or> q2 c" ts] filter_keep_le [of q3 "\<lambda>c. q1 c \<or> q2 c" ts]
    by (subst remove_first_cong [of _ p3 q3], fastforce) (simp add: remove_first_keep keep_keep disj_assoc)
  show ?thesis unfolding 1 2 3 ..
qed

text \<open>The code's tests on a child of the root of a UBL document.\<close>

lemma scope_nothing: "declarations attrs = [] \<Longrightarrow> scope env attrs = env"
  by (simp add: declarations_def scope_def)

lemma map_of_declarations: "prefix \<noteq> [] \<Longrightarrow> map_of (declarations attrs) prefix = map_option at_Value (find (declares prefix) attrs)"
  by (induction attrs) (auto simp: declarations_def scope_def declares_def List.map_filter_simps)

lemma declaration_of:
  "a \<in> set attrs \<Longrightarrow> at_Space a = ''xmlns'' \<Longrightarrow> (at_Key a, at_Value a) \<in> set (declarations attrs)"
  by (induction attrs) (auto simp: declarations_def scope_def List.map_filter_simps)

lemma child_named_ref:
  assumes "distinct (map fst (declarations (el_Attr root)))" and "list_all (\<lambda>a. at_Space a = ''xmlns'' \<longrightarrow> at_Key a \<noteq> []) (el_Attr root)"
    and "map_of (declarations (el_Attr root)) [] \<noteq> Some uri" and "declarations (el_Attr c) = []" and "uri \<noteq> []"
  shows "child_named [[]] root uri tag c \<longleftrightarrow> named (declarations (el_Attr root)) uri tag c"
proof (cases "el_Space c = []")
  case True
  with assms(2) have "\<not> list_ex (\<lambda>a. at_Key a = el_Space c \<and> at_Space a = ''xmlns'' \<and> at_Value a = uri) (el_Attr root)"
    by (auto simp: list_ex_iff list_all_iff)
  with True assms(3,4) show ?thesis by (simp add: child_named_def named_def scope_nothing)
next
  case False
  have "resolveNamespace [el_Attr root, []] (el_Space c) = uri \<longleftrightarrow> map_of (declarations (el_Attr root)) (el_Space c) = Some uri"
    using assms(5) False by (auto simp: resolveNamespace_def map_of_declarations split: option.splits)
  moreover have "list_ex (\<lambda>a. at_Key a = el_Space c \<and> at_Space a = ''xmlns'' \<and> at_Value a = uri) (el_Attr root) \<longrightarrow>
      map_of (declarations (el_Attr root)) (el_Space c) = Some uri"
    using map_of_is_SomeI [OF assms(1)] declaration_of [of _ "el_Attr root"] unfolding list_ex_iff by metis
  ultimately show ?thesis
    using False assms(4) by (auto simp: child_named_def named_def scope_nothing)
qed

lemma plain_id_ref:
  assumes "plain_id env sub"
  shows "el_Tag sub = ''ID'' \<and> trim_space (elem_text sub) = ''QR'' \<longleftrightarrow>
    named env ''urn:oasis:names:specification:ubl:schema:xsd:CommonBasicComponents-2'' ''ID'' sub \<and> string_value sub = ''QR''"
proof (cases "el_Tag sub = ''ID''")
  case True
  with assms obtain d where "el_Child sub = [CharData d]" "trim_space d = d"
    and "named env ''urn:oasis:names:specification:ubl:schema:xsd:CommonBasicComponents-2'' ''ID'' sub"
    unfolding plain_id_def by blast
  moreover from this(1) have "string_value sub = d" by (cases sub) simp
  ultimately show ?thesis using True by (simp add: elem_text_def)
qed (simp add: named_def)

lemma qr_reference_ref:
  assumes "ubl_child env c"
  shows "qr_reference c \<longleftrightarrow> is_code env c"
proof (cases "el_Tag c = ''AdditionalDocumentReference''")
  case True
  with assms have env: "scope env (el_Attr c) = env" and ids: "list_all (plain_id env) (ChildElements c)"
    and ref: "named env ''urn:oasis:names:specification:ubl:schema:xsd:CommonAggregateComponents-2'' ''AdditionalDocumentReference'' c"
    by (simp_all add: ubl_child_def scope_nothing)
  have "list_ex (\<lambda>sub. el_Tag sub = ''ID'' \<and> trim_space (elem_text sub) = ''QR'') (ChildElements c) \<longleftrightarrow>
      list_ex (\<lambda>sub. named env ''urn:oasis:names:specification:ubl:schema:xsd:CommonBasicComponents-2'' ''ID'' sub \<and> string_value sub = ''QR'') (ChildElements c)"
    using ids plain_id_ref unfolding list_ex_iff list_all_iff by blast
  with True ref show ?thesis unfolding qr_reference_def is_code_def env by blast
qed (simp add: qr_reference_def is_code_def named_def)

lemma transformed_keep:
  "(\<And>c. c \<in> set (List.map_filter node_of ts) \<Longrightarrow> \<not> excluded env c \<Longrightarrow> transformed env c = c) \<Longrightarrow>
     transformed_tokens env ts = keep_tokens (excluded env) ts"
proof (induction ts)
  case (Cons t ts)
  then show ?case by (cases t) (auto simp: keep_tokens_def List.map_filter_simps)
qed (simp add: keep_tokens_def)

lemma strip_shape:
  assumes "ubl_shape root"
  shows "strip_excluded root = transformed [] root"
proof -
  let ?env = "declarations (el_Attr root)" and ?ts = "el_Child root"
  note shape = assms [unfolded ubl_shape_def Let_def ChildElements_def]
  have child: "ubl_child ?env c" if "c \<in> set (List.map_filter node_of ?ts)" for c
    using shape that by (simp add: list_all_iff)
  have tests: "child_named [[]] root nsExt ''UBLExtensions'' c = is_extensions ?env c \<and>
      child_named [[]] root hash_nsCAC ''Signature'' c = is_signature ?env c \<and> qr_reference c = is_code ?env c"
    if "c \<in> set (List.map_filter node_of ?ts)" for c
  proof -
    have "declarations (el_Attr c) = []" using child [OF that] by (simp add: ubl_child_def)
    then have "child_named [[]] root uri tag c \<longleftrightarrow> named ?env uri tag c" if "map_of ?env [] \<noteq> Some uri" "uri \<noteq> []" for uri tag
      using child_named_ref [of root uri c tag] shape that by blast
    moreover have "map_of ?env [] \<noteq> Some nsExt" "nsExt \<noteq> []" "map_of ?env [] \<noteq> Some hash_nsCAC" "hash_nsCAC \<noteq> []"
      using shape by (simp_all add: nsExt_def hash_nsCAC_def)
    ultimately show ?thesis
      using qr_reference_ref [OF child [OF that]]
      unfolding is_extensions_def is_signature_def nsExt_def [symmetric] hash_nsCAC_def [symmetric] by blast
  qed
  have "strip_excluded root = with_children (keep_tokens (excluded ?env) ?ts) root"
    using remove_three [OF tests] shape
    by (simp add: strip_excluded_def removeChildElement_def removeQRReference_def excluded_def [abs_def])
  moreover have "transformed_tokens ?env ?ts = keep_tokens (excluded ?env) ?ts"
    using child by (intro transformed_keep) (simp add: ubl_child_def)
  ultimately show ?thesis
    by (cases root) (simp add: with_children_def declarations_def)
qed


text \<open>A document of a UBL invoice, with a signature in its extensions and a code in its QR reference.\<close>

definition a_node :: "string \<Rightarrow> string \<Rightarrow> token list \<Rightarrow> token" where
  "a_node space tag ts = Node (Element space tag [] ts)"

definition a_reference :: "string \<Rightarrow> string \<Rightarrow> token" where
  "a_reference name body = a_node ''cac'' ''AdditionalDocumentReference''
     [a_node ''cbc'' ''ID'' [CharData name], a_node ''cac'' ''Attachment'' [CharData body]]"

definition ubl_declarations :: "attribute list" where
  "ubl_declarations =
     [\<lparr>at_Space = [], at_Key = ''xmlns'', at_Value = ''urn:oasis:names:specification:ubl:schema:xsd:Invoice-2''\<rparr>,
      \<lparr>at_Space = ''xmlns'', at_Key = ''ext'', at_Value = ''urn:oasis:names:specification:ubl:schema:xsd:CommonExtensionComponents-2''\<rparr>,
      \<lparr>at_Space = ''xmlns'', at_Key = ''cac'', at_Value = ''urn:oasis:names:specification:ubl:schema:xsd:CommonAggregateComponents-2''\<rparr>,
      \<lparr>at_Space = ''xmlns'', at_Key = ''cbc'', at_Value = ''urn:oasis:names:specification:ubl:schema:xsd:CommonBasicComponents-2''\<rparr>]"

definition sample_root :: "token list \<Rightarrow> string \<Rightarrow> element" where
  "sample_root signature code =
     Element [] ''Invoice'' ubl_declarations
       [a_node ''ext'' ''UBLExtensions'' signature, CharData ''  '', a_node ''cbc'' ''ID'' [CharData ''INV-1''],
        a_reference ''ICV'' ''7'', a_reference ''QR'' code, a_node ''cac'' ''Signature'' []]"

lemmas reference_defs = declarations_def scope_def named_def is_extensions_def is_signature_def is_code_def excluded_def
  ChildElements_def List.map_filter_simps

lemma sample_root_transformed:
  "transformed [] (sample_root sg code) =
     Element [] ''Invoice'' ubl_declarations [CharData ''  '', a_node ''cbc'' ''ID'' [CharData ''INV-1''], a_reference ''ICV'' ''7'']"
  by (simp add: sample_root_def ubl_declarations_def a_reference_def a_node_def reference_defs)

lemma sample_root_shape: "ubl_shape (sample_root sg code)"
  by (simp add: ubl_shape_def Let_def ubl_child_def plain_id_def sample_root_def ubl_declarations_def a_reference_def a_node_def
      reference_defs trim_space_graphic graphic_def)




end
