(* ===== verification/Qr_Code.thy ===== *)
theory Qr_Code
  imports Text_Codec
begin

text \<open>
  The QR code of an invoice, \<open>crypto/qr.go\<close>: tag-length-value entries in base64.  The layout of a
  timestamp (\<open>time.Format\<close>) is the argument \<open>format\<close>.  A Go map of tags is a partial function.
\<close>

definition TagSellerName :: nat where "TagSellerName = 1"
definition TagVATNumber :: nat where "TagVATNumber = 2"
definition TagTimestamp :: nat where "TagTimestamp = 3"
definition TagTotalWithVAT :: nat where "TagTotalWithVAT = 4"
definition TagVATAmount :: nat where "TagVATAmount = 5"
definition TagInvoiceHash :: nat where "TagInvoiceHash = 6"
definition TagSignature :: nat where "TagSignature = 7"
definition TagPublicKey :: nat where "TagPublicKey = 8"
definition TagCertHash :: nat where "TagCertHash = 9"

lemmas tag_defs = TagSellerName_def TagVATNumber_def TagTimestamp_def TagTotalWithVAT_def TagVATAmount_def
  TagInvoiceHash_def TagSignature_def TagPublicKey_def TagCertHash_def

record QRData =
  qr_SellerName :: string
  qr_VATNumber :: string
  qr_Timestamp :: time
  qr_Total :: string
  qr_VATAmount :: string
  qr_Hash :: string
  qr_Signature :: string
  qr_PublicKey :: string
  qr_CertHash :: string

text \<open>The conversion \<open>byte(n)\<close>, which keeps the low eight bits.\<close>

definition to_byte :: "nat \<Rightarrow> char" where
  "to_byte n = char_of n"

definition appendTLV :: "string \<Rightarrow> nat \<Rightarrow> string \<Rightarrow> string" where
  "appendTLV buf tag value =
     (let n = length value in
      buf @ [to_byte tag] @
      (if n \<le> 127 then [to_byte n] else [to_byte 130, to_byte (drop_bit 8 n), to_byte (n mod 256)]) @ value)"

definition GenerateQR :: "(time \<Rightarrow> string) \<Rightarrow> QRData \<Rightarrow> goerr + string" where
  "GenerateQR format d =
     (if qr_SellerName d = [] then Inl (NewError ''seller name is required for QR'')
      else if qr_VATNumber d = [] then Inl (NewError ''VAT number is required for QR'')
      else
        let tlv = appendTLV [] TagSellerName (qr_SellerName d);
            tlv = appendTLV tlv TagVATNumber (qr_VATNumber d);
            tlv = appendTLV tlv TagTimestamp (format (qr_Timestamp d));
            tlv = appendTLV tlv TagTotalWithVAT (qr_Total d);
            tlv = appendTLV tlv TagVATAmount (qr_VATAmount d);
            tlv = (if qr_Hash d \<noteq> [] then appendTLV tlv TagInvoiceHash (qr_Hash d) else tlv);
            tlv = (if qr_Signature d \<noteq> [] then appendTLV tlv TagSignature (qr_Signature d) else tlv);
            tlv = (if qr_PublicKey d \<noteq> [] then appendTLV tlv TagPublicKey (qr_PublicKey d) else tlv);
            tlv = (if qr_CertHash d \<noteq> [] then appendTLV tlv TagCertHash (qr_CertHash d) else tlv)
        in Inr (b64_encode tlv))"

definition GenerateSimpleQR ::
    "(time \<Rightarrow> string) \<Rightarrow> string \<Rightarrow> string \<Rightarrow> time \<Rightarrow> string \<Rightarrow> string \<Rightarrow> goerr + string" where
  "GenerateSimpleQR format sellerName vatNumber timestamp totalAmount vatAmount =
     GenerateQR format \<lparr>qr_SellerName = sellerName, qr_VATNumber = vatNumber, qr_Timestamp = timestamp,
       qr_Total = totalAmount, qr_VATAmount = vatAmount, qr_Hash = [], qr_Signature = [], qr_PublicKey = [], qr_CertHash = []\<rparr>"

text \<open>The loop of \<open>DecodeTLV\<close> at offset \<open>i\<close>, with the data that is left and the map so far.\<close>

function tlv_loop :: "nat \<Rightarrow> string \<Rightarrow> (nat \<Rightarrow> string option) \<Rightarrow> goerr + (nat \<Rightarrow> string option)" where
  "tlv_loop i [] m = Inr m"
| "tlv_loop i [t] m = Inl (NewError (''truncated TLV at offset '' @ show_nat i))"
| "tlv_loop i (t # l # rest) m =
     (case (if l = to_byte 130 then
              (case rest of
                 hi # lo # rest2 \<Rightarrow> Inr (byte_of hi * 256 + byte_of lo, i + 4, rest2)
               | _ \<Rightarrow> Inl (NewError (''truncated multi-byte length at offset '' @ show_nat (i + 1))))
            else Inr (byte_of l, i + 2, rest)) of
        Inl e \<Rightarrow> Inl e
      | Inr (n, j, value) \<Rightarrow>
          (if length value < n then
             Inl (NewError (''TLV value overflow at tag '' @ show_nat (byte_of t) @ '', offset '' @ show_nat j))
           else tlv_loop (j + n) (drop n value) (m(byte_of t \<mapsto> take n value))))"
  by pat_completeness auto
termination
  by (relation "measure (\<lambda>(i, s, m). length s)") (auto split: if_splits list.splits)

definition DecodeTLV :: "string \<Rightarrow> goerr + (nat \<Rightarrow> string option)" where
  "DecodeTLV b64 =
     (case b64_decode b64 of
        Inl e \<Rightarrow> Inl (Wrapf ''base64 decode: '' e [])
      | Inr data \<Rightarrow> tlv_loop 0 data Map.empty)"

section \<open>Round trip\<close>

lemma byte_of_to_byte [simp]: "byte_of (to_byte n) = n mod 256"
  by (simp add: to_byte_def of_char_of)

lemma to_byte_eq: "to_byte m = to_byte n \<longleftrightarrow> m mod 256 = n mod 256"
  by (simp add: to_byte_def char_of_eq_iff take_bit_eq_mod)

lemma tlv_loop_entry:
  assumes "tag < 256" and "length v < 65536"
  shows "\<exists>j. tlv_loop i (appendTLV [] tag v @ rest) m = tlv_loop j rest (m(tag \<mapsto> v))"
proof (cases "length v \<le> 127")
  case True
  then have "to_byte (length v) \<noteq> to_byte 130"
    by (simp add: to_byte_eq)
  with True assms show ?thesis
    by (auto simp: appendTLV_def Let_def)
next
  case False
  have "drop_bit 8 (length v) mod 256 * 256 + length v mod 256 = length v"
    using assms(2) by (simp add: drop_bit_eq_div)
  with False assms show ?thesis
    by (auto simp: appendTLV_def Let_def)
qed

text \<open>Entries after one another decode to the map of all of them, the last one of a tag winning.\<close>

lemma tlv_loop_entries:
  assumes "\<forall>(tag, v) \<in> set es. tag < 256 \<and> length v < 65536"
  shows "tlv_loop i (concat (map (\<lambda>(tag, v). appendTLV [] tag v) es)) m =
    Inr (fold (\<lambda>(tag, v) m. m(tag \<mapsto> v)) es m)"
  using assms
proof (induction es arbitrary: i m)
  case (Cons e es)
  obtain tag v where e: "e = (tag, v)"
    by (cases e)
  then obtain j where "tlv_loop i (appendTLV [] tag v @ concat (map (\<lambda>(tag, v). appendTLV [] tag v) es)) m =
      tlv_loop j (concat (map (\<lambda>(tag, v). appendTLV [] tag v) es)) (m(tag \<mapsto> v))"
    using tlv_loop_entry Cons.prems by fastforce
  with Cons e show ?case by (simp add: fun_upd_def)
qed simp

lemma appendTLV_concat: "appendTLV buf tag v = buf @ appendTLV [] tag v"
  by (simp add: appendTLV_def Let_def)

definition optional :: "nat \<Rightarrow> string \<Rightarrow> (nat \<times> string) list" where
  "optional tag v = (if v = [] then [] else [(tag, v)])"

definition qr_entries :: "(time \<Rightarrow> string) \<Rightarrow> QRData \<Rightarrow> (nat \<times> string) list" where
  "qr_entries format d =
     [(1, qr_SellerName d), (2, qr_VATNumber d), (3, format (qr_Timestamp d)), (4, qr_Total d), (5, qr_VATAmount d)] @
     optional 6 (qr_Hash d) @ optional 7 (qr_Signature d) @ optional 8 (qr_PublicKey d) @ optional 9 (qr_CertHash d)"

lemma GenerateQR_entries:
  assumes "qr_SellerName d \<noteq> []" and "qr_VATNumber d \<noteq> []"
  shows "GenerateQR format d = Inr (b64_encode (concat (map (\<lambda>(tag, v). appendTLV [] tag v) (qr_entries format d))))"
  using assms
  by (simp add: GenerateQR_def Let_def tag_defs qr_entries_def optional_def appendTLV_concat [of "_ @ _"]
      appendTLV_concat [of "appendTLV _ _ _"])

text \<open>C25: a QR code decodes to the fields it was made from: the tags 1 to 5 always, and the tags 6 to 9
  exactly when their field is not empty; nothing else is in it.  Each field must be shorter than
  65536 bytes.\<close>

theorem qr_roundtrip:
  assumes "qr_SellerName d \<noteq> []" and "qr_VATNumber d \<noteq> []"
    and "\<forall>(tag, v) \<in> set (qr_entries format d). length v < 65536"
  shows "\<exists>qr m. GenerateQR format d = Inr qr \<and> DecodeTLV qr = Inr m \<and>
    m 1 = Some (qr_SellerName d) \<and> m 2 = Some (qr_VATNumber d) \<and> m 3 = Some (format (qr_Timestamp d)) \<and>
    m 4 = Some (qr_Total d) \<and> m 5 = Some (qr_VATAmount d) \<and>
    m 6 = (if qr_Hash d = [] then None else Some (qr_Hash d)) \<and>
    m 7 = (if qr_Signature d = [] then None else Some (qr_Signature d)) \<and>
    m 8 = (if qr_PublicKey d = [] then None else Some (qr_PublicKey d)) \<and>
    m 9 = (if qr_CertHash d = [] then None else Some (qr_CertHash d)) \<and> dom m \<subseteq> {1..9}"
proof -
  have "\<forall>(tag, v) \<in> set (qr_entries format d). tag < 256 \<and> length v < 65536"
    using assms(3) by (auto simp: qr_entries_def optional_def)
  then have "DecodeTLV (b64_encode (concat (map (\<lambda>(tag, v). appendTLV [] tag v) (qr_entries format d)))) =
      Inr (fold (\<lambda>(tag, v) m. m(tag \<mapsto> v)) (qr_entries format d) Map.empty)"
    by (simp add: DecodeTLV_def tlv_loop_entries)
  moreover have "fold (\<lambda>(tag, v) m. m(tag \<mapsto> v)) (qr_entries format d) Map.empty =
      ([1 \<mapsto> qr_SellerName d, 2 \<mapsto> qr_VATNumber d, 3 \<mapsto> format (qr_Timestamp d), 4 \<mapsto> qr_Total d, 5 \<mapsto> qr_VATAmount d])
      (6 := (if qr_Hash d = [] then None else Some (qr_Hash d)),
       7 := (if qr_Signature d = [] then None else Some (qr_Signature d)),
       8 := (if qr_PublicKey d = [] then None else Some (qr_PublicKey d)),
       9 := (if qr_CertHash d = [] then None else Some (qr_CertHash d)))"
    by (auto simp: qr_entries_def optional_def fun_eq_iff)
  ultimately show ?thesis
    using GenerateQR_entries [OF assms(1,2), of format] by (auto simp: dom_def)
qed

text \<open>Every value that is decoded was in the map before or fits in the data with its header.\<close>

lemma tlv_loop_fits:
  "tlv_loop i s m = Inr m' \<Longrightarrow> m' t = Some v \<Longrightarrow> m t = Some v \<or> length v + 2 \<le> length s"
proof (induction i s m rule: tlv_loop.induct)
  case (3 i t l rest m)
  then show ?case
    by (fastforce split: if_splits list.splits)
qed auto

text \<open>C26: one entry decodes to itself exactly when its value is shorter than 65536 bytes: from there on
  the two length bytes wrap around.\<close>

theorem tlv_length_bound:
  assumes "tag < 256"
  shows "DecodeTLV (b64_encode (appendTLV [] tag v)) = Inr [tag \<mapsto> v] \<longleftrightarrow> length v < 65536"
proof
  assume "length v < 65536"
  then show "DecodeTLV (b64_encode (appendTLV [] tag v)) = Inr [tag \<mapsto> v]"
    using tlv_loop_entry [OF assms, of v 0 "[]"] by (auto simp: DecodeTLV_def)
next
  assume decoded: "DecodeTLV (b64_encode (appendTLV [] tag v)) = Inr [tag \<mapsto> v]"
  show "length v < 65536"
  proof (rule ccontr)
    assume large: "\<not> length v < 65536"
    let ?n = "drop_bit 8 (length v) mod 256 * 256 + length v mod 256"
    have n: "?n < 65536"
      using mod_less_divisor [of 256 "drop_bit 8 (length v)"] mod_less_divisor [of 256 "length v"] by linarith
    have "tlv_loop 0 (appendTLV [] tag v) Map.empty = Inr [tag \<mapsto> v]"
      using decoded by (simp add: DecodeTLV_def)
    then have "tlv_loop (4 + ?n) (drop ?n v) [tag \<mapsto> take ?n v] = Inr [tag \<mapsto> v]"
      using n large assms by (simp add: appendTLV_def Let_def)
    from tlv_loop_fits [OF this, of tag v] have "length (take ?n v) = length v \<or> length v + 2 \<le> length (drop ?n v)"
      by auto
    with n large show False by auto
  qed
qed

theorem tlv_length_bound_witness:
  "DecodeTLV (b64_encode (appendTLV [] TagSignature (replicate 65536 (CHR ''x'')))) \<noteq>
     Inr [TagSignature \<mapsto> replicate 65536 (CHR ''x'')]"
  using tlv_length_bound [of TagSignature "replicate 65536 (CHR ''x'')"] by (simp add: TagSignature_def)

definition sample_qr :: QRData where
  "sample_qr = \<lparr>qr_SellerName = ''Acme'', qr_VATNumber = ''300000000000003'', qr_Timestamp = 0, qr_Total = ''115.00'',
     qr_VATAmount = ''15.00'', qr_Hash = ''aGFzaA=='', qr_Signature = [], qr_PublicKey = [], qr_CertHash = []\<rparr>"

theorem qr_roundtrip_witness:
  "\<exists>qr m. GenerateQR (\<lambda>_. ''1970-01-01T00:00:00Z'') sample_qr = Inr qr \<and> DecodeTLV qr = Inr m \<and>
     m 1 = Some ''Acme'' \<and> m 6 = Some ''aGFzaA=='' \<and> m 7 = None"
  using qr_roundtrip [of sample_qr "\<lambda>_. ''1970-01-01T00:00:00Z''"]
  by (auto simp: sample_qr_def qr_entries_def optional_def)

end
