(* ===== verification/Native_Sign.thy ===== *)
theory Native_Sign
  imports Invoice_Hash Qr_Code
begin

text \<open>
  Signing without the SDK, \<open>crypto/sign.go\<close>, and the certificates and keys it needs, \<open>crypto/cert.go\<close>.
  Elliptic curves, ASN.1, PEM and X.509 of the Go library and the secp256k1 package are arguments, as
  are the hash functions, the clock and the random signature.  A slice out of range, where Go panics,
  is the value \<open>None\<close>.
\<close>

section \<open>Numbers as bytes\<close>

text \<open>\<open>big.Int\<close>'s \<open>SetBytes\<close> and \<open>Bytes\<close>: big-endian, without leading zeros.\<close>

definition be_nat :: "string \<Rightarrow> nat" where
  "be_nat s = foldl (\<lambda>n c. n * 256 + byte_of c) 0 s"

fun nat_be :: "nat \<Rightarrow> string" where
  "nat_be n = (if n = 0 then [] else nat_be (n div 256) @ [to_byte (n mod 256)])"

declare nat_be.simps [simp del]

section \<open>Certificates\<close>

type_synonym oid = "nat list"

record ecpub =
  ep_Curve :: string
  ep_X :: nat
  ep_Y :: nat

record eckey =
  ek_Pub :: ecpub
  ek_D :: nat

record CertInfo =
  ci_Certificate :: "string option" \<comment> \<open>the parsed certificate, by its issuer; \<open>None\<close> is nil\<close>
  ci_Raw :: string
  ci_PublicKey :: ecpub
  ci_IssuerName :: string
  ci_SerialNum :: int

record x509_cert =
  xc_Key :: "ecpub option" \<comment> \<open>\<open>None\<close> for a key that is not ECDSA\<close>
  xc_Issuer :: string
  xc_Serial :: int

record asn1_cert =
  ac_Issuer :: string \<comment> \<open>the full bytes\<close>
  ac_PublicKey :: string
  ac_Serial :: int

record ec_private =
  pv_Key :: string
  pv_Curve :: oid
  pv_Public :: string

record pki_env =
  pk_pem :: "string \<Rightarrow> string option"
  pk_x509 :: "string \<Rightarrow> goerr + x509_cert"
  pk_certificate :: "string \<Rightarrow> goerr + asn1_cert \<times> string"
  pk_names :: "string \<Rightarrow> goerr + (oid \<times> string) list list"
  pk_ECPrivateKey :: "string \<Rightarrow> goerr + eckey"
  pk_PKCS8 :: "string \<Rightarrow> goerr + eckey option" \<comment> \<open>\<open>None\<close> for a key that is not ECDSA\<close>
  pk_pkcs8_asn1 :: "string \<Rightarrow> goerr + string \<times> string" \<comment> \<open>algorithm parameters, private key\<close>
  pk_oid :: "string \<Rightarrow> goerr + oid"
  pk_ec_asn1 :: "string \<Rightarrow> goerr + ec_private"

definition oidSecp256k1 :: oid where
  "oidSecp256k1 = [1, 3, 132, 0, 10]"

definition secp256k1Curve :: string where
  "secp256k1Curve = ''secp256k1''"

definition curve_point :: "string \<Rightarrow> ecpub" where
  "curve_point d = \<lparr>ep_Curve = secp256k1Curve, ep_X = be_nat (take 32 (drop 1 d)), ep_Y = be_nat (take 32 (drop 33 d))\<rparr>"

definition parseSecp256k1PublicKey :: "string \<Rightarrow> goerr + ecpub" where
  "parseSecp256k1PublicKey d =
     (if d = [] then Inl (NewError ''empty public key'')
      else if hd d = to_byte 4 \<and> length d = 65 then Inr (curve_point d)
      else Inl (NewError (''unsupported public key format (len='' @ show_nat (length d) @ '', prefix=0x'' @ hex_encode [hd d] @ '')'')))"

definition oid_text :: "oid \<Rightarrow> string" where
  "oid_text xs = join_with ''.'' (map show_nat xs)"

definition oidToName :: "oid \<Rightarrow> string" where
  "oidToName xs =
     (if xs = [2, 5, 4, 3] then ''CN'' else if xs = [2, 5, 4, 6] then ''C'' else if xs = [2, 5, 4, 10] then ''O''
      else if xs = [2, 5, 4, 11] then ''OU'' else oid_text xs)"

definition joinReverse :: "string list \<Rightarrow> string" where
  "joinReverse parts = join_with '','' (rev parts)"

definition parseIssuerDN :: "pki_env \<Rightarrow> string \<Rightarrow> goerr + string" where
  "parseIssuerDN P raw =
     (case pk_names P raw of
        Inl e \<Rightarrow> Inl e
      | Inr rdnSeq \<Rightarrow> Inr (joinReverse (map (\<lambda>(t, v). oidToName t @ ''='' @ v) (concat rdnSeq))))"

definition parseCertDERManual :: "pki_env \<Rightarrow> string \<Rightarrow> goerr + CertInfo" where
  "parseCertDERManual P der =
     (case pk_certificate P der of
        Inl e \<Rightarrow> Inl (Wrapf ''asn1 parse certificate: '' e [])
      | Inr (cert, rest) \<Rightarrow>
        (if rest \<noteq> [] then Inl (NewError ''trailing data after certificate'')
         else
           let issuerName = (case parseIssuerDN P (ac_Issuer cert) of Inl _ \<Rightarrow> ''CN=unknown'' | Inr n \<Rightarrow> n) in
           case parseSecp256k1PublicKey (ac_PublicKey cert) of
             Inl e \<Rightarrow> Inl (Wrapf ''parse secp256k1 public key: '' e [])
           | Inr pub \<Rightarrow> Inr \<lparr>ci_Certificate = None, ci_Raw = der, ci_PublicKey = pub, ci_IssuerName = issuerName, ci_SerialNum = ac_Serial cert\<rparr>))"

definition parseCertDER :: "pki_env \<Rightarrow> string \<Rightarrow> goerr + CertInfo" where
  "parseCertDER P der =
     (case pk_x509 P der of
        Inr cert \<Rightarrow>
          (case xc_Key cert of
             None \<Rightarrow> Inl (NewError ''certificate public key is not ECDSA'')
           | Some pub \<Rightarrow> Inr \<lparr>ci_Certificate = Some (xc_Issuer cert), ci_Raw = der, ci_PublicKey = pub, ci_IssuerName = xc_Issuer cert,
               ci_SerialNum = xc_Serial cert\<rparr>)
      | Inl _ \<Rightarrow> parseCertDERManual P der)"

definition ParseCertificate :: "pki_env \<Rightarrow> string \<Rightarrow> goerr + CertInfo" where
  "ParseCertificate P base64Cert =
     (case b64_decode base64Cert of
        Inl e \<Rightarrow> Inl (Wrapf ''base64 decode certificate: '' e [])
      | Inr der \<Rightarrow>
        (case parseCertDER P der of
           Inr info \<Rightarrow> Inr info
         | Inl e \<Rightarrow>
           (case b64_decode der of
              Inl _ \<Rightarrow> Inl (Wrapf ''parse X.509 certificate: '' e [])
            | Inr innerDER \<Rightarrow> parseCertDER P innerDER)))"

definition ParseCertificatePEM :: "pki_env \<Rightarrow> string \<Rightarrow> goerr + CertInfo" where
  "ParseCertificatePEM P pemData =
     (case pk_pem P pemData of
        None \<Rightarrow> Inl (NewError ''failed to decode PEM block'')
      | Some block \<Rightarrow> parseCertDER P block)"

definition CertDigest :: "xml_env \<Rightarrow> CertInfo \<Rightarrow> string" where
  "CertDigest X ci = b64_encode (hex_encode (xe_sha256 X (ci_Raw ci)))"

definition CertBase64 :: "CertInfo \<Rightarrow> string" where
  "CertBase64 ci = b64_encode (ci_Raw ci)"

text \<open>\<open>copy\<close> into a buffer at an offset.\<close>

definition copy_at :: "nat \<Rightarrow> string \<Rightarrow> string \<Rightarrow> string" where
  "copy_at k x buf = take k buf @ x @ drop (k + length x) buf"

definition PublicKeyBytes :: "CertInfo \<Rightarrow> string option" where
  "PublicKeyBytes ci =
     (let x = nat_be (ep_X (ci_PublicKey ci)); y = nat_be (ep_Y (ci_PublicKey ci)) in
      if 33 < length x \<or> 65 < length y then None
      else Some (copy_at (65 - length y) y (copy_at (33 - length x) x (to_byte 4 # replicate 64 (to_byte 0)))))"

definition IssuerNameForXML :: "CertInfo \<Rightarrow> string" where
  "IssuerNameForXML ci = (case ci_Certificate ci of Some issuer \<Rightarrow> issuer | None \<Rightarrow> ci_IssuerName ci)"

definition SerialNumberDecimal :: "CertInfo \<Rightarrow> string" where
  "SerialNumberDecimal ci = show_int (ci_SerialNum ci)"

section \<open>Private keys\<close>

definition buildSecp256k1Key :: "string \<Rightarrow> string \<Rightarrow> goerr + eckey" where
  "buildSecp256k1Key privBytes pubBytes =
     (if length pubBytes = 65 \<and> hd pubBytes = to_byte 4 then Inr \<lparr>ek_Pub = curve_point pubBytes, ek_D = be_nat privBytes\<rparr>
      else Inl (NewError ''secp256k1 key missing embedded public key''))"

definition bare_ec_key :: "pki_env \<Rightarrow> string \<Rightarrow> goerr + eckey" where
  "bare_ec_key P der =
     (case pk_ec_asn1 P der of
        Inr ecKey \<Rightarrow>
          (if pv_Curve ecKey = oidSecp256k1 \<or> pv_Curve ecKey = [] then buildSecp256k1Key (pv_Key ecKey) (pv_Public ecKey)
           else Inl (NewError ''failed to parse secp256k1 private key''))
      | Inl _ \<Rightarrow> Inl (NewError ''failed to parse secp256k1 private key''))"

definition parseSecp256k1PrivateKey :: "pki_env \<Rightarrow> string \<Rightarrow> goerr + eckey" where
  "parseSecp256k1PrivateKey P der =
     (case pk_pkcs8_asn1 P der of
        Inr (params, inner) \<Rightarrow>
          (case pk_oid P params of
             Inr curveOID \<Rightarrow>
               (if curveOID = oidSecp256k1 then
                  (case pk_ec_asn1 P inner of
                     Inl e \<Rightarrow> Inl (Wrapf ''parse inner EC key: '' e [])
                   | Inr ecKey \<Rightarrow> buildSecp256k1Key (pv_Key ecKey) (pv_Public ecKey))
                else bare_ec_key P der)
           | Inl _ \<Rightarrow> bare_ec_key P der)
      | Inl _ \<Rightarrow> bare_ec_key P der)"

definition ParsePrivateKey :: "pki_env \<Rightarrow> string \<Rightarrow> goerr + eckey" where
  "ParsePrivateKey P pemData =
     (case pk_pem P pemData of
        None \<Rightarrow> Inl (NewError ''failed to decode PEM private key'')
      | Some block \<Rightarrow>
        (case pk_ECPrivateKey P block of
           Inr key \<Rightarrow> Inr key
         | Inl _ \<Rightarrow>
           (case pk_PKCS8 P block of
              Inr (Some key) \<Rightarrow> Inr key
            | _ \<Rightarrow> parseSecp256k1PrivateKey P block)))"

section \<open>The signature\<close>

definition intToASN1 :: "nat \<Rightarrow> string" where
  "intToASN1 n =
     (let b = nat_be n; b = (if b \<noteq> [] \<and> 128 \<le> byte_of (hd b) then to_byte 0 # b else b) in
      to_byte 2 # to_byte (length b) # b)"

definition encodeECDSASignatureDER :: "nat \<Rightarrow> nat \<Rightarrow> string" where
  "encodeECDSASignatureDER r s =
     (let inner = intToASN1 r @ intToASN1 s in to_byte 48 # to_byte (length inner) # inner)"

text \<open>A tag, by what stands between its brackets.\<close>

definition xtag :: "string \<Rightarrow> string" where
  "xtag t = ''<'' @ t @ ''>''"

definition xades_ds :: string where
  \<open>xades_ds = '' xmlns:ds="http://www.w3.org/2000/09/xmldsig#"''\<close>

definition xades_ns :: string where
  \<open>xades_ns = '' xmlns:xades="http://uri.etsi.org/01903/v1.3.2#"''\<close>

definition algorithm :: "string \<Rightarrow> string" where
  \<open>algorithm a = '' Algorithm="http://www.w3.org/'' @ a @ ''"''\<close>

definition sha256_method :: "string \<Rightarrow> string" where
  "sha256_method ns = xtag (''ds:DigestMethod'' @ ns @ algorithm ''2001/04/xmlenc#sha256'' @ ''/'')"

definition buildSignedProperties :: "xml_env \<Rightarrow> string \<Rightarrow> CertInfo \<Rightarrow> string" where
  \<open>buildSignedProperties X signingTime cert =
     xtag (''xades:SignedProperties'' @ xades_ns @ '' Id="xadesSignedProperties"'') @
     xtag ''xades:SignedSignatureProperties'' @ xtag ''xades:SigningTime'' @ signingTime @ xtag ''/xades:SigningTime'' @
     xtag ''xades:SigningCertificate'' @ xtag ''xades:Cert'' @ xtag ''xades:CertDigest'' @
     sha256_method xades_ds @ xtag (''ds:DigestValue'' @ xades_ds) @ CertDigest X cert @
     xtag ''/ds:DigestValue'' @ xtag ''/xades:CertDigest'' @ xtag ''xades:IssuerSerial'' @
     xtag (''ds:X509IssuerName'' @ xades_ds) @ IssuerNameForXML cert @ xtag ''/ds:X509IssuerName'' @
     xtag (''ds:X509SerialNumber'' @ xades_ds) @ SerialNumberDecimal cert @ xtag ''/ds:X509SerialNumber'' @
     xtag ''/xades:IssuerSerial'' @ xtag ''/xades:Cert'' @ xtag ''/xades:SigningCertificate'' @
     xtag ''/xades:SignedSignatureProperties'' @ xtag ''/xades:SignedProperties''\<close>

definition xpath_transform :: "string \<Rightarrow> string" where
  "xpath_transform path =
     xtag (''ds:Transform'' @ algorithm ''TR/1999/REC-xpath-19991116'') @ xtag ''ds:XPath'' @
     ''not(//ancestor-or-self::'' @ path @ '')'' @ xtag ''/ds:XPath'' @ xtag ''/ds:Transform''"

definition buildSignedInfo :: "string \<Rightarrow> string \<Rightarrow> string" where
  \<open>buildSignedInfo invoiceDigest signedPropsDigest =
     xtag (''ds:SignedInfo'' @ xades_ds) @
     xtag (''ds:CanonicalizationMethod'' @ algorithm ''2006/12/xml-c14n11'' @ ''/'') @
     xtag (''ds:SignatureMethod'' @ algorithm ''2001/04/xmldsig-more#ecdsa-sha256'' @ ''/'') @
     xtag ''ds:Reference Id="invoiceSignedData" URI=""'' @ xtag ''ds:Transforms'' @
     xpath_transform ''ext:UBLExtensions'' @ xpath_transform ''cac:Signature'' @
     xpath_transform (''cac:AdditionalDocumentReference[cbc:ID='' @ [CHR 0x27] @ ''QR'' @ [CHR 0x27] @ '']'') @
     xtag (''ds:Transform'' @ algorithm ''2006/12/xml-c14n11'' @ ''/'') @ xtag ''/ds:Transforms'' @
     sha256_method [] @ xtag ''ds:DigestValue'' @ invoiceDigest @ xtag ''/ds:DigestValue'' @ xtag ''/ds:Reference'' @
     xtag ''ds:Reference Type="http://www.w3.org/2000/09/xmldsig#SignatureProperties" URI="#xadesSignedProperties"'' @
     sha256_method [] @ xtag ''ds:DigestValue'' @ signedPropsDigest @ xtag ''/ds:DigestValue'' @ xtag ''/ds:Reference'' @
     xtag ''/ds:SignedInfo''\<close>

definition indent :: "nat \<Rightarrow> string" where
  "indent n = replicate n (CHR '' '')"

definition buildDSSignature :: "string \<Rightarrow> string \<Rightarrow> CertInfo \<Rightarrow> string \<Rightarrow> string" where
  \<open>buildDSSignature signedInfo signatureValue cert signedProps =
     indent 20 @ xtag (''ds:Signature'' @ xades_ds @ '' Id="signature"'') @ newline @ indent 24 @ signedInfo @ newline @
     indent 24 @ xtag ''ds:SignatureValue'' @ signatureValue @ xtag ''/ds:SignatureValue'' @ newline @
     indent 24 @ xtag ''ds:KeyInfo'' @ newline @ indent 28 @ xtag ''ds:X509Data'' @ newline @
     indent 32 @ xtag ''ds:X509Certificate'' @ CertBase64 cert @ xtag ''/ds:X509Certificate'' @ newline @
     indent 28 @ xtag ''/ds:X509Data'' @ newline @ indent 24 @ xtag ''/ds:KeyInfo'' @ newline @ indent 24 @ xtag ''ds:Object'' @ newline @
     indent 28 @ xtag (''xades:QualifyingProperties'' @ xades_ns @ '' Target="signature"'') @ newline @
     indent 32 @ signedProps @ newline @ indent 28 @ xtag ''/xades:QualifyingProperties'' @ newline @
     indent 24 @ xtag ''/ds:Object'' @ newline @ indent 20 @ xtag ''/ds:Signature''\<close>

section \<open>Placing the signature and the code\<close>

definition sig_marker :: string where "sig_marker = ''</sbc:ReferencedSignatureID>''"
definition sig_closing :: string where "sig_closing = ''</sac:SignatureInformation>''"

definition injectSignature :: "string \<Rightarrow> string \<Rightarrow> string" where
  "injectSignature xml dsSignature =
     (case str_index xml sig_marker of
        None \<Rightarrow> xml
      | Some markerIdx \<Rightarrow>
        (let insertPoint = markerIdx + length sig_marker in
         case str_index (drop insertPoint xml) sig_closing of
           None \<Rightarrow> xml
         | Some closingIdx \<Rightarrow>
             take insertPoint xml @ newline @ dsSignature @ newline @ indent 16 @ drop (insertPoint + closingIdx) xml))"

text \<open>\<open>strings.LastIndex\<close>, and \<open>strings.Replace\<close> of the first occurrence.\<close>

fun str_last_index :: "string \<Rightarrow> string \<Rightarrow> nat option" where
  "str_last_index [] sub = (if sub = [] then Some 0 else None)"
| "str_last_index (c # cs) sub =
     (case str_last_index cs sub of
        Some k \<Rightarrow> Some (Suc k)
      | None \<Rightarrow> if has_prefix (c # cs) sub then Some 0 else None)"

definition replace_first :: "string \<Rightarrow> string \<Rightarrow> string \<Rightarrow> string" where
  "replace_first s old new =
     (case str_index s old of None \<Rightarrow> s | Some k \<Rightarrow> take k s @ new @ drop (k + length old) s)"

definition qr_box :: "string \<Rightarrow> string" where
  \<open>qr_box body = ''<cbc:EmbeddedDocumentBinaryObject mimeCode="text/plain">'' @ body @ ''</cbc:EmbeddedDocumentBinaryObject>''\<close>

definition qr_id :: string where
  "qr_id = ''<cbc:ID>QR</cbc:ID>''"

definition injectQR :: "string \<Rightarrow> string \<Rightarrow> string" where
  "injectQR xml qrBase64 =
     (case str_last_index xml qr_id of
        None \<Rightarrow> xml
      | Some k \<Rightarrow> take k xml @ replace_first (drop k xml) (qr_box []) (qr_box qrBase64))"

section \<open>Signing\<close>

record SignResult =
  sr_SignedXML :: string
  sr_InvoiceHash :: string
  sr_SignatureB64 :: string
  sr_QRCode :: string

record sign_env =
  sg_xml :: xml_env
  sg_now :: string \<comment> \<open>the signing time in its layout\<close>
  sg_ecdsa :: "eckey \<Rightarrow> string \<Rightarrow> goerr + nat \<times> nat"
  sg_format :: "time \<Rightarrow> string"

text \<open>Steps 1 to 7, the same in both functions: the hash, the signature bytes and the document with the
  signature in place.\<close>

definition signed_parts :: "sign_env \<Rightarrow> string \<Rightarrow> eckey \<Rightarrow> CertInfo \<Rightarrow> goerr + string \<times> string \<times> string" where
  "signed_parts E unsignedXML privateKey cert =
     (let X = sg_xml E in
      case InvoiceHash X unsignedXML of
        Inl e \<Rightarrow> Inl (Wrapf ''computing invoice hash: '' e [])
      | Inr invoiceHash \<Rightarrow>
        (let signedProps = buildSignedProperties X (sg_now E) cert;
             signedPropsDigest = b64_encode (hex_encode (xe_sha256 X signedProps));
             signedInfo = buildSignedInfo invoiceHash signedPropsDigest
         in case sg_ecdsa E privateKey (xe_sha256 X signedInfo) of
              Inl e \<Rightarrow> Inl (Wrapf ''ECDSA sign: '' e [])
            | Inr (r, s) \<Rightarrow>
              (let signatureBytes = encodeECDSASignatureDER r s in
               Inr (invoiceHash, signatureBytes,
                 injectSignature unsignedXML (buildDSSignature signedInfo (b64_encode signatureBytes) cert signedProps)))))"

definition SignInvoice :: "sign_env \<Rightarrow> string \<Rightarrow> eckey \<Rightarrow> CertInfo \<Rightarrow> bool \<Rightarrow> (goerr + SignResult) option" where
  "SignInvoice E unsignedXML privateKey cert isSimplified =
     (case signed_parts E unsignedXML privateKey cert of
        Inl e \<Rightarrow> Some (Inl e)
      | Inr (invoiceHash, signatureBytes, signedXML) \<Rightarrow>
        (let result = (\<lambda>qrCode. Some (Inr \<lparr>sr_SignedXML = (if qrCode \<noteq> [] then injectQR signedXML qrCode else signedXML),
                sr_InvoiceHash = invoiceHash, sr_SignatureB64 = b64_encode signatureBytes, sr_QRCode = qrCode\<rparr>)) in
         if isSimplified then
           (case PublicKeyBytes cert of
              None \<Rightarrow> None
            | Some pub \<Rightarrow>
              (case GenerateQR (sg_format E) \<lparr>qr_SellerName = [], qr_VATNumber = [], qr_Timestamp = 0, qr_Total = [], qr_VATAmount = [],
                      qr_Hash = invoiceHash, qr_Signature = signatureBytes, qr_PublicKey = pub, qr_CertHash = ci_Raw cert\<rparr> of
                 Inl _ \<Rightarrow> result []
               | Inr qrCode \<Rightarrow> result qrCode))
         else result []))"

definition SignInvoiceWithQR ::
    "sign_env \<Rightarrow> string \<Rightarrow> eckey \<Rightarrow> CertInfo \<Rightarrow> bool \<Rightarrow> string \<Rightarrow> string \<Rightarrow> time \<Rightarrow> string \<Rightarrow> string \<Rightarrow> (goerr + SignResult) option" where
  "SignInvoiceWithQR E unsignedXML privateKey cert isSimplified sellerName vatNumber timestamp totalText vatAmount =
     (case signed_parts E unsignedXML privateKey cert of
        Inl e \<Rightarrow> Some (Inl e)
      | Inr (invoiceHash, signatureBytes, signedXML) \<Rightarrow>
        (case PublicKeyBytes cert of
           None \<Rightarrow> None
         | Some pub \<Rightarrow>
           (case GenerateQR (sg_format E) \<lparr>qr_SellerName = sellerName, qr_VATNumber = vatNumber, qr_Timestamp = timestamp, qr_Total = totalText,
                   qr_VATAmount = vatAmount, qr_Hash = invoiceHash, qr_Signature = signatureBytes, qr_PublicKey = pub, qr_CertHash = ci_Raw cert\<rparr> of
              Inl e \<Rightarrow> Some (Inl (Wrapf ''generating QR: '' e []))
            | Inr qrCode \<Rightarrow>
                Some (Inr \<lparr>sr_SignedXML = injectQR signedXML qrCode, sr_InvoiceHash = invoiceHash, sr_SignatureB64 = b64_encode signatureBytes,
                  sr_QRCode = qrCode\<rparr>))))"

section \<open>Numbers and bytes\<close>

lemma be_nat_snoc [simp]: "be_nat [] = 0" "be_nat (s @ [c]) = be_nat s * 256 + byte_of c"
  by (simp_all add: be_nat_def)

lemma be_nat_nat_be [simp]: "be_nat (nat_be n) = n"
proof (induction n rule: nat_be.induct)
  case (1 n)
  then show ?case by (subst nat_be.simps) (simp add: div_mult_mod_eq)
qed

lemma be_nat_zeros: "be_nat (replicate k (to_byte 0) @ s) = be_nat s"
proof -
  have "foldl (\<lambda>n c. n * 256 + byte_of c) 0 (replicate k (to_byte 0)) = (0 :: nat)"
    by (induction k) simp_all
  then show ?thesis by (simp add: be_nat_def)
qed

lemma nat_be_length: "n < 256 ^ k \<Longrightarrow> length (nat_be n) \<le> k"
proof (induction k arbitrary: n)
  case 0
  then show ?case by (simp add: nat_be.simps)
next
  case (Suc k)
  show ?case
  proof (cases "n = 0")
    case False
    have "n div 256 < 256 ^ k" using Suc.prems by (simp add: less_mult_imp_div_less mult.commute)
    from Suc.IH [OF this] False show ?thesis by (subst nat_be.simps) simp
  qed (simp add: nat_be.simps)
qed

lemma nat_be_Nil [simp]: "nat_be n = [] \<longleftrightarrow> n = 0"
  by (subst nat_be.simps) simp

section \<open>Properties\<close>

lemma copy_at_field:
  assumes "length y \<le> n"
  shows "copy_at (length a + n - length y) y (a @ replicate n z @ b) = a @ replicate (n - length y) z @ y @ b"
proof -
  have "length a + n - length y = length a + (n - length y)" using assms by simp
  then show ?thesis using assms by (simp add: copy_at_def min_def)
qed

lemma pad_bytes:
  assumes "length x \<le> 32" and "length y \<le> 32"
  shows "copy_at (65 - length y) y (copy_at (33 - length x) x (to_byte 4 # replicate 64 (to_byte 0))) =
    to_byte 4 # (replicate (32 - length x) (to_byte 0) @ x) @ (replicate (32 - length y) (to_byte 0) @ y)"
proof -
  let ?z = "to_byte 0"
  let ?a = "to_byte 4 # replicate (32 - length x) ?z @ x"
  have "replicate 64 ?z = replicate 32 ?z @ replicate 32 ?z" by (simp flip: replicate_add)
  then have "copy_at (33 - length x) x (to_byte 4 # replicate 64 ?z) = ?a @ replicate 32 ?z"
    using copy_at_field [OF assms(1), of "[to_byte 4]" ?z "replicate 32 ?z"] by simp
  moreover have "length ?a = 33" using assms(1) by simp
  ultimately show ?thesis
    using copy_at_field [OF assms(2), of ?a ?z "[]"] by simp
qed

lemma PublicKeyBytes_padded:
  assumes "ep_X (ci_PublicKey ci) < 256 ^ 32" and "ep_Y (ci_PublicKey ci) < 256 ^ 32"
  defines "x \<equiv> nat_be (ep_X (ci_PublicKey ci))" and "y \<equiv> nat_be (ep_Y (ci_PublicKey ci))"
  shows "PublicKeyBytes ci =
    Some (to_byte 4 # (replicate (32 - length x) (to_byte 0) @ x) @ (replicate (32 - length y) (to_byte 0) @ y))"
    and "length x \<le> 32" and "length y \<le> 32"
proof -
  show len: "length x \<le> 32" "length y \<le> 32" unfolding x_def y_def using assms(1,2) nat_be_length by auto
  show "PublicKeyBytes ci =
    Some (to_byte 4 # (replicate (32 - length x) (to_byte 0) @ x) @ (replicate (32 - length y) (to_byte 0) @ y))"
    using pad_bytes [OF len] len by (simp add: PublicKeyBytes_def Let_def x_def y_def)
qed

text \<open>C38: a public key whose coordinates fit in 32 bytes is written as 65 bytes, and reading those bytes as an
  uncompressed point gives the coordinates back.\<close>

theorem public_key_roundtrip:
  assumes "ep_X (ci_PublicKey ci) < 256 ^ 32" and "ep_Y (ci_PublicKey ci) < 256 ^ 32"
  shows "\<exists>b. PublicKeyBytes ci = Some b \<and> length b = 65 \<and>
    parseSecp256k1PublicKey b = Inr \<lparr>ep_Curve = secp256k1Curve, ep_X = ep_X (ci_PublicKey ci), ep_Y = ep_Y (ci_PublicKey ci)\<rparr>"
proof -
  let ?x = "nat_be (ep_X (ci_PublicKey ci))" and ?y = "nat_be (ep_Y (ci_PublicKey ci))"
  let ?px = "replicate (32 - length ?x) (to_byte 0) @ ?x" and ?py = "replicate (32 - length ?y) (to_byte 0) @ ?y"
  note bytes = PublicKeyBytes_padded [OF assms]
  then have p: "length ?px = 32" "length ?py = 32" by simp_all
  have "curve_point (to_byte 4 # ?px @ ?py) = \<lparr>ep_Curve = secp256k1Curve, ep_X = be_nat ?px, ep_Y = be_nat ?py\<rparr>"
    unfolding curve_point_def using p by (simp del: append_assoc replicate_append_same)
  then have "parseSecp256k1PublicKey (to_byte 4 # ?px @ ?py) =
      Inr \<lparr>ep_Curve = secp256k1Curve, ep_X = ep_X (ci_PublicKey ci), ep_Y = ep_Y (ci_PublicKey ci)\<rparr>"
    using p by (simp add: parseSecp256k1PublicKey_def be_nat_zeros)
  with bytes(1) p show ?thesis by auto
qed

text \<open>
  A strict DER reader for a sequence of two positive integers: lengths in one byte, no byte left over, a
  first byte below 128, since the integers are signed, and minimal contents (X.690, 8.3.2): a leading zero
  byte only before a byte of 128 or more.
\<close>

definition der_minimal :: "string \<Rightarrow> bool" where
  "der_minimal c = (case c of [] \<Rightarrow> False | b # bs \<Rightarrow>
     byte_of b < 128 \<and> (byte_of b = 0 \<longrightarrow> (case bs of [] \<Rightarrow> True | d # _ \<Rightarrow> 128 \<le> byte_of d)))"

definition der_int :: "string \<Rightarrow> (nat \<times> string) option" where
  "der_int s =
     (case s of
        t # l # rest \<Rightarrow>
          (if t = to_byte 2 \<and> byte_of l < 128 \<and> byte_of l \<le> length rest \<and> der_minimal (take (byte_of l) rest)
           then Some (be_nat (take (byte_of l) rest), drop (byte_of l) rest) else None)
      | _ \<Rightarrow> None)"

definition der_signature :: "string \<Rightarrow> (nat \<times> nat) option" where
  "der_signature s =
     (case s of
        t # l # inner \<Rightarrow>
          (if t = to_byte 48 \<and> byte_of l < 128 \<and> byte_of l = length inner then
             (case der_int inner of
                Some (r, rest) \<Rightarrow> (case der_int rest of Some (q, []) \<Rightarrow> Some (r, q) | _ \<Rightarrow> None)
              | None \<Rightarrow> None)
           else None)
      | _ \<Rightarrow> None)"

lemma nat_be_head: "0 < n \<Longrightarrow> byte_of (hd (nat_be n)) \<noteq> 0"
proof (induction n rule: nat_be.induct)
  case (1 n)
  show ?case
  proof (cases "n < 256")
    case True
    with 1 show ?thesis by (simp add: nat_be.simps [of n] nat_be.simps [of 0])
  next
    case False
    then have "0 < n div 256" by (simp add: div_greater_zero_iff)
    with 1 False show ?thesis by (simp add: nat_be.simps [of n])
  qed
qed

lemma intToASN1_shape:
  assumes "0 < n" and "n < 256 ^ 32"
  shows "length (intToASN1 n) \<le> 35" "der_int (intToASN1 n @ rest) = Some (n, rest)"
proof -
  define b where "b = (if 128 \<le> byte_of (hd (nat_be n)) then to_byte 0 # nat_be n else nat_be n)"
  have len: "length (nat_be n) \<le> 32" using assms(2) by (rule nat_be_length)
  have b: "intToASN1 n = to_byte 2 # to_byte (length b) # b" "length b \<le> 33"
    using assms(1) len by (auto simp: intToASN1_def Let_def b_def)
  have "der_minimal b"
    using assms(1) nat_be_head [of n] by (cases "nat_be n") (auto simp: b_def der_minimal_def)
  moreover have "be_nat b = n" using be_nat_zeros [of 1 "nat_be n"] by (simp add: b_def)
  ultimately show "length (intToASN1 n) \<le> 35" "der_int (intToASN1 n @ rest) = Some (n, rest)"
    using b by (simp_all add: der_int_def)
qed

text \<open>C39: the signature is valid DER: for positive numbers below \<open>2^256\<close>, as the curve has them, a strict reader,
  which refuses a superfluous leading zero byte and an integer that would read as negative, gets both
  numbers back, and the encoding is at most 72 bytes long, so every length fits in one byte.\<close>

theorem der_signature_roundtrip:
  assumes "0 < r" and "r < 256 ^ 32" and "0 < s" and "s < 256 ^ 32"
  shows "der_signature (encodeECDSASignatureDER r s) = Some (r, s) \<and> length (encodeECDSASignatureDER r s) \<le> 72"
proof -
  note R = intToASN1_shape [OF assms(1,2)] and S = intToASN1_shape [OF assms(3,4)]
  have "length (intToASN1 r @ intToASN1 s) \<le> 70" using R(1) S(1) by simp
  then show ?thesis
    using R(2) [of "intToASN1 s"] S(2) [of "[]"]
    by (simp add: encodeECDSASignatureDER_def Let_def der_signature_def)
qed

theorem der_signature_roundtrip_witness:
  "der_signature (encodeECDSASignatureDER 128 (256 ^ 32 - 1)) = Some (128, 256 ^ 32 - 1)"
  using der_signature_roundtrip [of 128 "256 ^ 32 - 1"] by simp

text \<open>A certificate is read from the token in either spelling: base64 of its DER bytes, or base64 of that
  text again, as the service returns it.\<close>

theorem certificate_spellings:
  assumes "parseCertDER P der = Inr info"
  shows "ParseCertificate P (b64_encode der) = Inr info \<and>
    (parseCertDER P (b64_encode der) = Inl e \<longrightarrow> ParseCertificate P (b64_encode (b64_encode der)) = Inr info)"
  using assms by (simp add: ParseCertificate_def)

text \<open>The shorter signing function never produces a QR code, also for simplified invoices: it has no
  seller name for the code, and the error is dropped.\<close>

theorem sign_invoice_has_no_code:
  assumes "SignInvoice E xml key cert isSimplified = Some (Inr res)"
  shows "sr_QRCode res = [] \<and> (\<exists>h b. signed_parts E xml key cert = Inr (h, b, sr_SignedXML res))"
  using assms by (auto simp: SignInvoice_def GenerateQR_def Let_def split: sum.splits option.splits if_splits)

text \<open>A coordinate of more than 33 bytes, as on P-384 and P-521, is a slice out of range.\<close>

lemma long_coordinate_panics: "33 < length (nat_be (ep_X (ci_PublicKey ci))) \<Longrightarrow> PublicKeyBytes ci = None"
  by (simp add: PublicKeyBytes_def Let_def)

section \<open>Concrete keys\<close>

definition sample_point :: ecpub where
  "sample_point = \<lparr>ep_Curve = secp256k1Curve, ep_X = 5, ep_Y = 300\<rparr>"

definition sample_cert :: CertInfo where
  "sample_cert = \<lparr>ci_Certificate = Some ''CN=ca'', ci_Raw = ''DER'', ci_PublicKey = sample_point, ci_IssuerName = ''CN=ca'', ci_SerialNum = 7\<rparr>"

definition sample_pki :: pki_env where
  "sample_pki = \<lparr>pk_pem = Some, pk_x509 = \<lambda>d. if d = ''DER'' then Inr \<lparr>xc_Key = Some sample_point, xc_Issuer = ''CN=ca'', xc_Serial = 7\<rparr>
       else Inl (NewError ''x509''),
     pk_certificate = \<lambda>d. Inl (NewError ''asn1''), pk_names = \<lambda>d. Inl (NewError ''asn1''), pk_ECPrivateKey = \<lambda>d. Inr \<lparr>ek_Pub = sample_point, ek_D = 1\<rparr>,
     pk_PKCS8 = \<lambda>d. Inl (NewError ''asn1''), pk_pkcs8_asn1 = \<lambda>d. Inl (NewError ''asn1''), pk_oid = \<lambda>d. Inl (NewError ''asn1''),
     pk_ec_asn1 = \<lambda>d. Inl (NewError ''asn1'')\<rparr>"

definition sample_signer :: sign_env where
  "sample_signer = \<lparr>sg_xml = \<lparr>xe_read = \<lambda>d. Inr (Some (sample_root [] [])), xe_c14n = \<lambda>e. Inr (elem_text e), xe_write = \<lambda>d e. d, xe_sha256 = \<lambda>d. d\<rparr>,
     sg_now = ''2024-01-01T00:00:00'', sg_ecdsa = \<lambda>k d. Inr (3, 200), sg_format = \<lambda>_. ''2024-01-01T00:00:00Z''\<rparr>"

theorem public_key_roundtrip_witness:
  "\<exists>b. PublicKeyBytes sample_cert = Some b \<and> length b = 65 \<and> parseSecp256k1PublicKey b = Inr sample_point"
  using public_key_roundtrip [of sample_cert] by (simp add: sample_cert_def sample_point_def)

lemma sample_certificate:
  "parseCertDER sample_pki ''DER'' = Inr sample_cert"
  "parseCertDER sample_pki (b64_encode ''DER'') = Inl (Wrapf ''asn1 parse certificate: '' (NewError ''asn1'') [])"
proof -
  have "b64_encode ''DER'' = ''REVS''" by code_simp
  then show "parseCertDER sample_pki (b64_encode ''DER'') = Inl (Wrapf ''asn1 parse certificate: '' (NewError ''asn1'') [])"
    by (simp add: parseCertDER_def sample_pki_def parseCertDERManual_def)
qed (simp add: parseCertDER_def sample_pki_def sample_cert_def)

theorem certificate_spellings_witness:
  "ParseCertificate sample_pki (b64_encode ''DER'') = Inr sample_cert \<and> ParseCertificate sample_pki (b64_encode (b64_encode ''DER'')) = Inr sample_cert"
  using certificate_spellings [OF sample_certificate(1)] sample_certificate(2) by metis

theorem sign_invoice_has_no_code_witness:
  "\<exists>res. SignInvoice sample_signer ''xml'' \<lparr>ek_Pub = sample_point, ek_D = 1\<rparr> sample_cert True = Some (Inr res) \<and> sr_QRCode res = []"
proof -
  obtain b where "PublicKeyBytes sample_cert = Some b"
    using PublicKeyBytes_padded(1) [of sample_cert] by (simp add: sample_cert_def sample_point_def)
  then obtain res where "SignInvoice sample_signer ''xml'' \<lparr>ek_Pub = sample_point, ek_D = 1\<rparr> sample_cert True = Some (Inr res)"
    by (simp add: SignInvoice_def signed_parts_def InvoiceHash_def canonicalizeForHashing_def sample_signer_def Let_def GenerateQR_def)
  with sign_invoice_has_no_code [OF this] show ?thesis by blast
qed

end
