(* ===== verification/Signed_Document.thy ===== *)
theory Signed_Document
  imports Ubl_Laws Native_Sign
begin

text \<open>
  What native signing makes of the UBL document: where the signature and the QR code are placed, that the
  document stays well formed, and that the SDK wrapper reads the code back from it.
\<close>

section \<open>Base64 text\<close>

lemma b64_char_base64: "n < 64 \<Longrightarrow> base64_char (b64_char n)"
  by (auto simp: base64_char_def b64_char_def of_char_of)

lemma b64_encode_base64: "list_all base64_char (b64_encode s)"
  by (induction s rule: b64_encode.induct) (simp_all add: b64_char_base64, simp_all add: base64_char_def)

lemma base64_no_angle: "list_all base64_char s \<Longrightarrow> no_angle s"
  by (induction s) (auto simp: base64_char_def)

lemma b64_no_angle [simp]: "no_angle (b64_encode s)"
  by (rule base64_no_angle [OF b64_encode_base64])

lemma b64_encode_nonempty: "s \<noteq> [] \<Longrightarrow> b64_encode s \<noteq> []"
  by (cases s rule: b64_encode.cases) simp_all

lemma no_angle_not_in: "no_angle s \<Longrightarrow> CHR ''<'' \<notin> set s" "no_angle s \<Longrightarrow> CHR ''>'' \<notin> set s"
  by (induction s) auto

lemma indent_sp: "indent n = sp n"
  by (simp add: indent_def sp_def)

section \<open>The place of the signature\<close>

lemma str_index_at:
  assumes "\<not> str_contains (a @ butlast m) m" and "m \<noteq> []"
  shows "str_index (a @ m @ b) m = Some (length a)"
  using assms
proof (induction a)
  case Nil
  then show ?case by (cases "m @ b") (auto simp: has_prefix_def, metis append_eq_conv_conj)
next
  case (Cons c a)
  have no: "\<not> has_prefix ((c # a) @ butlast m) m" and tail: "\<not> str_contains (a @ butlast m) m"
    using Cons.prems(1) by (auto simp: str_contains_def split: if_splits)
  have "take (length m) ((c # a) @ m @ b) = take (length m) ((c # a) @ butlast m)"
  proof -
    have "m = butlast m @ [last m]" using assms(2) by simp
    then have "(c # a) @ m @ b = ((c # a) @ butlast m) @ [last m] @ b" by (metis append.assoc)
    moreover have "length m \<le> length ((c # a) @ butlast m)" using assms(2) by (cases m) auto
    ultimately show ?thesis by (metis append_Nil2 diff_is_0_eq take0 take_append)
  qed
  with no have "\<not> has_prefix (c # a @ m @ b) m" by (simp add: has_prefix_def)
  with Cons.IH [OF tail assms(2)] show ?case by simp
qed

text \<open>
  Looking for a tag: a text between tags holds no marker, and a tag is one only when its name and what
  follows agree.
\<close>

definition tag_marker :: "string \<Rightarrow> string \<Rightarrow> string" where
  "tag_marker u v = ''<'' @ u @ ''>'' @ v"

lemma contains_text:
  "CHR ''<'' \<notin> set a \<Longrightarrow> str_contains (a @ r) (tag_marker u v) = str_contains r (tag_marker u v)"
  by (induction a) (auto simp: str_contains_def has_prefix_def tag_marker_def)

lemma contains_nil: "\<not> str_contains [] (tag_marker u v)"
  by (simp add: str_contains_def tag_marker_def)

lemma has_prefix_tag:
  assumes "CHR ''>'' \<notin> set t" and "CHR ''>'' \<notin> set u"
  shows "has_prefix (''<'' @ t @ ''>'' @ x) (tag_marker u v) \<longleftrightarrow> t = u \<and> has_prefix x v"
proof
  assume "has_prefix (''<'' @ t @ ''>'' @ x) (tag_marker u v)"
  then obtain z where z: "t @ CHR ''>'' # x = u @ CHR ''>'' # v @ z"
    using has_prefixE by (fastforce simp: tag_marker_def)
  have cut: "takeWhile (\<lambda>c. c \<noteq> CHR ''>'') (w @ CHR ''>'' # y) = w" if "CHR ''>'' \<notin> set w" for w y
    using that by (subst takeWhile_append2) auto
  have "t = u" using cut [OF assms(1), of x] cut [OF assms(2), of "v @ z"] z by metis
  with z show "t = u \<and> has_prefix x v" by simp
qed (auto simp: tag_marker_def has_prefix_def)

lemma contains_tag:
  assumes "no_angle t" and "no_angle u"
  shows "str_contains (''<'' @ t @ ''>'' @ x) (tag_marker u v) \<longleftrightarrow> (t = u \<and> has_prefix x v) \<or> str_contains x (tag_marker u v)"
proof -
  have "str_contains (t @ ''>'' @ x) (tag_marker u v) = str_contains x (tag_marker u v)"
    using contains_text [of "t @ ''>''" x u v] no_angle_not_in(1) [OF assms(1)] by simp
  moreover have "str_contains (''<'' @ t @ ''>'' @ x) (tag_marker u v) \<longleftrightarrow>
      has_prefix (''<'' @ t @ ''>'' @ x) (tag_marker u v) \<or> str_contains (t @ ''>'' @ x) (tag_marker u v)"
    by (simp add: str_contains_def)
  ultimately show ?thesis
    using has_prefix_tag [of t u x v] no_angle_not_in(2) assms by metis
qed

lemma contains_blank:
  "str_contains (sp n @ r) (tag_marker u v) = str_contains r (tag_marker u v)"
  "str_contains (newline @ r) (tag_marker u v) = str_contains r (tag_marker u v)"
  using contains_text [of "sp n"] contains_text [of newline] by (simp_all add: sp_def newline_def)

lemma contains_open_with:
  assumes "no_angle t" and "no_angle attrs" and "no_angle u"
  shows "str_contains (open_with n t attrs @ r) (tag_marker u v) \<longleftrightarrow>
    (t @ attrs = u \<and> has_prefix (newline @ r) v) \<or> str_contains r (tag_marker u v)"
  using contains_tag [of "t @ attrs" u "newline @ r" v] assms by (simp add: open_with_def contains_blank)

lemma contains_opn:
  "no_angle t \<Longrightarrow> no_angle u \<Longrightarrow> str_contains (opn n t @ r) (tag_marker u v) \<longleftrightarrow>
    (t = u \<and> has_prefix (newline @ r) v) \<or> str_contains r (tag_marker u v)"
  using contains_open_with [of t "[]" u] by (simp add: opn_def)

lemma contains_cls:
  "no_angle t \<Longrightarrow> no_angle u \<Longrightarrow> str_contains (cls n t @ r) (tag_marker u v) \<longleftrightarrow>
    (CHR ''/'' # t = u \<and> has_prefix (newline @ r) v) \<or> str_contains r (tag_marker u v)"
  using contains_tag [of "CHR ''/'' # t" u "newline @ r" v] by (simp add: cls_def contains_blank)

lemma contains_el:
  assumes "no_angle t" and "no_angle attrs" and "no_angle body" and "no_angle u"
  shows "str_contains (el n t attrs body @ r) (tag_marker u v) \<longleftrightarrow>
    (t @ attrs = u \<and> has_prefix (body @ ''</'' @ t @ ''>'' @ newline @ r) v) \<or>
    (CHR ''/'' # t = u \<and> has_prefix (newline @ r) v) \<or> str_contains r (tag_marker u v)"
proof -
  let ?m = "tag_marker u v" and ?rest = "''</'' @ t @ ''>'' @ newline @ r"
  have "str_contains (el n t attrs body @ r) ?m \<longleftrightarrow> (t @ attrs = u \<and> has_prefix (body @ ?rest) v) \<or> str_contains (body @ ?rest) ?m"
    using contains_tag [of "t @ attrs" u "body @ ?rest" v] assms by (simp add: el_def contains_blank)
  moreover have "str_contains (body @ ?rest) ?m = str_contains ?rest ?m"
    using no_angle_not_in(1) [OF assms(3)] by (rule contains_text)
  moreover have "str_contains ?rest ?m \<longleftrightarrow> (CHR ''/'' # t = u \<and> has_prefix (newline @ r) v) \<or> str_contains r ?m"
    using contains_tag [of "CHR ''/'' # t" u "newline @ r" v] assms by (simp add: contains_blank)
  ultimately show ?thesis by simp
qed

lemmas contains_rules = contains_opn contains_open_with contains_cls contains_el contains_blank

text \<open>A marker that is one tag is found where the text before it does not have it.\<close>

lemma str_index_tag:
  assumes "\<not> str_contains a (tag_marker u [])" and "no_angle u"
  shows "str_index (a @ tag_marker u [] @ b) (tag_marker u []) = Some (length a)"
  using assms(1)
proof (induction a)
  case Nil
  show ?case by (simp add: tag_marker_def has_prefix_def)
next
  case (Cons c a)
  let ?m = "tag_marker u []"
  have no: "\<not> has_prefix (c # a) ?m" and tail: "\<not> str_contains a ?m"
    using Cons.prems by (auto simp: str_contains_def split: if_splits)
  have "\<not> has_prefix (c # a @ ?m @ b) ?m"
  proof
    assume p: "has_prefix (c # a @ ?m @ b) ?m"
    show False
    proof (cases "length ?m \<le> length (c # a)")
      case True
      with p have "has_prefix (c # a) ?m" by (cases ?m) (auto simp: has_prefix_def)
      with no show False ..
    next
      case False
      then have k: "length a < length (u @ ''>'')" by (simp add: tag_marker_def)
      have "(c # a @ ?m @ b) ! Suc (length a) = ?m ! Suc (length a)"
        using p k by (metis False has_prefix_def linorder_not_le list.size(4) nth_take One_nat_def add.right_neutral add_Suc_right)
      then have "(u @ ''>'') ! length a = CHR ''<''"
        by (simp add: tag_marker_def nth_append)
      with k have "CHR ''<'' \<in> set (u @ ''>'')" by (metis nth_mem)
      with no_angle_not_in(1) [OF assms(2)] show False by simp
    qed
  qed
  with Cons.IH [OF tail] show ?case by simp
qed

definition ext_open :: string where
  "ext_open =
     opn 0 ''ext:UBLExtensions'' @ opn 4 ''ext:UBLExtension'' @
     el 8 ''ext:ExtensionURI'' [] ''urn:oasis:names:specification:ubl:dsig:enveloped:xades'' @
     opn 8 ''ext:ExtensionContent'' @
     open_with 12 ''sig:UBLDocumentSignatures'' (attr ''xmlns:sig'' nsSIG @ attr ''xmlns:sac'' nsSAC @ attr ''xmlns:sbc'' nsSBC) @
     opn 16 ''sac:SignatureInformation'' @
     el 20 ''cbc:ID'' [] ''urn:oasis:names:specification:ubl:signature:1'' @
     sp 20 @ ''<sbc:ReferencedSignatureID>'' @ ''urn:oasis:names:specification:ubl:signature:Invoice''"

definition ext_close :: string where
  "ext_close = newline @ cls 12 ''sig:UBLDocumentSignatures'' @ cls 8 ''ext:ExtensionContent'' @
     cls 4 ''ext:UBLExtension'' @ cls 0 ''ext:UBLExtensions''"

lemma extensions_split: "writeUBLExtensions = ext_open @ sig_marker @ newline @ sp 16 @ sig_closing @ ext_close"
  by (simp add: writeUBLExtensions_def ext_open_def ext_close_def sig_marker_def sig_closing_def el_def cls_def)

lemma markers: "sig_marker = tag_marker ''/sbc:ReferencedSignatureID'' []" "sig_closing = tag_marker ''/sac:SignatureInformation'' []"
  by (simp_all add: sig_marker_def sig_closing_def tag_marker_def)

lemma contains_head: "no_angle u \<Longrightarrow> hd u \<noteq> CHR ''?'' \<Longrightarrow> hd u \<noteq> CHR ''I'' \<Longrightarrow> u \<noteq> [] \<Longrightarrow>
    str_contains (xml_head @ r) (tag_marker u v) = str_contains r (tag_marker u v)"
proof -
  assume u: "no_angle u" "hd u \<noteq> CHR ''?''" "hd u \<noteq> CHR ''I''" "u \<noteq> []"
  let ?q = \<open>''?xml version="1.0" encoding="UTF-8"?''\<close>
  let ?i = "''Invoice'' @ attr ''xmlns'' nsInvoice @ attr ''xmlns:cac'' nsCAC @ attr ''xmlns:cbc'' nsCBC @ attr ''xmlns:ext'' nsEXT"
  have "xml_head @ r = ''<'' @ ?q @ ''>'' @ newline @ ''<'' @ ?i @ ''>'' @ r"
    by (simp add: xml_head_def)
  moreover have "?q \<noteq> u" "?i \<noteq> u" using u by auto
  moreover have "no_angle ?q" "no_angle ?i" by (simp_all add: namespaces)
  ultimately show ?thesis
    using contains_tag [of ?q u "newline @ ''<'' @ ?i @ ''>'' @ r" v] contains_tag [of ?i u r v] u(1)
    by (simp only: contains_blank) blast
qed

lemma marker_first: "\<not> str_contains (xml_head @ ext_open) sig_marker"
proof -
  have "\<not> str_contains (''<sbc:ReferencedSignatureID>'' @ ''urn:oasis:names:specification:ubl:signature:Invoice'') sig_marker"
    by code_simp
  then show ?thesis
    unfolding markers ext_open_def by (simp add: contains_head contains_rules namespaces del: str_contains_def)
qed

lemma injectSignature_form:
  "injectSignature (xml_head @ writeUBLExtensions @ rest) ds =
     xml_head @ ext_open @ sig_marker @ newline @ ds @ newline @ sp 16 @ sig_closing @ ext_close @ rest"
proof -
  let ?a = "xml_head @ ext_open" and ?gap = "newline @ sp 16"
  let ?xml = "?a @ sig_marker @ ?gap @ sig_closing @ ext_close @ rest"
  have at: "str_index ?xml sig_marker = Some (length ?a)"
    unfolding markers by (rule str_index_tag [OF marker_first [unfolded markers]]) simp
  have close: "str_index (?gap @ sig_closing @ ext_close @ rest) sig_closing = Some (length ?gap)"
    unfolding markers
    using contains_text [of ?gap "[]" "''/sac:SignatureInformation''" "[]"] str_index_tag [of ?gap "''/sac:SignatureInformation''"]
    by (simp add: sp_def newline_def contains_nil)
  have parts: "drop (length ?a + length sig_marker) ?xml = ?gap @ sig_closing @ ext_close @ rest"
    "drop (length ?a + length sig_marker + length ?gap) ?xml = sig_closing @ ext_close @ rest"
    "take (length ?a + length sig_marker) ?xml = ?a @ sig_marker"
    by simp_all
  have "xml_head @ writeUBLExtensions @ rest = ?xml"
    by (simp add: extensions_split)
  then show ?thesis
    unfolding injectSignature_def Let_def using at close parts by (simp only: option.case indent_sp append_assoc)
qed

section \<open>Readers of the document\<close>

text \<open>Text of letters, digits and the like is not changed by escaping.\<close>

definition clean :: "char \<Rightarrow> bool" where
  "clean c \<longleftrightarrow> graphic c \<and> c \<notin> set [CHR 0x22, CHR 0x27, CHR ''&'', CHR ''<'', CHR ''>'']"

lemma clean_byte: "clean c \<Longrightarrow> byte_of c < 128 \<and> 32 \<le> byte_of c \<and> byte_of c \<notin> {34, 39, 38, 60, 62, 9, 10, 13}"
proof -
  assume c: "clean c"
  have "byte_of c \<noteq> byte_of d" if "d \<in> set [CHR 0x22, CHR 0x27, CHR ''&'', CHR ''<'', CHR ''>'']" for d
    using c that by (auto simp: clean_def)
  from this [of "CHR 0x22"] this [of "CHR 0x27"] this [of "CHR ''&''"] this [of "CHR ''<''"] this [of "CHR ''>''"]
  show ?thesis using c by (auto simp: clean_def graphic_def)
qed

lemma xmlEscape_clean: "list_all clean s \<Longrightarrow> xmlEscape s = s"
proof (induction s)
  case (Cons c cs)
  then have c: "clean c" and cs: "xmlEscape cs = cs" by simp_all
  have "escape_rune (byte_of c) 1 [c] = [c]"
    using clean_byte [OF c] by (auto simp: escape_rune_def isInCharacterRange_def rune_error_def)
  with clean_byte [OF c] cs show ?case by (simp add: xmlEscape.simps(2))
qed simp

lemma escaped_texts:
  "xmlEscape ''VAT'' = ''VAT''" "xmlEscape ''ICV'' = ''ICV''" "xmlEscape ''PIH'' = ''PIH''" "xmlEscape ''QR'' = ''QR''"
  "xmlEscape ''urn:oasis:names:specification:ubl:signature:Invoice'' = ''urn:oasis:names:specification:ubl:signature:Invoice''"
  by (rule xmlEscape_clean, simp add: clean_def graphic_def)+

lemma escaped_number: "xmlEscape (show_nat n) = show_nat n" "xmlEscape (show_nat n) \<noteq> ''QR''"
proof -
  have "is_digit c \<Longrightarrow> clean c" for c by (auto simp: is_digit_def clean_def graphic_def)
  then have "list_all clean (show_nat n)" using show_nat_digits [of n] by (auto simp: list_all_iff)
  then show esc: "xmlEscape (show_nat n) = show_nat n" by (rule xmlEscape_clean)
  have "show_nat n \<noteq> ''QR''" using show_nat_digits [of n] by (auto simp: is_digit_def)
  then show "xmlEscape (show_nat n) \<noteq> ''QR''" by (simp add: esc)
qed

definition other_tag :: "string \<Rightarrow> bool" where
  "other_tag t \<longleftrightarrow> no_angle t \<and> t \<noteq> ''cac:AdditionalDocumentReference'' \<and> t \<noteq> ''cbc:ID''"

lemma not_quote: "CHR 0x22 \<in> set x \<Longrightarrow> x \<noteq> ''cac:AdditionalDocumentReference'' \<and> x \<noteq> ''cbc:ID''"
  by auto

lemma other_tag_attr:
  "CHR 0x22 \<in> set attrs \<Longrightarrow> no_angle t \<Longrightarrow> no_angle attrs \<Longrightarrow> other_tag (t @ attrs)"
  unfolding other_tag_def by (metis (no_types, lifting) no_angle_simps(3) set_append UnI2 not_quote)

lemma other_tag_attrs:
  "no_angle t \<Longrightarrow> no_angle k \<Longrightarrow> no_angle v \<Longrightarrow> other_tag (t @ attr k v)"
  "no_angle t \<Longrightarrow> no_angle k \<Longrightarrow> no_angle v \<Longrightarrow> no_angle b \<Longrightarrow> other_tag (t @ attr k v @ b)"
  by (rule other_tag_attr; simp add: attr_def)+

lemmas signature_texts = sha256_method_def xades_ds_def xades_ns_def algorithm_def

definition document_rest :: "'f flops \<Rightarrow> 'f layouts \<Rightarrow> 'f invoice \<Rightarrow> string" where
  "document_rest F L i =
     signature_reference @ writeSupplier i @ writeCustomer i @ delivery_and_payment L i @
     (if fl_lt F (fl_int F 0) (in_Discount i) then writeAllowanceCharge F L i else []) @
     writeTaxTotals F L i @ writeLegalMonetaryTotal F L i @ write_lines F L i @ ''</Invoice>''"

text \<open>
  A function of a document that looks only at references and ids: text between tags and every other tag
  do not change its value, and neither does an id that it does not look for.
\<close>

locale doc_reader =
  fixes f :: "string \<Rightarrow> 'a" and other_id :: "string \<Rightarrow> bool"
  assumes skip_char: "c \<noteq> CHR ''<'' \<Longrightarrow> f (c # r) = f r"
    and tag: "no_angle t \<Longrightarrow> t \<noteq> ''cac:AdditionalDocumentReference'' \<Longrightarrow> t \<noteq> ''cbc:ID'' \<Longrightarrow> f (''<'' @ t @ ''>'' @ r) = f r"
    and id_element: "no_angle body \<Longrightarrow> other_id body \<Longrightarrow> f (''<cbc:ID>'' @ body @ ''</cbc:ID>'' @ r) = f r"
    and not_QR: "body \<noteq> ''QR'' \<Longrightarrow> other_id body"
begin

lemma skip_text: "CHR ''<'' \<notin> set a \<Longrightarrow> f (a @ r) = f r"
  by (induction a) (auto simp: skip_char)

lemma skip_blank: "f (sp n @ r) = f r" "f (newline @ r) = f r"
  by (rule skip_text, simp add: sp_def newline_def)+

lemma skip_open_with: "other_tag (t @ attrs) \<Longrightarrow> f (open_with n t attrs @ r) = f r"
  using tag [of "t @ attrs" "newline @ r"] by (simp add: other_tag_def open_with_def skip_blank)

lemma skip_opn: "other_tag t \<Longrightarrow> f (opn n t @ r) = f r"
  by (simp add: opn_def skip_open_with)

lemma skip_cls: "no_angle t \<Longrightarrow> f (cls n t @ r) = f r"
  using tag [of "CHR ''/'' # t" "newline @ r"] by (simp add: cls_def skip_blank)

lemma skip_el:
  assumes "other_tag (t @ attrs)" and "no_angle t" and "no_angle body"
  shows "f (el n t attrs body @ r) = f r"
proof -
  have "f (el n t attrs body @ r) = f (body @ ''</'' @ t @ ''>'' @ newline @ r)"
    using tag [of "t @ attrs" "body @ ''</'' @ t @ ''>'' @ newline @ r"] assms(1) by (simp add: el_def skip_blank other_tag_def)
  also have "\<dots> = f (''</'' @ t @ ''>'' @ newline @ r)"
    using no_angle_not_in(1) [OF assms(3)] by (rule skip_text)
  also have "\<dots> = f r"
    using tag [of "CHR ''/'' # t" "newline @ r"] assms(2) by (simp add: skip_blank)
  finally show ?thesis .
qed

lemma skip_id: "no_angle body \<Longrightarrow> other_id body \<Longrightarrow> f (el n ''cbc:ID'' [] body @ r) = f r"
  using id_element [of body "newline @ r"] by (simp add: el_def skip_blank)

lemma skip_elements:
  "other_tag t \<Longrightarrow> f (writeElementIndent n t v @ r) = f r"
  "other_tag t \<Longrightarrow> f (writeElement t v @ r) = f r"
  "other_id (xmlEscape v) \<Longrightarrow> f (writeElementIndent n ''cbc:ID'' v @ r) = f r"
  "other_id (xmlEscape v) \<Longrightarrow> f (writeElement ''cbc:ID'' v @ r) = f r"
  "other_tag (t @ attr ''currencyID'' cur) \<Longrightarrow> no_angle t \<Longrightarrow> plain w \<Longrightarrow> f (amount_el n t cur w @ r) = f r"
  by (simp_all add: writeElement_def writeElementIndent_def amount_el_def skip_el skip_id plain_no_angle other_tag_def)

lemmas skip_rules = skip_opn skip_open_with skip_cls skip_el skip_id skip_elements skip_blank

lemma skip_header: "other_id (xmlEscape (in_ID i)) \<Longrightarrow> other_id (xmlEscape (in_BillingReferenceID i)) \<Longrightarrow> plain (in_SubType i) \<Longrightarrow>
    f (document_header L i @ r) = f r"
  by (simp add: document_header_def skip_rules other_tag_attrs other_tag_def plain_no_angle show_int_plain)

lemma skip_signature_reference: "f (signature_reference @ r) = f r"
  by (simp add: signature_reference_def skip_rules other_tag_def escaped_texts not_QR)

lemma skip_address: "f (writeAddress n p @ r) = f r"
  by (simp add: writeAddress_def skip_rules other_tag_def)

lemma skip_party: "f (party_tax_scheme p @ r) = f r" "f (party_legal_entity p @ r) = f r"
  by (simp_all add: party_tax_scheme_def party_legal_entity_def skip_rules other_tag_def escaped_texts not_QR)

lemma skip_supplier: "f (writeSupplier i @ r) = f r"
  by (simp add: writeSupplier_def Let_def skip_rules skip_address skip_party other_tag_attrs other_tag_def plain_no_angle)

lemma skip_customer: "f (writeCustomer i @ r) = f r"
  by (simp add: writeCustomer_def Let_def skip_rules skip_address skip_party other_tag_def)

lemma skip_delivery: "f (delivery_and_payment L i @ r) = f r"
  by (simp add: delivery_and_payment_def skip_rules other_tag_def)

lemma skip_tax_category: "plain cat \<Longrightarrow> plain percent \<Longrightarrow> f (tax_category n cat percent @ r) = f r"
  by (simp add: tax_category_def un_scheme_def skip_rules other_tag_attrs other_tag_def plain_no_angle)

lemma skip_allowance:
  assumes "number_layouts L" and "raw_plain i"
  shows "f (writeAllowanceCharge F L i @ r) = f r"
proof -
  have "plain (allowance_category i)"
    using assms(2) by (simp add: allowance_category_def raw_plain_def TaxStandard_def xml_plain_def)
  then show ?thesis
    by (simp add: writeAllowanceCharge_def skip_rules skip_tax_category other_tag_def plain_no_angle currency_plain [OF assms(2)]
        number_layoutsD [OF assms(1)])
qed

lemma skip_concat: "(\<And>x r. x \<in> set xs \<Longrightarrow> f (x @ r) = f r) \<Longrightarrow> f (concat xs @ r) = f r"
  by (induction xs) auto

lemma skip_tax_totals:
  assumes "number_layouts L" and "raw_plain i"
  shows "f (writeTaxTotals F L i @ r) = f r"
proof -
  note facts = plain_no_angle currency_plain [OF assms(2)] number_layoutsD [OF assms(1)]
  have "f (tax_subtotal L (currency i) g @ r) = f r" if "g \<in> set (taxGroups F L i)" for g r
    using taxGroups_plain [OF assms(2) that]
    by (simp add: tax_subtotal_def skip_rules skip_tax_category other_tag_def facts)
  then have "f (concat (map (tax_subtotal L (currency i)) (taxGroups F L i)) @ r) = f r" for r
    by (intro skip_concat) auto
  then show ?thesis
    by (simp add: writeTaxTotals_def Let_def skip_rules other_tag_def facts)
qed

lemma skip_monetary_total:
  assumes "number_layouts L" and "raw_plain i"
  shows "f (writeLegalMonetaryTotal F L i @ r) = f r"
  by (simp add: writeLegalMonetaryTotal_def Let_def skip_rules other_tag_def plain_no_angle currency_plain [OF assms(2)]
      number_layoutsD [OF assms(1)] xml_plain_def)

definition other_line :: "'f line_item \<Rightarrow> bool" where
  "other_line l \<longleftrightarrow> other_id (xmlEscape (li_ID l)) \<and> other_id (xmlEscape (li_TaxCategory l))"

lemma skip_line:
  assumes "number_layouts L" and "raw_plain i" and "plain (li_UnitCode l)" and "other_line l"
  shows "f (writeLine F L i l k @ r) = f r"
proof -
  have unit: "plain (orDefault (li_UnitCode l) ''PCE'')"
    using assms(3) by (rule orDefault_plain) (simp add: xml_plain_def)
  note facts = plain_no_angle currency_plain [OF assms(2)] number_layoutsD [OF assms(1)] plain_no_angle [OF unit]
  show ?thesis
    using assms(4)
    by (simp add: writeLine_def Let_def skip_rules other_tag_attrs other_tag_def facts escaped_texts not_QR [OF escaped_number(2)] not_QR other_line_def)
qed

lemma skip_lines:
  assumes "number_layouts L" and "raw_plain i" and "list_all other_line (in_Lines i)"
  shows "f (write_lines F L i @ r) = f r"
proof -
  have "f (writeLine F L i l k @ r) = f r" if "(l, k) \<in> set (zip (in_Lines i) ks)" for l k ks r
    using assms that by (intro skip_line) (auto simp: raw_plain_def list_all_iff dest: set_zip_leftD)
  then show ?thesis unfolding write_lines_def by (intro skip_concat) auto
qed

text \<open>Everything after the document references.\<close>

lemma skip_rest:
  assumes "number_layouts L" and "raw_plain i" and "list_all other_line (in_Lines i)"
  shows "f (document_rest F L i @ r) = f r"
  using skip_allowance [OF assms(1,2)] skip_tax_totals [OF assms(1,2)] skip_monetary_total [OF assms(1,2)] skip_lines [OF assms]
    tag [of "''/Invoice''" r]
  by (simp add: document_rest_def skip_signature_reference skip_supplier skip_customer skip_delivery)

text \<open>The signature.\<close>

lemma skip_xtag: "other_tag t \<Longrightarrow> f (xtag t @ r) = f r"
  using tag [of t r] by (simp add: xtag_def other_tag_def)

lemma skip_value: "no_angle a \<Longrightarrow> f (a @ r) = f r"
  using no_angle_not_in(1) by (rule skip_text)

lemmas skip_signature = skip_xtag skip_value skip_blank other_tag_def signature_texts

lemma skip_signed_properties:
  "no_angle now \<Longrightarrow> no_angle (IssuerNameForXML cert) \<Longrightarrow> f (buildSignedProperties X now cert @ r) = f r"
  by (simp add: buildSignedProperties_def skip_signature CertDigest_def SerialNumberDecimal_def plain_no_angle [OF show_int_plain])

lemma skip_xpath: "no_angle path \<Longrightarrow> f (xpath_transform path @ r) = f r"
  by (simp add: xpath_transform_def skip_signature skip_char)

lemma skip_signed_info: "no_angle a \<Longrightarrow> no_angle b \<Longrightarrow> f (buildSignedInfo a b @ r) = f r"
  by (simp add: buildSignedInfo_def skip_signature skip_xpath)

lemma skip_ds_signature:
  assumes "no_angle now" and "no_angle (IssuerNameForXML cert)" and "no_angle a" and "no_angle b" and "no_angle v"
  shows "f (buildDSSignature (buildSignedInfo a b) v cert (buildSignedProperties X now cert) @ r) = f r"
  using assms
  by (simp add: buildDSSignature_def indent_sp skip_signature skip_signed_info skip_signed_properties CertBase64_def)

lemma skip_head: "f (xml_head @ r) = f r"
proof -
  let ?q = \<open>''?xml version="1.0" encoding="UTF-8"?''\<close>
  let ?i = "''Invoice'' @ attr ''xmlns'' nsInvoice @ attr ''xmlns:cac'' nsCAC @ attr ''xmlns:cbc'' nsCBC @ attr ''xmlns:ext'' nsEXT"
  have "xml_head @ r = xtag ?q @ newline @ xtag ?i @ r"
    by (simp add: xml_head_def xtag_def)
  moreover have "other_tag ?q" "other_tag ?i" by (simp_all add: other_tag_def namespaces)
  ultimately show ?thesis by (simp only: skip_xtag skip_blank)
qed

lemma skip_extensions:
  assumes "\<And>r. f (ds @ r) = f r"
  shows "f (ext_open @ sig_marker @ newline @ ds @ newline @ sp 16 @ sig_closing @ ext_close @ r) = f r"
proof -
  let ?m = "''sbc:ReferencedSignatureID''" and ?urn = "''urn:oasis:names:specification:ubl:signature:Invoice''"
  have "f (''<sbc:ReferencedSignatureID>'' @ ?urn @ sig_marker @ x) = f x" for x
  proof -
    have "f (xtag ?m @ ?urn @ xtag (''/'' @ ?m) @ x) = f x"
      by (subst skip_xtag skip_value, simp add: other_tag_def)+ simp
    then show ?thesis by (simp add: xtag_def sig_marker_def)
  qed
  note marker = this
  have close: "f (sig_closing @ x) = f x" for x
    using tag [of "''/sac:SignatureInformation''" x] by (simp add: sig_closing_def)
  show ?thesis
    using marker [of "newline @ ds @ newline @ sp 16 @ sig_closing @ ext_close @ r"]
    by (simp add: ext_open_def ext_close_def skip_rules other_tag_attrs other_tag_def namespaces not_QR close assms)
qed

end

section \<open>The readers of the program\<close>

abbreviation ref_tag :: string where
  "ref_tag \<equiv> ''cac:AdditionalDocumentReference''"

lemma qr_head_tag: "no_angle t \<Longrightarrow> t \<noteq> ref_tag \<Longrightarrow> qr_head (''<'' @ t @ ''>'' @ r) = None"
  using has_prefix_tag [of t ref_tag r "[]"] no_angle_not_in(2) [of t]
  by (simp add: qr_head_def literal_def tag_marker_def)

lemma qrEmbeddedRe_char: "c \<noteq> CHR ''<'' \<Longrightarrow> qrEmbeddedRe (c # r) = qrEmbeddedRe r"
  by (simp add: qr_head_def literal_def has_prefix_def)

lemma qrEmbeddedRe_text: "CHR ''<'' \<notin> set a \<Longrightarrow> qrEmbeddedRe (a @ r) = qrEmbeddedRe r"
  by (induction a) (auto simp: qrEmbeddedRe_char simp del: qrEmbeddedRe.simps)

lemma qrEmbeddedRe_tag: "no_angle t \<Longrightarrow> t \<noteq> ref_tag \<Longrightarrow> qrEmbeddedRe (''<'' @ t @ ''>'' @ r) = qrEmbeddedRe r"
proof -
  assume t: "no_angle t" "t \<noteq> ref_tag"
  have "qrEmbeddedRe (''<'' @ t @ ''>'' @ r) = qrEmbeddedRe (t @ ''>'' @ r)"
    using qr_head_tag [OF t, of r] by simp
  also have "\<dots> = qrEmbeddedRe r"
    using qrEmbeddedRe_text [of "t @ ''>''" r] no_angle_not_in(1) [OF t(1)] by simp
  finally show ?thesis .
qed

interpretation qr: doc_reader qrEmbeddedRe "\<lambda>_. True"
proof
  fix c :: char and r t body :: string
  show "c \<noteq> CHR ''<'' \<Longrightarrow> qrEmbeddedRe (c # r) = qrEmbeddedRe r" by (rule qrEmbeddedRe_char)
  show "no_angle t \<Longrightarrow> t \<noteq> ref_tag \<Longrightarrow> t \<noteq> ''cbc:ID'' \<Longrightarrow> qrEmbeddedRe (''<'' @ t @ ''>'' @ r) = qrEmbeddedRe r"
    by (rule qrEmbeddedRe_tag)
  assume body: "no_angle body"
  have "qrEmbeddedRe (''<cbc:ID>'' @ body @ ''</cbc:ID>'' @ r) = qrEmbeddedRe (body @ ''</cbc:ID>'' @ r)"
    using qrEmbeddedRe_tag [of "''cbc:ID''" "body @ ''</cbc:ID>'' @ r"] by (simp del: qrEmbeddedRe.simps)
  also have "\<dots> = qrEmbeddedRe (''</cbc:ID>'' @ r)"
    using no_angle_not_in(1) [OF body] by (rule qrEmbeddedRe_text)
  also have "\<dots> = qrEmbeddedRe r"
    using qrEmbeddedRe_tag [of "''/cbc:ID''" r] by (simp del: qrEmbeddedRe.simps)
  finally show "qrEmbeddedRe (''<cbc:ID>'' @ body @ ''</cbc:ID>'' @ r) = qrEmbeddedRe r" .
qed simp

lemma qr_id_marker: "qr_id = tag_marker ''cbc:ID'' ''QR</cbc:ID>''"
  by (simp add: qr_id_def tag_marker_def)

interpretation ids: doc_reader "\<lambda>s. str_contains s qr_id" "\<lambda>body. body \<noteq> ''QR''"
proof
  fix c :: char and r t body :: string
  show "c \<noteq> CHR ''<'' \<Longrightarrow> str_contains (c # r) qr_id = str_contains r qr_id"
    using contains_text [of "[c]" r] unfolding qr_id_marker by simp
  show "no_angle t \<Longrightarrow> t \<noteq> ref_tag \<Longrightarrow> t \<noteq> ''cbc:ID'' \<Longrightarrow> str_contains (''<'' @ t @ ''>'' @ r) qr_id = str_contains r qr_id"
    unfolding qr_id_marker by (subst contains_tag) simp_all
  assume body: "no_angle body" "body \<noteq> ''QR''"
  have no: "\<not> has_prefix (body @ ''</cbc:ID>'' @ r) ''QR</cbc:ID>''"
  proof
    assume "has_prefix (body @ ''</cbc:ID>'' @ r) ''QR</cbc:ID>''"
    then obtain z where z: "body @ CHR ''<'' # ''/cbc:ID>'' @ r = ''QR'' @ CHR ''<'' # ''/cbc:ID>'' @ z"
      using has_prefixE by fastforce
    have cut: "takeWhile (\<lambda>c. c \<noteq> CHR ''<'') (w @ CHR ''<'' # y) = w" if "CHR ''<'' \<notin> set w" for w y
      using that by (subst takeWhile_append2) auto
    have "body = ''QR''"
      using cut [of body "''/cbc:ID>'' @ r"] cut [of "''QR''" "''/cbc:ID>'' @ z"] no_angle_not_in(1) [OF body(1)] z by simp
    with body(2) show False ..
  qed
  have "str_contains (''<cbc:ID>'' @ body @ ''</cbc:ID>'' @ r) qr_id = str_contains (body @ ''</cbc:ID>'' @ r) qr_id"
    using contains_tag [of "''cbc:ID''" "''cbc:ID''" "body @ ''</cbc:ID>'' @ r" "''QR</cbc:ID>''"] no unfolding qr_id_marker by simp
  also have "\<dots> = str_contains (''</cbc:ID>'' @ r) qr_id"
    unfolding qr_id_marker using no_angle_not_in(1) [OF body(1)] by (rule contains_text)
  also have "\<dots> = str_contains r qr_id"
    using contains_tag [of "''/cbc:ID''" "''cbc:ID''" r "''QR</cbc:ID>''"] unfolding qr_id_marker by simp
  finally show "str_contains (''<cbc:ID>'' @ body @ ''</cbc:ID>'' @ r) qr_id = str_contains r qr_id" .
qed simp

section \<open>The place of the code\<close>

definition refs_open :: "'f invoice \<Rightarrow> string" where
  "refs_open i =
     opn 4 ref_tag @ writeElementIndent 8 ''cbc:ID'' ''ICV'' @
     writeElementIndent 8 ''cbc:UUID'' (show_int (in_InvoiceCounterValue i)) @ cls 4 ref_tag @
     opn 4 ref_tag @ writeElementIndent 8 ''cbc:ID'' ''PIH'' @ opn 8 ''cac:Attachment'' @
     embedded (in_PreviousInvoiceHash i) @ cls 8 ''cac:Attachment'' @ cls 4 ref_tag @ opn 4 ref_tag @ sp 8"

definition qr_gap :: string where
  "qr_gap = newline @ opn 8 ''cac:Attachment'' @ sp 12"

definition refs_close :: string where
  "refs_close = newline @ cls 8 ''cac:Attachment'' @ cls 4 ref_tag"

definition doc_refs :: "string \<Rightarrow> 'f invoice \<Rightarrow> string" where
  "doc_refs code i = refs_open i @ qr_id @ qr_gap @ qr_box code @ refs_close"

lemma doc_refs_empty: "writeAdditionalDocRefs i = doc_refs [] i"
  by (simp add: writeAdditionalDocRefs_def doc_refs_def refs_open_def qr_gap_def refs_close_def qr_id_def qr_box_def embedded_def
      writeElementIndent_def el_def attr_def escaped_texts)

lemma last_index_None: "str_last_index s m = None \<longleftrightarrow> \<not> str_contains s m"
  by (induction s) (auto simp: str_contains_def split: option.splits)

lemma last_index_at: "str_last_index s m = Some 0 \<Longrightarrow> str_last_index (a @ s) m = Some (length a)"
  by (induction a) auto

lemma last_index_here: "str_last_index cs m = None \<Longrightarrow> has_prefix (c # cs) m \<Longrightarrow> str_last_index (c # cs) m = Some 0"
  by simp

lemma last_index_id:
  assumes "\<not> str_contains b qr_id"
  shows "str_last_index (a @ qr_id @ b) qr_id = Some (length a)"
proof -
  have "str_contains (''cbc:ID>QR</cbc:ID>'' @ b) qr_id = str_contains b qr_id"
    using ids.skip_text [of "''cbc:ID>QR''" "''</cbc:ID>'' @ b"] ids.tag [of "''/cbc:ID''" b] by simp
  with assms have "str_last_index (''cbc:ID>QR</cbc:ID>'' @ b) qr_id = None"
    unfolding last_index_None by blast
  moreover have "qr_id @ b = CHR ''<'' # ''cbc:ID>QR</cbc:ID>'' @ b" by (simp add: qr_id_def)
  ultimately have "str_last_index (qr_id @ b) qr_id = Some 0"
    using last_index_here has_prefix_append by metis
  then show ?thesis by (rule last_index_at)
qed

lemma box_first: "\<not> str_contains ((qr_id @ qr_gap) @ butlast (qr_box [])) (qr_box [])"
  by code_simp

lemma injectQR_form:
  assumes "\<not> str_contains post qr_id"
  shows "injectQR (pre @ doc_refs [] i @ post) code = pre @ doc_refs code i @ post"
proof -
  let ?a = "pre @ refs_open i" and ?b = "qr_gap @ qr_box [] @ refs_close @ post"
  have "str_contains ?b qr_id = str_contains post qr_id"
    using ids.tag [of \<open>''cbc:EmbeddedDocumentBinaryObject mimeCode="text/plain"''\<close> "''</cbc:EmbeddedDocumentBinaryObject>'' @ refs_close @ post"]
      ids.tag [of "''/cbc:EmbeddedDocumentBinaryObject''" "refs_close @ post"]
    by (simp add: qr_gap_def refs_close_def qr_box_def ids.skip_blank ids.skip_opn ids.skip_cls other_tag_def)
  then have at: "str_last_index (?a @ qr_id @ ?b) qr_id = Some (length ?a)"
    using assms last_index_id by blast
  have "str_index ((qr_id @ qr_gap) @ qr_box [] @ refs_close @ post) (qr_box []) = Some (length (qr_id @ qr_gap))"
    by (rule str_index_at [OF box_first]) (simp add: qr_box_def)
  then have "replace_first (qr_id @ ?b) (qr_box []) (qr_box code) = qr_id @ qr_gap @ qr_box code @ refs_close @ post"
    by (simp add: replace_first_def)
  moreover have "pre @ doc_refs [] i @ post = ?a @ qr_id @ ?b" by (simp add: doc_refs_def)
  ultimately show ?thesis
    unfolding injectQR_def using at by (simp add: doc_refs_def)
qed

section \<open>Reading the code back\<close>

lemma dropWhile_blank: "\<not> re_space c \<Longrightarrow> dropWhile re_space (newline @ sp n @ c # r) = c # r"
  by (induction n) (simp_all add: newline_def sp_def re_space_def)

lemma literal_append [simp]: "literal p (p @ s) = Some s"
  by (simp add: literal_def)

lemma qr_head_ref:
  "qr_head (''<'' @ ref_tag @ ''>'' @ newline @ sp 8 @ ''<cbc:ID>'' @ v) =
     Option.bind (literal ''QR'' (dropWhile re_space v)) (\<lambda>s. literal ''</cbc:ID>'' (dropWhile re_space s))"
proof -
  have "literal ''<cac:AdditionalDocumentReference>'' (''<'' @ ref_tag @ ''>'' @ newline @ sp 8 @ ''<cbc:ID>'' @ v) = Some (newline @ sp 8 @ ''<cbc:ID>'' @ v)"
    using literal_append [of "''<cac:AdditionalDocumentReference>''"] by simp
  moreover have "dropWhile re_space (newline @ sp 8 @ ''<cbc:ID>'' @ v) = ''<cbc:ID>'' @ v"
    using dropWhile_blank [of "CHR ''<''" 8 "''cbc:ID>'' @ v"] by (simp add: re_space_def)
  ultimately show ?thesis by (simp only: qr_head_def bind.bind_lunit literal_append)
qed

lemma qr_other_ref:
  assumes "v = ''ICV'' \<or> v = ''PIH''"
  shows "qrEmbeddedRe (opn 4 ref_tag @ writeElementIndent 8 ''cbc:ID'' v @ r) = qrEmbeddedRe r"
proof -
  let ?el = "writeElementIndent 8 ''cbc:ID'' v" and ?rest = "ref_tag @ ''>'' @ newline"
  have el: "?el @ r = sp 8 @ ''<cbc:ID>'' @ v @ ''</cbc:ID>'' @ newline @ r"
    using assms by (auto simp: writeElementIndent_def el_def escaped_texts)
  have "qr_head (''<'' @ ?rest @ ?el @ r) = None"
    using assms qr_head_ref [of "v @ ''</cbc:ID>'' @ newline @ r"]
    by (auto simp: el re_space_def literal_def has_prefix_def simp del: qr_head_def)
  then have "qrEmbeddedRe (''<'' @ ?rest @ ?el @ r) = qrEmbeddedRe (?rest @ ?el @ r)"
    by simp
  moreover have "qrEmbeddedRe (?rest @ ?el @ r) = qrEmbeddedRe (?el @ r)"
    using qrEmbeddedRe_text [of ?rest "?el @ r"] by (simp add: newline_def del: qrEmbeddedRe.simps)
  moreover have "qrEmbeddedRe (?el @ r) = qrEmbeddedRe r"
    by (rule qr.skip_elements(3)) simp
  ultimately show ?thesis
    by (simp add: opn_def open_with_def qr.skip_blank del: qrEmbeddedRe.simps)
qed

lemma qr_refs_open:
  assumes "plain (in_PreviousInvoiceHash i)"
  shows "qrEmbeddedRe (refs_open i @ r) = qrEmbeddedRe (opn 4 ref_tag @ sp 8 @ r)"
proof -
  have "no_angle (in_PreviousInvoiceHash i)" using assms by (rule plain_no_angle)
  then show ?thesis
    by (simp add: refs_open_def embedded_def qr_other_ref qr.skip_rules other_tag_def del: qrEmbeddedRe.simps)
qed

lemma first_object_char: "c \<noteq> CHR ''<'' \<Longrightarrow> first_object (c # r) = first_object r"
  by (simp add: qr_object_def literal_def has_prefix_def)

lemma first_object_text: "CHR ''<'' \<notin> set a \<Longrightarrow> first_object (a @ r) = first_object r"
  by (induction a) (auto simp: first_object_char simp del: first_object.simps)

lemma until_tag:
  assumes "CHR ''<'' \<notin> set a"
  shows "takeWhile (\<lambda>c. c \<noteq> CHR ''<'') (a @ r) = a @ takeWhile (\<lambda>c. c \<noteq> CHR ''<'') r"
    "dropWhile (\<lambda>c. c \<noteq> CHR ''<'') (a @ r) = dropWhile (\<lambda>c. c \<noteq> CHR ''<'') r"
  using assms by (induction a) auto

lemma qr_object_box:
  assumes "code \<noteq> []" and "CHR ''<'' \<notin> set code"
  shows "qr_object (qr_box code @ y) = Some code"
proof -
  define stop where "stop = ''</cbc:EmbeddedDocumentBinaryObject>''"
  define att where \<open>att = '' mimeCode="text/plain"''\<close>
  have form: "qr_box code @ y = ''<cbc:EmbeddedDocumentBinaryObject'' @ att @ ''>'' @ code @ stop @ y"
    by (simp add: qr_box_def stop_def att_def)
  have open_tag: "literal ''<cbc:EmbeddedDocumentBinaryObject'' (qr_box code @ y) = Some (att @ ''>'' @ code @ stop @ y)"
    unfolding form by (rule literal_append)
  have attr_end: "literal ''>'' (dropWhile (\<lambda>c. c \<noteq> CHR ''>'') (att @ ''>'' @ code @ stop @ y)) = Some (code @ stop @ y)"
    by (simp add: att_def literal_def has_prefix_def)
  have "takeWhile (\<lambda>c. c \<noteq> CHR ''<'') (code @ stop @ y) = code"
    "dropWhile (\<lambda>c. c \<noteq> CHR ''<'') (code @ stop @ y) = stop @ y"
    using until_tag [OF assms(2), of "stop @ y"] by (simp_all add: stop_def)
  moreover have "has_prefix (stop @ y) ''</cbc:EmbeddedDocumentBinaryObject>''"
    by (simp add: stop_def has_prefix_def)
  ultimately show ?thesis
    using assms(1) open_tag attr_end by (simp add: qr_object_def)
qed

lemma qr_object_other:
  "\<not> has_prefix (c # r) ''<cbc:EmbeddedDocumentBinaryObject'' \<Longrightarrow> first_object (c # r) = first_object r"
  by (simp add: qr_object_def literal_def)

lemma first_object_gap:
  assumes "code \<noteq> []" and "CHR ''<'' \<notin> set code"
  shows "first_object (qr_gap @ qr_box code @ y) = Some code"
proof -
  have "first_object (qr_gap @ qr_box code @ y) = first_object (''<'' @ ''cac:Attachment>'' @ newline @ sp 12 @ qr_box code @ y)"
    using first_object_text [of "newline @ sp 8" "''<'' @ ''cac:Attachment>'' @ newline @ sp 12 @ qr_box code @ y"]
    by (simp add: qr_gap_def opn_def open_with_def newline_def sp_def del: first_object.simps)
  also have "\<dots> = first_object (''cac:Attachment>'' @ newline @ sp 12 @ qr_box code @ y)"
    using qr_object_other [of "CHR ''<''" "''cac:Attachment>'' @ newline @ sp 12 @ qr_box code @ y"]
    by (simp add: has_prefix_def del: first_object.simps)
  also have "\<dots> = first_object (qr_box code @ y)"
    using first_object_text [of "''cac:Attachment>'' @ newline @ sp 12" "qr_box code @ y"]
    by (simp add: newline_def sp_def del: first_object.simps)
  also have "\<dots> = Some code"
  proof -
    obtain c cs where "qr_box code @ y = c # cs" by (simp add: qr_box_def)
    with qr_object_box [OF assms, of y] show ?thesis by simp
  qed
  finally show ?thesis .
qed

lemma qr_doc_refs:
  assumes "plain (in_PreviousInvoiceHash i)" and "code \<noteq> []" and "CHR ''<'' \<notin> set code"
  shows "qrEmbeddedRe (doc_refs code i @ post) = Some code"
proof -
  let ?z = "qr_gap @ qr_box code @ refs_close @ post"
  let ?tail = "''<'' @ ref_tag @ ''>'' @ newline @ sp 8 @ ''<cbc:ID>'' @ ''QR</cbc:ID>'' @ ?z"
  have "qrEmbeddedRe (doc_refs code i @ post) = qrEmbeddedRe (opn 4 ref_tag @ sp 8 @ qr_id @ ?z)"
    using qr_refs_open [OF assms(1)] by (simp add: doc_refs_def del: qrEmbeddedRe.simps)
  also have "\<dots> = qrEmbeddedRe ?tail"
    by (simp add: opn_def open_with_def qr_id_def qr.skip_blank del: qrEmbeddedRe.simps)
  also have "\<dots> = Some code"
  proof -
    have "qr_head ?tail = Some ?z"
      using literal_append [of "''QR''" "''</cbc:ID>'' @ ?z"] literal_append [of "''</cbc:ID>''" ?z]
      by (simp only: qr_head_ref) (simp add: re_space_def)
    moreover obtain c cs where "?tail = c # cs" by simp
    ultimately show ?thesis using first_object_gap [OF assms(2,3), of "refs_close @ post"] by simp
  qed
  finally show ?thesis .
qed

section \<open>The signature is well formed\<close>

lemma scan_xtag:
  "no_angle t \<Longrightarrow> scan None st (xtag t @ r) = (case end_tag t st of None \<Rightarrow> None | Some st' \<Rightarrow> scan None st' r)"
  using scan_tag [of t "[]" st r] by (simp add: xtag_def)

lemmas scan_signature = scan_xtag scan_text end_tag_def signature_texts no_angle_blank

lemma scan_signed_properties:
  "no_angle now \<Longrightarrow> no_angle (IssuerNameForXML cert) \<Longrightarrow>
     scan None st (buildSignedProperties X now cert @ r) = scan None st r"
  by (simp add: buildSignedProperties_def scan_signature CertDigest_def SerialNumberDecimal_def plain_no_angle [OF show_int_plain])

lemma scan_xpath: "no_angle path \<Longrightarrow> scan None st (xpath_transform path @ r) = scan None st r"
  by (simp add: xpath_transform_def scan_signature)

lemma scan_signed_info: "no_angle a \<Longrightarrow> no_angle b \<Longrightarrow> scan None st (buildSignedInfo a b @ r) = scan None st r"
  by (simp add: buildSignedInfo_def scan_signature scan_xpath)

lemma scan_ds_signature:
  assumes "no_angle now" and "no_angle (IssuerNameForXML cert)" and "no_angle a" and "no_angle b" and "no_angle v"
  shows "scan None st (buildDSSignature (buildSignedInfo a b) v cert (buildSignedProperties X now cert) @ r) = scan None st r"
  using assms
  by (simp add: buildDSSignature_def indent_sp scan_signature scan_signed_info scan_signed_properties CertBase64_def)

lemma scan_extensions:
  assumes "\<And>st r. scan None st (ds @ r) = scan None st r"
  shows "scan None st (ext_open @ sig_marker @ newline @ ds @ newline @ sp 16 @ sig_closing @ ext_close @ r) = scan None st r"
  by (simp add: ext_open_def ext_close_def sig_marker_def sig_closing_def scan_rules scan_text no_angle_blank
      tag_name_def namespaces end_tag_def assms)

lemma scan_doc_refs:
  assumes "plain (in_PreviousInvoiceHash i)" and "no_angle code"
  shows "scan None st (doc_refs code i @ r) = scan None st r"
  using assms
  by (simp add: doc_refs_def refs_open_def embedded_def qr_id_def qr_gap_def qr_box_def refs_close_def scan_rules scan_text no_angle_blank
      tag_name_def plain_no_angle end_tag_def)

lemma scan_rest:
  assumes "number_layouts L" and "raw_plain i"
  shows "scan None [''Invoice''] (document_rest F L i) = Some []"
  by (simp add: document_rest_def middle_facts supplier_facts customer_facts allowance_facts [OF assms] tax_totals_facts [OF assms]
      monetary_total_facts [OF assms] lines_facts [OF assms] end_tag_def)

section \<open>The signed document\<close>

text \<open>No line of the invoice has an id or a tax category that spells the id of the code.\<close>

definition code_free :: "'f invoice \<Rightarrow> bool" where
  "code_free i \<longleftrightarrow> list_all (\<lambda>l. xmlEscape (li_ID l) \<noteq> ''QR'' \<and> xmlEscape (li_TaxCategory l) \<noteq> ''QR'') (in_Lines i)"

lemma rest_no_code_id:
  assumes "number_layouts L" and "raw_plain i" and "code_free i"
  shows "\<not> str_contains (document_rest F L i) qr_id"
proof -
  have "list_all ids.other_line (in_Lines i)"
    using assms(3) by (auto simp: code_free_def ids.other_line_def list_all_iff)
  from ids.skip_rest [OF assms(1,2) this, of F "[]"] show ?thesis
    by (simp add: str_contains_def qr_id_def has_prefix_def)
qed

lemma ToXML_parts: "ToXML F L i = Inr xml \<Longrightarrow>
    xml = xml_head @ writeUBLExtensions @ document_header L i @ doc_refs [] i @ document_rest F L i"
  by (auto simp: ToXML_def document_rest_def doc_refs_empty split: option.splits)

lemma GenerateQR_code:
  assumes "GenerateQR fmt d = Inr code"
  shows "code \<noteq> []" and "no_angle code" and "trim_space code = code"
proof -
  have named: "qr_SellerName d \<noteq> []" "qr_VATNumber d \<noteq> []"
    using assms unfolding GenerateQR_def by (cases "qr_SellerName d = []"; cases "qr_VATNumber d = []"; simp)+
  define t where "t = concat (map (\<lambda>(tag, v). appendTLV [] tag v) (qr_entries fmt d))"
  have "GenerateQR fmt d = Inr (b64_encode t)"
    unfolding t_def by (rule GenerateQR_entries [OF named])
  with assms have t: "code = b64_encode t" by simp
  have "appendTLV [] tag v \<noteq> []" for tag v by (simp add: appendTLV_def Let_def)
  then have "t \<noteq> []" by (simp add: t_def qr_entries_def)
  then show "code \<noteq> []" unfolding t by (rule b64_encode_nonempty)
  show "no_angle code" unfolding t by (rule b64_no_angle)
  have "base64_char c \<Longrightarrow> graphic c" for c by (auto simp: base64_char_def graphic_def)
  then show "trim_space code = code"
    unfolding t using b64_encode_base64 [of t] by (intro trim_space_graphic) (auto simp: list_all_iff)
qed

text \<open>The signed document, part by part.\<close>

definition signed_text :: "'f flops \<Rightarrow> 'f layouts \<Rightarrow> 'f invoice \<Rightarrow> string \<Rightarrow> string \<Rightarrow> string" where
  "signed_text F L i ds code =
     xml_head @ ext_open @ sig_marker @ newline @ ds @ newline @ sp 16 @ sig_closing @ ext_close @
     document_header L i @ doc_refs code i @ document_rest F L i"

lemma signed_form:
  assumes "ToXML F L i = Inr xml" and "number_layouts L" and "raw_plain i" and "code_free i"
    and "SignInvoiceWithQR E xml key cert simplified seller vat ts sum_text vat_text = Some (Inr res)"
  obtains a b v where "sr_SignedXML res =
      signed_text F L i (buildDSSignature (buildSignedInfo (b64_encode a) (b64_encode b)) (b64_encode v) cert
        (buildSignedProperties (sg_xml E) (sg_now E) cert)) (sr_QRCode res)"
    and "sr_QRCode res \<noteq> []" and "no_angle (sr_QRCode res)" and "trim_space (sr_QRCode res) = sr_QRCode res"
proof -
  obtain h sb xml2 d where parts: "signed_parts E xml key cert = Inr (h, sb, xml2)"
    and code: "GenerateQR (sg_format E) d = Inr (sr_QRCode res)" and doc: "sr_SignedXML res = injectQR xml2 (sr_QRCode res)"
    using assms(5) by (auto simp: SignInvoiceWithQR_def split: sum.splits option.splits prod.splits)
  obtain a b where ds: "h = b64_encode a" "xml2 = injectSignature xml (buildDSSignature (buildSignedInfo h (b64_encode b)) (b64_encode sb) cert
        (buildSignedProperties (sg_xml E) (sg_now E) cert))"
    using parts by (auto simp: signed_parts_def InvoiceHash_def Let_def split: sum.splits prod.splits)
  let ?ds = "buildDSSignature (buildSignedInfo (b64_encode a) (b64_encode b)) (b64_encode sb) cert
        (buildSignedProperties (sg_xml E) (sg_now E) cert)"
  let ?pre = "xml_head @ ext_open @ sig_marker @ newline @ ?ds @ newline @ sp 16 @ sig_closing @ ext_close @ document_header L i"
  have "xml2 = ?pre @ doc_refs [] i @ document_rest F L i"
    unfolding ds ToXML_parts [OF assms(1)] injectSignature_form by simp
  then have "sr_SignedXML res = signed_text F L i ?ds (sr_QRCode res)"
    unfolding doc signed_text_def using injectQR_form [OF rest_no_code_id [OF assms(2-4)], of ?pre i] by simp
  from that [OF this GenerateQR_code [OF code]] show thesis .
qed

text \<open>A signed invoice stays well formed: with the signature and the code in place, the tags of the
  document are balanced.  The issuer's name, which is not escaped, and the signing time hold no angle
  bracket.\<close>

lemma signed_tags_balanced:
  assumes "ToXML F L i = Inr xml" and "number_layouts L" and "raw_plain i" and "code_free i"
    and "SignInvoiceWithQR E xml key cert simplified seller vat ts sum_text vat_text = Some (Inr res)"
    and "no_angle (sg_now E)" and "no_angle (IssuerNameForXML cert)"
  shows "scan None [] (sr_SignedXML res) = Some []"
proof -
  obtain a b v where doc: "sr_SignedXML res =
      signed_text F L i (buildDSSignature (buildSignedInfo (b64_encode a) (b64_encode b)) (b64_encode v) cert
        (buildSignedProperties (sg_xml E) (sg_now E) cert)) (sr_QRCode res)" and code: "no_angle (sr_QRCode res)"
    using signed_form [OF assms(1-5)] by metis
  have pih: "plain (in_PreviousInvoiceHash i)" using assms(3) by (simp add: raw_plain_def)
  show ?thesis
    unfolding doc signed_text_def scan_head
    by (subst scan_extensions) (simp_all add: scan_ds_signature assms(6,7) header_facts [OF assms(3)] scan_doc_refs [OF pih code] scan_rest [OF assms(2,3)])
qed

text \<open>The code in a signed invoice is found again: the SDK wrapper's reader of QR codes returns, from the
  signed document, exactly the code that the signing function made.\<close>

lemma signed_code_read_back:
  assumes "ToXML F L i = Inr xml" and "number_layouts L" and "raw_plain i" and "code_free i"
    and "SignInvoiceWithQR E xml key cert simplified seller vat ts sum_text vat_text = Some (Inr res)"
    and "no_angle (sg_now E)" and "no_angle (IssuerNameForXML cert)"
  shows "sdk_GenerateQR (sr_SignedXML res) = Inr (sr_QRCode res)"
proof -
  obtain a b v where doc: "sr_SignedXML res =
      signed_text F L i (buildDSSignature (buildSignedInfo (b64_encode a) (b64_encode b)) (b64_encode v) cert
        (buildSignedProperties (sg_xml E) (sg_now E) cert)) (sr_QRCode res)"
    and code: "sr_QRCode res \<noteq> []" "no_angle (sr_QRCode res)" "trim_space (sr_QRCode res) = sr_QRCode res"
    using signed_form [OF assms(1-5)] by metis
  have pih: "plain (in_PreviousInvoiceHash i)" and sub: "plain (in_SubType i)" using assms(3) by (simp_all add: raw_plain_def)
  have "qrEmbeddedRe (sr_SignedXML res) = Some (sr_QRCode res)"
    unfolding doc signed_text_def qr.skip_head
    by (subst qr.skip_extensions)
      (simp_all add: qr.skip_ds_signature assms(6,7) qr.skip_header sub qr_doc_refs [OF pih code(1) no_angle_not_in(1) [OF code(2)]] del: qrEmbeddedRe.simps)
  then show ?thesis by (simp add: sdk_GenerateQR_def code)
qed

section \<open>A concrete signed document\<close>

lemma sample_signed:
  assumes "ToXML ieee sample_layouts sample_document = Inr xml"
  shows "\<exists>res. SignInvoiceWithQR sample_signer xml \<lparr>ek_Pub = sample_point, ek_D = 1\<rparr> sample_cert True
    ''Shop'' ''300000000000003'' 0 ''115.00'' ''15.00'' = Some (Inr res)"
proof -
  obtain b where "PublicKeyBytes sample_cert = Some b"
    using PublicKeyBytes_padded(1) [of sample_cert] by (simp add: sample_cert_def sample_point_def)
  then show ?thesis
    using GenerateQR_entries
    by (simp add: SignInvoiceWithQR_def signed_parts_def InvoiceHash_def canonicalizeForHashing_def sample_signer_def Let_def
        del: b64_encode.simps)
qed

lemma sample_code_free: "code_free sample_document"
proof -
  have "xmlEscape (li_ID sample_line) \<noteq> ''QR''" "xmlEscape (li_TaxCategory sample_line) \<noteq> ''QR''"
    by (subst xmlEscape_clean; simp add: sample_line_def TaxStandard_def clean_def graphic_def)+
  then show ?thesis by (simp add: code_free_def sample_document_def sample_sale_def)
qed

lemma sample_signing_texts: "no_angle (sg_now sample_signer)" "no_angle (IssuerNameForXML sample_cert)"
  by (simp_all add: sample_signer_def sample_cert_def IssuerNameForXML_def)

end
