(* ===== verification/Api_Client.thy ===== *)
theory Api_Client
  imports Text_Codec Tenant_Registry
begin

text \<open>
  The ZATCA API client: the messages of \<open>models/models.go\<close> and \<open>client/client.go\<close>.  A request is a
  value; the transport, the JSON encoder and the JSON decoders are arguments.  Debug logging is left
  out.
\<close>

section \<open>Messages\<close>

record ErrorDetail =
  ed_Code :: string
  ed_Message :: string

record ValidationMessage =
  vm_Type :: string
  vm_Code :: string
  vm_Category :: string
  vm_Message :: string
  vm_Status :: string

record ValidationResults =
  vr_InfoMessages :: "ValidationMessage list"
  vr_WarningMessages :: "ValidationMessage list"
  vr_ErrorMessages :: "ValidationMessage list"
  vr_Status :: string

record InvoiceRequest =
  iq_InvoiceHash :: string
  iq_UUID :: string
  iq_Invoice :: string

record InvoiceResponse =
  ir_InvoiceHash :: string
  ir_Status :: string
  ir_ClearanceStatus :: string
  ir_ReportingStatus :: string
  ir_ClearedInvoice :: string
  ir_ValidationResults :: "ValidationResults option"
  ir_Warnings :: "ErrorDetail list"
  ir_Errors :: "ErrorDetail list"

definition no_response :: InvoiceResponse where
  "no_response = \<lparr>ir_InvoiceHash = [], ir_Status = [], ir_ClearanceStatus = [], ir_ReportingStatus = [],
     ir_ClearedInvoice = [], ir_ValidationResults = None, ir_Warnings = [], ir_Errors = []\<rparr>"

record CSIDResponse =
  cs_RequestID :: string
  cs_DispositionMessage :: string
  cs_BinarySecurityToken :: string
  cs_Secret :: string
  cs_Errors :: "ErrorDetail list"

definition no_csid :: CSIDResponse where
  "no_csid = \<lparr>cs_RequestID = [], cs_DispositionMessage = [], cs_BinarySecurityToken = [], cs_Secret = [], cs_Errors = []\<rparr>"

text \<open>The request bodies, as the encoder gets them.\<close>

datatype api_body =
    CSIDRequest string
  | ProductionCSIDRequest string
  | RenewalRequest string
  | InvoiceBody InvoiceRequest

section \<open>Requests\<close>

record http_request =
  hr_method :: string
  hr_url :: string
  hr_body :: string
  hr_headers :: "(string \<times> string) list"

definition set_header :: "string \<Rightarrow> string \<Rightarrow> http_request \<Rightarrow> http_request" where
  "set_header k v r = r\<lparr>hr_headers := AList.update k v (hr_headers r)\<rparr>"

text \<open>
  What the client needs from the libraries: \<open>json.Encoder\<close>, \<open>http.NewRequest\<close>'s check of the URL,
  the transport (the status and the body, or their errors) and \<open>json.Unmarshal\<close>.
\<close>

record http_env =
  he_encode :: "api_body \<Rightarrow> goerr + string"
  he_url :: "string \<Rightarrow> goerr option"
  he_send :: "http_request \<Rightarrow> goerr + int \<times> (goerr + string)"
  he_invoice :: "string \<Rightarrow> goerr + InvoiceResponse"
  he_csid :: "string \<Rightarrow> goerr + CSIDResponse"

definition newJSONRequest :: "http_env \<Rightarrow> string \<Rightarrow> string \<Rightarrow> api_body \<Rightarrow> goerr + http_request" where
  "newJSONRequest env method url body =
     (case he_encode env body of
        Inl e \<Rightarrow> Inl (Wrapf ''encoding request body: '' e [])
      | Inr text \<Rightarrow>
        (case he_url env url of
           Some e \<Rightarrow> Inl e
         | None \<Rightarrow>
             Inr (fold (\<lambda>(k, v). set_header k v)
               [(''Content-Type'', ''application/json''), (''Accept'', ''application/json''),
                (''Accept-Version'', ''V2''), (''Accept-Language'', ''en'')]
               \<lparr>hr_method = method, hr_url = url, hr_body = text, hr_headers = []\<rparr>)))"

definition basic_auth :: "string \<Rightarrow> string \<Rightarrow> http_request \<Rightarrow> http_request" where
  "basic_auth user pass req =
     (if user \<noteq> [] \<and> pass \<noteq> []
      then set_header ''Authorization'' (''Basic '' @ b64_encode (user @ '':'' @ pass)) req else req)"

definition setComplianceAuth :: "config \<Rightarrow> http_request \<Rightarrow> http_request" where
  "setComplianceAuth cfg req = basic_auth (cf_ComplianceUsername cfg) (cf_CompliancePassword cfg) req"

definition setProductionAuth :: "config \<Rightarrow> http_request \<Rightarrow> http_request" where
  "setProductionAuth cfg req = basic_auth (cf_ProductionUsername cfg) (cf_ProductionPassword cfg) req"

section \<open>Answers\<close>

record APIError =
  ae_StatusCode :: int
  ae_Body :: string
  ae_Response :: "InvoiceResponse option"

definition APIError_text :: "APIError \<Rightarrow> string" where
  "APIError_text e = ''ZATCA API error (HTTP '' @ show_int (ae_StatusCode e) @ ''): '' @ ae_Body e"

text \<open>An error of a call: an API error behind a prefix, which \<open>errors.As\<close> finds, or any other.\<close>

datatype call_error =
    APIFailure string APIError
  | OtherFailure goerr

fun call_goerr :: "call_error \<Rightarrow> goerr" where
  "call_goerr (APIFailure before e) = NewError (before @ APIError_text e)"
| "call_goerr (OtherFailure e) = e"

fun as_api_error :: "call_error \<Rightarrow> APIError option" where
  "as_api_error (APIFailure _ e) = Some e"
| "as_api_error (OtherFailure _) = None"

fun prefixed :: "string \<Rightarrow> call_error \<Rightarrow> call_error" where
  "prefixed p (APIFailure before e) = APIFailure (p @ before) e"
| "prefixed p (OtherFailure e) = OtherFailure (Wrapf p e [])"

definition client_do ::
    "http_env \<Rightarrow> (string \<Rightarrow> goerr + 'r) \<Rightarrow> 'r \<Rightarrow> http_request \<Rightarrow> call_error + 'r" where
  "client_do env unmarshal zero req =
     (case he_send env req of
        Inl e \<Rightarrow> Inl (OtherFailure (Wrapf ''HTTP request failed: '' e []))
      | Inr (status, Inl e) \<Rightarrow> Inl (OtherFailure (Wrapf ''reading response body: '' e []))
      | Inr (status, Inr body) \<Rightarrow>
          (if status < 200 \<or> status \<ge> 300 then
             Inl (APIFailure [] \<lparr>ae_StatusCode = status, ae_Body = body,
               ae_Response = (if body = [] then None
                 else case he_invoice env body of Inl _ \<Rightarrow> None | Inr r \<Rightarrow> Some r)\<rparr>)
           else if body \<noteq> [] then
             (case unmarshal body of
                Inl e \<Rightarrow> Inl (OtherFailure (Wrapf ''decoding response: '' e []))
              | Inr r \<Rightarrow> Inr r)
           else Inr zero))"

text \<open>The common shape of the six calls: build, set the headers, send, prefix the error.\<close>

definition api_call ::
    "http_env \<Rightarrow> string \<Rightarrow> string \<Rightarrow> string \<Rightarrow> api_body \<Rightarrow> (http_request \<Rightarrow> http_request) \<Rightarrow>
     (string \<Rightarrow> goerr + 'r) \<Rightarrow> 'r \<Rightarrow> call_error + 'r" where
  "api_call env name method url body headers unmarshal zero =
     (case newJSONRequest env method url body of
        Inl e \<Rightarrow> Inl (OtherFailure e)
      | Inr req \<Rightarrow>
        (case client_do env unmarshal zero (headers req) of
           Inl e \<Rightarrow> Inl (prefixed (name @ '': '') e)
         | Inr r \<Rightarrow> Inr r))"

definition ComplianceCSID :: "http_env \<Rightarrow> config \<Rightarrow> string \<Rightarrow> call_error + CSIDResponse" where
  "ComplianceCSID env cfg csr =
     api_call env ''ComplianceCSID'' ''POST'' (BaseURL (cf_Env cfg) @ ''/compliance'') (CSIDRequest csr)
       (set_header ''OTP'' (cf_OTP cfg)) (he_csid env) no_csid"

definition ComplianceCheck :: "http_env \<Rightarrow> config \<Rightarrow> InvoiceRequest \<Rightarrow> call_error + InvoiceResponse" where
  "ComplianceCheck env cfg inq =
     api_call env ''ComplianceCheck'' ''POST'' (BaseURL (cf_Env cfg) @ ''/compliance/invoices'') (InvoiceBody inq)
       (setComplianceAuth cfg) (he_invoice env) no_response"

definition ProductionCSID :: "http_env \<Rightarrow> config \<Rightarrow> string \<Rightarrow> call_error + CSIDResponse" where
  "ProductionCSID env cfg complianceRequestID =
     api_call env ''ProductionCSID'' ''POST'' (BaseURL (cf_Env cfg) @ ''/production/csids'')
       (ProductionCSIDRequest complianceRequestID) (setComplianceAuth cfg) (he_csid env) no_csid"

definition RenewProductionCSID :: "http_env \<Rightarrow> config \<Rightarrow> string \<Rightarrow> call_error + CSIDResponse" where
  "RenewProductionCSID env cfg csr =
     api_call env ''RenewProductionCSID'' ''PATCH'' (BaseURL (cf_Env cfg) @ ''/production/csids'') (RenewalRequest csr)
       (\<lambda>req. set_header ''OTP'' (cf_OTP cfg) (setProductionAuth cfg req)) (he_csid env) no_csid"

definition ReportInvoice :: "http_env \<Rightarrow> config \<Rightarrow> InvoiceRequest \<Rightarrow> call_error + InvoiceResponse" where
  "ReportInvoice env cfg inq =
     api_call env ''ReportInvoice'' ''POST'' (BaseURL (cf_Env cfg) @ ''/invoices/reporting/single'') (InvoiceBody inq)
       (\<lambda>req. set_header ''Clearance-Status'' ''0'' (setProductionAuth cfg req)) (he_invoice env) no_response"

definition ClearInvoice :: "http_env \<Rightarrow> config \<Rightarrow> InvoiceRequest \<Rightarrow> call_error + InvoiceResponse" where
  "ClearInvoice env cfg inq =
     api_call env ''ClearInvoice'' ''POST'' (BaseURL (cf_Env cfg) @ ''/invoices/clearance/single'') (InvoiceBody inq)
       (\<lambda>req. set_header ''Clearance-Status'' ''1'' (setProductionAuth cfg req)) (he_invoice env) no_response"

section \<open>What the calls give\<close>

lemmas api_calls = ComplianceCSID_def ComplianceCheck_def ProductionCSID_def RenewProductionCSID_def
  ReportInvoice_def ClearInvoice_def

lemma as_api_error_prefixed [simp]: "as_api_error (prefixed p e) = as_api_error e"
  by (cases e) auto

text \<open>An API error never carries a status of the 200s.\<close>

lemma api_call_status:
  "api_call env name meth url body hs un zero = Inl e \<Longrightarrow> as_api_error e = Some a \<Longrightarrow>
   ae_StatusCode a < 200 \<or> 300 \<le> ae_StatusCode a"
  by (auto simp: api_call_def client_do_def split: sum.splits if_splits prod.splits)

end
