(* ===== verification/Zatca_Service.thy ===== *)
theory Zatca_Service
  imports Signed_Document Api_Client Invoice_Chain
begin

text \<open>
  The service facade \<open>zatca/zatca.go\<close>: the onboarding of a device in its four steps, and reporting and
  clearing an invoice.  The state of a service is its configuration, into which the onboarding writes
  the credentials it obtains and which the client shares, and the SDK wrapper with its key and
  certificate.  Running the tool, the API and the clock may answer differently every time: they take the
  number of the round, where round 0 asks for the compliance certificate, round \<open>k\<close> is the \<open>k\<close>-th
  compliance invoice and round 7 asks for the production certificate.  Logging is left out.
\<close>

section \<open>Services\<close>

record 'f zatca_env =
  ze_flops :: "'f flops"
  ze_layouts :: "'f layouts"
  ze_exec :: "nat \<Rightarrow> local_exec"
  ze_http :: "nat \<Rightarrow> http_env"
  ze_now :: "nat \<Rightarrow> time"
  ze_pki :: pki_env
  ze_sign :: sign_env

record zatca_service =
  zs_Config :: config
  zs_SDK :: SDK

definition zatca_New :: "config \<Rightarrow> zatca_service" where
  "zatca_New cfg = \<lparr>zs_Config = cfg, zs_SDK = sdk_New cfg\<rparr>"

definition service_xml :: "'f zatca_env \<Rightarrow> 'f invoice \<Rightarrow> goerr + string" where
  "service_xml env i = ToXML (ze_flops env) (ze_layouts env) i"

section \<open>Compliance invoices\<close>

text \<open>\<open>%0nd\<close> of a positive number.\<close>

definition pad_number :: "nat \<Rightarrow> int \<Rightarrow> string" where
  "pad_number width i = replicate (width - length (show_int i)) (CHR ''0'') @ show_int i"

definition compliance_customer :: party where
  "compliance_customer =
     \<lparr>pt_RegistrationName = ''Fatoora Samples LTD'', pt_RegistrationNameAR = [], pt_VAT = ''399999999800003'',
      pt_SchemeID = [], pt_ID = [], pt_Street = ''Prince Sultan'', pt_Building = ''2322'', pt_District = ''Al-Murabba'',
      pt_City = ''Riyadh'', pt_PostalCode = ''23333'', pt_Country = ''SA''\<rparr>"

definition compliance_supplier :: "seller_info \<Rightarrow> party" where
  "compliance_supplier s =
     \<lparr>pt_RegistrationName = sl_Name s, pt_RegistrationNameAR = [], pt_VAT = sl_VAT s, pt_SchemeID = ''CRN'', pt_ID = sl_CRN s,
      pt_Street = sl_Street s, pt_Building = sl_Building s, pt_District = sl_District s, pt_City = sl_City s,
      pt_PostalCode = sl_PostalCode s, pt_Country = sl_Country s\<rparr>"

definition buildComplianceInvoice ::
    "'f flops \<Rightarrow> time \<Rightarrow> config \<Rightarrow> int \<Rightarrow> string \<Rightarrow> int \<Rightarrow> string \<Rightarrow> 'f invoice" where
  "buildComplianceInvoice F now cfg typeCode subType icv pih =
     (let note = typeCode = TypeCreditNote \<or> typeCode = TypeDebitNote in
      \<lparr>in_ID = ''COMP-'' @ pad_number 6 icv, in_UUID = ''00000000-0000-0000-0000-'' @ pad_number 12 icv,
       in_IssueDate = now, in_IssueTime = now, in_TypeCode = typeCode, in_SubType = subType,
       in_DocumentCurrency = [], in_TaxCurrency = [],
       in_Note = (if note then ''Compliance test correction'' else []), in_NoteLang = (if note then ''en'' else []),
       in_Supplier = compliance_supplier (cf_Seller cfg), in_Customer = compliance_customer, in_DeliveryDate = None,
       in_PaymentMeans = PaymentCash, in_InstructionNote = (if note then ''Compliance test correction'' else []),
       in_BillingReferenceID = (if note then ''COMP-000001'' else []),
       in_Discount = fl_int F 0, in_DiscountTax = [], in_DiscountTaxPercent = fl_int F 0,
       in_Lines = [\<lparr>li_ID = [], li_Name = ''Compliance Test Item'', li_Quantity = fl_int F 1, li_UnitCode = ''PCE'',
         li_UnitPrice = fl_int F 100, li_Discount = fl_int F 0, li_TaxCategory = TaxStandard, li_TaxPercent = fl_int F 15\<rparr>],
       in_PreviousInvoiceHash = pih, in_InvoiceCounterValue = icv, in_ProfileID = []\<rparr>)"

text \<open>\<open>%v\<close> of a slice of validation messages.\<close>

definition validation_value :: "ValidationMessage \<Rightarrow> string" where
  "validation_value m =
     ''{'' @ join_with '' '' [vm_Type m, vm_Code m, vm_Category m, vm_Message m, vm_Status m] @ ''}''"

definition invoice_request :: "string \<Rightarrow> string \<Rightarrow> string \<Rightarrow> InvoiceRequest" where
  "invoice_request hash uuid signedXML =
     \<lparr>iq_InvoiceHash = hash, iq_UUID = uuid, iq_Invoice = b64_encode signedXML\<rparr>"

definition signAndSubmitCompliance :: "'f zatca_env \<Rightarrow> nat \<Rightarrow> zatca_service \<Rightarrow> 'f invoice \<Rightarrow> goerr + SignResult" where
  "signAndSubmitCompliance env k svc i =
     (case service_xml env i of
        Inl e \<Rightarrow> Inl (Wrapf ''generate XML: '' e [])
      | Inr xmlStr \<Rightarrow>
        (case sdk_SignInvoice (ze_exec env k) (zs_SDK svc) xmlStr of
           Inl e \<Rightarrow> Inl (Wrapf ''sign invoice: '' e [])
         | Inr (signedXML, hash) \<Rightarrow>
           (case ComplianceCheck (ze_http env k) (zs_Config svc) (invoice_request hash (in_UUID i) signedXML) of
              Inl e \<Rightarrow> Inl (Wrapf ''compliance check: '' (call_goerr e) [])
            | Inr resp \<Rightarrow>
              (let errors = (case ir_ValidationResults resp of None \<Rightarrow> [] | Some v \<Rightarrow> vr_ErrorMessages v) in
               if errors \<noteq> [] then
                 Inl (NewError (''compliance validation errors: ['' @ join_with '' '' (map validation_value errors) @ '']''))
               else Inr \<lparr>sr_SignedXML = signedXML, sr_InvoiceHash = hash, sr_SignatureB64 = [], sr_QRCode = []\<rparr>))))"

definition compliance_types :: "(int \<times> string \<times> string) list" where
  "compliance_types =
     [(TypeInvoice, SubTypeStandard, ''Standard Invoice''), (TypeInvoice, SubTypeSimplified, ''Simplified Invoice''),
      (TypeCreditNote, SubTypeStandard, ''Standard Credit Note''), (TypeCreditNote, SubTypeSimplified, ''Simplified Credit Note''),
      (TypeDebitNote, SubTypeStandard, ''Standard Debit Note''), (TypeDebitNote, SubTypeSimplified, ''Simplified Debit Note'')]"

fun compliance_loop ::
    "'f zatca_env \<Rightarrow> nat \<Rightarrow> zatca_service \<Rightarrow> (int \<times> string \<times> string) list \<Rightarrow> string \<Rightarrow> int \<Rightarrow> goerr option" where
  "compliance_loop env k svc [] pih icv = None"
| "compliance_loop env k svc ((typeCode, subType, name) # types) pih icv =
     (case signAndSubmitCompliance env k svc
             (buildComplianceInvoice (ze_flops env) (ze_now env k) (zs_Config svc) typeCode subType icv pih) of
        Inl e \<Rightarrow> Some (Wrapf (name @ '': '') e [])
      | Inr r \<Rightarrow> compliance_loop env (k + 1) svc types (sr_InvoiceHash r) (icv + 1))"

definition submitComplianceInvoices :: "'f zatca_env \<Rightarrow> zatca_service \<Rightarrow> string \<Rightarrow> string \<Rightarrow> goerr option" where
  "submitComplianceInvoices env svc privateKeyPEM certBase64 =
     (case ParsePrivateKey (ze_pki env) privateKeyPEM of
        Inl e \<Rightarrow> Some (Wrapf ''parse private key: '' e [])
      | Inr privKey \<Rightarrow>
        (case ParseCertificate (ze_pki env) certBase64 of
           Inl e \<Rightarrow> Some (Wrapf ''parse certificate: '' e [])
         | Inr cert \<Rightarrow> compliance_loop env 1 svc compliance_types GenesisPIH 1))"

section \<open>Onboarding\<close>

record OnboardResult =
  ob_CSR :: string
  ob_PrivateKey :: string
  ob_ComplianceCert :: string
  ob_ComplianceSecret :: string
  ob_ComplianceRequestID :: string
  ob_ProductionCert :: string
  ob_ProductionSecret :: string
  ob_ProductionRequestID :: string

definition pemToBase64 :: "string \<Rightarrow> string" where
  "pemToBase64 pem = b64_encode (trim_space pem)"

definition set_compliance :: "CSIDResponse \<Rightarrow> zatca_service \<Rightarrow> zatca_service" where
  "set_compliance cresp svc =
     svc\<lparr>zs_Config := (zs_Config svc)\<lparr>cf_ComplianceUsername := cs_BinarySecurityToken cresp, cf_CompliancePassword := cs_Secret cresp\<rparr>\<rparr>"

definition set_production :: "CSIDResponse \<Rightarrow> zatca_service \<Rightarrow> zatca_service" where
  "set_production presp svc =
     svc\<lparr>zs_Config := (zs_Config svc)\<lparr>cf_ProductionUsername := cs_BinarySecurityToken presp, cf_ProductionPassword := cs_Secret presp\<rparr>\<rparr>"

definition give_key :: "string \<Rightarrow> string \<Rightarrow> zatca_service \<Rightarrow> zatca_service" where
  "give_key privateKeyPEM certPEM svc = svc\<lparr>zs_SDK := SetCredentials privateKeyPEM certPEM (zs_SDK svc)\<rparr>"

definition OnboardWithCSR ::
    "'f zatca_env \<Rightarrow> string \<Rightarrow> string \<Rightarrow> zatca_service \<Rightarrow> (goerr + OnboardResult) \<times> zatca_service" where
  "OnboardWithCSR env csrPEM privateKeyPEM svc =
     (let svc1 = give_key privateKeyPEM [] svc in
      case ComplianceCSID (ze_http env 0) (zs_Config svc1) (pemToBase64 csrPEM) of
        Inl e \<Rightarrow> (Inl (Wrapf ''step 2 (compliance CSID): '' (call_goerr e) []), svc1)
      | Inr cresp \<Rightarrow>
        (let token = cs_BinarySecurityToken cresp; svc2 = set_compliance cresp svc1 in
         case b64_decode token of
           Inl e \<Rightarrow>
             (Inl (Wrapf (''step 2: base64-decode binarySecurityToken (len='' @ show_nat (length token) @ ''): '') e []), svc2)
         | Inr certPEM \<Rightarrow>
           (let svc3 = give_key privateKeyPEM certPEM svc2 in
            case submitComplianceInvoices env svc3 privateKeyPEM token of
              Some e \<Rightarrow> (Inl (Wrapf ''step 3 (compliance invoices): '' e []), svc3)
            | None \<Rightarrow>
              (case ProductionCSID (ze_http env 7) (zs_Config svc3) (cs_RequestID cresp) of
                 Inl e \<Rightarrow> (Inl (Wrapf ''step 4 (production CSID): '' (call_goerr e) []), svc3)
               | Inr presp \<Rightarrow>
                   (Inr \<lparr>ob_CSR = [], ob_PrivateKey = [], ob_ComplianceCert = token, ob_ComplianceSecret = cs_Secret cresp,
                         ob_ComplianceRequestID = cs_RequestID cresp, ob_ProductionCert = cs_BinarySecurityToken presp,
                         ob_ProductionSecret = cs_Secret presp, ob_ProductionRequestID = cs_RequestID presp\<rparr>,
                    set_production presp svc3)))))"

text \<open>\<open>None\<close> is the panic of \<open>GenerateCSR\<close> on markers in the wrong order.\<close>

definition Onboard :: "'f zatca_env \<Rightarrow> zatca_service \<Rightarrow> ((goerr + OnboardResult) \<times> zatca_service) option" where
  "Onboard env svc =
     (case GenerateCSR (ze_exec env 0) (zs_SDK svc) (cf_CSR (zs_Config svc)) of
        None \<Rightarrow> None
      | Some (Inl e) \<Rightarrow> Some (Inl (Wrapf ''step 1 (CSR): '' e []), svc)
      | Some (Inr (csr, key)) \<Rightarrow>
        (case OnboardWithCSR env csr key svc of
           (Inl e, svc1) \<Rightarrow> Some (Inl e, svc1)
         | (Inr res, svc1) \<Rightarrow> Some (Inr (res\<lparr>ob_CSR := csr, ob_PrivateKey := key\<rparr>), svc1)))"

section \<open>Reporting and clearing\<close>

record ReportResult =
  rt_SignedXML :: string
  rt_InvoiceHash :: string
  rt_QRCode :: string
  rt_Status :: string
  rt_Warnings :: "ErrorDetail list"

record ClearResult =
  ct_SignedXML :: string
  ct_ClearedXML :: string
  ct_InvoiceHash :: string
  ct_Status :: string
  ct_Warnings :: "ErrorDetail list"

definition sdk_sign :: "'f zatca_env \<Rightarrow> zatca_service \<Rightarrow> 'f invoice \<Rightarrow> goerr + SignResult" where
  "sdk_sign env svc i =
     (case service_xml env i of
        Inl e \<Rightarrow> Inl (Wrapf ''generate XML: '' e [])
      | Inr xmlStr \<Rightarrow>
        (case sdk_SignInvoice (ze_exec env 0) (zs_SDK svc) xmlStr of
           Inl e \<Rightarrow> Inl (Wrapf ''sign invoice: '' e [])
         | Inr (signedXML, hash) \<Rightarrow>
             Inr \<lparr>sr_SignedXML = signedXML, sr_InvoiceHash = hash, sr_SignatureB64 = [], sr_QRCode = []\<rparr>))"

definition native_sign ::
    "'f zatca_env \<Rightarrow> bool \<Rightarrow> string \<Rightarrow> string \<Rightarrow> 'f invoice \<Rightarrow> (goerr + SignResult) option" where
  "native_sign env simplified privateKeyPEM certBase64 i =
     (case ParsePrivateKey (ze_pki env) privateKeyPEM of
        Inl e \<Rightarrow> Some (Inl (Wrapf ''parse private key: '' e []))
      | Inr privKey \<Rightarrow>
        (case ParseCertificate (ze_pki env) certBase64 of
           Inl e \<Rightarrow> Some (Inl (Wrapf ''parse certificate: '' e []))
         | Inr cert \<Rightarrow>
           (case service_xml env i of
              Inl e \<Rightarrow> Some (Inl (Wrapf ''generate XML: '' e []))
            | Inr xmlStr \<Rightarrow>
              (case SignInvoiceWithQR (ze_sign env) xmlStr privKey cert simplified (pt_RegistrationName (in_Supplier i))
                      (pt_VAT (in_Supplier i)) (in_IssueDate i) (ly_amount (ze_layouts env) (TotalWithTax (ze_flops env) i))
                      (ly_amount (ze_layouts env) (TotalTax (ze_flops env) i)) of
                 None \<Rightarrow> None
               | Some (Inl e) \<Rightarrow> Some (Inl (Wrapf ''sign invoice: '' e []))
               | Some (Inr r) \<Rightarrow> Some (Inr r)))))"

text \<open>What follows the signature, the same for both signers.\<close>

definition report_signed :: "'f zatca_env \<Rightarrow> zatca_service \<Rightarrow> 'f invoice \<Rightarrow> SignResult \<Rightarrow> goerr + ReportResult" where
  "report_signed env svc i r =
     (case ReportInvoice (ze_http env 0) (zs_Config svc) (invoice_request (sr_InvoiceHash r) (in_UUID i) (sr_SignedXML r)) of
        Inl e \<Rightarrow> Inl (Wrapf ''report invoice: '' (call_goerr e) [])
      | Inr resp \<Rightarrow>
          Inr \<lparr>rt_SignedXML = sr_SignedXML r, rt_InvoiceHash = sr_InvoiceHash r, rt_QRCode = sr_QRCode r,
               rt_Status = ir_Status resp, rt_Warnings = ir_Warnings resp\<rparr>)"

definition clear_signed :: "'f zatca_env \<Rightarrow> zatca_service \<Rightarrow> 'f invoice \<Rightarrow> SignResult \<Rightarrow> goerr + ClearResult" where
  "clear_signed env svc i r =
     (case ClearInvoice (ze_http env 0) (zs_Config svc) (invoice_request (sr_InvoiceHash r) (in_UUID i) (sr_SignedXML r)) of
        Inl e \<Rightarrow> Inl (Wrapf ''clear invoice: '' (call_goerr e) [])
      | Inr resp \<Rightarrow>
          Inr \<lparr>ct_SignedXML = sr_SignedXML r,
               ct_ClearedXML = (if ir_ClearedInvoice resp = [] then []
                 else case b64_decode (ir_ClearedInvoice resp) of Inl _ \<Rightarrow> [] | Inr xml \<Rightarrow> xml),
               ct_InvoiceHash = sr_InvoiceHash r, ct_Status = ir_Status resp, ct_Warnings = ir_Warnings resp\<rparr>)"

definition service_ReportInvoice :: "'f zatca_env \<Rightarrow> zatca_service \<Rightarrow> 'f invoice \<Rightarrow> goerr + ReportResult" where
  "service_ReportInvoice env svc i =
     (if \<not> IsSimplified i then Inl (NewError ''ReportInvoice is for simplified (B2C) invoices only'')
      else case sdk_sign env svc i of Inl e \<Rightarrow> Inl e | Inr r \<Rightarrow> report_signed env svc i r)"

definition ReportInvoiceNative ::
    "'f zatca_env \<Rightarrow> zatca_service \<Rightarrow> 'f invoice \<Rightarrow> string \<Rightarrow> string \<Rightarrow> (goerr + ReportResult) option" where
  "ReportInvoiceNative env svc i privateKeyPEM certBase64 =
     (if \<not> IsSimplified i then Some (Inl (NewError ''ReportInvoice is for simplified (B2C) invoices only''))
      else map_option (\<lambda>r. case r of Inl e \<Rightarrow> Inl e | Inr r \<Rightarrow> report_signed env svc i r)
        (native_sign env True privateKeyPEM certBase64 i))"

definition service_ClearInvoice :: "'f zatca_env \<Rightarrow> zatca_service \<Rightarrow> 'f invoice \<Rightarrow> goerr + ClearResult" where
  "service_ClearInvoice env svc i =
     (if \<not> IsStandard i then Inl (NewError ''ClearInvoice is for standard (B2B) invoices only'')
      else case sdk_sign env svc i of Inl e \<Rightarrow> Inl e | Inr r \<Rightarrow> clear_signed env svc i r)"

definition ClearInvoiceNative ::
    "'f zatca_env \<Rightarrow> zatca_service \<Rightarrow> 'f invoice \<Rightarrow> string \<Rightarrow> string \<Rightarrow> (goerr + ClearResult) option" where
  "ClearInvoiceNative env svc i privateKeyPEM certBase64 =
     (if \<not> IsStandard i then Some (Inl (NewError ''ClearInvoice is for standard (B2B) invoices only''))
      else map_option (\<lambda>r. case r of Inl e \<Rightarrow> Inl e | Inr r \<Rightarrow> clear_signed env svc i r)
        (native_sign env False privateKeyPEM certBase64 i))"

definition maskOTP :: "string \<Rightarrow> string" where
  "maskOTP s = (if length s \<le> 4 then s else take 2 s @ ''****'' @ drop (length s - 2) s)"

section \<open>What the onboarding does\<close>

text \<open>A compliance invoice that is written, signed by the tool, and accepted without validation errors.\<close>

definition accepted :: "'f zatca_env \<Rightarrow> nat \<Rightarrow> zatca_service \<Rightarrow> 'f invoice \<Rightarrow> string \<Rightarrow> bool" where
  "accepted env k svc i hash \<longleftrightarrow>
     (\<exists>xml doc resp. service_xml env i = Inr xml \<and> sdk_SignInvoice (ze_exec env k) (zs_SDK svc) xml = Inr (doc, hash) \<and>
        ComplianceCheck (ze_http env k) (zs_Config svc) (invoice_request hash (in_UUID i) doc) = Inr resp \<and>
        (case ir_ValidationResults resp of None \<Rightarrow> True | Some v \<Rightarrow> vr_ErrorMessages v = []))"

lemma signAndSubmit_accepted:
  "(\<exists>r. signAndSubmitCompliance env k svc i = Inr r \<and> sr_InvoiceHash r = h) \<longleftrightarrow> accepted env k svc i h"
  by (auto simp: signAndSubmitCompliance_def accepted_def Let_def split: sum.splits option.splits if_splits prod.splits)

definition compliance_invoice :: "'f zatca_env \<Rightarrow> nat \<Rightarrow> zatca_service \<Rightarrow> int \<times> string \<times> string \<Rightarrow> int \<Rightarrow> string \<Rightarrow> 'f invoice" where
  "compliance_invoice env k svc t icv pih =
     buildComplianceInvoice (ze_flops env) (ze_now env k) (zs_Config svc) (fst t) (fst (snd t)) icv pih"

text \<open>All the invoices of a list of types, each with the hash of the one before it.\<close>

definition all_accepted :: "'f zatca_env \<Rightarrow> nat \<Rightarrow> zatca_service \<Rightarrow> (int \<times> string \<times> string) list \<Rightarrow> string \<Rightarrow> int \<Rightarrow> string list \<Rightarrow> bool" where
  "all_accepted env k svc types pih icv hs \<longleftrightarrow> length hs = length types \<and>
     (\<forall>j < length types. accepted env (k + j) svc (compliance_invoice env (k + j) svc (types ! j) (icv + int j) ((pih # hs) ! j)) (hs ! j))"

lemma all_accepted_Nil: "all_accepted env k svc [] pih icv hs \<longleftrightarrow> hs = []"
  by (auto simp: all_accepted_def)

lemma all_accepted_Cons:
  "all_accepted env k svc (t # types) pih icv (h # hs) \<longleftrightarrow>
     accepted env k svc (compliance_invoice env k svc t icv pih) h \<and> all_accepted env (k + 1) svc types h (icv + 1) hs"
proof -
  have split: "(\<forall>j < Suc n. P j) \<longleftrightarrow> P 0 \<and> (\<forall>j < n. P (Suc j))" for n and P :: "nat \<Rightarrow> bool"
    using less_Suc_eq_0_disj by auto
  show ?thesis by (auto simp: all_accepted_def split algebra_simps)
qed

lemma compliance_loop_accepted:
  "compliance_loop env k svc types pih icv = None \<longleftrightarrow> (\<exists>hs. all_accepted env k svc types pih icv hs)"
proof (induction types arbitrary: k pih icv)
  case (Cons t types)
  obtain typeCode subType name where t: "t = (typeCode, subType, name)" by (cases t)
  let ?i = "compliance_invoice env k svc t icv pih"
  have step: "compliance_loop env k svc (t # types) pih icv =
      (case signAndSubmitCompliance env k svc ?i of
         Inl e \<Rightarrow> Some (Wrapf (name @ '': '') e []) | Inr r \<Rightarrow> compliance_loop env (k + 1) svc types (sr_InvoiceHash r) (icv + 1))"
    by (simp add: t compliance_invoice_def)
  have "compliance_loop env k svc (t # types) pih icv = None \<longleftrightarrow>
      (\<exists>h. accepted env k svc ?i h \<and> (\<exists>hs. all_accepted env (k + 1) svc types h (icv + 1) hs))"
    unfolding step signAndSubmit_accepted [symmetric] by (auto simp: Cons.IH split: sum.splits)
  also have "\<dots> \<longleftrightarrow> (\<exists>hs. all_accepted env k svc (t # types) pih icv hs)"
  proof
    assume "\<exists>h. accepted env k svc ?i h \<and> (\<exists>hs. all_accepted env (k + 1) svc types h (icv + 1) hs)"
    then show "\<exists>hs. all_accepted env k svc (t # types) pih icv hs" using all_accepted_Cons by metis
  next
    assume "\<exists>hs. all_accepted env k svc (t # types) pih icv hs"
    then obtain hs where hs: "all_accepted env k svc (t # types) pih icv hs" ..
    then obtain h hs' where "hs = h # hs'" by (cases hs) (auto simp: all_accepted_def)
    with hs show "\<exists>h. accepted env k svc ?i h \<and> (\<exists>hs. all_accepted env (k + 1) svc types h (icv + 1) hs)"
      using all_accepted_Cons by metis
  qed
  finally show ?case .
next
  case Nil
  have "all_accepted env k svc [] pih icv []" by (simp add: all_accepted_Nil)
  then show ?case by auto
qed

lemma submit_all_accepted:
  "submitComplianceInvoices env svc key token = None \<longleftrightarrow>
     (\<exists>k cert hs. ParsePrivateKey (ze_pki env) key = Inr k \<and> ParseCertificate (ze_pki env) token = Inr cert \<and>
        all_accepted env 1 svc compliance_types GenesisPIH 1 hs)"
  by (auto simp: submitComplianceInvoices_def compliance_loop_accepted split: sum.splits)

text \<open>The service as it signs the compliance invoices: with the key, the decoded certificate and the
  compliance credentials.\<close>

definition compliance_service :: "string \<Rightarrow> CSIDResponse \<Rightarrow> string \<Rightarrow> zatca_service \<Rightarrow> zatca_service" where
  "compliance_service key cresp certPEM svc = give_key key certPEM (set_compliance cresp (give_key key [] svc))"

lemma give_key_config: "zs_Config (give_key key cert svc) = zs_Config svc"
  by (simp add: give_key_def)

lemma OnboardWithCSR_ok:
  "OnboardWithCSR env csr key svc = (Inr res, svc') \<longleftrightarrow>
     (\<exists>cresp certPEM presp k cert hs.
        ComplianceCSID (ze_http env 0) (zs_Config svc) (pemToBase64 csr) = Inr cresp \<and>
        b64_decode (cs_BinarySecurityToken cresp) = Inr certPEM \<and>
        ParsePrivateKey (ze_pki env) key = Inr k \<and> ParseCertificate (ze_pki env) (cs_BinarySecurityToken cresp) = Inr cert \<and>
        all_accepted env 1 (compliance_service key cresp certPEM svc) compliance_types GenesisPIH 1 hs \<and>
        ProductionCSID (ze_http env 7) (zs_Config (compliance_service key cresp certPEM svc)) (cs_RequestID cresp) = Inr presp \<and>
        res = \<lparr>ob_CSR = [], ob_PrivateKey = [], ob_ComplianceCert = cs_BinarySecurityToken cresp, ob_ComplianceSecret = cs_Secret cresp,
          ob_ComplianceRequestID = cs_RequestID cresp, ob_ProductionCert = cs_BinarySecurityToken presp,
          ob_ProductionSecret = cs_Secret presp, ob_ProductionRequestID = cs_RequestID presp\<rparr> \<and>
        svc' = set_production presp (compliance_service key cresp certPEM svc))"
  (is "?run \<longleftrightarrow> ?parts")
proof
  assume ?run
  then show ?parts
    by (auto simp: OnboardWithCSR_def Let_def compliance_service_def give_key_def submit_all_accepted split: sum.splits option.splits)
next
  assume ?parts
  then obtain cresp certPEM presp k cert hs where parts:
    "ComplianceCSID (ze_http env 0) (zs_Config svc) (pemToBase64 csr) = Inr cresp" "b64_decode (cs_BinarySecurityToken cresp) = Inr certPEM"
    "ProductionCSID (ze_http env 7) (zs_Config (compliance_service key cresp certPEM svc)) (cs_RequestID cresp) = Inr presp"
    and ok: "submitComplianceInvoices env (compliance_service key cresp certPEM svc) key (cs_BinarySecurityToken cresp) = None"
    and out: "res = \<lparr>ob_CSR = [], ob_PrivateKey = [], ob_ComplianceCert = cs_BinarySecurityToken cresp, ob_ComplianceSecret = cs_Secret cresp,
          ob_ComplianceRequestID = cs_RequestID cresp, ob_ProductionCert = cs_BinarySecurityToken presp,
          ob_ProductionSecret = cs_Secret presp, ob_ProductionRequestID = cs_RequestID presp\<rparr>"
      "svc' = set_production presp (compliance_service key cresp certPEM svc)"
    unfolding submit_all_accepted by blast
  then show ?run
    unfolding OnboardWithCSR_def Let_def compliance_service_def by (simp add: give_key_config)
qed

lemma Onboard_ok:
  "Onboard env svc = Some (Inr res, svc') \<longleftrightarrow>
     (\<exists>csr key res1. GenerateCSR (ze_exec env 0) (zs_SDK svc) (cf_CSR (zs_Config svc)) = Some (Inr (csr, key)) \<and>
        OnboardWithCSR env csr key svc = (Inr res1, svc') \<and> res = res1\<lparr>ob_CSR := csr, ob_PrivateKey := key\<rparr>)"
  by (auto simp: Onboard_def split: option.splits sum.splits prod.splits)

text \<open>The six invoices of a run of the loop, by their fields.\<close>

lemma accepted_kinds:
  assumes "all_accepted env 1 svc compliance_types GenesisPIH 1 hs"
  shows "\<exists>invs. map in_TypeCode invs = [388, 388, 381, 381, 383, 383] \<and>
    map in_SubType invs = [''0100000'', ''0200000'', ''0100000'', ''0200000'', ''0100000'', ''0200000''] \<and>
    map in_InvoiceCounterValue invs = [1, 2, 3, 4, 5, 6] \<and> length hs = 6 \<and>
    map in_PreviousInvoiceHash invs =
      ''NWZlY2ViNjZmZmM4NmYzOGQ5NTI3ODZjNmQ2OTZjNzljMmRiYzIzOWRkNGU5MWI0NjcyOWQ3M2EyN2ZiNTdlOQ=='' # butlast hs \<and>
    map in_BillingReferenceID invs = [[], []] @ replicate 4 ''COMP-000001'' \<and>
    map (pt_VAT \<circ> in_Supplier) invs = replicate 6 (sl_VAT (cf_Seller (zs_Config svc))) \<and>
    (\<forall>j < 6. accepted env (j + 1) svc (invs ! j) (hs ! j))"
proof -
  have "length hs = 6" using assms by (simp add: all_accepted_def compliance_types_def)
  then obtain h1 h2 h3 h4 h5 h6 where hs: "hs = [h1, h2, h3, h4, h5, h6]"
    by (auto simp: eval_nat_numeral length_Suc_conv)
  let ?inv = "\<lambda>j. compliance_invoice env (1 + j) svc (compliance_types ! j) (1 + int j) ((GenesisPIH # hs) ! j)"
  have six: "[0..<6] = [0, 1, 2, 3, 4, 5 :: nat]" by (simp add: upt_rec)
  let ?invs = "map ?inv [0..<6]"
  have "\<forall>j < 6. accepted env (j + 1) svc (?invs ! j) (hs ! j)"
    using assms by (auto simp: all_accepted_def compliance_types_def)
  moreover have "map in_TypeCode ?invs = [388, 388, 381, 381, 383, 383]"
    "map in_SubType ?invs = [''0100000'', ''0200000'', ''0100000'', ''0200000'', ''0100000'', ''0200000'']"
    "map in_InvoiceCounterValue ?invs = [1, 2, 3, 4, 5, 6]"
    "map in_BillingReferenceID ?invs = [[], []] @ replicate 4 ''COMP-000001''"
    "map (pt_VAT \<circ> in_Supplier) ?invs = replicate 6 (sl_VAT (cf_Seller (zs_Config svc)))"
    by (simp_all add: six compliance_invoice_def buildComplianceInvoice_def Let_def compliance_types_def compliance_supplier_def
        TypeInvoice_def TypeCreditNote_def TypeDebitNote_def SubTypeStandard_def SubTypeSimplified_def eval_nat_numeral)
  moreover have "map in_PreviousInvoiceHash ?invs = GenesisPIH # butlast hs"
    by (simp add: six hs compliance_invoice_def buildComplianceInvoice_def Let_def)
  ultimately show ?thesis using \<open>length hs = 6\<close> unfolding GenesisPIH_def [symmetric] by (intro exI [of _ ?invs] conjI)
qed

text \<open>C9: a device is onboarded only after six accepted compliance invoices.  When the onboarding succeeds,
  the tool made the returned request and key, the service exchanged that request for a compliance
  certificate, and with its credentials, signed with that key and the decoded certificate, it accepted six
  invoices of the seller: an invoice (388), a credit note (381) and a debit note (383), each in the standard
  (0100000) and the simplified (0200000) kind, with the counters 1 to 6.  The first names the genesis hash as
  the previous hash and every later one the hash of the invoice before it, and the notes refer to the first
  invoice.  Each was written, signed by the tool and accepted without validation errors.  Only then was the
  production certificate requested, with the request number of the compliance certificate, and its
  credentials are the ones left in the configuration and in the result.\<close>

theorem onboarding_proves_compliance:
  assumes "Onboard env svc = Some (Inr res, svc')"
  shows "\<exists>cresp certPEM presp csvc hs.
    GenerateCSR (ze_exec env 0) (zs_SDK svc) (cf_CSR (zs_Config svc)) = Some (Inr (ob_CSR res, ob_PrivateKey res)) \<and>
    ComplianceCSID (ze_http env 0) (zs_Config svc) (pemToBase64 (ob_CSR res)) = Inr cresp \<and>
    b64_decode (cs_BinarySecurityToken cresp) = Inr certPEM \<and>
    zs_Config csvc = (zs_Config svc)\<lparr>cf_ComplianceUsername := cs_BinarySecurityToken cresp, cf_CompliancePassword := cs_Secret cresp\<rparr> \<and>
    sdk_privateKey (zs_SDK csvc) = ob_PrivateKey res \<and> sdk_certPEM (zs_SDK csvc) = certPEM \<and>
    (\<exists>invs. map in_TypeCode invs = [388, 388, 381, 381, 383, 383] \<and>
     map in_SubType invs = [''0100000'', ''0200000'', ''0100000'', ''0200000'', ''0100000'', ''0200000''] \<and>
     map in_InvoiceCounterValue invs = [1, 2, 3, 4, 5, 6] \<and> length hs = 6 \<and>
     map in_PreviousInvoiceHash invs =
       ''NWZlY2ViNjZmZmM4NmYzOGQ5NTI3ODZjNmQ2OTZjNzljMmRiYzIzOWRkNGU5MWI0NjcyOWQ3M2EyN2ZiNTdlOQ=='' # butlast hs \<and>
     map in_BillingReferenceID invs = [[], []] @ replicate 4 ''COMP-000001'' \<and>
     map (pt_VAT \<circ> in_Supplier) invs = replicate 6 (sl_VAT (cf_Seller (zs_Config csvc))) \<and>
     (\<forall>j < 6. accepted env (j + 1) csvc (invs ! j) (hs ! j))) \<and>
    ProductionCSID (ze_http env 7) (zs_Config csvc) (cs_RequestID cresp) = Inr presp \<and>
    zs_Config svc' = (zs_Config csvc)\<lparr>cf_ProductionUsername := cs_BinarySecurityToken presp, cf_ProductionPassword := cs_Secret presp\<rparr> \<and>
    ob_ProductionCert res = cs_BinarySecurityToken presp \<and> ob_ProductionSecret res = cs_Secret presp"
proof -
  obtain csr key res1 where gen: "GenerateCSR (ze_exec env 0) (zs_SDK svc) (cf_CSR (zs_Config svc)) = Some (Inr (csr, key))"
    and run: "OnboardWithCSR env csr key svc = (Inr res1, svc')" and res: "res = res1\<lparr>ob_CSR := csr, ob_PrivateKey := key\<rparr>"
    using assms unfolding Onboard_ok by blast
  obtain cresp certPEM presp hs where parts: "ComplianceCSID (ze_http env 0) (zs_Config svc) (pemToBase64 csr) = Inr cresp"
    "b64_decode (cs_BinarySecurityToken cresp) = Inr certPEM"
    "ProductionCSID (ze_http env 7) (zs_Config (compliance_service key cresp certPEM svc)) (cs_RequestID cresp) = Inr presp"
    "svc' = set_production presp (compliance_service key cresp certPEM svc)"
    "ob_ProductionCert res1 = cs_BinarySecurityToken presp" "ob_ProductionSecret res1 = cs_Secret presp"
    and acc: "all_accepted env 1 (compliance_service key cresp certPEM svc) compliance_types GenesisPIH 1 hs"
    using run unfolding OnboardWithCSR_ok by (elim exE conjE) simp
  let ?csvc = "compliance_service key cresp certPEM svc"
  have csvc: "zs_Config ?csvc = (zs_Config svc)\<lparr>cf_ComplianceUsername := cs_BinarySecurityToken cresp, cf_CompliancePassword := cs_Secret cresp\<rparr>"
    "sdk_privateKey (zs_SDK ?csvc) = key" "sdk_certPEM (zs_SDK ?csvc) = certPEM"
    by (simp_all add: compliance_service_def set_compliance_def give_key_def SetCredentials_def)
  have out: "zs_Config svc' = (zs_Config ?csvc)\<lparr>cf_ProductionUsername := cs_BinarySecurityToken presp, cf_ProductionPassword := cs_Secret presp\<rparr>"
    "ob_CSR res = csr" "ob_PrivateKey res = key" "ob_ProductionCert res = cs_BinarySecurityToken presp" "ob_ProductionSecret res = cs_Secret presp"
    by (simp_all add: parts res set_production_def)
  show ?thesis
    unfolding out(2,3)
    by (rule exI [of _ cresp], rule exI [of _ certPEM], rule exI [of _ presp], rule exI [of _ ?csvc], rule exI [of _ hs], intro conjI)
      (rule gen parts(1,2) csvc accepted_kinds [OF acc] parts(3) out)+
qed

text \<open>C29: an onboarding that fails leaves the production credentials, the request data and the seller of the
  configuration as they were.\<close>

theorem failed_onboarding_keeps_production:
  assumes "Onboard env svc = Some (Inl e, svc')"
  shows "cf_ProductionUsername (zs_Config svc') = cf_ProductionUsername (zs_Config svc) \<and>
    cf_ProductionPassword (zs_Config svc') = cf_ProductionPassword (zs_Config svc) \<and>
    cf_CSR (zs_Config svc') = cf_CSR (zs_Config svc) \<and> cf_Seller (zs_Config svc') = cf_Seller (zs_Config svc) \<and>
    cf_Env (zs_Config svc') = cf_Env (zs_Config svc) \<and> sdk_env (zs_SDK svc') = sdk_env (zs_SDK svc)"
  using assms
  by (auto simp: Onboard_def OnboardWithCSR_def Let_def set_compliance_def give_key_def SetCredentials_def
      split: option.splits sum.splits prod.splits)

text \<open>A compliance invoice is complete as soon as the seller has a VAT number and there is a previous hash.\<close>

lemma compliance_invoice_valid:
  "invoice_validate (compliance_invoice env k svc t icv pih) = None \<longleftrightarrow> sl_VAT (cf_Seller (zs_Config svc)) \<noteq> [] \<and> pih \<noteq> []"
  by (simp add: invoice_validate_def compliance_invoice_def buildComplianceInvoice_def Let_def compliance_supplier_def compliance_customer_def)

text \<open>A tool and an API that take every invoice in a round.\<close>

definition willing :: "'f zatca_env \<Rightarrow> zatca_service \<Rightarrow> nat \<Rightarrow> bool" where
  "willing env svc k \<longleftrightarrow>
     (\<forall>xml. \<exists>doc hash. sdk_SignInvoice (ze_exec env k) (zs_SDK svc) xml = Inr (doc, hash) \<and> hash \<noteq> []) \<and>
     (\<forall>req. \<exists>resp. ComplianceCheck (ze_http env k) (zs_Config svc) req = Inr resp \<and>
        (case ir_ValidationResults resp of None \<Rightarrow> True | Some v \<Rightarrow> vr_ErrorMessages v = []))"

lemma willing_accepts:
  assumes "willing env svc k" and "sl_VAT (cf_Seller (zs_Config svc)) \<noteq> []" and "pih \<noteq> []"
  shows "\<exists>h. accepted env k svc (compliance_invoice env k svc t icv pih) h \<and> h \<noteq> []"
proof -
  let ?i = "compliance_invoice env k svc t icv pih"
  obtain xml where xml: "service_xml env ?i = Inr xml"
    using compliance_invoice_valid [of env k svc t icv pih] assms(2,3) by (simp add: service_xml_def ToXML_def)
  obtain doc h where "sdk_SignInvoice (ze_exec env k) (zs_SDK svc) xml = Inr (doc, h)" "h \<noteq> []"
    using assms(1) unfolding willing_def by metis
  moreover obtain resp where "ComplianceCheck (ze_http env k) (zs_Config svc) (invoice_request h (in_UUID ?i) doc) = Inr resp"
    "case ir_ValidationResults resp of None \<Rightarrow> True | Some v \<Rightarrow> vr_ErrorMessages v = []"
    using assms(1) unfolding willing_def by metis
  ultimately show ?thesis using xml unfolding accepted_def by metis
qed

lemma willing_accepts_all:
  "\<lbrakk>\<And>j. j < length types \<Longrightarrow> willing env svc (k + j); sl_VAT (cf_Seller (zs_Config svc)) \<noteq> []; pih \<noteq> []\<rbrakk> \<Longrightarrow>
     \<exists>hs. all_accepted env k svc types pih icv hs"
proof (induction types arbitrary: k pih icv)
  case Nil
  then show ?case using all_accepted_Nil by metis
next
  case (Cons t types)
  obtain h where h: "accepted env k svc (compliance_invoice env k svc t icv pih) h" "h \<noteq> []"
    using willing_accepts [OF Cons.prems(1) [of 0, simplified] Cons.prems(2,3)] by blast
  have later: "j < length types \<Longrightarrow> willing env svc (k + 1 + j)" for j
    using Cons.prems(1) [of "Suc j"] by simp
  obtain hs where "all_accepted env (k + 1) svc types h (icv + 1) hs"
    using Cons.IH [OF later Cons.prems(2) h(2), of "icv + 1"] by blast
  with h(1) show ?case using all_accepted_Cons by metis
qed

text \<open>C28: the onboarding goes through: when the tool makes a request and a key, the service issues a
  certificate whose token can be read, the key and the certificate can be parsed, the seller has a VAT
  number, and in each of the six rounds the tool signs and the service accepts, then the device gets the
  production certificate that the service issues.\<close>

theorem onboarding_goes_through:
  assumes "GenerateCSR (ze_exec env 0) (zs_SDK svc) (cf_CSR (zs_Config svc)) = Some (Inr (csr, key))"
    and "ComplianceCSID (ze_http env 0) (zs_Config svc) (pemToBase64 csr) = Inr cresp"
    and "b64_decode (cs_BinarySecurityToken cresp) = Inr certPEM"
    and "ParsePrivateKey (ze_pki env) key = Inr k" and "ParseCertificate (ze_pki env) (cs_BinarySecurityToken cresp) = Inr cert"
    and "sl_VAT (cf_Seller (zs_Config svc)) \<noteq> []"
    and "\<And>j. j < 6 \<Longrightarrow> willing env (compliance_service key cresp certPEM svc) (1 + j)"
    and "ProductionCSID (ze_http env 7) (zs_Config (compliance_service key cresp certPEM svc)) (cs_RequestID cresp) = Inr presp"
  shows "\<exists>res svc'. Onboard env svc = Some (Inr res, svc') \<and> ob_ProductionCert res = cs_BinarySecurityToken presp \<and>
    cf_ProductionUsername (zs_Config svc') = cs_BinarySecurityToken presp"
proof -
  let ?svc = "compliance_service key cresp certPEM svc"
  have "length compliance_types = 6" by (simp add: compliance_types_def)
  moreover have "sl_VAT (cf_Seller (zs_Config ?svc)) \<noteq> []"
    using assms(6) by (simp add: compliance_service_def set_compliance_def give_key_def)
  moreover have "GenesisPIH \<noteq> []" by (simp add: GenesisPIH_def)
  ultimately obtain hs where "all_accepted env 1 ?svc compliance_types GenesisPIH 1 hs"
    using willing_accepts_all [of compliance_types env ?svc 1 GenesisPIH 1] assms(7) by auto
  with assms(2-5,8) obtain res svc' where "OnboardWithCSR env csr key svc = (Inr res, svc')"
    "ob_ProductionCert res = cs_BinarySecurityToken presp" "svc' = set_production presp ?svc"
    unfolding OnboardWithCSR_ok by fastforce
  with assms(1) show ?thesis
    by (auto simp: Onboard_def set_production_def)
qed

section \<open>What is reported\<close>

lemma native_sign_ok:
  assumes "native_sign env simplified key cert64 i = Some (Inr r)"
  obtains k cert xml where "ParseCertificate (ze_pki env) cert64 = Inr cert"
    and "ToXML (ze_flops env) (ze_layouts env) i = Inr xml"
    and "SignInvoiceWithQR (ze_sign env) xml k cert simplified (pt_RegistrationName (in_Supplier i)) (pt_VAT (in_Supplier i))
      (in_IssueDate i) (ly_amount (ze_layouts env) (TotalWithTax (ze_flops env) i))
      (ly_amount (ze_layouts env) (TotalTax (ze_flops env) i)) = Some (Inr r)"
  using assms by (auto simp: native_sign_def service_xml_def split: sum.splits option.splits)

lemma signed_hash: "SignInvoiceWithQR E xml k cert simplified seller vat ts t v = Some (Inr r) \<Longrightarrow> InvoiceHash (sg_xml E) xml = Inr (sr_InvoiceHash r)"
  by (auto simp: SignInvoiceWithQR_def signed_parts_def Let_def split: sum.splits option.splits prod.splits)


section \<open>A concrete onboarding\<close>

definition device_config :: config where
  "device_config = \<lparr>cf_Env = Sandbox, cf_OTP = ''123345'', cf_ComplianceUsername = [], cf_CompliancePassword = [],
     cf_ProductionUsername = [], cf_ProductionPassword = [], cf_EGSID = [], cf_CSR = sample_csr_config,
     cf_Seller = \<lparr>sl_Name = ''Acme'', sl_NameAR = ''Acme'', sl_VAT = ''300000000000003'', sl_CRN = ''1010010000'', sl_Street = [],
       sl_Building = [], sl_District = [], sl_City = [], sl_PostalCode = [], sl_Country = ''SA''\<rparr>\<rparr>"

definition sign_output :: string where
  "sign_output = ''INVOICE HASH =abc'' @ newline @ signed_mark @ ''<Invoice/>''"

definition sample_csid :: CSIDResponse where
  "sample_csid = \<lparr>cs_RequestID = ''77'', cs_DispositionMessage = ''ISSUED'', cs_BinarySecurityToken = b64_encode ''DER'', cs_Secret = ''s3'', cs_Errors = []\<rparr>"

definition sample_api :: http_env where
  "sample_api = \<lparr>he_encode = \<lambda>_. Inr ''{}'', he_url = \<lambda>_. None, he_send = \<lambda>_. Inr (200, Inr ''{}''),
     he_invoice = \<lambda>_. Inr no_response, he_csid = \<lambda>_. Inr sample_csid\<rparr>"

definition sample_zatca :: "float64 zatca_env" where
  "sample_zatca = \<lparr>ze_flops = ieee, ze_layouts = sample_layouts,
     ze_exec = \<lambda>k _. ((if k = 0 then csr_mark @ newline @ ''REQ'' @ key_mark @ newline @ ''SECRET'' else sign_output, []), None),
     ze_http = \<lambda>k. sample_api, ze_now = \<lambda>k. 0, ze_pki = sample_pki, ze_sign = sample_signer\<rparr>"

lemma sample_api_calls:
  "ComplianceCSID sample_api cfg csr = Inr sample_csid" "ComplianceCheck sample_api cfg req = Inr no_response"
  "ProductionCSID sample_api cfg rid = Inr sample_csid"
  by (simp_all add: api_calls api_call_def newJSONRequest_def client_do_def sample_api_def)

lemma sample_tool:
  "sdk_SignInvoice (ze_exec sample_zatca (Suc k)) sdk xml = Inr (''<Invoice/>'', ''abc'')"
proof -
  have "split_on (CHR 0x0A) (sign_output @ newline) = [''INVOICE HASH =abc'', ''===SIGNED===<Invoice/>'', []]"
    by (simp add: sign_output_def newline_def signed_mark_def)
  moreover have "hash_line ''INVOICE HASH =abc'' = Some ''abc''"
    by (simp add: hash_line_def str_contains_def has_prefix_def split2_def trim_space_graphic graphic_def)
  moreover have "hash_line ''===SIGNED===<Invoice/>'' = None" "hash_line [] = None"
    by (simp_all add: hash_line_def str_contains_def has_prefix_def)
  ultimately have "last_hash (split_on (CHR 0x0A) (sign_output @ newline)) = ''abc''"
    by (simp add: last_hash_def)
  moreover have "str_index sign_output signed_mark = Some 18"
    by (simp add: sign_output_def newline_def signed_mark_def has_prefix_def)
  moreover have "trim_space (drop (18 + length signed_mark) sign_output) = ''<Invoice/>''"
    by (simp add: sign_output_def newline_def signed_mark_def trim_space_graphic graphic_def)
  ultimately show ?thesis by (simp add: sdk_SignInvoice_def sample_zatca_def)
qed

lemma sample_generated:
  "GenerateCSR (ze_exec sample_zatca 0) sdk cfg = Some (Inr (trim_space (newline @ ''REQ''), trim_space (newline @ ''SECRET'')))"
proof -
  have "parseCSROutput (csr_mark @ newline @ ''REQ'' @ key_mark @ newline @ ''SECRET'') =
      Some (Inr (trim_space (newline @ ''REQ''), trim_space (newline @ ''SECRET'')))"
    by (simp add: parseCSROutput_def csr_mark_def key_mark_def newline_def has_prefix_def)
  then show ?thesis by (simp add: GenerateCSR_def sample_zatca_def)
qed

lemma sample_willing: "willing sample_zatca svc (1 + j)"
proof -
  have "ComplianceCheck (ze_http sample_zatca (1 + j)) cfg req = Inr no_response" for cfg req
    using sample_api_calls(2) by (simp add: sample_zatca_def)
  then show ?thesis using sample_tool by (auto simp: willing_def no_response_def)
qed

lemma sample_parsed:
  "ParsePrivateKey (ze_pki sample_zatca) key = Inr \<lparr>ek_Pub = sample_point, ek_D = 1\<rparr>"
  "ParseCertificate (ze_pki sample_zatca) (cs_BinarySecurityToken sample_csid) = Inr sample_cert"
  "b64_decode (cs_BinarySecurityToken sample_csid) = Inr ''DER''"
  using sample_certificate(1)
  by (simp_all add: sample_zatca_def sample_pki_def ParsePrivateKey_def ParseCertificate_def sample_csid_def del: b64_encode.simps)

lemma sample_device:
  "ze_http sample_zatca k = sample_api" "sl_VAT (cf_Seller (zs_Config (zatca_New device_config))) \<noteq> []"
  "cs_BinarySecurityToken sample_csid = b64_encode ''DER''"
  by (simp_all add: sample_zatca_def zatca_New_def device_config_def sample_csid_def del: b64_encode.simps)

lemma sample_service_run:
  assumes "sl_VAT (cf_Seller (zs_Config svc)) \<noteq> []"
  shows "\<exists>res svc'. OnboardWithCSR sample_zatca csr key svc = (Inr res, svc')"
proof -
  let ?svc = "compliance_service key sample_csid ''DER'' svc"
  have "sl_VAT (cf_Seller (zs_Config ?svc)) \<noteq> []"
    using assms by (simp add: compliance_service_def set_compliance_def give_key_def)
  moreover have "GenesisPIH \<noteq> []" by (simp add: GenesisPIH_def)
  ultimately obtain hs where "all_accepted sample_zatca 1 ?svc compliance_types GenesisPIH 1 hs"
    using willing_accepts_all [OF sample_willing] by blast
  then show ?thesis
    unfolding OnboardWithCSR_ok sample_device(1) using sample_api_calls sample_parsed by metis
qed

lemma sample_onboarded: "\<exists>res svc'. Onboard sample_zatca (zatca_New device_config) = Some (Inr res, svc')"
  unfolding Onboard_ok using sample_generated sample_service_run [OF sample_device(2)] by metis

theorem onboarding_goes_through_witness:
  "\<exists>res svc'. Onboard sample_zatca (zatca_New device_config) = Some (Inr res, svc') \<and>
     ob_ProductionCert res = b64_encode ''DER'' \<and> cf_ProductionUsername (zs_Config svc') = b64_encode ''DER''"
proof -
  note run = onboarding_goes_through [OF sample_generated _ sample_parsed(3,1,2) sample_device(2) sample_willing]
  show ?thesis
    using run [unfolded sample_device(1), OF sample_api_calls(1,3)] unfolding sample_device(3) .
qed

theorem onboarding_proves_compliance_witness:
  "\<exists>res svc' csvc invs hs. Onboard sample_zatca (zatca_New device_config) = Some (Inr res, svc') \<and>
     map in_TypeCode invs = [388, 388, 381, 381, 383, 383] \<and> map in_InvoiceCounterValue invs = [1, 2, 3, 4, 5, 6] \<and>
     (\<forall>j < 6. accepted sample_zatca (j + 1) csvc (invs ! j) (hs ! j))"
proof -
  obtain res svc' where run: "Onboard sample_zatca (zatca_New device_config) = Some (Inr res, svc')"
    using sample_onboarded by blast
  from onboarding_proves_compliance [OF run] run show ?thesis by (elim exE conjE) (intro exI conjI)
qed

theorem failed_onboarding_keeps_production_witness:
  "\<exists>e svc'. Onboard (sample_zatca\<lparr>ze_exec := \<lambda>k _. (([], []), Some (NewError ''docker''))\<rparr>) (zatca_New device_config) = Some (Inl e, svc') \<and>
     cf_ProductionUsername (zs_Config svc') = []"
proof -
  let ?env = "sample_zatca\<lparr>ze_exec := \<lambda>k _. (([], []), Some (NewError ''docker''))\<rparr>"
  obtain e where run: "Onboard ?env (zatca_New device_config) = Some (Inl e, zatca_New device_config)"
    by (simp add: Onboard_def GenerateCSR_def)
  from failed_onboarding_keeps_production [OF run] run show ?thesis
    by (auto simp: zatca_New_def device_config_def)
qed

text \<open>A concrete report.\<close>

definition shop_document :: "float64 invoice" where
  "shop_document = sample_document\<lparr>in_Supplier := no_party\<lparr>pt_RegistrationName := ''Shop'', pt_VAT := ''300000000000003''\<rparr>\<rparr>"

lemma shop_document_ok:
  "raw_plain shop_document" "code_free shop_document" "IsSimplified shop_document" "invoice_validate shop_document = None"
  using sample_document_ok(2) sample_code_free
  by (simp_all add: shop_document_def raw_plain_def code_free_def IsSimplified_def invoice_validate_def IsStandard_def sample_document_def
      sample_sale_def SubTypeSimplified_def SubTypeStandard_def)

lemma sample_native_sign:
  "\<exists>r. native_sign sample_zatca True key (b64_encode ''DER'') shop_document = Some (Inr r)"
proof -
  obtain b where "PublicKeyBytes sample_cert = Some b"
    using PublicKeyBytes_padded(1) [of sample_cert] by (simp add: sample_cert_def sample_point_def)
  then have "\<exists>r. SignInvoiceWithQR sample_signer xml k sample_cert True ''Shop'' ''300000000000003'' ts sum_text vat_text = Some (Inr r)"
    for xml k ts sum_text vat_text
    using GenerateQR_entries
    by (simp add: SignInvoiceWithQR_def signed_parts_def InvoiceHash_def canonicalizeForHashing_def sample_signer_def Let_def
        del: b64_encode.simps)
  moreover have "pt_RegistrationName (in_Supplier shop_document) = ''Shop''" "pt_VAT (in_Supplier shop_document) = ''300000000000003''"
    by (simp_all add: shop_document_def)
  moreover have "ze_sign sample_zatca = sample_signer" by (simp add: sample_zatca_def)
  ultimately show ?thesis
    using shop_document_ok(4) sample_parsed(1,2) unfolding sample_device(3)
    by (simp add: native_sign_def service_xml_def ToXML_def del: b64_encode.simps) (metis option.case sum.case)
qed


end
