(* ===== verification/Zatca_Cli.thy ===== *)
theory Zatca_Cli
  imports Zatca_Service
begin

text \<open>
  The command line tool \<open>cmd/zatca/main.go\<close>: a service for a test taxpayer, and one command per operation
  of the facade.  A run gives what it prints and the files it saves, in order, and its exit code; the
  time that \<open>log.Fatal\<close> puts before its text is left out.  Parsing the flags, the file system, the JSON
  encoder and the time layouts are arguments.
\<close>

section \<open>Runs\<close>

datatype cli_effect =
    Stdout string
  | Stderr string
  | SaveFile string string

type_synonym cli_run = "cli_effect list \<times> int"

definition println :: "string \<Rightarrow> cli_effect" where
  "println s = Stdout (s @ newline)"

text \<open>\<open>log.Fatalf\<close> after some output.\<close>

definition fatal :: "cli_effect list \<Rightarrow> string \<Rightarrow> cli_run" where
  "fatal effs s = (effs @ [Stderr (s @ newline)], 1)"

definition fatal_error :: "cli_effect list \<Rightarrow> string \<Rightarrow> goerr \<Rightarrow> cli_run" where
  "fatal_error effs s e = fatal effs (s @ err_text e)"

record 'f cli_env =
  cl_zatca :: "'f zatca_env"
  cl_stamp :: "time \<Rightarrow> string" \<comment> \<open>the layout \<open>20060102150405\<close>\<close>
  cl_marshal :: "(string \<times> string) list \<Rightarrow> string" \<comment> \<open>\<open>json.MarshalIndent\<close> of a map of strings\<close>
  cl_write :: "string \<Rightarrow> string \<Rightarrow> goerr option"
  cl_read :: "string \<Rightarrow> goerr + string"
  cl_draw :: "nat option"
  cl_uuid :: string

section \<open>The sample invoice\<close>

definition cli_line :: "'f flops \<Rightarrow> string \<Rightarrow> int \<Rightarrow> int \<Rightarrow> 'f line_item" where
  "cli_line F name quantity price =
     \<lparr>li_ID = [], li_Name = name, li_Quantity = fl_int F quantity, li_UnitCode = ''PCE'', li_UnitPrice = fl_int F price,
      li_Discount = fl_int F 0, li_TaxCategory = TaxStandard, li_TaxPercent = fl_int F 15\<rparr>"

definition buildSampleInvoice :: "'f cli_env \<Rightarrow> zatca_service \<Rightarrow> string \<Rightarrow> 'f invoice" where
  "buildSampleInvoice env svc subType =
     (let F = ze_flops (cl_zatca env); now = ze_now (cl_zatca env) 0; s = cf_Seller (zs_Config svc) in
      \<lparr>in_ID = ''INV-'' @ cl_stamp env now, in_UUID = ''550e8400-e29b-41d4-a716-446655440000'',
       in_IssueDate = now, in_IssueTime = now, in_TypeCode = TypeInvoice, in_SubType = subType,
       in_DocumentCurrency = [], in_TaxCurrency = [], in_Note = [], in_NoteLang = [],
       in_Supplier =
         \<lparr>pt_RegistrationName = sl_Name s, pt_RegistrationNameAR = sl_NameAR s, pt_VAT = sl_VAT s, pt_SchemeID = ''CRN'',
          pt_ID = sl_CRN s, pt_Street = sl_Street s, pt_Building = sl_Building s, pt_District = sl_District s,
          pt_City = sl_City s, pt_PostalCode = sl_PostalCode s, pt_Country = sl_Country s\<rparr>,
       in_Customer =
         \<lparr>pt_RegistrationName = ''Fatoora Samples LTD'', pt_RegistrationNameAR = [], pt_VAT = ''399999999800003'',
          pt_SchemeID = [], pt_ID = [], pt_Street = ''Prince Sultan'', pt_Building = ''2322'', pt_District = ''Al-Murabba'',
          pt_City = ''Riyadh'', pt_PostalCode = ''23333'', pt_Country = ''SA''\<rparr>,
       in_DeliveryDate = Some now, in_PaymentMeans = PaymentCash, in_InstructionNote = [], in_BillingReferenceID = [],
       in_Discount = fl_int F 0, in_DiscountTax = [], in_DiscountTaxPercent = fl_int F 0,
       in_Lines = [cli_line F ''Laptop Computer'' 2 3000, cli_line F ''Wireless Mouse'' 5 50],
       in_PreviousInvoiceHash = ''NWZlY2ViNjZmZmM4NmYzOGQ5NTI3ODZjNmQ2OTZjNzljMmRiYzIzOWRkNGU5MWI0NjcyOWQ3M2EyN2ZiNTdlOQ=='',
       in_InvoiceCounterValue = 1, in_ProfileID = []\<rparr>)"

definition cli_truncate :: "string \<Rightarrow> nat \<Rightarrow> string" where
  "cli_truncate s n = (if length s \<le> n then s else take n s)"

section \<open>Commands\<close>

definition credentials_file :: string where
  "credentials_file = ''output/credentials.json''"

definition credentials :: "OnboardResult \<Rightarrow> (string \<times> string) list" where
  "credentials r =
     [(''production_cert'', ob_ProductionCert r), (''production_secret'', ob_ProductionSecret r),
      (''production_request_id'', ob_ProductionRequestID r), (''private_key'', ob_PrivateKey r)]"

text \<open>\<open>None\<close> is the panic of \<open>GenerateCSR\<close>.\<close>

definition cmdOnboard :: "'f cli_env \<Rightarrow> zatca_service \<Rightarrow> cli_run option" where
  "cmdOnboard env svc =
     (let start = [println ''=== ZATCA Onboarding ==='', println ''Step 1: Generating CSR...''] in
      case Onboard (cl_zatca env) svc of
        None \<Rightarrow> None
      | Some (Inl e, _) \<Rightarrow> Some (fatal_error start ''Onboarding failed: '' e)
      | Some (Inr result, _) \<Rightarrow>
          (let printed = start @
                 [Stdout (newline @ ''=== Onboarding Complete ==='' @ newline),
                  println (''Compliance Request ID: '' @ ob_ComplianceRequestID result),
                  println (''Production Request ID: '' @ ob_ProductionRequestID result),
                  println (''Production Cert: '' @ cli_truncate (ob_ProductionCert result) 40 @ ''...''),
                  println (''Production Secret: '' @ cli_truncate (ob_ProductionSecret result) 20 @ ''...'')];
               data = cl_marshal env (credentials result)
           in case cl_write env credentials_file data of
                Some e \<Rightarrow> Some (printed @ [println (''Warning: could not save credentials: '' @ err_text e)], 0)
              | None \<Rightarrow> Some (printed @
                  [SaveFile credentials_file data, Stdout (newline @ ''Credentials saved to output/credentials.json'' @ newline)], 0)))"

definition cmdCSR :: "'f cli_env \<Rightarrow> zatca_service \<Rightarrow> cli_run option" where
  "cmdCSR env svc =
     (let start = [println ''=== Generate CSR ===''] in
      case GenerateCSR (ze_exec (cl_zatca env) 0) (zs_SDK svc) (cf_CSR (zs_Config svc)) of
        None \<Rightarrow> None
      | Some (Inl e) \<Rightarrow> Some (fatal_error start ''CSR generation failed: '' e)
      | Some (Inr (csr, key)) \<Rightarrow>
          Some (start @ [println ''CSR:'', println csr, Stdout (newline @ ''Private Key:'' @ newline), println key], 0))"

definition cmdXML :: "'f cli_env \<Rightarrow> zatca_service \<Rightarrow> cli_run" where
  "cmdXML env svc =
     (case service_xml (cl_zatca env) (buildSampleInvoice env svc SubTypeStandard) of
        Inl e \<Rightarrow> fatal_error [] ''XML generation failed: '' e
      | Inr xmlStr \<Rightarrow> ([println xmlStr], 0))"

definition cmdValidate :: "'f cli_env \<Rightarrow> zatca_service \<Rightarrow> string list \<Rightarrow> cli_run" where
  "cmdValidate env svc args =
     (case args of
        [] \<Rightarrow> fatal [] ''Usage: zatca validate <invoice.xml>''
      | file # _ \<Rightarrow>
        (case cl_read env file of
           Inl e \<Rightarrow> fatal_error [] ''Read file: '' e
         | Inr data \<Rightarrow>
           (case ValidateInvoice (ze_exec (cl_zatca env) 0) (zs_SDK svc) data of
              (_, Some e) \<Rightarrow> fatal_error [] ''Validation failed: '' e
            | (result, None) \<Rightarrow> ([println result], 0))))"

text \<open>\<open>%v\<close> of a slice of details.\<close>

definition details_value :: "ErrorDetail list \<Rightarrow> string" where
  "details_value ds = ''['' @ join_with '' '' (map (\<lambda>d. ''{'' @ ed_Code d @ '' '' @ ed_Message d @ ''}'') ds) @ '']''"

definition warning_lines :: "ErrorDetail list \<Rightarrow> cli_effect list" where
  "warning_lines ds = (if ds \<noteq> [] then [println (''Warnings: '' @ details_value ds)] else [])"

definition cmdReport :: "'f cli_env \<Rightarrow> zatca_service \<Rightarrow> cli_run" where
  "cmdReport env svc =
     (let start = [println ''=== Report Simplified Invoice (B2C) ===''] in
      case service_ReportInvoice (cl_zatca env) svc (buildSampleInvoice env svc SubTypeSimplified) of
        Inl e \<Rightarrow> fatal_error start ''Report failed: '' e
      | Inr r \<Rightarrow>
          (start @ [println (''Status: '' @ rt_Status r), println (''Hash: '' @ rt_InvoiceHash r)] @ warning_lines (rt_Warnings r), 0))"

definition cmdClear :: "'f cli_env \<Rightarrow> zatca_service \<Rightarrow> cli_run" where
  "cmdClear env svc =
     (let start = [println ''=== Clear Standard Invoice (B2B) ===''] in
      case service_ClearInvoice (cl_zatca env) svc (buildSampleInvoice env svc SubTypeStandard) of
        Inl e \<Rightarrow> fatal_error start ''Clearance failed: '' e
      | Inr r \<Rightarrow>
          (start @ [println (''Status: '' @ ct_Status r), println (''Hash: '' @ ct_InvoiceHash r)] @
           (if ct_ClearedXML r \<noteq> [] then [println (''Cleared XML: '' @ show_nat (length (ct_ClearedXML r)) @ '' bytes'')] else []) @
           warning_lines (ct_Warnings r), 0))"

section \<open>The tool\<close>

definition arrow :: string where
  "arrow = encode_rune 0x2192"

definition printUsage :: cli_effect where
  "printUsage = Stderr (lines_text
     [''ZATCA E-Invoicing CLI'', [],
      ''Usage: zatca [-zatca-env sandbox] [-otp 123456] <command>'', [],
      ''Commands:'',
      ''  onboard   Run the full onboarding flow (CSR '' @ arrow @ '' Compliance '' @ arrow @ '' Production)'',
      ''  csr       Generate a CSR via SDK'',
      ''  xml       Generate a sample invoice XML'',
      ''  validate  Validate an invoice XML via SDK'',
      ''  report    Build, sign, and report a sample simplified invoice (B2C)'',
      ''  clear     Build, sign, and clear a sample standard invoice (B2B)'', [],
      ''Options:'',
      ''  -zatca-env string   ZATCA environment (default \"sandbox\")'',
      ''  -otp string         OTP from ZATCA portal (default \"123456\")''])"

definition cli_taxpayer :: taxpayer where
  "cli_taxpayer =
     \<lparr>tp_CompanyName = ''Test Company Ltd'',
      tp_CompanyNameAR = concat (map encode_rune
        [0x0634, 0x0631, 0x0643, 0x0629, 0x20, 0x062A, 0x062C, 0x0631, 0x0628, 0x0629]),
      tp_VATNumber = ''399999999900003'', tp_CRN = ''4030000000'', tp_BranchName = ''Main Branch'',
      tp_BusinessCategory = ''Supply activities'', tp_Street = ''King Fahad Road'', tp_Building = ''1234'',
      tp_District = ''Al-Olaya'', tp_City = ''Riyadh'', tp_PostalCode = ''12345'', tp_InvoiceType = [], tp_LocationCode = [],
      tp_Country = [], tp_TIN = [], tp_ComputerNumber = []\<rparr>"

definition cli_service :: "'f cli_env \<Rightarrow> string \<Rightarrow> string \<Rightarrow> zatca_service" where
  "cli_service env zatcaEnv otp = zatca_New (fst (taxpayer_Config (cl_draw env) (cl_uuid env) zatcaEnv otp cli_taxpayer))"

text \<open>\<open>args\<close> are the words after the flags.\<close>

definition zatca_main :: "'f cli_env \<Rightarrow> string \<Rightarrow> string \<Rightarrow> string list \<Rightarrow> cli_run option" where
  "zatca_main env zatcaEnv otp args =
     (case args of
        [] \<Rightarrow> Some ([printUsage], 1)
      | cmd # operands \<Rightarrow>
          (let svc = cli_service env zatcaEnv otp in
           if cmd = ''onboard'' then cmdOnboard env svc
           else if cmd = ''report'' then Some (cmdReport env svc)
           else if cmd = ''clear'' then Some (cmdClear env svc)
           else if cmd = ''csr'' then cmdCSR env svc
           else if cmd = ''xml'' then Some (cmdXML env svc)
           else if cmd = ''validate'' then Some (cmdValidate env svc operands)
           else Some ([Stderr (''Unknown command: '' @ cmd @ newline), printUsage], 1)))"

section \<open>What the commands do\<close>

lemma cli_service_fields:
  "cf_Env (zs_Config (cli_service env e otp)) = e" "cf_ProductionUsername (zs_Config (cli_service env e otp)) = []"
  "cf_ProductionPassword (zs_Config (cli_service env e otp)) = []"
  "sl_VAT (cf_Seller (zs_Config (cli_service env e otp))) = ''399999999900003''"
  by (simp_all add: cli_service_def zatca_New_def taxpayer_Config_def taxpayer_CSR_def taxpayer_Seller_def Let_def
      applyDefaults_def cli_taxpayer_def split: prod.splits)

lemma cli_invoice_plain: "plain subType \<Longrightarrow> raw_plain (buildSampleInvoice env svc subType)"
  by (simp add: raw_plain_def buildSampleInvoice_def Let_def cli_line_def TaxStandard_def xml_plain_def)

lemma cli_invoice_valid:
  "invoice_validate (buildSampleInvoice env svc subType) = None \<longleftrightarrow> sl_VAT (cf_Seller (zs_Config svc)) \<noteq> []"
  by (simp add: invoice_validate_def buildSampleInvoice_def Let_def)

text \<open>The sample invoice of the tool is always complete: the command prints a well-formed document in every
  environment, at any time.\<close>

theorem xml_command_prints:
  assumes "number_layouts (ze_layouts (cl_zatca env))"
  shows "\<exists>xml. zatca_main env e otp (''xml'' # args) = Some ([println xml], 0) \<and> scan None [] xml = Some []"
proof -
  let ?i = "buildSampleInvoice env (cli_service env e otp) SubTypeStandard"
  have "invoice_validate ?i = None"
    by (simp add: cli_invoice_valid cli_service_fields)
  then obtain xml where xml: "ToXML (ze_flops (cl_zatca env)) (ze_layouts (cl_zatca env)) ?i = Inr xml"
    by (simp add: ToXML_def)
  have "plain SubTypeStandard"
    by (simp add: SubTypeStandard_def xml_plain_def)
  with ToXML_scan [OF xml assms cli_invoice_plain] show ?thesis
    using xml by (intro exI [of _ xml]) (simp add: zatca_main_def cmdXML_def service_xml_def Let_def)
qed

text \<open>The onboarding command tells the truth: it exits with 0 exactly when the whole onboarding went
  through, and the only file it ever saves holds the production certificate, its secret and the private
  key of that onboarding.  When the file cannot be written the exit code is still 0.\<close>

theorem onboard_command_outcome:
  assumes "zatca_main env e otp (''onboard'' # args) = Some (effs, code)"
  shows "(code = 0 \<longleftrightarrow> (\<exists>res svc'. Onboard (cl_zatca env) (cli_service env e otp) = Some (Inr res, svc'))) \<and>
    (\<forall>f d. SaveFile f d \<in> set effs \<longleftrightarrow>
       (\<exists>res svc'. Onboard (cl_zatca env) (cli_service env e otp) = Some (Inr res, svc') \<and> f = credentials_file \<and>
          d = cl_marshal env (credentials res) \<and> cl_write env f d = None))"
proof -
  have run: "cmdOnboard env (cli_service env e otp) = Some (effs, code)"
    using assms by (simp add: zatca_main_def Let_def)
  then obtain out svc' where out: "Onboard (cl_zatca env) (cli_service env e otp) = Some (out, svc')"
    by (auto simp: cmdOnboard_def Let_def split: option.splits)
  show ?thesis
  proof (cases out)
    case (Inl err)
    then show ?thesis
      using run out by (auto simp: cmdOnboard_def Let_def fatal_error_def fatal_def println_def)
  next
    case (Inr res)
    then show ?thesis
      using run out by (auto simp: cmdOnboard_def Let_def println_def split: option.splits)
  qed
qed

section \<open>Reporting without credentials\<close>

text \<open>An API that answers every request without an \<open>Authorization\<close> header with 401.\<close>

definition refuses_anonymous :: "http_env \<Rightarrow> bool" where
  "refuses_anonymous http \<longleftrightarrow>
     (\<forall>req. map_of (hr_headers req) ''Authorization'' = None \<longrightarrow> (\<exists>body. he_send http req = Inr (401, Inr body)))"

lemma anonymous_call:
  assumes "refuses_anonymous http" and "\<And>req. map_of (hr_headers (f req)) ''Authorization'' = map_of (hr_headers req) ''Authorization''"
  shows "\<exists>e. api_call http name method url body f unmarshal zero = Inl e"
proof (cases "newJSONRequest http method url body")
  case (Inr req)
  then have "map_of (hr_headers (f req)) ''Authorization'' = None"
    using assms(2) by (auto simp: newJSONRequest_def set_header_def update_conv' split: sum.splits option.splits)
  then obtain b where "he_send http (f req) = Inr (401, Inr b)"
    using assms(1) unfolding refuses_anonymous_def by blast
  then show ?thesis
    using Inr by (simp add: api_call_def client_do_def)
qed (simp add: api_call_def)

text \<open>The report and clear commands never use the credentials an onboarding saved: against an API that wants
  any, they fail.\<close>

theorem sample_reports_refused:
  assumes "refuses_anonymous (ze_http (cl_zatca env) 0)" and "cmd = ''report'' \<or> cmd = ''clear''"
    and "zatca_main env e otp (cmd # args) = Some (effs, code)"
  shows "code = 1"
proof -
  let ?svc = "cli_service env e otp"
  have auth: "setProductionAuth (zs_Config ?svc) = (\<lambda>req. req)"
    by (simp add: setProductionAuth_def basic_auth_def cli_service_fields fun_eq_iff)
  have header: "map_of (hr_headers (set_header ''Clearance-Status'' v req)) ''Authorization'' = map_of (hr_headers req) ''Authorization''" for v req
    by (simp add: set_header_def update_conv')
  have "\<exists>err. ReportInvoice (ze_http (cl_zatca env) 0) (zs_Config ?svc) q = Inl err"
    "\<exists>err. ClearInvoice (ze_http (cl_zatca env) 0) (zs_Config ?svc) q = Inl err" for q
    unfolding ReportInvoice_def ClearInvoice_def auth by (intro anonymous_call [OF assms(1)] header)+
  then have "\<exists>err. service_ReportInvoice (cl_zatca env) ?svc i = Inl err" "\<exists>err. service_ClearInvoice (cl_zatca env) ?svc i = Inl err" for i
    by (auto simp: service_ReportInvoice_def service_ClearInvoice_def report_signed_def clear_signed_def split: sum.splits)
       (metis Inl_Inr_False)+
  then show ?thesis
    using assms(2,3) by (auto simp: zatca_main_def Let_def cmdReport_def cmdClear_def fatal_error_def fatal_def split: sum.splits)
       (metis Inl_Inr_False)+
qed

end
