(* ===== verification/Field_Encryption.thy ===== *)
theory Field_Encryption
  imports Text_Codec
begin

text \<open>
  The encryption of sensitive columns, \<open>secutil/secutil.go\<close>.  AES-GCM is an argument: \<open>seal\<close> and
  \<open>open\<close> on key, nonce and text, where \<open>open\<close> fails with \<open>None\<close>.  The random nonce is an argument as well.
\<close>

definition enc_prefix :: string where
  "enc_prefix = ''enc:''"

record Key =
  key_raw :: string

definition NewKey :: "string \<Rightarrow> goerr + Key" where
  "NewKey encoded0 =
     (let encoded = trim_space encoded0 in
      if encoded = [] then Inl (NewError ''secutil: encryption key is empty'')
      else
        let wrong = (\<lambda>n. Inl (NewError (''secutil: key must be 32 bytes (got '' @ show_nat n @
              ''); provide 64 hex chars or 44 base64 chars'')));
            by_hex = (case decodeHex encoded of
                Inl e \<Rightarrow> wrong 0
              | Inr raw \<Rightarrow> if length raw \<noteq> 32 then wrong (length raw) else Inr \<lparr>key_raw = raw\<rparr>)
        in case b64_decode encoded of
             Inl e \<Rightarrow> by_hex
           | Inr raw \<Rightarrow> if length raw \<noteq> 32 then by_hex else Inr \<lparr>key_raw = raw\<rparr>)"

text \<open>\<open>aes.NewCipher\<close> refuses a key of another size than 16, 24 or 32 bytes.\<close>

definition new_cipher :: "string \<Rightarrow> goerr option" where
  "new_cipher raw =
     (if length raw = 16 \<or> length raw = 24 \<or> length raw = 32 then None
      else Some (NewError (''crypto/aes: invalid key size '' @ show_nat (length raw))))"

definition nonceSize :: nat where
  "nonceSize = 12"

type_synonym aead_seal = "string \<Rightarrow> string \<Rightarrow> string \<Rightarrow> string"
type_synonym aead_open = "string \<Rightarrow> string \<Rightarrow> string \<Rightarrow> string option"

definition Encrypt :: "aead_seal \<Rightarrow> goerr + string \<Rightarrow> Key \<Rightarrow> string \<Rightarrow> goerr + string" where
  "Encrypt seal rand k plaintext =
     (if plaintext = [] then Inr []
      else
        case new_cipher (key_raw k) of
          Some e \<Rightarrow> Inl (Wrapf ''secutil: new cipher: '' e [])
        | None \<Rightarrow>
          (case rand of
             Inl e \<Rightarrow> Inl (Wrapf ''secutil: random nonce: '' e [])
           | Inr nonce \<Rightarrow> Inr (enc_prefix @ b64_encode (nonce @ seal (key_raw k) nonce plaintext))))"

definition Decrypt :: "aead_open \<Rightarrow> Key \<Rightarrow> string \<Rightarrow> goerr + string" where
  "Decrypt open_it k value =
     (if value = [] then Inr []
      else if \<not> has_prefix value enc_prefix then
        Inl (NewError ''secutil: value is not encrypted (missing enc: prefix)'')
      else
        case b64_decode (trim_prefix value enc_prefix) of
          Inl e \<Rightarrow> Inl (Wrapf ''secutil: base64 decode: '' e [])
        | Inr data \<Rightarrow>
          (case new_cipher (key_raw k) of
             Some e \<Rightarrow> Inl (Wrapf ''secutil: new cipher: '' e [])
           | None \<Rightarrow>
             (if length data < nonceSize then Inl (NewError ''secutil: ciphertext too short'')
              else
                case open_it (key_raw k) (take nonceSize data) (drop nonceSize data) of
                  None \<Rightarrow> Inl (Wrapf ''secutil: decrypt: '' (NewError ''cipher: message authentication failed'') [])
                | Some plaintext \<Rightarrow> Inr plaintext)))"

definition IsEncrypted :: "string \<Rightarrow> bool" where
  "IsEncrypted value = has_prefix value enc_prefix"

section \<open>Properties\<close>

lemma enc_prefix_facts [simp]: "enc_prefix \<noteq> []" "\<not> has_prefix [] enc_prefix"
  by (simp_all add: enc_prefix_def has_prefix_def)

lemma NewKey_size: "NewKey s = Inr k \<Longrightarrow> length (key_raw k) = 32"
  by (auto simp: NewKey_def Let_def split: sum.splits if_splits)

text \<open>The documented contract of an authenticated cipher: what was sealed opens again.\<close>

definition aead_ok :: "aead_seal \<Rightarrow> aead_open \<Rightarrow> bool" where
  "aead_ok seal open_it \<longleftrightarrow> (\<forall>key n p. open_it key n (seal key n p) = Some p)"

lemma Decrypt_Encrypt:
  assumes "length (key_raw k) = 32" and "length nonce = nonceSize" and "aead_ok seal open_it"
  shows "\<exists>c. Encrypt seal (Inr nonce) k plain = Inr c \<and> Decrypt open_it k c = Inr plain \<and> (IsEncrypted c \<longleftrightarrow> plain \<noteq> [])"
  using assms by (cases "plain = []") (simp_all add: aead_ok_def Encrypt_def Decrypt_def IsEncrypted_def new_cipher_def)

text \<open>With an AES-GCM that opens what it sealed, every text encrypted under a key that \<open>NewKey\<close>
  accepted decrypts to itself under the same key; a text that is not empty is stored with the
  prefix that marks it as encrypted.\<close>

theorem encrypt_roundtrip:
  assumes "NewKey text = Inr k" and "length nonce = nonceSize"
    and "aead_ok seal open_it"
  shows "\<exists>c. Encrypt seal (Inr nonce) k plain = Inr c \<and> Decrypt open_it k c = Inr plain \<and>
    (IsEncrypted c \<longleftrightarrow> plain \<noteq> [])"
  using Decrypt_Encrypt [OF NewKey_size [OF assms(1)] assms(2,3)] .

definition toy_seal :: aead_seal where
  "toy_seal key n p = p @ ''tag''"

definition toy_open :: aead_open where
  "toy_open key n c = (if drop (length c - 3) c = ''tag'' then Some (take (length c - 3) c) else None)"

lemma toy_ok: "aead_ok toy_seal toy_open"
  by (simp add: aead_ok_def toy_seal_def toy_open_def)

definition sample_key_bytes :: string where
  "sample_key_bytes = replicate 32 (CHR ''k'')"

lemma sample_key: "NewKey (b64_encode sample_key_bytes) = Inr \<lparr>key_raw = sample_key_bytes\<rparr>"
proof -
  have enc: "b64_encode sample_key_bytes =
      ''a2tra2tra2tra2tra2tra2tra2tra2tra2tra2tra2s=''"
    by code_simp
  have "list_all graphic (b64_encode sample_key_bytes)"
    unfolding enc by (simp add: graphic_def)
  then have "trim_space (b64_encode sample_key_bytes) = b64_encode sample_key_bytes"
    by (rule trim_space_graphic)
  moreover have "b64_encode sample_key_bytes \<noteq> []"
    by (simp add: enc)
  ultimately show ?thesis
    by (simp add: NewKey_def Let_def) (simp add: sample_key_bytes_def)
qed

theorem encrypt_roundtrip_witness:
  "\<exists>c. Encrypt toy_seal (Inr ''nonce-of-12b'') \<lparr>key_raw = sample_key_bytes\<rparr> ''secret'' = Inr c \<and>
     Decrypt toy_open \<lparr>key_raw = sample_key_bytes\<rparr> c = Inr ''secret''"
  using encrypt_roundtrip [OF sample_key _ toy_ok, of "''nonce-of-12b''" "''secret''"]
  by (auto simp: nonceSize_def)

text \<open>The hexadecimal spelling of a key.\<close>

lemma hex_text_graphic: "list_all graphic (hex_encode s)"
proof (induction s)
  case (Cons c cs)
  have "n < 16 \<Longrightarrow> graphic (hex_digit n)" for n
    by (auto simp: graphic_def hex_digit_def of_char_of)
  with Cons show ?case by simp
qed simp

lemma b64_plain_length:
  "b64_run pos acc s = Inr bs \<Longrightarrow> list_all (\<lambda>c. \<not> is_newline c \<and> c \<noteq> CHR ''='') s \<Longrightarrow> length acc < 4 \<Longrightarrow>
   4 * length bs = 3 * (length acc + length s)"
proof (induction pos acc s arbitrary: bs rule: b64_run.induct)
  case (2 pos acc c cs)
  then obtain v where v: "b64_val c = Some v"
    by (auto split: option.splits)
  show ?case
  proof (cases "length acc = 3")
    case True
    then obtain rest where rest: "b64_run (pos + 1) [] cs = Inr rest" "bs = b64_bytes (acc @ [v]) @ rest"
      using 2 v by (auto split: sum.splits)
    obtain x y z where "acc = [x, y, z]"
      using True by (auto simp: length_Suc_conv numeral_3_eq_3)
    then have "length (b64_bytes (acc @ [v])) = 3"
      by simp
    with rest True show ?thesis
      using "2.IH"(2) [OF _ _ v True rest(1)] "2.prems"(2) by simp
  next
    case False
    then show ?thesis
      using 2 v by simp
  qed
qed (auto split: if_splits)

lemma hex_text_plain: "list_all (\<lambda>c. \<not> is_newline c \<and> c \<noteq> CHR ''='') (hex_encode s)"
proof (induction s)
  case (Cons c cs)
  have "\<not> is_newline d \<and> d \<noteq> CHR ''=''" if "hexVal d = Inr n" for d n
    using that by (auto simp: hexVal_def hex_val_def is_newline_def)
  then have "n < 16 \<Longrightarrow> \<not> is_newline (hex_digit n) \<and> hex_digit n \<noteq> CHR ''=''" for n
    using hexVal_digit by blast
  with Cons show ?case by simp
qed simp

text \<open>A key of 32 bytes is accepted in both documented spellings, with white space around it: its base64
  text and its hexadecimal text both give the key of exactly those bytes.  The hexadecimal text is
  valid base64 too, but of 48 bytes.\<close>

theorem key_spellings:
  assumes "length raw = 32" and "trim_space t = b64_encode raw" and "trim_space h = hex_encode raw"
  shows "NewKey t = Inr \<lparr>key_raw = raw\<rparr> \<and> NewKey h = Inr \<lparr>key_raw = raw\<rparr>"
proof -
  have "length bs \<noteq> 32" if "b64_decode (hex_encode raw) = Inr bs" for bs
    using that b64_plain_length [of 0 "[]" "hex_encode raw" bs] hex_text_plain [of raw] assms(1)
    by (auto simp: b64_decode_def split: sum.splits)
  moreover have "length (hex_encode raw) = 64" "length (b64_encode raw) = 44"
    using assms(1) b64_encode_length [of raw] by simp_all
  then have "hex_encode raw \<noteq> []" "b64_encode raw \<noteq> []"
    by (auto simp del: hex_encode_length)
  ultimately show ?thesis
    using assms by (auto simp: NewKey_def Let_def split: sum.splits)
qed

theorem key_spellings_witness:
  "NewKey (b64_encode sample_key_bytes) = NewKey (hex_encode sample_key_bytes)"
proof -
  have "list_all graphic (b64_encode sample_key_bytes)"
    by code_simp
  then show ?thesis
    using key_spellings [of sample_key_bytes "b64_encode sample_key_bytes" "hex_encode sample_key_bytes"]
      trim_space_graphic hex_text_graphic by (simp add: sample_key_bytes_def)
qed

end
