(* ===== verification/Store_Config.thy ===== *)
theory Store_Config
  imports Field_Encryption Tenant_Registry
begin

text \<open>
  The ZATCA configuration of a branch, \<open>storeconfig/storeconfig.go\<close>.  The joined row of the query, the
  decryption and the answer of the reachability probe are arguments; the SDK's credentials and the
  service it belongs to are values.
\<close>

record BranchZATCA =
  bz_BranchID :: int
  bz_StoreID :: int
  bz_CompanyName :: string
  bz_CompanyNameAR :: string
  bz_VATReg :: string
  bz_CRN :: string
  bz_BranchName :: string
  bz_Street :: string
  bz_Building :: string
  bz_District :: string
  bz_City :: string
  bz_PostalCode :: string
  bz_Country :: string
  bz_ProductionUsername :: string
  bz_ProductionPassword :: string
  bz_PrivateKey :: string
  bz_Certificate :: string
  bz_EGSID :: string

text \<open>The scanned row, with the two secrets as they are stored and no certificate yet.\<close>

definition LoadBranchZATCA :: "(string \<Rightarrow> goerr + string) \<Rightarrow> goerr + BranchZATCA \<Rightarrow> int \<Rightarrow> goerr + BranchZATCA" where
  "LoadBranchZATCA decrypt row branchID =
     (case row of
        Inl e \<Rightarrow> Inl (Wrapf (''load ZATCA config for branch '' @ show_int branchID @ '': '') e [])
      | Inr bz \<Rightarrow>
        (case decrypt (bz_PrivateKey bz) of
           Inl e \<Rightarrow> Inl (Wrapf (''decrypt private_key for branch '' @ show_int branchID @ '': '') e [])
         | Inr key \<Rightarrow>
           (case decrypt (bz_ProductionPassword bz) of
              Inl e \<Rightarrow> Inl (Wrapf (''decrypt production_password for branch '' @ show_int branchID @ '': '') e [])
            | Inr pass \<Rightarrow>
                Inr (bz\<lparr>bz_PrivateKey := key, bz_ProductionPassword := pass,
                  bz_Certificate := bz_ProductionUsername bz\<rparr>))))"

definition IsRegistered :: "BranchZATCA \<Rightarrow> bool" where
  "IsRegistered bz \<longleftrightarrow> bz_ProductionUsername bz \<noteq> [] \<and> bz_ProductionPassword bz \<noteq> []"

definition ToConfig :: "BranchZATCA \<Rightarrow> config \<Rightarrow> config" where
  "ToConfig bz base =
     \<lparr>cf_Env = cf_Env base, cf_OTP = cf_OTP base, cf_ComplianceUsername = [], cf_CompliancePassword = [],
      cf_ProductionUsername = bz_ProductionUsername bz, cf_ProductionPassword = bz_ProductionPassword bz,
      cf_EGSID = bz_EGSID bz,
      cf_CSR = \<lparr>csr_CommonName = csr_CommonName (cf_CSR base), csr_SerialNumber = csr_SerialNumber (cf_CSR base),
        csr_OrgIdentifier = bz_VATReg bz, csr_OrgUnit = bz_BranchName bz, csr_OrgName = bz_CompanyName bz,
        csr_Country = bz_Country bz, csr_InvoiceType = csr_InvoiceType (cf_CSR base),
        csr_Location = csr_Location (cf_CSR base), csr_BusinessCategory = csr_BusinessCategory (cf_CSR base)\<rparr>,
      cf_Seller = \<lparr>sl_Name = bz_CompanyName bz, sl_NameAR = bz_CompanyNameAR bz, sl_VAT = bz_VATReg bz, sl_CRN = bz_CRN bz,
        sl_Street = bz_Street bz, sl_Building = bz_Building bz, sl_District = bz_District bz, sl_City = bz_City bz,
        sl_PostalCode = bz_PostalCode bz, sl_Country = bz_Country bz\<rparr>\<rparr>"

definition CertificatePEM :: "BranchZATCA \<Rightarrow> string" where
  "CertificatePEM bz =
     (if bz_Certificate bz = [] then []
      else
        case b64_decode (bz_Certificate bz) of
          Inr decoded \<Rightarrow> if decoded \<noteq> [] then decoded else bz_Certificate bz
        | Inl _ \<Rightarrow> bz_Certificate bz)"

text \<open>A service: its configuration and the key and certificate given to the SDK, if any.\<close>

record branch_service =
  bs_config :: config
  bs_credentials :: "(string \<times> string) option"

definition NewService :: "BranchZATCA \<Rightarrow> config \<Rightarrow> branch_service" where
  "NewService bz base =
     \<lparr>bs_config = ToConfig bz base,
      bs_credentials = (if bz_PrivateKey bz \<noteq> [] \<and> bz_Certificate bz \<noteq> []
        then Some (bz_PrivateKey bz, CertificatePEM bz) else None)\<rparr>"

section \<open>Status\<close>

definition StatusNotRegistered :: string where "StatusNotRegistered = ''not_registered''"
definition StatusRegistered :: string where "StatusRegistered = ''registered''"
definition StatusConnected :: string where "StatusConnected = ''connected''"
definition StatusError :: string where "StatusError = ''error''"

record BranchStatus =
  st_BranchID :: int
  st_StoreID :: int
  st_BranchName :: string
  st_Company :: string
  st_VAT :: string
  st_Status :: string
  st_Message :: string

text \<open>A scanned row of the status query: the identities, then user name and password as stored.\<close>

record status_row =
  sr_branch :: int
  sr_store :: int
  sr_name :: string
  sr_company :: string
  sr_vat :: string
  sr_username :: string
  sr_password :: string

definition branch_status :: "status_row \<Rightarrow> BranchStatus" where
  "branch_status r =
     \<lparr>st_BranchID = sr_branch r, st_StoreID = sr_store r, st_BranchName = sr_name r, st_Company = sr_company r, st_VAT = sr_vat r,
      st_Status = (if sr_username r = [] \<or> sr_password r = [] then StatusNotRegistered else StatusRegistered),
      st_Message = (if sr_username r = [] \<or> sr_password r = [] then ''No ZATCA credentials configured'' else ''Credentials stored'')\<rparr>"

fun status_rows :: "(goerr + status_row) list \<Rightarrow> goerr + BranchStatus list" where
  "status_rows [] = Inr []"
| "status_rows (Inl e # rows) = Inl (Wrapf ''scan branch status: '' e [])"
| "status_rows (Inr r # rows) = (case status_rows rows of Inl e \<Rightarrow> Inl e | Inr sts \<Rightarrow> Inr (branch_status r # sts))"

definition LoadAllBranchStatuses :: "goerr + (goerr + status_row) list \<times> goerr option \<Rightarrow> goerr + BranchStatus list" where
  "LoadAllBranchStatuses q =
     (case q of
        Inl e \<Rightarrow> Inl (Wrapf ''query branch statuses: '' e [])
      | Inr (rows, rows_err) \<Rightarrow>
        (case status_rows rows of
           Inl e \<Rightarrow> Inl e
         | Inr sts \<Rightarrow> (case rows_err of Some e \<Rightarrow> Inl e | None \<Rightarrow> Inr sts)))"

text \<open>\<open>probe\<close> is a GET on the base URL: no request, no answer, or an answer with some status.\<close>

definition CheckZATCAConnection ::
    "(string \<Rightarrow> goerr option) \<Rightarrow> (string \<Rightarrow> goerr + int) \<Rightarrow> (int \<Rightarrow> goerr + BranchZATCA) \<Rightarrow> config \<Rightarrow> BranchStatus \<Rightarrow> BranchStatus" where
  "CheckZATCAConnection new_request probe load baseCfg st =
     (if st_Status st = StatusNotRegistered then st
      else
        case load (st_BranchID st) of
          Inl e \<Rightarrow> st\<lparr>st_Status := StatusError, st_Message := ''Failed to load branch config: '' @ err_text e\<rparr>
        | Inr bz \<Rightarrow>
          (let url = BaseURL (cf_Env (ToConfig bz baseCfg)) in
           case new_request url of
             Some e \<Rightarrow> st\<lparr>st_Status := StatusError, st_Message := ''Failed to create request: '' @ err_text e\<rparr>
           | None \<Rightarrow>
             (case probe url of
                Inl e \<Rightarrow> st\<lparr>st_Status := StatusError, st_Message := ''ZATCA API unreachable: '' @ err_text e\<rparr>
              | Inr _ \<Rightarrow> st\<lparr>st_Status := StatusConnected, st_Message := ''ZATCA API reachable''\<rparr>)))"

section \<open>Properties\<close>

text \<open>The secrets of a branch survive the database.  What onboarding encrypts under the daemon's key is
  what the branch configuration holds after loading, the certificate handed to the SDK is the inner
  certificate of the stored token, and the branch counts as registered when both credentials are there.\<close>

theorem branch_secrets_roundtrip:
  assumes "NewKey text = Inr k" and "length n1 = nonceSize" and "length n2 = nonceSize"
    and "aead_ok seal open_it"
    and "Encrypt seal (Inr n1) k key_pem = Inr stored_key" and "Encrypt seal (Inr n2) k password = Inr stored_password"
    and "bz_PrivateKey row = stored_key" and "bz_ProductionPassword row = stored_password"
    and "bz_ProductionUsername row = b64_encode cert" and "cert \<noteq> []" and "password \<noteq> []" and "key_pem \<noteq> []"
  shows "\<exists>bz. LoadBranchZATCA (Decrypt open_it k) (Inr row) branch = Inr bz \<and> bz_PrivateKey bz = key_pem \<and>
    bz_ProductionPassword bz = password \<and> IsRegistered bz \<and> CertificatePEM bz = cert \<and>
    bs_credentials (NewService bz base) = Some (key_pem, cert) \<and>
    cf_ProductionPassword (bs_config (NewService bz base)) = password"
proof -
  have dec: "Decrypt open_it k c = Inr p" if "length n = nonceSize" "Encrypt seal (Inr n) k p = Inr c" for n p c
    using Decrypt_Encrypt [OF NewKey_size [OF assms(1)] that(1) assms(4), of p] that(2) by simp
  have "Decrypt open_it k stored_key = Inr key_pem" "Decrypt open_it k stored_password = Inr password"
    using dec [OF assms(2,5)] dec [OF assms(3,6)] by simp_all
  moreover have "b64_encode cert \<noteq> []"
    using assms(10) by (cases cert rule: b64_encode.cases) auto
  ultimately show ?thesis
    using assms(7-12)
    by (simp add: LoadBranchZATCA_def IsRegistered_def CertificatePEM_def NewService_def ToConfig_def)
qed

definition sample_branch :: "string \<Rightarrow> string \<Rightarrow> BranchZATCA" where
  "sample_branch key pass = \<lparr>bz_BranchID = 7, bz_StoreID = 1, bz_CompanyName = ''Acme'', bz_CompanyNameAR = ''Acme'',
     bz_VATReg = ''300000000000003'', bz_CRN = [], bz_BranchName = ''Main'', bz_Street = [], bz_Building = [], bz_District = [], bz_City = [],
     bz_PostalCode = [], bz_Country = ''SA'', bz_ProductionUsername = b64_encode ''MIID'', bz_ProductionPassword = pass,
     bz_PrivateKey = key, bz_Certificate = [], bz_EGSID = ''egs-7''\<rparr>"

definition sample_sealed :: "string \<Rightarrow> string \<Rightarrow> string" where
  "sample_sealed n p = enc_prefix @ b64_encode (n @ toy_seal sample_key_bytes n p)"

theorem branch_secrets_roundtrip_witness:
  "\<exists>bz. LoadBranchZATCA (Decrypt toy_open \<lparr>key_raw = sample_key_bytes\<rparr>)
       (Inr (sample_branch (sample_sealed ''nonce-of-12b'' ''pem'') (sample_sealed ''other-nonce1'' ''secret''))) 7 = Inr bz \<and>
     bz_PrivateKey bz = ''pem'' \<and> bz_ProductionPassword bz = ''secret'' \<and> CertificatePEM bz = ''MIID''"
proof -
  have enc: "Encrypt toy_seal (Inr n) \<lparr>key_raw = sample_key_bytes\<rparr> p = Inr (sample_sealed n p)" if "p \<noteq> []" for n p
    using that by (simp add: Encrypt_def new_cipher_def sample_key_bytes_def sample_sealed_def)
  have "length ''nonce-of-12b'' = nonceSize" "length ''other-nonce1'' = nonceSize"
    by (simp_all add: nonceSize_def)
  note run = branch_secrets_roundtrip [OF sample_key this toy_ok enc enc,
      of "''pem''" "''secret''" "sample_branch (sample_sealed ''nonce-of-12b'' ''pem'') (sample_sealed ''other-nonce1'' ''secret'')"
        "''MIID''" 7]
  show ?thesis
    using run by (simp add: sample_branch_def del: b64_encode.simps) blast
qed

text \<open>A probe that gets any answer, whatever its status, counts as connected: the branch's credentials are
  never sent.\<close>

lemma connection_ignores_credentials:
  assumes "st_Status st \<noteq> StatusNotRegistered" and "load (st_BranchID st) = Inr bz"
    and "\<And>u. new_request u = None" and "\<And>u. probe u = Inr status"
  shows "st_Status (CheckZATCAConnection new_request probe load base st) = StatusConnected"
  using assms by (simp add: CheckZATCAConnection_def Let_def)

end
