(* ===== verification/Schema_Preflight.thy ===== *)
theory Schema_Preflight
  imports Go_Prelude "HOL-Library.List_Lexorder" "HOL-Library.Char_ord"
begin

text \<open>
  The schema check of \<open>queue/preflight.go\<close>: the columns the daemon's SQL relies on, the query that
  looks for them in \<open>information_schema\<close>, and the report of the missing ones.
\<close>

record schemaRequirement =
  rq_table :: string
  rq_columns :: "string list"

definition runtimeSchema :: "schemaRequirement list" where
  "runtimeSchema =
     [\<lparr>rq_table = ''branch_zatca_config'',
       rq_columns = [''branch_id'', ''last_icv'', ''previous_invoice_hash'', ''icv_reservation_key'',
         ''icv_reservation_token'', ''reserved_icv'', ''reservation_lease_expires_at'']\<rparr>,
      \<lparr>rq_table = ''bill'',
       rq_columns = [''id'', ''branch_id'', ''state'', ''invoice_uuid'', ''invoice_hash'', ''qr_code'']\<rparr>,
      \<lparr>rq_table = ''zatca_submission'',
       rq_columns = [''bill_id'', ''branch_id'', ''status'', ''outcome_state'', ''invoice_icv'',
         ''previous_invoice_hash'', ''invoice_uuid'', ''invoice_hash'', ''invoice_kind'', ''signed_xml'',
         ''provider_code'', ''rejection_code'', ''rejection_msg'', ''provider_warning_message'',
         ''submitted_at'', ''outcome_at'']\<rparr>,
      \<lparr>rq_table = ''zatca_submission_outcome'',
       rq_columns = [''submission_id'', ''outcome_state'', ''provider_code'',
         ''provider_warning_message'', ''observed_at'']\<rparr>,
      \<lparr>rq_table = ''zatca_consumer_claim'',
       rq_columns = [''pos_id'', ''bill_request_id'', ''event_id'', ''egs_sequence_id'', ''fingerprint'',
         ''state'', ''lease_expires_at'', ''completed_at'']\<rparr>]"

definition SchemaError :: "string list \<Rightarrow> goerr" where
  "SchemaError missing = Wrapf [] (Sentinel ErrTenantSchemaNotReady) ('': missing '' @ join_with '', '' missing)"

definition not_ready :: "string \<Rightarrow> goerr \<Rightarrow> goerr" where
  "not_ready what e = Wrapf [] (Sentinel ErrTenantSchemaNotReady) ('': '' @ what @ '': '' @ err_text e)"

text \<open>The text of the query and its arguments.\<close>

definition placeholders :: "nat \<Rightarrow> string" where
  "placeholders n = rev (dropWhile (\<lambda>c. c = CHR '','') (rev (concat (replicate n ''?,''))))"

definition schema_clause :: "schemaRequirement \<Rightarrow> string" where
  "schema_clause rq = ''(table_name = ? AND column_name IN ('' @ placeholders (length (rq_columns rq)) @ ''))''"

definition schema_query :: "schemaRequirement list \<Rightarrow> string" where
  "schema_query rqs = join_with '' OR '' (map schema_clause rqs)"

definition schema_args :: "schemaRequirement list \<Rightarrow> string list" where
  "schema_args rqs = concat (map (\<lambda>rq. rq_table rq # rq_columns rq) rqs)"

text \<open>
  The rows the query returns: those of the schema that some clause selects.  What can fail is the
  query, the scan of a row, and the end of the result.
\<close>

record preflight_env =
  pf_query :: "goerr option"
  pf_scan :: "nat \<Rightarrow> goerr option"
  pf_rows :: "goerr option"

definition selects :: "schemaRequirement list \<Rightarrow> string \<times> string \<Rightarrow> bool" where
  "selects rqs row \<longleftrightarrow> list_ex (\<lambda>rq. fst row = rq_table rq \<and> snd row \<in> set (rq_columns rq)) rqs"

type_synonym found_map = "string \<Rightarrow> (string \<Rightarrow> bool) option"

definition is_found :: "found_map \<Rightarrow> string \<Rightarrow> string \<Rightarrow> bool" where
  "is_found found table column = (case found table of Some cols \<Rightarrow> cols column | None \<Rightarrow> False)"

fun scan_rows :: "preflight_env \<Rightarrow> nat \<Rightarrow> (string \<times> string) list \<Rightarrow> found_map \<Rightarrow> goerr + found_map" where
  "scan_rows env n [] found = Inr found"
| "scan_rows env n ((table, column) # rows) found =
     (case pf_scan env n of
        Some e \<Rightarrow> Inl e
      | None \<Rightarrow>
          let cols = (case found table of Some c \<Rightarrow> c | None \<Rightarrow> (\<lambda>_. False)) in
          scan_rows env (Suc n) rows (found(table \<mapsto> cols(column := True))))"

definition missing_columns :: "schemaRequirement list \<Rightarrow> found_map \<Rightarrow> string list" where
  "missing_columns rqs found =
     concat (map (\<lambda>rq. map (\<lambda>c. rq_table rq @ ''.'' @ c)
       (filter (\<lambda>c. \<not> is_found found (rq_table rq) c) (rq_columns rq))) rqs)"

definition Preflight :: "preflight_env \<Rightarrow> (string \<times> string) list option \<Rightarrow> goerr option" where
  "Preflight env db =
     (case db of
        None \<Rightarrow> Some (Wrapf [] (Sentinel ErrTenantSchemaNotReady) '': database is not configured'')
      | Some schema \<Rightarrow>
        (case pf_query env of
           Some e \<Rightarrow> Some (not_ready ''inspect tenant schema'' e)
         | None \<Rightarrow>
           (case scan_rows env 0 (filter (selects runtimeSchema) schema) (\<lambda>_. None) of
              Inl e \<Rightarrow> Some (not_ready ''scan tenant schema'' e)
            | Inr found \<Rightarrow>
              (case pf_rows env of
                 Some e \<Rightarrow> Some (not_ready ''read tenant schema'' e)
               | None \<Rightarrow>
                   (let missing = missing_columns runtimeSchema found in
                    if missing \<noteq> [] then Some (SchemaError (sort missing)) else None)))))"

text \<open>\<open>SQLChain.Preflight\<close>; a nil chain is \<open>None\<close>.\<close>

definition chain_Preflight :: "preflight_env \<Rightarrow> (string \<times> string) list option option \<Rightarrow> goerr option" where
  "chain_Preflight env c =
     (case c of
        None \<Rightarrow> Some (Wrapf [] (Sentinel ErrTenantSchemaNotReady) '': SQLChain is not configured'')
      | Some db \<Rightarrow> Preflight env db)"

section \<open>What the check reports\<close>

definition required :: "schemaRequirement list \<Rightarrow> (string \<times> string) list" where
  "required rqs = concat (map (\<lambda>rq. map (\<lambda>c. (rq_table rq, c)) (rq_columns rq)) rqs)"

definition dotted :: "string \<times> string \<Rightarrow> string" where
  "dotted p = fst p @ ''.'' @ snd p"

lemma scan_rows_found:
  assumes "\<And>n. pf_scan env n = None"
  shows "\<exists>g. scan_rows env n rows f = Inr g \<and> (\<forall>t c. is_found g t c \<longleftrightarrow> is_found f t c \<or> (t, c) \<in> set rows)"
proof (induction rows arbitrary: n f)
  case (Cons row rows)
  obtain t0 c0 where row: "row = (t0, c0)" by (cases row)
  let ?f = "f(t0 \<mapsto> (case f t0 of Some c \<Rightarrow> c | None \<Rightarrow> (\<lambda>_. False))(c0 := True))"
  have step: "is_found ?f t c \<longleftrightarrow> is_found f t c \<or> (t, c) = (t0, c0)" for t c
    by (auto simp: is_found_def split: option.split)
  obtain g where g: "scan_rows env (Suc n) rows ?f = Inr g"
    "\<forall>t c. is_found g t c \<longleftrightarrow> is_found ?f t c \<or> (t, c) \<in> set rows"
    using Cons.IH [of "Suc n" ?f] by blast
  have "scan_rows env n (row # rows) f = Inr g"
    using g(1) assms row by (simp add: Let_def)
  moreover have "\<forall>t c. is_found g t c \<longleftrightarrow> is_found f t c \<or> (t, c) \<in> set (row # rows)"
    using g(2) step row by auto
  ultimately show ?case by blast
qed simp

lemma missing_columns_alt:
  "missing_columns rqs found = map dotted (filter (\<lambda>p. \<not> is_found found (fst p) (snd p)) (required rqs))"
  by (induction rqs) (auto simp: missing_columns_def required_def filter_map comp_def dotted_def)

lemma selects_required: "selects rqs p \<longleftrightarrow> p \<in> set (required rqs)"
  by (cases p) (auto simp: selects_def required_def list_ex_iff)

lemma required_distinct: "distinct (map dotted (required runtimeSchema))"
  by (simp add: required_def runtimeSchema_def dotted_def)

lemma preflight_result:
  assumes "pf_query env = None" and "\<And>n. pf_scan env n = None" and "pf_rows env = None"
  shows "Preflight env (Some schema) =
    (let missing = map dotted (filter (\<lambda>p. p \<notin> set schema) (required runtimeSchema)) in
     if missing = [] then None else Some (SchemaError (sort missing)))"
proof -
  obtain g where g: "scan_rows env 0 (filter (selects runtimeSchema) schema) (\<lambda>_. None) = Inr g"
    "\<forall>t c. is_found g t c \<longleftrightarrow> (t, c) \<in> set schema \<and> selects runtimeSchema (t, c)"
    using scan_rows_found [OF assms(2), of 0 "filter (selects runtimeSchema) schema" "\<lambda>_. None"]
    by (auto simp: is_found_def)
  have "filter (\<lambda>p. \<not> is_found g (fst p) (snd p)) (required runtimeSchema) =
      filter (\<lambda>p. p \<notin> set schema) (required runtimeSchema)"
    using g(2) by (intro filter_cong) (auto simp: selects_required)
  then show ?thesis
    using g(1) assms by (simp add: Preflight_def Let_def missing_columns_alt)
qed

text \<open>With a schema that can be read, the check passes exactly when every required column is there,
  and otherwise its error lists exactly the missing ones, each once and in order.\<close>

theorem preflight_exact:
  assumes "pf_query env = None" and "\<And>n. pf_scan env n = None" and "pf_rows env = None"
  shows "if set (required runtimeSchema) \<subseteq> set schema then Preflight env (Some schema) = None
    else \<exists>missing. Preflight env (Some schema) = Some (SchemaError missing) \<and> sorted missing \<and>
      distinct missing \<and> set missing = dotted ` (set (required runtimeSchema) - set schema)"
proof -
  let ?missing = "map dotted (filter (\<lambda>p. p \<notin> set schema) (required runtimeSchema))"
  have result: "Preflight env (Some schema) = (if ?missing = [] then None else Some (SchemaError (sort ?missing)))"
    using preflight_result [OF assms, of schema] by (simp only: Let_def)
  have all: "?missing = [] \<longleftrightarrow> set (required runtimeSchema) \<subseteq> set schema"
    by (auto simp: filter_empty_conv)
  have distinct: "distinct (sort ?missing)"
    using required_distinct by (auto simp: distinct_map_filter)
  have same: "set (sort ?missing) = dotted ` (set (required runtimeSchema) - set schema)"
    by auto
  show ?thesis
  proof (cases "?missing = []")
    case True
    then show ?thesis
      using all result by (simp only: if_True)
  next
    case False
    then have "Preflight env (Some schema) = Some (SchemaError (sort ?missing)) \<and> sorted (sort ?missing) \<and>
        distinct (sort ?missing) \<and> set (sort ?missing) = dotted ` (set (required runtimeSchema) - set schema)"
      using result distinct same by simp
    then show ?thesis
      using False all by (simp only: if_False) blast
  qed
qed

definition calm_preflight :: preflight_env where
  "calm_preflight = \<lparr>pf_query = None, pf_scan = (\<lambda>_. None), pf_rows = None\<rparr>"

text \<open>The check passes on a schema whose submission table has no \<open>id\<close> column, which \<open>Record\<close>
  reads.\<close>

theorem preflight_misses_submission_id:
  "(''zatca_submission'', ''id'') \<notin> set (required runtimeSchema) \<and>
   Preflight calm_preflight (Some (required runtimeSchema)) = None"
  by (simp add: preflight_result calm_preflight_def) (simp add: required_def runtimeSchema_def)

theorem preflight_exact_witness:
  "\<exists>missing. Preflight calm_preflight (Some (tl (required runtimeSchema))) = Some (SchemaError missing) \<and>
     set missing = {''branch_zatca_config.branch_id''}"
  using preflight_exact [of calm_preflight "tl (required runtimeSchema)"]
  by (auto simp: calm_preflight_def required_def runtimeSchema_def insert_Diff_if dotted_def)

text \<open>Every failure of the check is reported as a schema that is not ready.\<close>

lemma preflight_error: "chain_Preflight env c = Some e \<Longrightarrow> is_err e ErrTenantSchemaNotReady"
  by (auto simp: chain_Preflight_def Preflight_def SchemaError_def not_ready_def Let_def
      split: option.splits sum.splits if_splits)

text \<open>The query has as many placeholders as arguments.\<close>

lemma placeholders_count: "count_list (placeholders n) (CHR ''?'') = n"
proof -
  have "count_list (dropWhile (\<lambda>c. c = CHR '','') xs) (CHR ''?'') = count_list xs (CHR ''?'')" for xs
    by (induction xs) auto
  moreover have "count_list (concat (replicate n ''?,'')) (CHR ''?'') = n"
    by (induction n) auto
  ultimately show ?thesis
    by (simp add: placeholders_def)
qed

lemma count_join:
  "c \<notin> set sep \<Longrightarrow> count_list (join_with sep xs) c = sum_list (map (\<lambda>x. count_list x c) xs)"
  by (induction sep xs rule: join_with.induct) auto

lemma schema_query_args: "count_list (schema_query rqs) (CHR ''?'') = length (schema_args rqs)"
  by (simp add: schema_query_def count_join) (induction rqs; simp add: schema_clause_def schema_args_def placeholders_count)

end
