(* ===== verification/Bill_Processor.thy ===== *)
theory Bill_Processor
  imports Ordered_Stream Api_Client Invoice_Model
begin

text \<open>
  The fiscal pipeline of a sale: \<open>processor/bill.go\<close>, \<open>processor/types.go\<close> and \<open>processor/query.go\<close>.
  The rows of a query, the signing SDK (a container), the XML writer, the layouts of \<open>time.Parse\<close>
  and the decoder of the SDK's answer are arguments.  A nullable column is an option.
\<close>

section \<open>Rows\<close>

record 'f product_row =
  pr_ProductID :: "int option"
  pr_Name :: "string option"
  pr_Price :: "'f option"
  pr_Quantity :: "'f option"
  pr_VAT :: "'f option"
  pr_Discount :: "'f option"
  pr_TotalBeforeVAT :: "'f option"
  pr_VATTotal :: "'f option"
  pr_TotalIncludingVAT :: "'f option"

definition PriceOrZero :: "'f flops \<Rightarrow> 'f product_row \<Rightarrow> 'f" where
  "PriceOrZero F p = (case pr_Price p of Some v \<Rightarrow> v | None \<Rightarrow> fl_int F 0)"

definition QuantityOrZero :: "'f flops \<Rightarrow> 'f product_row \<Rightarrow> 'f" where
  "QuantityOrZero F p = (case pr_Quantity p of Some v \<Rightarrow> v | None \<Rightarrow> fl_int F 1)"

definition VATOrZero :: "'f flops \<Rightarrow> 'f product_row \<Rightarrow> 'f" where
  "VATOrZero F p = (case pr_VAT p of Some v \<Rightarrow> v | None \<Rightarrow> fl_int F 15)"

record bill_row =
  br_ID :: int
  br_BranchID :: int
  br_CompanyID :: int
  br_URL :: "string option"
  br_EffectiveDate :: "string option"
  br_PaymentDue :: "string option"
  br_SeqNumber :: "string option"
  br_PaymentMethod :: "string option"
  br_UserName :: "string option"
  br_CompanyName :: "string option"
  br_VATReg :: "string option"
  br_AddressName :: "string option"
  br_BuyerName :: "string option"
  br_BuyerCompany :: "string option"
  br_BuyerVAT :: "string option"
  br_BuyerAddress :: "string option"
  br_BuyerStreet :: "string option"
  br_BuyerBuilding :: "string option"
  br_BuyerDistrict :: "string option"
  br_BuyerCity :: "string option"
  br_BuyerPostalCode :: "string option"
  br_BuyerCountry :: "string option"
  br_BuyerSchemeID :: "string option"
  br_BuyerRegistration :: "string option"
  br_State :: int
  br_InvoiceUUID :: "string option"

text \<open>
  The answer of a query: an error, or the rows (each scanned or failing) and the error at their
  end.  The scan of a bill leaves its URL, state and UUID in variables of their own.
\<close>

type_synonym 'a rows = "goerr + (goerr + 'a) list \<times> goerr option"

fun scan_rows_in_order :: "(goerr + 'a) list \<Rightarrow> goerr + 'a list" where
  "scan_rows_in_order [] = Inr []"
| "scan_rows_in_order (Inl e # rest) = Inl e"
| "scan_rows_in_order (Inr x # rest) =
     (case scan_rows_in_order rest of Inl e \<Rightarrow> Inl e | Inr xs \<Rightarrow> Inr (x # xs))"

definition read_rows :: "'a rows \<Rightarrow> goerr + 'a list" where
  "read_rows q =
     (case q of
        Inl e \<Rightarrow> Inl e
      | Inr (rows, rows_err) \<Rightarrow>
        (case scan_rows_in_order rows of
           Inl e \<Rightarrow> Inl e
         | Inr xs \<Rightarrow> (case rows_err of Some e \<Rightarrow> Inl e | None \<Rightarrow> Inr xs)))"

definition LoadProducts :: "(int \<Rightarrow> 'f product_row rows) \<Rightarrow> int \<Rightarrow> goerr + 'f product_row list" where
  "LoadProducts query billID = read_rows (query billID)"

definition QueryActiveBranches :: "int rows \<Rightarrow> goerr + int list" where
  "QueryActiveBranches query = read_rows query"

definition QueryBillByID ::
    "(int \<Rightarrow> goerr + bill_row \<times> string option \<times> int option \<times> string option) \<Rightarrow> int \<Rightarrow> goerr + bill_row" where
  "QueryBillByID query billID =
     (case query billID of
        Inl e \<Rightarrow> Inl (Wrapf (''query bill '' @ show_int billID @ '': '') e [])
      | Inr (b, url, state, invoiceUUID) \<Rightarrow>
          Inr (b\<lparr>br_URL := url, br_State := (case state of Some s \<Rightarrow> s | None \<Rightarrow> 0), br_InvoiceUUID := invoiceUUID\<rparr>))"

section \<open>Dates\<close>

definition layout_RFC3339 :: string where
  "layout_RFC3339 = ''2006-01-02T15:04:05Z07:00''"

definition ParseFlexible :: "(string \<Rightarrow> string \<Rightarrow> time option) \<Rightarrow> string \<Rightarrow> goerr + time" where
  "ParseFlexible parse s =
     (case parse layout_RFC3339 s of
        Some t \<Rightarrow> Inr t
      | None \<Rightarrow>
        (case parse ''2006-01-02 15:04:05'' s of
           Some t \<Rightarrow> Inr t
         | None \<Rightarrow>
           (case parse ''2006-01-02'' s of
              Some t \<Rightarrow> Inr t
            | None \<Rightarrow> Inl (NewError (''unsupported date format: '' @ s)))))"

definition ParseDates ::
    "(string \<Rightarrow> string \<Rightarrow> time option) \<Rightarrow> time \<Rightarrow> string option \<Rightarrow> string option \<Rightarrow> int \<Rightarrow> goerr + time" where
  "ParseDates parse now effDate payDue bid =
     (case effDate of
        None \<Rightarrow> Inr now
      | Some eff \<Rightarrow>
        (case ParseFlexible parse eff of
           Inl e \<Rightarrow> Inl (Wrapf (''parse effective_date for bill '' @ show_int bid @ '': '') e [])
         | Inr t \<Rightarrow>
           (case payDue of
              None \<Rightarrow> Inr t
            | Some due \<Rightarrow>
              (case ParseFlexible parse due of
                 Inl e \<Rightarrow> Inl (Wrapf (''parse payment_due_date for bill '' @ show_int bid @ '': '') e [])
               | Inr _ \<Rightarrow> Inr t))))"

section \<open>Verification of a bill\<close>

definition finalizedInvoiceID :: "bill_row \<Rightarrow> string" where
  "finalizedInvoiceID b =
     (case br_SeqNumber b of
        None \<Rightarrow> []
      | Some s \<Rightarrow>
        (case parse_uint64 (trim_space s) of
           None \<Rightarrow> []
         | Some v \<Rightarrow> if v = 0 then [] else ''INV-'' @ show_nat (unat v)))"

fun verify_lines :: "'f flops \<Rightarrow> nat \<Rightarrow> 'f product_row list \<Rightarrow> goerr option" where
  "verify_lines F i [] = None"
| "verify_lines F i (p # ps) =
     (if fl_le F (QuantityOrZero F p) (fl_int F 0) then
        Some (NewError (''line '' @ show_nat (i + 1) @ '' has no positive quantity''))
      else if fl_lt F (PriceOrZero F p) (fl_int F 0) then
        Some (NewError (''line '' @ show_nat (i + 1) @ '' has a negative price''))
      else verify_lines F (i + 1) ps)"

definition verifyBill ::
    "'f flops \<Rightarrow> config \<Rightarrow> message \<Rightarrow> bill_row \<Rightarrow> 'f product_row list \<Rightarrow> goerr option" where
  "verifyBill F cfg msg bill products =
     (if br_BranchID bill \<noteq> m_BranchID msg then
        Some (NewError (''the bill belongs to branch '' @ show_int (br_BranchID bill) @ '', not '' @ show_int (m_BranchID msg)))
      else if br_State bill < 1 then
        Some (NewError (''the bill is not a final sale (state '' @ show_int (br_State bill) @ '')''))
      else if finalizedInvoiceID bill = [] then
        Some (NewError ''the bill has no finalized invoice sequence'')
      else if br_InvoiceUUID bill \<noteq> None \<and> br_InvoiceUUID bill \<noteq> Some (m_InvoiceUUID msg) then
        Some (NewError ''the bill carries another invoice UUID'')
      else if sl_VAT (cf_Seller cfg) = [] then Some (NewError ''the branch has no seller VAT number'')
      else if cf_EGSID cfg = [] then Some (NewError ''the branch has no EGS id: onboard the branch first'')
      else if products = [] then Some (NewError ''the bill has no lines'')
      else verify_lines F 0 products)"

section \<open>The invoice of a bill\<close>

definition paymentMeans :: "bill_row \<Rightarrow> string" where
  "paymentMeans b = (case br_PaymentMethod b of Some m \<Rightarrow> if m \<noteq> [] then m else PaymentCash | None \<Rightarrow> PaymentCash)"

text \<open>A column that is present and not empty replaces the value.\<close>

definition given :: "string option \<Rightarrow> string \<Rightarrow> string" where
  "given col v = (case col of Some s \<Rightarrow> if s \<noteq> [] then s else v | None \<Rightarrow> v)"

definition buildCustomer :: "bill_row \<Rightarrow> bool \<Rightarrow> party" where
  "buildCustomer b isStandard =
     (let customer = no_party\<lparr>pt_RegistrationName := (case br_UserName b of Some n \<Rightarrow> n | None \<Rightarrow> ''Customer''),
            pt_Country := ''SA''\<rparr>
      in if isStandard then
           customer\<lparr>pt_VAT := (case br_BuyerVAT b of Some v \<Rightarrow> v | None \<Rightarrow> []),
             pt_RegistrationName := given (br_BuyerCompany b) (given (br_BuyerName b) (pt_RegistrationName customer)),
             pt_Street := given (br_BuyerStreet b) (given (br_BuyerAddress b) []),
             pt_Building := given (br_BuyerBuilding b) [], pt_District := given (br_BuyerDistrict b) [],
             pt_City := given (br_BuyerCity b) [], pt_PostalCode := given (br_BuyerPostalCode b) [],
             pt_Country := given (br_BuyerCountry b) ''SA'', pt_SchemeID := given (br_BuyerSchemeID b) [],
             pt_ID := given (br_BuyerRegistration b) []\<rparr>
         else customer)"

definition buildLine :: "'f flops \<Rightarrow> nat \<Rightarrow> 'f product_row \<Rightarrow> 'f line_item" where
  "buildLine F i p =
     \<lparr>li_ID = show_nat (i + 1),
      li_Name = given (pr_Name p) (case pr_ProductID p of Some n \<Rightarrow> ''product-'' @ show_int n | None \<Rightarrow> ''product''),
      li_Quantity = QuantityOrZero F p, li_UnitCode = ''PCE'', li_UnitPrice = PriceOrZero F p, li_Discount = fl_int F 0,
      li_TaxCategory = TaxStandard, li_TaxPercent = VATOrZero F p\<rparr>"

definition buildLines :: "'f flops \<Rightarrow> 'f product_row list \<Rightarrow> 'f line_item list" where
  "buildLines F products = map (\<lambda>(i, p). buildLine F i p) (enumerate 0 products)"

text \<open>\<open>int(booking.ICV)\<close> reads the 64 bits as a signed number.\<close>

definition buildBillInvoice ::
    "'f flops \<Rightarrow> config \<Rightarrow> bill_row \<Rightarrow> 'f product_row list \<Rightarrow> time \<Rightarrow> booking \<Rightarrow> 'f invoice" where
  "buildBillInvoice F cfg b products issueTime bk =
     (let isStandard = (case br_BuyerVAT b of Some v \<Rightarrow> v \<noteq> [] | None \<Rightarrow> False); seller = cf_Seller cfg in
      \<lparr>in_ID = finalizedInvoiceID b, in_UUID = b_UUID bk, in_IssueDate = issueTime, in_IssueTime = issueTime,
       in_TypeCode = TypeInvoice, in_SubType = (if isStandard then SubTypeStandard else SubTypeSimplified),
       in_DocumentCurrency = ''SAR'', in_TaxCurrency = ''SAR'', in_Note = [], in_NoteLang = [],
       in_Supplier = \<lparr>pt_RegistrationName = sl_Name seller, pt_RegistrationNameAR = sl_NameAR seller, pt_VAT = sl_VAT seller,
         pt_SchemeID = sl_CRN seller, pt_ID = sl_CRN seller, pt_Street = sl_Street seller, pt_Building = sl_Building seller,
         pt_District = sl_District seller, pt_City = sl_City seller, pt_PostalCode = sl_PostalCode seller,
         pt_Country = sl_Country seller\<rparr>,
       in_Customer = buildCustomer b isStandard, in_DeliveryDate = None, in_PaymentMeans = paymentMeans b,
       in_InstructionNote = [], in_BillingReferenceID = [], in_Discount = fl_int F 0, in_DiscountTax = [],
       in_DiscountTaxPercent = fl_int F 0, in_Lines = buildLines F products, in_PreviousInvoiceHash = b_PIH bk,
       in_InvoiceCounterValue = sint (b_ICV bk), in_ProfileID = []\<rparr>)"

section \<open>Services\<close>

text \<open>
  What the pipeline uses of \<open>zatca.Service\<close>: the container's commands, the decoder of the request it
  generates, and the API client with its configuration.
\<close>

record service =
  sv_sign :: "string \<Rightarrow> goerr + string \<times> string"
  sv_api :: "string \<Rightarrow> goerr + string"
  sv_qr :: "string \<Rightarrow> goerr + string"
  sv_request :: "string \<Rightarrow> goerr + InvoiceRequest"
  sv_http :: http_env
  sv_config :: config

definition apiRequest :: "service \<Rightarrow> string \<Rightarrow> goerr + InvoiceRequest" where
  "apiRequest svc signedXML =
     (case sv_api svc signedXML of
        Inl e \<Rightarrow> Inl (Wrapf ''generate API request: '' e [])
      | Inr json \<Rightarrow>
        (case sv_request svc json of
           Inl e \<Rightarrow> Inl (Wrapf ''parse API request: '' e [])
         | Inr req \<Rightarrow> Inr req))"

record 'f bill_document =
  bd_svc :: service
  bd_cfg :: config
  bd_bill :: bill_row
  bd_products :: "'f product_row list"
  bd_issueTime :: time

text \<open>The pipeline: the branch services and what the tenant's database answers.\<close>

record 'f bill_pipeline =
  bp_Service :: "int \<Rightarrow> goerr + service \<times> config"
  bp_bill :: "int \<Rightarrow> goerr + bill_row \<times> string option \<times> int option \<times> string option"
  bp_products :: "int \<Rightarrow> 'f product_row rows"

definition rejected_input :: "string \<Rightarrow> goerr" where
  "rejected_input t = Wrapf [] (Sentinel ErrRejectedInput) t"

definition Prepare ::
    "'f flops \<Rightarrow> (string \<Rightarrow> string \<Rightarrow> time option) \<Rightarrow> time \<Rightarrow> 'f bill_pipeline \<Rightarrow> message \<Rightarrow> goerr + 'f bill_document" where
  "Prepare F parse now p msg =
     (case bp_Service p (m_BranchID msg) of
        Inl e \<Rightarrow> Inl e
      | Inr (svc, cfg) \<Rightarrow>
        (case QueryBillByID (bp_bill p) (m_ID msg) of
           Inl e \<Rightarrow>
             (if is_err e ErrNoRows
              then Inl (rejected_input ('': bill '' @ show_int (m_ID msg) @ '' does not exist'')) else Inl e)
         | Inr bill \<Rightarrow>
           (case LoadProducts (bp_products p) (m_ID msg) of
              Inl e \<Rightarrow> Inl (Wrapf (''load products failed for bill '' @ show_int (m_ID msg) @ '': '') e [])
            | Inr products \<Rightarrow>
              (case verifyBill F cfg msg bill products of
                 Some e \<Rightarrow> Inl (rejected_input ('': bill '' @ show_int (m_ID msg) @ '': '' @ err_text e))
               | None \<Rightarrow>
                 (case ParseDates parse now (br_EffectiveDate bill) (br_PaymentDue bill) (br_ID bill) of
                    Inl e \<Rightarrow> Inl (rejected_input ('': bill '' @ show_int (m_ID msg) @ '': '' @ err_text e))
                  | Inr t \<Rightarrow>
                      Inr \<lparr>bd_svc = svc, bd_cfg = cfg, bd_bill = bill, bd_products = products, bd_issueTime = t\<rparr>)))))"

text \<open>\<open>to_xml\<close> is \<open>Invoice.ToXML\<close>.\<close>

definition Build ::
    "'f flops \<Rightarrow> ('f invoice \<Rightarrow> goerr + string) \<Rightarrow> 'f bill_document \<Rightarrow> booking \<Rightarrow> goerr + signed_invoice" where
  "Build F to_xml d bk =
     (let bid = show_int (br_ID (bd_bill d));
          i = buildBillInvoice F (bd_cfg d) (bd_bill d) (bd_products d) (bd_issueTime d) bk in
      case to_xml i of
        Inl e \<Rightarrow> Inl (Wrapf (''build XML of bill '' @ bid @ '': '') e [])
      | Inr xmlStr \<Rightarrow>
        (case sv_sign (bd_svc d) xmlStr of
           Inl e \<Rightarrow> Inl (Wrapf (''sign bill '' @ bid @ '': '') e [])
         | Inr (signedXML, hash) \<Rightarrow>
           (case apiRequest (bd_svc d) signedXML of
              Inl e \<Rightarrow> Inl e
            | Inr req \<Rightarrow>
              (if iq_UUID req \<noteq> b_UUID bk then
                 Inl (NewError (''signed bill '' @ bid @ '' carries UUID '' @ iq_UUID req @ '', not the booked '' @ b_UUID bk))
               else
                 let invoiceHash = (if iq_InvoiceHash req = [] then hash else iq_InvoiceHash req) in
                 if invoiceHash = [] then Inl (NewError (''signed bill '' @ bid @ '' has no invoice hash''))
                 else
                   case sv_qr (bd_svc d) signedXML of
                     Inl e \<Rightarrow> Inl (Wrapf (''QR code of bill '' @ bid @ '': '') e [])
                   | Inr qr \<Rightarrow>
                       Inr \<lparr>i_SourceID = br_ID (bd_bill d), i_BranchID = b_BranchID bk, i_UUID = b_UUID bk, i_ICV = b_ICV bk,
                         i_PIH = b_PIH bk, i_Hash = invoiceHash,
                         i_Kind = (if IsStandard i then InvoiceStandard else InvoiceSimplified), i_SignedXML = signedXML,
                         i_QR = qr, i_Outcome = [], i_OutcomeEvidence = EvidenceUnspecified, i_EvidenceID = [],
                         i_ProviderCode = [], i_OutcomeMessage = []\<rparr>))))"

section \<open>The outcome of a submission\<close>

definition joinTexts :: "('a \<Rightarrow> string) \<Rightarrow> 'a list \<Rightarrow> string" where
  "joinTexts text items = join_with ''; '' (map text items)"

definition errorText :: "ErrorDetail list \<Rightarrow> string" where
  "errorText errs = joinTexts ed_Message errs"

definition validationText :: "ValidationMessage list \<Rightarrow> string" where
  "validationText messages = joinTexts vm_Message messages"

definition successStatus :: "string \<Rightarrow> string" where
  "successStatus kind =
     (if kind = InvoiceStandard then ''CLEARED'' else if kind = InvoiceSimplified then ''REPORTED'' else [])"

definition providerStatus :: "string \<Rightarrow> InvoiceResponse option \<Rightarrow> string" where
  "providerStatus kind resp =
     (case resp of
        None \<Rightarrow> []
      | Some r \<Rightarrow>
          (if kind = InvoiceStandard \<and> ir_ClearanceStatus r \<noteq> [] then ir_ClearanceStatus r
           else if kind = InvoiceSimplified \<and> ir_ReportingStatus r \<noteq> [] then ir_ReportingStatus r
           else ir_Status r))"

definition an_outcome :: "string \<Rightarrow> string \<Rightarrow> string \<Rightarrow> outcome" where
  "an_outcome state code message = \<lparr>oc_State = state, oc_ProviderCode = code, oc_Message = message,
     oc_Evidence = EvidenceUnspecified, oc_EvidenceID = []\<rparr>"

definition validation_list :: "(ValidationResults \<Rightarrow> ValidationMessage list) \<Rightarrow> InvoiceResponse \<Rightarrow> ValidationMessage list" where
  "validation_list f r = (case ir_ValidationResults r of None \<Rightarrow> [] | Some vr \<Rightarrow> f vr)"

definition responseOutcome :: "string \<Rightarrow> InvoiceResponse \<Rightarrow> outcome" where
  "responseOutcome kind r =
     (if ir_Errors r \<noteq> [] then
        an_outcome OutcomeRejected (ed_Code (hd (ir_Errors r)))
          (if errorText (ir_Errors r) = [] then ''provider returned top-level errors'' else errorText (ir_Errors r))
      else if validation_list vr_ErrorMessages r \<noteq> [] then
        an_outcome OutcomeRejected (vm_Code (hd (validation_list vr_ErrorMessages r)))
          (if validationText (validation_list vr_ErrorMessages r) = [] then ''provider returned validation errors''
           else validationText (validation_list vr_ErrorMessages r))
      else
        let want = successStatus kind in
        if want = [] then an_outcome OutcomeRejected (ir_Status r) (''unsupported invoice kind '' @ go_quote kind)
        else
          let status = providerStatus kind (Some r) in
          if status \<noteq> want then
            an_outcome OutcomeRejected status (''the answer status '' @ go_quote status @ '' is not '' @ want)
          else if ir_Warnings r \<noteq> [] then
            an_outcome OutcomeWarning (ed_Code (hd (ir_Warnings r))) (ed_Message (hd (ir_Warnings r)))
          else if validation_list vr_WarningMessages r \<noteq> [] then
            an_outcome OutcomeWarning (vm_Code (hd (validation_list vr_WarningMessages r)))
              (vm_Message (hd (validation_list vr_WarningMessages r)))
          else an_outcome OutcomeAccepted [] [])"

definition isInvoiceRejection :: "int \<Rightarrow> bool" where
  "isInvoiceRejection status =
     (if status = 401 \<or> status = 403 \<or> status = 408 \<or> status = 429 then False else status \<ge> 400 \<and> status < 500)"

definition no_outcome :: outcome where
  "no_outcome = an_outcome [] [] []"

definition ambiguous_answer :: "signed_invoice \<Rightarrow> APIError \<Rightarrow> string \<Rightarrow> outcome \<times> goerr option" where
  "ambiguous_answer i a what =
     (an_outcome OutcomeAmbiguous (show_int (ae_StatusCode a)) (ae_Body a),
      Some (Wrapf [] (Sentinel ErrOutcomeAmbiguous) ('': bill '' @ show_int (i_SourceID i) @ '' (invoice '' @ i_UUID i @
        ''): ZATCA already '' @ what @ '' this invoice, so the outcome needs reconciliation'')))"

definition accepting :: "string \<Rightarrow> bool" where
  "accepting state \<longleftrightarrow> state = OutcomeAccepted \<or> state = OutcomeWarning"

definition rejectionOutcome :: "signed_invoice \<Rightarrow> call_error \<Rightarrow> outcome \<times> goerr option" where
  "rejectionOutcome i err =
     (let technical = (no_outcome, Some (Wrapf ''submit invoice to ZATCA: '' (call_goerr err) [])) in
      case as_api_error err of
        None \<Rightarrow> technical
      | Some a \<Rightarrow>
          (let held = (if (ae_StatusCode a = 208 \<or> ae_StatusCode a = 409) \<and>
                           (i_Kind i = InvoiceStandard \<or> i_Kind i = InvoiceSimplified)
                       then map_option (responseOutcome (i_Kind i)) (ae_Response a) else None)
           in case held of
                Some oc \<Rightarrow>
                  if accepting (oc_State oc) then (oc, None)
                  else if ae_StatusCode a = 409 then ambiguous_answer i a ''holds'' else ambiguous_answer i a ''reported''
              | None \<Rightarrow>
                  if ae_StatusCode a = 409 then ambiguous_answer i a ''holds''
                  else if ae_StatusCode a = 208 then ambiguous_answer i a ''reported''
                  else if isInvoiceRejection (ae_StatusCode a) then
                    (an_outcome OutcomeRejected (show_int (ae_StatusCode a)) (ae_Body a), None)
                  else technical))"

text \<open>The client answers with a response whenever it gives no error, so the check for none has no branch here.\<close>

definition Submit :: "'f bill_pipeline \<Rightarrow> signed_invoice \<Rightarrow> outcome \<times> goerr option" where
  "Submit p i =
     (case invoice_Validate i of
        Some e \<Rightarrow> (no_outcome, Some (Wrapf (''cannot submit bill '' @ show_int (i_SourceID i) @ '': '') e []))
      | None \<Rightarrow>
        (case bp_Service p (i_BranchID i) of
           Inl e \<Rightarrow> (no_outcome, Some e)
         | Inr (svc, _) \<Rightarrow>
           (case apiRequest svc (i_SignedXML i) of
              Inl e \<Rightarrow> (no_outcome, Some e)
            | Inr req \<Rightarrow>
              (if iq_InvoiceHash req \<noteq> [] \<and> iq_InvoiceHash req \<noteq> i_Hash i then
                 (no_outcome, Some (NewError (''stored hash of bill '' @ show_int (i_SourceID i) @
                    '' does not match its signed XML'')))
               else
                 case (if i_Kind i = InvoiceStandard then ClearInvoice (sv_http svc) (sv_config svc) req
                       else ReportInvoice (sv_http svc) (sv_config svc) req) of
                   Inl e \<Rightarrow> rejectionOutcome i e
                 | Inr resp \<Rightarrow> (responseOutcome (i_Kind i) resp, None)))))"

section \<open>What the pipeline promises\<close>

lemma responseOutcome_states:
  "oc_State (responseOutcome kind r) \<in> {OutcomeRejected, OutcomeWarning, OutcomeAccepted}"
  "oc_Evidence (responseOutcome kind r) = EvidenceUnspecified"
  by (simp_all add: responseOutcome_def an_outcome_def Let_def)

lemma reject_not_accept: "\<not> accepting OutcomeRejected" "accepting OutcomeAccepted" "accepting OutcomeWarning"
  by (simp_all add: accepting_def outcome_defs)

text \<open>An answer of ZATCA accepts the invoice ieeely when it carries no top-level error, no validation
  error, and the success status of the invoice's kind: \<open>CLEARED\<close> for a standard invoice and
  \<open>REPORTED\<close> for a simplified one, where the status of the endpoint wins over the plain one.\<close>

theorem response_accepts_ieeely:
  "accepting (oc_State (responseOutcome kind r)) \<longleftrightarrow>
     ir_Errors r = [] \<and> validation_list vr_ErrorMessages r = [] \<and>
     (kind = InvoiceStandard \<and>
        (if ir_ClearanceStatus r = [] then ir_Status r else ir_ClearanceStatus r) = ''CLEARED'' \<or>
      kind = InvoiceSimplified \<and>
        (if ir_ReportingStatus r = [] then ir_Status r else ir_ReportingStatus r) = ''REPORTED'')"
  using reject_not_accept
  by (auto simp: responseOutcome_def Let_def an_outcome_def successStatus_def providerStatus_def
      InvoiceStandard_def InvoiceSimplified_def)

definition outcome_shape :: "outcome \<times> goerr option \<Rightarrow> bool" where
  "outcome_shape r \<longleftrightarrow>
     (case snd r of
        None \<Rightarrow> oc_State (fst r) \<in> {OutcomeAccepted, OutcomeWarning, OutcomeRejected}
      | Some e \<Rightarrow> fst r = no_outcome \<or> oc_State (fst r) = OutcomeAmbiguous \<and> is_err e ErrOutcomeAmbiguous)"

lemma outcome_shape_intros [simp]:
  "outcome_shape (no_outcome, Some e)" "outcome_shape (ambiguous_answer i a t)"
  "outcome_shape (an_outcome OutcomeRejected c m, None)" "outcome_shape (responseOutcome kind r, None)"
  using responseOutcome_states(1) [of kind r]
  by (auto simp: outcome_shape_def ambiguous_answer_def an_outcome_def)

lemma rejectionOutcome_shape [simp]: "outcome_shape (rejectionOutcome i err)"
proof (cases "as_api_error err")
  case (Some a)
  then show ?thesis
    by (cases "ae_Response a") (simp_all add: rejectionOutcome_def Let_def)
qed (simp add: rejectionOutcome_def Let_def)

lemma Submit_shape: "outcome_shape (Submit p i)"
  by (simp add: Submit_def split: option.split sum.split prod.split)

text \<open>A submission ends in one of three ways.  Without an error the invoice is accepted, accepted with a
  warning, or rejected; an ambiguous answer comes with the error that asks for reconciliation; and
  every other error leaves no outcome, so that nothing is recorded and the XML is sent again.\<close>

theorem submit_outcome_shape:
  "case snd (Submit p i) of
     None \<Rightarrow> oc_State (fst (Submit p i)) \<in> {OutcomeAccepted, OutcomeWarning, OutcomeRejected}
   | Some e \<Rightarrow> fst (Submit p i) = no_outcome \<or>
       oc_State (fst (Submit p i)) = OutcomeAmbiguous \<and> is_err e ErrOutcomeAmbiguous"
  using Submit_shape by (simp only: outcome_shape_def)

text \<open>A service whose API answers every request with the same status and body.\<close>

definition answers :: "service \<Rightarrow> int \<Rightarrow> string \<Rightarrow> InvoiceResponse \<Rightarrow> bool" where
  "answers svc status body resp \<longleftrightarrow>
     (\<forall>b. \<exists>text. he_encode (sv_http svc) b = Inr text) \<and> (\<forall>u. he_url (sv_http svc) u = None) \<and>
     (\<forall>r. he_send (sv_http svc) r = Inr (status, Inr body)) \<and> body \<noteq> [] \<and> he_invoice (sv_http svc) body = Inr resp"

text \<open>A stored invoice that reaches the API: valid, with a service and the hash of its XML.\<close>

definition submittable :: "'f bill_pipeline \<Rightarrow> service \<Rightarrow> signed_invoice \<Rightarrow> bool" where
  "submittable p svc i \<longleftrightarrow> invoice_Validate i = None \<and> (\<exists>cfg. bp_Service p (i_BranchID i) = Inr (svc, cfg)) \<and>
     (\<exists>req. apiRequest svc (i_SignedXML i) = Inr req \<and> iq_InvoiceHash req = i_Hash i)"

lemma api_call_answers:
  assumes "answers svc status body resp"
  shows "api_call (sv_http svc) name meth url b hs (he_invoice (sv_http svc)) zero =
    (if status < 200 \<or> status \<ge> 300
     then Inl (APIFailure (name @ '': '') \<lparr>ae_StatusCode = status, ae_Body = body, ae_Response = Some resp\<rparr>)
     else Inr resp)"
proof -
  obtain t where "he_encode (sv_http svc) b = Inr t"
    using assms unfolding answers_def by meson
  then show ?thesis
    using assms by (simp add: answers_def api_call_def newJSONRequest_def client_do_def)
qed

lemma Submit_answers:
  assumes "submittable p svc i" and "answers svc status body resp"
  shows "Submit p i =
    (if status < 200 \<or> status \<ge> 300
     then rejectionOutcome i (APIFailure (if i_Kind i = InvoiceStandard then ''ClearInvoice: '' else ''ReportInvoice: '')
       \<lparr>ae_StatusCode = status, ae_Body = body, ae_Response = Some resp\<rparr>)
     else (responseOutcome (i_Kind i) resp, None))"
  using assms(1) api_call_answers [OF assms(2)]
  by (auto simp: Submit_def submittable_def ClearInvoice_def ReportInvoice_def)

text \<open>An answer with status 208 (already reported) that does not accept the invoice is recorded as a
  rejection, where the same answer with status 409 is ambiguous and kept for reconciliation: the
  client takes every status of the 200s for a success, so the branch of \<open>rejectionOutcome\<close> for 208
  is never reached.\<close>

theorem already_reported_rejected:
  assumes "submittable p svc i" and "answers svc status body resp"
    and "\<not> accepting (oc_State (responseOutcome (i_Kind i) resp))"
  shows "(status = 208 \<longrightarrow> oc_State (fst (Submit p i)) = OutcomeRejected \<and> snd (Submit p i) = None) \<and>
    (status = 409 \<longrightarrow> oc_State (fst (Submit p i)) = OutcomeAmbiguous)"
proof -
  have "oc_State (responseOutcome (i_Kind i) resp) = OutcomeRejected"
    using assms(3) responseOutcome_states(1) [of "i_Kind i" resp] by (auto simp: accepting_def)
  moreover have "oc_State (fst (ambiguous_answer i a t)) = OutcomeAmbiguous" for a t
    by (simp add: ambiguous_answer_def an_outcome_def)
  ultimately show ?thesis
    using Submit_answers [OF assms(1,2)] assms(3) by (simp add: rejectionOutcome_def Let_def)
qed

text \<open>The classification of an error answer.  A 4xx status rejects the invoice for good, except for
  authentication, timeout and rate limit, which are technical like every status outside the 400s;
  a conflict is ambiguous unless the answer itself accepts the invoice.\<close>

theorem error_status_classified:
  assumes "submittable p svc i" and "answers svc status body resp" and "status < 200 \<or> status \<ge> 300"
  shows "(status = 409 \<longrightarrow>
      oc_State (fst (Submit p i)) =
        (if accepting (oc_State (responseOutcome (i_Kind i) resp)) then oc_State (responseOutcome (i_Kind i) resp)
         else OutcomeAmbiguous)) \<and>
    (status \<in> {400..499} - {401, 403, 408, 409, 429} \<longrightarrow>
      oc_State (fst (Submit p i)) = OutcomeRejected \<and> snd (Submit p i) = None) \<and>
    (status \<notin> {400..499} - {401, 403, 408, 429} \<longrightarrow>
      fst (Submit p i) = no_outcome \<and> (\<exists>e. snd (Submit p i) = Some e \<and> \<not> is_err e ErrOutcomeAmbiguous))"
proof -
  have kind: "i_Kind i = InvoiceStandard \<or> i_Kind i = InvoiceSimplified"
    using assms(1) by (auto simp: submittable_def invoice_Validate_def split: if_splits)
  have "oc_State (fst (ambiguous_answer i a t)) = OutcomeAmbiguous" for a t
    by (simp add: ambiguous_answer_def an_outcome_def)
  then show ?thesis
    using Submit_answers [OF assms(1,2)] assms(3) kind
    by (auto simp: rejectionOutcome_def Let_def isInvoiceRejection_def an_outcome_def)
qed

section \<open>Verified bills\<close>

lemma verify_lines_None:
  "verify_lines F i ps = None \<longleftrightarrow>
     (\<forall>p \<in> set ps. \<not> fl_le F (QuantityOrZero F p) (fl_int F 0) \<and> \<not> fl_lt F (PriceOrZero F p) (fl_int F 0))"
  by (induction ps arbitrary: i) auto

lemma verifyBillD:
  assumes "verifyBill F cfg msg bill products = None"
  shows "br_BranchID bill = m_BranchID msg" "finalizedInvoiceID bill \<noteq> []" "sl_VAT (cf_Seller cfg) \<noteq> []" "cf_EGSID cfg \<noteq> []"
    "products \<noteq> []" "verify_lines F 0 products = None" "1 \<le> br_State bill"
    "br_InvoiceUUID bill = None \<or> br_InvoiceUUID bill = Some (m_InvoiceUUID msg)"
  using assms by (auto simp: verifyBill_def split: if_splits)

lemma finalizedInvoiceID_number:
  "finalizedInvoiceID b \<noteq> [] \<Longrightarrow> \<exists>n. 0 < n \<and> n < 2 ^ 64 \<and> finalizedInvoiceID b = ''INV-'' @ show_nat n"
proof -
  assume "finalizedInvoiceID b \<noteq> []"
  then obtain v :: u64 where "v \<noteq> 0" "finalizedInvoiceID b = ''INV-'' @ show_nat (unat v)"
    by (auto simp: finalizedInvoiceID_def split: option.splits if_splits)
  moreover have "unat v < 2 ^ 64"
    using unsigned_less [of v, where ?'a = nat] by simp
  ultimately show ?thesis
    using unat_gt_0 by blast
qed

lemma buildLines_lines:
  "length (buildLines F ps) = length ps" "map li_ID (buildLines F ps) = map (\<lambda>i. show_nat (i + 1)) [0..<length ps]"
  by (auto simp: buildLines_def enumerate_eq_zip buildLine_def intro!: nth_equalityI)

lemma buildLines_in: "l \<in> set (buildLines F ps) \<Longrightarrow> \<exists>i < length ps. l = buildLine F i (ps ! i)"
  by (auto simp: buildLines_def in_set_enumerate_eq)

text \<open>A bill that passes verification gives an invoice that can be reported: it has the printed number
  of its sequence, a seller VAT number and one line per product numbered from one; when its numbers
  are finite and bounded and the rates are from 0 to 100, it is a sale whose amounts add up.\<close>

definition product_value :: "float64 product_row \<Rightarrow> rat" where
  "product_value p = val (QuantityOrZero ieee p) * val (PriceOrZero ieee p)"

definition small_product :: "float64 product_row \<Rightarrow> bool" where
  "small_product p \<longleftrightarrow> is_fin (QuantityOrZero ieee p) \<and> is_fin (PriceOrZero ieee p) \<and> is_fin (VATOrZero ieee p) \<and>
     product_value p \<le> 10 ^ 9 \<and> 0 \<le> val (VATOrZero ieee p) \<and> val (VATOrZero ieee p) \<le> 100"

lemma buildLine_plain:
  assumes "small_product p" and "\<not> f64_le (QuantityOrZero ieee p) (Fin 0)" and "\<not> f64_lt (PriceOrZero ieee p) (Fin 0)"
  shows "plain_line (buildLine ieee k p)" "line_value (buildLine ieee k p) = product_value p"
proof -
  obtain q c v where f: "QuantityOrZero ieee p = Fin q" "PriceOrZero ieee p = Fin c" "VATOrZero ieee p = Fin v"
    using assms(1) by (auto simp: small_product_def is_fin_iff)
  with assms(2,3) have "0 \<le> q * c" by (auto simp: f64_le_def intro!: mult_nonneg_nonneg)
  with assms(1) f show "plain_line (buildLine ieee k p)" "line_value (buildLine ieee k p) = product_value p"
    by (simp_all add: small_product_def product_value_def plain_line_def finite_line_def line_value_def buildLine_def)
qed

theorem verified_bill_reportable:
  assumes "verifyBill ieee cfg msg bill products = None" and "list_all small_product products"
    and "length products \<le> 1000" and "sum_list (map product_value products) \<le> 10 ^ 9"
  shows "let i = buildBillInvoice ieee cfg bill products t bk in
    (\<exists>n. 0 < n \<and> n < 2 ^ 64 \<and> in_ID i = ''INV-'' @ show_nat n) \<and> pt_VAT (in_Supplier i) \<noteq> [] \<and>
    in_UUID i = b_UUID bk \<and> in_PreviousInvoiceHash i = b_PIH bk \<and>
    map li_ID (in_Lines i) = map (\<lambda>k. show_nat (k + 1)) [0..<length products] \<and> in_Lines i \<noteq> [] \<and> plain_sale i"
proof -
  note ok = verifyBillD [OF assms(1)]
  have line: "plain_line (buildLine ieee k p)" "line_value (buildLine ieee k p) = product_value p" if "p \<in> set products" for k p
    using ok(6) that assms(2) buildLine_plain [of p k] by (auto simp: verify_lines_None list_all_iff)
  then have "list_all plain_line (buildLines ieee products)"
    by (auto simp: buildLines_def list_all_iff in_set_enumerate_eq)
  moreover have "map line_value (buildLines ieee products) = map product_value products"
    using line by (auto simp: buildLines_def enumerate_eq_zip intro!: nth_equalityI)
  moreover have "buildLines ieee products \<noteq> []"
    using ok(5) buildLines_lines(1) [of ieee products] by auto
  ultimately show ?thesis
    using finalizedInvoiceID_number [OF ok(2)] ok(3) buildLines_lines [of ieee products] assms(3,4)
    by (simp add: buildBillInvoice_def Let_def plain_sale_def)
qed

text \<open>What the pipeline builds passes the stream's check.  When the database answers a query for a bill
  with that bill, and the booking carries the envelope's branch and UUID, an invoice built from a
  prepared bill belongs to the envelope and its booking; the check then refuses it only for a part
  the container left blank.\<close>

theorem built_invoice_passes:
  assumes "Prepare F parse now p msg = Inr d" and "Build F to_xml d bk = Inr i"
    and "\<And>bid b rest. bp_bill p bid = Inr (b, rest) \<Longrightarrow> br_ID b = bid"
    and "message_Validate msg = None" and "b_BranchID bk = m_BranchID msg" and "b_UUID bk = m_InvoiceUUID msg"
    and "b_ICV bk \<noteq> 0" and "trim_space (b_PIH bk) \<noteq> []"
  shows "for_message i msg \<and>
    (checkBuilt i msg bk = None \<longleftrightarrow> trim_space (i_Hash i) \<noteq> [] \<and> trim_space (i_SignedXML i) \<noteq> [])"
proof -
  have "br_ID (bd_bill d) = m_ID msg"
    using assms(1,3) by (auto simp: Prepare_def QueryBillByID_def split: sum.splits if_splits option.splits)
  moreover have "i_SourceID i = br_ID (bd_bill d)" "i_BranchID i = b_BranchID bk" "i_UUID i = b_UUID bk" "i_ICV i = b_ICV bk"
    "i_PIH i = b_PIH bk" "i_Kind i = InvoiceStandard \<or> i_Kind i = InvoiceSimplified" "i_Outcome i = []"
    using assms(2) by (auto simp: Build_def Let_def split: sum.splits if_splits)
  ultimately show ?thesis
    using assms(5-8) message_ValidD [OF assms(4)]
    by (auto simp: for_message_def checkBuilt_def invoice_Validate_def split: if_splits)
qed

section \<open>A sample pipeline\<close>

definition sample_response :: InvoiceResponse where
  "sample_response = no_response\<lparr>ir_InvoiceHash := ''aGFzaA==''\<rparr>"

definition sample_http :: "int \<Rightarrow> http_env" where
  "sample_http status = \<lparr>he_encode = (\<lambda>_. Inr ''{}''), he_url = (\<lambda>_. None), he_send = (\<lambda>_. Inr (status, Inr ''{}'')),
     he_invoice = (\<lambda>_. Inr sample_response), he_csid = (\<lambda>_. Inr no_csid)\<rparr>"

definition sample_seller :: seller_info where
  "sample_seller = \<lparr>sl_Name = ''Acme'', sl_NameAR = ''Acme'', sl_VAT = ''300000000000003'', sl_CRN = ''1010010000'', sl_Street = [],
     sl_Building = [], sl_District = [], sl_City = [], sl_PostalCode = [], sl_Country = ''SA''\<rparr>"

definition sample_config :: config where
  "sample_config = \<lparr>cf_Env = Sandbox, cf_OTP = [], cf_ComplianceUsername = [], cf_CompliancePassword = [],
     cf_ProductionUsername = ''user'', cf_ProductionPassword = ''pass'', cf_EGSID = ''egs-7'',
     cf_CSR = \<lparr>csr_CommonName = [], csr_SerialNumber = [], csr_OrgIdentifier = [], csr_OrgUnit = [], csr_OrgName = [],
       csr_Country = [], csr_InvoiceType = [], csr_Location = [], csr_BusinessCategory = []\<rparr>, cf_Seller = sample_seller\<rparr>"

definition sample_uuid_text :: string where
  "sample_uuid_text = ''0c4f7a1e-2b3d-4e5f-8a9b-1c2d3e4f5a6b''"

definition sample_service :: "int \<Rightarrow> service" where
  "sample_service status = \<lparr>sv_sign = (\<lambda>xml. Inr (xml @ ''<sig/>'', ''aGFzaA=='')), sv_api = (\<lambda>_. Inr ''{}''), sv_qr = (\<lambda>_. Inr ''qr''),
     sv_request = (\<lambda>_. Inr \<lparr>iq_InvoiceHash = ''aGFzaA=='', iq_UUID = sample_uuid_text, iq_Invoice = []\<rparr>),
     sv_http = sample_http status, sv_config = sample_config\<rparr>"

definition sample_bill :: bill_row where
  "sample_bill = \<lparr>br_ID = 42, br_BranchID = 7, br_CompanyID = 1, br_URL = None, br_EffectiveDate = None, br_PaymentDue = None,
     br_SeqNumber = Some ''17'', br_PaymentMethod = None, br_UserName = None, br_CompanyName = None, br_VATReg = None,
     br_AddressName = None, br_BuyerName = None, br_BuyerCompany = None, br_BuyerVAT = None, br_BuyerAddress = None,
     br_BuyerStreet = None, br_BuyerBuilding = None, br_BuyerDistrict = None, br_BuyerCity = None, br_BuyerPostalCode = None,
     br_BuyerCountry = None, br_BuyerSchemeID = None, br_BuyerRegistration = None, br_State = 1, br_InvoiceUUID = None\<rparr>"

definition sample_product :: "float64 product_row" where
  "sample_product = \<lparr>pr_ProductID = Some 5, pr_Name = Some ''tea'', pr_Price = Some (Fin 4), pr_Quantity = Some (Fin 2), pr_VAT = None,
     pr_Discount = None, pr_TotalBeforeVAT = None, pr_VATTotal = None, pr_TotalIncludingVAT = None\<rparr>"

definition sample_pipeline :: "int \<Rightarrow> float64 bill_pipeline" where
  "sample_pipeline status = \<lparr>bp_Service = (\<lambda>_. Inr (sample_service status, sample_config)),
     bp_bill = (\<lambda>bid. Inr (sample_bill\<lparr>br_ID := bid\<rparr>, None, Some 1, None)),
     bp_products = (\<lambda>_. Inr ([Inr sample_product], None))\<rparr>"

definition sample_stored :: signed_invoice where
  "sample_stored = \<lparr>i_SourceID = 42, i_BranchID = 7, i_UUID = sample_uuid_text, i_ICV = 1, i_PIH = GenesisPIH, i_Hash = ''aGFzaA=='',
     i_Kind = InvoiceSimplified, i_SignedXML = ''<x/>'', i_QR = ''qr'', i_Outcome = [], i_OutcomeEvidence = EvidenceUnspecified,
     i_EvidenceID = [], i_ProviderCode = [], i_OutcomeMessage = []\<rparr>"

lemma sample_blank:
  "trim_space ''aGFzaA=='' = ''aGFzaA==''" "trim_space ''<x/>'' = ''<x/>''" "trim_space GenesisPIH = GenesisPIH"
  "trim_space ''17'' = ''17''"
  by (rule trim_space_graphic; simp add: graphic_def GenesisPIH_def)+

lemma sample_submittable: "submittable (sample_pipeline status) (sample_service status) sample_stored"
proof -
  have "isUUID sample_uuid_text" "GenesisPIH \<noteq> []"
    using sample_uuid by (simp_all add: sample_uuid_text_def GenesisPIH_def)
  then show ?thesis
    by (simp add: submittable_def sample_stored_def invoice_Validate_def sample_blank sample_pipeline_def apiRequest_def
        sample_service_def)
qed

lemma sample_answers: "answers (sample_service status) status ''{}'' sample_response"
  by (simp add: answers_def sample_service_def sample_http_def)

lemma sample_not_accepting: "\<not> accepting (oc_State (responseOutcome (i_Kind sample_stored) sample_response))"
  by (simp add: responseOutcome_def sample_response_def no_response_def validation_list_def successStatus_def providerStatus_def
      sample_stored_def InvoiceSimplified_def InvoiceStandard_def an_outcome_def reject_not_accept)

theorem already_reported_rejected_witness:
  "oc_State (fst (Submit (sample_pipeline 208) sample_stored)) = OutcomeRejected \<and>
   oc_State (fst (Submit (sample_pipeline 409) sample_stored)) = OutcomeAmbiguous"
  using already_reported_rejected [OF sample_submittable sample_answers sample_not_accepting, of 208]
    already_reported_rejected [OF sample_submittable sample_answers sample_not_accepting, of 409] by simp

theorem error_status_classified_witness:
  "oc_State (fst (Submit (sample_pipeline 400) sample_stored)) = OutcomeRejected \<and>
   fst (Submit (sample_pipeline 503) sample_stored) = no_outcome"
  using error_status_classified [OF sample_submittable sample_answers, of 400]
    error_status_classified [OF sample_submittable sample_answers, of 503] by simp

lemma sample_verified: "verifyBill ieee sample_config sample_message sample_bill [sample_product] = None"
proof -
  have "finalizedInvoiceID sample_bill \<noteq> []"
  proof -
    have "parse_uint64 ''17'' = Some 17"
      by (simp add: parse_uint64_def is_digit_def digit_val_def)
    then show ?thesis
      by (simp add: finalizedInvoiceID_def sample_bill_def sample_blank)
  qed
  then show ?thesis
    by (simp add: verifyBill_def)
      (simp add: sample_bill_def sample_config_def sample_seller_def sample_product_def QuantityOrZero_def PriceOrZero_def f64_le_def)
qed

definition sample_slot :: booking where
  "sample_slot = \<lparr>b_BranchID = 7, b_RequestKey = [], b_EventID = [], b_UUID = sample_uuid_text, b_ICV = 1, b_PIH = GenesisPIH\<rparr>"

theorem verified_bill_reportable_witness:
  "plain_sale (buildBillInvoice ieee sample_config sample_bill [sample_product] 0 sample_slot)"
proof -
  have "small_product sample_product" "product_value sample_product = 8" by code_simp+
  then show ?thesis using verified_bill_reportable [OF sample_verified, of 0 sample_slot] by (simp add: Let_def)
qed

theorem built_invoice_passes_witness:
  "\<exists>d i. Prepare ieee (\<lambda>_ _. None) 0 (sample_pipeline 200) sample_message = Inr d \<and>
     Build ieee (\<lambda>_. Inr ''<x/>'') d sample_slot = Inr i \<and> for_message i sample_message"
proof -
  define d where "d = \<lparr>bd_svc = sample_service 200, bd_cfg = sample_config, bd_bill = sample_bill, bd_products = [sample_product],
     bd_issueTime = 0\<rparr>"
  have "QueryBillByID (bp_bill (sample_pipeline 200)) (m_ID sample_message) = Inr sample_bill"
    by (simp add: QueryBillByID_def sample_pipeline_def sample_bill_def)
  moreover have "bp_Service (sample_pipeline 200) 7 = Inr (sample_service 200, sample_config)"
    "LoadProducts (bp_products (sample_pipeline 200)) 42 = Inr [sample_product]" "br_EffectiveDate sample_bill = None"
    by (simp_all add: sample_pipeline_def LoadProducts_def read_rows_def sample_bill_def)
  ultimately have prepared: "Prepare ieee (\<lambda>_ _. None) 0 (sample_pipeline 200) sample_message = Inr d"
    using sample_verified by (simp add: Prepare_def ParseDates_def d_def)
  obtain i where built: "Build ieee (\<lambda>_. Inr ''<x/>'') d sample_slot = Inr i"
    by (simp add: Build_def Let_def d_def apiRequest_def sample_service_def sample_slot_def)
  have ids: "\<And>bid b rest. bp_bill (sample_pipeline 200) bid = Inr (b, rest) \<Longrightarrow> br_ID b = bid"
    by (auto simp: sample_pipeline_def)
  have "trim_space GenesisPIH \<noteq> []"
    by (simp add: sample_blank) (simp add: GenesisPIH_def)
  then have "for_message i sample_message"
    using built_invoice_passes [OF prepared built ids sample_message_valid]
    by (simp add: sample_slot_def sample_uuid_text_def)
  with prepared built show ?thesis by blast
qed

end
