(* ===== verification/Daemon_Topology.thy ===== *)
theory Daemon_Topology
  imports Daemon_Delivery Store_Config Schema_Preflight Bill_Processor
begin

text \<open>
  The live topology of the daemon, \<open>cmd/daemon/reconcile.go\<close>: the tenants it serves, a worker per
  branch, the responders of each tenant and the cached branch services.  A Go map is an association
  list with distinct keys.  Workers, subscriptions and contexts are known by numbers; the lists of
  running workers, live subscriptions and open databases are what the outside sees.  Opening
  databases, the preflight, subscribing and the branch query answer as the environment says.
  Cancelling a worker and waiting for it is one step.
\<close>

section \<open>State\<close>

type_synonym branch_entry = "branch_service \<times> config"

record daemon =
  dr_adminDSN :: string
  dr_ackWait :: time
  dr_maxDeliver :: int
  dr_tenants :: "(string \<times> tenantCtx) list"
  dr_workers :: "(string \<times> nat) list"
  dr_subs :: "(string \<times> nat) list"
  dr_caches :: "(string \<times> (int \<times> branch_entry) list) list"
  dr_registry :: "registry option"
  dr_lastReconcileAt :: "time option" \<comment> \<open>\<open>None\<close> is the zero time\<close>
  dr_lastReconcileErr :: "goerr option"
  dr_active :: "string list" \<comment> \<open>the global \<open>activeBranches\<close>\<close>
  dr_running :: "nat list"
  dr_listening :: "nat list"
  dr_open :: "(nat \<times> bool) list" \<comment> \<open>context, and whether it is the admin database\<close>
  dr_stopping :: "nat list" \<comment> \<open>contexts with \<open>onboardingStopping\<close> set\<close>
  dr_next :: nat
  dr_cancelled :: bool

definition newDaemonReconciler :: "string \<Rightarrow> time \<Rightarrow> int \<Rightarrow> daemon" where
  "newDaemonReconciler adminDSN ackWait maxDeliver =
     \<lparr>dr_adminDSN = adminDSN, dr_ackWait = ackWait, dr_maxDeliver = maxDeliver, dr_tenants = [], dr_workers = [], dr_subs = [],
      dr_caches = [], dr_registry = Some [], dr_lastReconcileAt = None, dr_lastReconcileErr = None, dr_active = [],
      dr_running = [], dr_listening = [], dr_open = [], dr_stopping = [], dr_next = 0, dr_cancelled = False\<rparr>"

record daemon_env =
  en_now :: time
  en_master :: "(goerr + (goerr + tenant) list \<times> goerr option) option"
  en_openDB :: "tenant \<Rightarrow> goerr option"
  en_openAdmin :: "tenant \<Rightarrow> goerr option"
  en_preflight :: "tenant \<Rightarrow> goerr option"
  en_subOnboard :: "tenant \<Rightarrow> goerr option"
  en_subReconcile :: "tenant \<Rightarrow> goerr option"
  en_branches :: "tenant \<Rightarrow> int rows"

section \<open>Branch workers\<close>

text \<open>\<open>fmt.Sscanf\<close> with \<open>%d\<close>: blanks, a sign, digits; the rest is ignored.\<close>

definition scan_int :: "string \<Rightarrow> int option" where
  "scan_int s0 =
     (let s = dropWhile (\<lambda>c. c = CHR '' '' \<or> c = CHR 0x09) s0;
          negative = (s \<noteq> [] \<and> hd s = CHR ''-'');
          digits = takeWhile is_digit (if s \<noteq> [] \<and> (hd s = CHR ''-'' \<or> hd s = CHR ''+'') then tl s else s);
          v = (if negative then - int (read_nat 0 digits) else int (read_nat 0 digits))
      in if digits = [] \<or> v < - (2 ^ 63) \<or> v \<ge> 2 ^ 63 then None else Some v)"

text \<open>The text after the last colon.\<close>

definition after_last_colon :: "string \<Rightarrow> string" where
  "after_last_colon key = rev (takeWhile (\<lambda>c. c \<noteq> CHR '':'') (rev key))"

definition branchIDFromKey :: "string \<Rightarrow> int" where
  "branchIDFromKey key = (case scan_int (after_last_colon key) of Some b \<Rightarrow> b | None \<Rightarrow> 0)"

definition startBranch :: "tenantCtx \<Rightarrow> string \<Rightarrow> int \<Rightarrow> daemon \<Rightarrow> daemon" where
  "startBranch tc dbName branchID d =
     (let key = branchKey dbName branchID in
      case map_of (dr_tenants d) dbName of
        None \<Rightarrow> d
      | Some current \<Rightarrow>
          (if tc_id current \<noteq> tc_id tc then d
           else if map_of (dr_workers d) key \<noteq> None then d
           else d\<lparr>dr_workers := AList.update key (dr_next d) (dr_workers d),
                  dr_active := (if key \<in> set (dr_active d) then dr_active d else key # dr_active d),
                  dr_running := dr_next d # dr_running d, dr_next := Suc (dr_next d)\<rparr>))"

text \<open>Stopping workers: they leave the table and their goroutines end.\<close>

definition stop_workers :: "string \<Rightarrow> (string \<Rightarrow> bool) \<Rightarrow> daemon \<Rightarrow> daemon" where
  "stop_workers dbName P d =
     (let stopped = filter (\<lambda>p. P (fst p)) (dr_workers d) in
      d\<lparr>dr_workers := filter (\<lambda>p. \<not> P (fst p)) (dr_workers d),
        dr_active := fold (\<lambda>p. unmarkBranchActive dbName (branchIDFromKey (fst p))) stopped (dr_active d),
        dr_running := filter (\<lambda>n. n \<notin> snd ` set stopped) (dr_running d)\<rparr>)"

section \<open>Tenants\<close>

definition removeTenant :: "string \<Rightarrow> daemon \<Rightarrow> daemon" where
  "removeTenant dbName d0 =
     (let tc = map_of (dr_tenants d0) dbName;
          d1 = d0\<lparr>dr_stopping := (case tc of Some c \<Rightarrow> tc_id c # dr_stopping d0 | None \<Rightarrow> dr_stopping d0),
                  dr_tenants := AList.delete dbName (dr_tenants d0), dr_caches := AList.delete dbName (dr_caches d0)\<rparr>;
          d2 = stop_workers dbName (\<lambda>key. has_prefix key (dbName @ '':'')) d1
      in case tc of
           None \<Rightarrow> d2
         | Some c \<Rightarrow>
             (let own = (\<lambda>key. key = ''onboard:'' @ dbName \<or> key = ''reconcile:'' @ tn_TenantKey (tc_tenant c));
                  ended = filter (\<lambda>p. own (fst p)) (dr_subs d2)
              in d2\<lparr>dr_subs := filter (\<lambda>p. \<not> own (fst p)) (dr_subs d2),
                    dr_listening := filter (\<lambda>n. n \<notin> snd ` set ended) (dr_listening d2),
                    dr_open := filter (\<lambda>h. fst h \<noteq> tc_id c) (dr_open d2)\<rparr>))"

definition new_ctx :: "daemon_env \<Rightarrow> string \<Rightarrow> tenant \<Rightarrow> daemon \<Rightarrow> tenantCtx" where
  "new_ctx env zenv t d =
     \<lparr>tc_id = dr_next d, tc_tenant = t, tc_adminDB = (dr_adminDSN d \<noteq> [] \<and> en_openAdmin env t = None),
      tc_env = zenv, tc_ackWait = dr_ackWait d, tc_maxDeliver = dr_maxDeliver d, tc_expectedBranches = [],
      tc_onboardingStopping = False\<rparr>"

text \<open>The tenant with its databases is in the tables; its responders are not there yet.\<close>

definition opened :: "tenant \<Rightarrow> tenantCtx \<Rightarrow> daemon \<Rightarrow> daemon" where
  "opened t tc d =
     d\<lparr>dr_next := Suc (tc_id tc),
       dr_open := (tc_id tc, False) # (if tc_adminDB tc then [(tc_id tc, True)] else []) @ dr_open d,
       dr_tenants := AList.update (tn_DBName t) tc (dr_tenants d),
       dr_caches := AList.update (tn_DBName t) [] (dr_caches d)\<rparr>"

definition subscribed :: "tenant \<Rightarrow> daemon \<Rightarrow> daemon" where
  "subscribed t d =
     d\<lparr>dr_subs := AList.update (''reconcile:'' @ tn_TenantKey t) (Suc (dr_next d))
         (AList.update (''onboard:'' @ tn_DBName t) (dr_next d) (dr_subs d)),
       dr_listening := dr_next d # Suc (dr_next d) # dr_listening d, dr_next := Suc (Suc (dr_next d))\<rparr>"

definition addTenant :: "daemon_env \<Rightarrow> tenant \<Rightarrow> daemon \<Rightarrow> goerr option \<times> daemon" where
  "addTenant env t d =
     (case (if tn_ZATCAEnv t \<noteq> [] then ParseEnv (tn_ZATCAEnv t) else Inr Sandbox) of
        Inl e \<Rightarrow> (Some (Wrapf ''invalid ZATCA environment: '' e []), d)
      | Inr zenv \<Rightarrow>
        (case en_openDB env t of
           Some e \<Rightarrow> (Some e, d)
         | None \<Rightarrow>
           (case en_preflight env t of
              Some e \<Rightarrow> (Some e, d)
            | None \<Rightarrow>
              (let d1 = opened t (new_ctx env zenv t d) d in
               case en_subOnboard env t of
                 Some e \<Rightarrow>
                   (Some (Wrapf (''subscribe onboarding for '' @ tn_DBName t @ '': '') e []), removeTenant (tn_DBName t) d1)
               | None \<Rightarrow>
                 (case en_subReconcile env t of
                    Some e \<Rightarrow>
                      (Some (Wrapf (''subscribe reconciliation for '' @ tn_DBName t @ '': '') e []),
                       removeTenant (tn_DBName t) (d1\<lparr>dr_next := Suc (dr_next d1)\<rparr>))
                  | None \<Rightarrow> (None, subscribed t d1))))))"

definition set_expected :: "nat \<Rightarrow> int list \<Rightarrow> tenantCtx \<Rightarrow> tenantCtx" where
  "set_expected n branches tc = (if tc_id tc = n then tc\<lparr>tc_expectedBranches := branches\<rparr> else tc)"

definition expect_branches :: "tenantCtx \<Rightarrow> int list \<Rightarrow> daemon \<Rightarrow> daemon" where
  "expect_branches tc branches d =
     d\<lparr>dr_tenants := map (\<lambda>(k, c). (k, set_expected (tc_id tc) (remdups branches) c)) (dr_tenants d),
       dr_caches := AList.delete (tn_DBName (tc_tenant tc)) (dr_caches d)\<rparr>"

definition reconcileBranches :: "daemon_env \<Rightarrow> tenantCtx \<Rightarrow> daemon \<Rightarrow> goerr option \<times> daemon" where
  "reconcileBranches env tc d =
     (let dbName = tn_DBName (tc_tenant tc) in
      case QueryActiveBranches (en_branches env (tc_tenant tc)) of
        Inl e \<Rightarrow> (Some (Wrapf ''query active branches: '' e []), d)
      | Inr branches \<Rightarrow>
          (None, stop_workers dbName
             (\<lambda>key. has_prefix key (dbName @ '':'') \<and> branchIDFromKey key \<notin> set branches)
             (expect_branches tc branches (fold (startBranch tc dbName) branches d))))"

section \<open>Reconciliation\<close>

text \<open>\<open>errors.Join\<close> of a list.\<close>

fun join_errs :: "goerr list \<Rightarrow> goerr option" where
  "join_errs [] = None"
| "join_errs [e] = Some (Wrapf [] e [])"
| "join_errs (e # f # es) = Some (Joined e (the (join_errs (f # es))))"

definition drop_stale :: "tenant list \<Rightarrow> daemon \<Rightarrow> daemon" where
  "drop_stale discovered d =
     (let desired = fold (\<lambda>t. AList.update (tn_DBName t) t) discovered [] in
      fold (\<lambda>(dbName, tc) d.
          case map_of desired dbName of
            None \<Rightarrow> removeTenant dbName d
          | Some target \<Rightarrow>
              (if tn_TenantKey target \<noteq> tn_TenantKey (tc_tenant tc) then removeTenant dbName d
               else if tc_tenant tc \<noteq> target then removeTenant dbName d
               else d))
        (dr_tenants d) d)"

fun add_missing :: "daemon_env \<Rightarrow> tenant list \<Rightarrow> daemon \<Rightarrow> goerr list \<times> daemon" where
  "add_missing env [] d = ([], d)"
| "add_missing env (t # ts) d =
     (if map_of (dr_tenants d) (tn_DBName t) \<noteq> None then add_missing env ts d
      else
        case addTenant env t d of
          (None, d1) \<Rightarrow> add_missing env ts d1
        | (Some e, d1) \<Rightarrow>
            apfst ((#) (Wrapf (''tenant '' @ tn_Name t @ '' ('' @ tn_DBName t @ '') failed to start: '') e []))
              (add_missing env ts d1))"

fun all_branches :: "daemon_env \<Rightarrow> tenantCtx list \<Rightarrow> daemon \<Rightarrow> goerr list \<times> daemon" where
  "all_branches env [] d = ([], d)"
| "all_branches env (tc # tcs) d =
     (case reconcileBranches env tc d of
        (None, d1) \<Rightarrow> all_branches env tcs d1
      | (Some e, d1) \<Rightarrow>
          apfst ((#) (Wrapf (''tenant '' @ tn_Name (tc_tenant tc) @ '' ('' @ tn_DBName (tc_tenant tc) @
            '') branch reconciliation failed: '') e [])) (all_branches env tcs d1))"

definition noted :: "daemon_env \<Rightarrow> goerr option \<Rightarrow> daemon \<Rightarrow> goerr option \<times> daemon" where
  "noted env e d = (e, d\<lparr>dr_lastReconcileAt := Some (en_now env), dr_lastReconcileErr := e\<rparr>)"

definition reconcile :: "daemon_env \<Rightarrow> daemon \<Rightarrow> goerr option \<times> daemon" where
  "reconcile env d =
     (case LoadAllContext (en_master env) of
        Inl e \<Rightarrow> noted env (Some e) d
      | Inr discovered \<Rightarrow>
        (case registry_Reconcile discovered (dr_registry d) of
           (Inl e, _) \<Rightarrow> noted env (Some e) d
         | (Inr _, reg) \<Rightarrow>
             (let d1 = drop_stale discovered (d\<lparr>dr_registry := reg\<rparr>);
                  (failures1, d2) = add_missing env discovered d1;
                  (failures2, d3) = all_branches env (map snd (dr_tenants d2)) d2
              in noted env (join_errs (failures1 @ failures2)) d3)))"

text \<open>The loop runs a reconciliation at every tick until the daemon stops; the first runs at the start.\<close>

definition loop :: "daemon_env list \<Rightarrow> daemon \<Rightarrow> daemon" where
  "loop ticks d = fold (\<lambda>env d. if dr_cancelled d then d else snd (reconcile env d)) ticks d"

definition stop :: "daemon \<Rightarrow> daemon" where
  "stop d =
     (let d1 = fold removeTenant (map fst (dr_tenants d)) (d\<lparr>dr_cancelled := True\<rparr>) in d1\<lparr>dr_running := []\<rparr>)"

section \<open>Services and readiness\<close>

definition base_config :: "string \<Rightarrow> config" where
  "base_config env =
     \<lparr>cf_Env = env, cf_OTP = [], cf_ComplianceUsername = [], cf_CompliancePassword = [], cf_ProductionUsername = [],
      cf_ProductionPassword = [], cf_EGSID = [],
      cf_CSR = \<lparr>csr_CommonName = [], csr_SerialNumber = [], csr_OrgIdentifier = [], csr_OrgUnit = [], csr_OrgName = [],
        csr_Country = [], csr_InvoiceType = [], csr_Location = [], csr_BusinessCategory = []\<rparr>,
      cf_Seller = \<lparr>sl_Name = [], sl_NameAR = [], sl_VAT = [], sl_CRN = [], sl_Street = [], sl_Building = [], sl_District = [],
        sl_City = [], sl_PostalCode = [], sl_Country = []\<rparr>\<rparr>"

text \<open>\<open>load\<close> is \<open>LoadBranchZATCA\<close> on the tenant's database.\<close>

definition getService ::
    "(tenantCtx \<Rightarrow> int \<Rightarrow> goerr + BranchZATCA) \<Rightarrow> string \<Rightarrow> int \<Rightarrow> daemon \<Rightarrow> (goerr + branch_entry) \<times> daemon" where
  "getService load dbName branchID d =
     (case map_of (dr_tenants d) dbName of
        None \<Rightarrow> (Inl (NewError (''unknown tenant db: '' @ dbName)), d)
      | Some tc \<Rightarrow>
        (case Option.bind (map_of (dr_caches d) dbName) (\<lambda>cache. map_of cache branchID) of
           Some entry \<Rightarrow> (Inr entry, d)
         | None \<Rightarrow>
           (case load tc branchID of
              Inl e \<Rightarrow> (Inl (Wrapf (''load branch '' @ show_int branchID @ '' ZATCA config: '') e []), d)
            | Inr bz \<Rightarrow>
              (if \<not> IsRegistered bz then
                 (Inl (NewError (''branch '' @ show_int branchID @ '' not registered with ZATCA'')), d)
               else
                 let entry = (NewService bz (base_config (tc_env tc)), ToConfig bz (base_config (tc_env tc)));
                     cache = (case map_of (dr_caches d) dbName of Some c \<Rightarrow> c | None \<Rightarrow> [])
                 in (Inr entry, d\<lparr>dr_caches := AList.update dbName (AList.update branchID entry cache) (dr_caches d)\<rparr>)))))"

definition workerStopped :: "daemon \<Rightarrow> nat option \<Rightarrow> bool" where
  "workerStopped d w = (case w of None \<Rightarrow> True | Some n \<Rightarrow> n \<notin> set (dr_running d))"

definition responder_missing :: "daemon \<Rightarrow> string \<Rightarrow> bool" where
  "responder_missing d key = (case map_of (dr_subs d) key of None \<Rightarrow> True | Some n \<Rightarrow> n \<notin> set (dr_listening d))"

text \<open>\<open>info\<close> is \<open>ConsumerInfo\<close> on a stream and a consumer, or \<open>None\<close> without JetStream.\<close>

definition branch_missing :: "(string \<Rightarrow> string \<Rightarrow> goerr option) option \<Rightarrow> daemon \<Rightarrow> string \<Rightarrow> int \<Rightarrow> string list" where
  "branch_missing info d dbName branchID =
     (let what = dbName @ '' branch '' @ show_int branchID in
      case map_of (dr_workers d) (branchKey dbName branchID) of
        None \<Rightarrow> [''worker for '' @ what]
      | Some w \<Rightarrow>
          (if workerStopped d (Some w) then [''worker for '' @ what]
           else
             case info of
               None \<Rightarrow> [''JetStream consumer for '' @ what]
             | Some ask \<Rightarrow>
                 (case ask StreamName (OrderedConsumerName dbName branchID) of
                    Some e \<Rightarrow> [''JetStream consumer for '' @ what @ '': '' @ err_text e]
                  | None \<Rightarrow> [])))"

definition tenant_missing :: "(string \<Rightarrow> string \<Rightarrow> goerr option) option \<Rightarrow> daemon \<Rightarrow> tenantCtx \<Rightarrow> string list" where
  "tenant_missing info d tc =
     (let t = tc_tenant tc in
      (if responder_missing d (''onboard:'' @ tn_DBName t)
       then [''onboarding responder for tenant '' @ tn_DBName t] else []) @
      (if responder_missing d (''reconcile:'' @ tn_TenantKey t)
       then [''reconciliation responder for tenant '' @ tn_TenantKey t] else []) @
      concat (map (branch_missing info d (tn_DBName t)) (expectedBranchSnapshot tc)))"

definition checkReadiness :: "(string \<Rightarrow> string \<Rightarrow> goerr option) option \<Rightarrow> daemon \<Rightarrow> goerr option" where
  "checkReadiness info d =
     (case dr_lastReconcileAt d of
        None \<Rightarrow> Some (NewError ''tenant reconciliation has not completed'')
      | Some _ \<Rightarrow>
        (case dr_lastReconcileErr d of
           Some e \<Rightarrow> Some (Wrapf ''tenant reconciliation is unhealthy: '' e [])
         | None \<Rightarrow>
             (let missing = concat (map (tenant_missing info d) (map snd (dr_tenants d))) in
              if missing \<noteq> [] then
                Some (NewError (''daemon readiness is unhealthy; missing expected consumers: '' @ join_with ''; '' missing))
              else None)))"

end
