(* ===== verification/Reconcile_Request.thy ===== *)
theory Reconcile_Request
  imports Daemon_Topology Text_Codec
begin

text \<open>
  The reconciliation responder of a tenant (\<open>handleReconcileRequest\<close> and \<open>subscribeReconcileResponder\<close>
  of \<open>cmd/daemon/reconcile.go\<close>): an operator asks for the recorded outcome of a bill, or supplies
  one from outside.
\<close>

definition refusal :: "string \<Rightarrow> reconcile_reply" where
  "refusal e =
     \<lparr>rp_Accepted = False, rp_State = [], rp_Evidence = [], rp_EvidenceID = [], rp_InvoiceHash = [], rp_Error = e\<rparr>"

text \<open>\<open>queue.Message{ID: id}\<close>.\<close>

definition bill_message :: "int \<Rightarrow> message" where
  "bill_message bill =
     \<lparr>m_DocType = [], m_ID = bill, m_BranchID = 0, m_DBName = [], m_TenantKey = [], m_PosID = [], m_BillRequestID = [],
      m_EventID = [], m_EGSSequenceID = [], m_InvoiceUUID = [], m_RequestFingerprint = []\<rparr>"

definition external_outcome :: "reconcile_request \<Rightarrow> outcome" where
  "external_outcome req =
     \<lparr>oc_State = rr_State req, oc_ProviderCode = rr_ProviderCode req, oc_Message = rr_Message req,
      oc_Evidence = EvidenceExternal, oc_EvidenceID = rr_EvidenceID req\<rparr>"

definition handleReconcileRequest ::
    "sql_env \<Rightarrow> tenantCtx \<Rightarrow> reconcile_request \<Rightarrow> tenant_db \<Rightarrow> reconcile_reply \<times> tenant_db" where
  "handleReconcileRequest env tc req db =
     (if rr_TenantKey req \<noteq> tn_TenantKey (tc_tenant tc) \<or> rr_DBName req \<noteq> tn_DBName (tc_tenant tc)
      then (refusal ''the request is for another tenant'', db)
      else
        case Stored env (bill_message (rr_BillID req)) db of
          Inl e \<Rightarrow> (refusal (err_text e), db)
        | Inr None \<Rightarrow> (refusal (''bill '' @ show_int (rr_BillID req) @ '' has no committed invoice''), db)
        | Inr (Some stored) \<Rightarrow>
          (if rr_InvoiceUUID req \<noteq> [] \<and> rr_InvoiceUUID req \<noteq> i_UUID stored
           then (refusal ''invoice UUID does not match the stored invoice'', db)
           else if rr_InvoiceHash req \<noteq> [] \<and> rr_InvoiceHash req \<noteq> i_Hash stored
           then (refusal ''invoice hash does not match the stored invoice'', db)
           else if rr_Action req = ReconcileActionStatus then
             (\<lparr>rp_Accepted = True, rp_State = (if i_Outcome stored = [] then ''pending'' else i_Outcome stored),
               rp_Evidence = (if i_OutcomeEvidence stored = EvidenceExternal then ''external'' else ''recorded''),
               rp_EvidenceID = i_EvidenceID stored, rp_InvoiceHash = i_Hash stored, rp_Error = []\<rparr>, db)
           else if i_Outcome stored \<noteq> [] \<and> i_Outcome stored \<noteq> OutcomeAmbiguous
           then (refusal ''the invoice already has a final recorded outcome'', db)
           else
             case Record env stored (external_outcome req) db of
               (Some e, db1) \<Rightarrow> (refusal (err_text e), db1)
             | (None, db1) \<Rightarrow>
                 (\<lparr>rp_Accepted = True, rp_State = rr_State req, rp_Evidence = ''external'',
                   rp_EvidenceID = rr_EvidenceID req, rp_InvoiceHash = i_Hash stored, rp_Error = []\<rparr>, db1)))"

text \<open>The callback of the subscription; \<open>marshal\<close> is \<open>json.Marshal\<close> of the reply.\<close>

definition reconcile_callback ::
    "(string \<Rightarrow> string + reconcile_request) \<Rightarrow> (reconcile_reply \<Rightarrow> goerr + string) \<Rightarrow> sql_env \<Rightarrow> tenantCtx \<Rightarrow>
     nats_msg \<Rightarrow> tenant_db \<Rightarrow> event list \<times> tenant_db" where
  "reconcile_callback json marshal env tc m db =
     (let (reply, db1) =
        (case DecodeReconcileRequest json (nm_Data m) of
           Inl e \<Rightarrow> (refusal (err_text e), db)
         | Inr req \<Rightarrow>
             (if rr_TenantKey req \<noteq> tn_TenantKey (tc_tenant tc)
              then (refusal ''the request subject and tenant key do not match'', db)
              else handleReconcileRequest env tc req db))
      in (case marshal reply of Inl _ \<Rightarrow> [] | Inr data \<Rightarrow> [Respond data], db1))"

section \<open>What a request may change\<close>

lemma handle_cases:
  assumes "handleReconcileRequest env tc req db = (reply, db')" and "db' \<noteq> db"
  obtains stored e where "rr_TenantKey req = tn_TenantKey (tc_tenant tc)" and "rr_DBName req = tn_DBName (tc_tenant tc)"
    and "Stored env (bill_message (rr_BillID req)) db = Inr (Some stored)" and "rr_Action req \<noteq> ReconcileActionStatus"
    and "rr_InvoiceHash req = [] \<or> rr_InvoiceHash req = i_Hash stored"
    and "Record env stored (external_outcome req) db = (e, db')"
  using assms unfolding handleReconcileRequest_def
  by (auto split: if_splits sum.splits option.splits prod.splits)

text \<open>The responder writes only the answer of a valid record request of its own tenant for a bill whose
  submission is still pending: a recorded answer is never replaced, and a status request writes nothing.\<close>

theorem responder_writes_pending_only:
  assumes "reconcile_callback json marshal env tc m db = (evs, db')" and "db' \<noteq> db" and "bills_wf db"
  shows "\<exists>req stored s status. DecodeReconcileRequest json (nm_Data m) = Inr req \<and> rr_Action req = ReconcileActionRecord \<and>
    rr_TenantKey req = tn_TenantKey (tc_tenant tc) \<and> rr_DBName req = tn_DBName (tc_tenant tc) \<and>
    i_SourceID stored = rr_BillID req \<and> rr_InvoiceHash req = i_Hash stored \<and>
    find (\<lambda>s. s_bill_id s = rr_BillID req) (db_submissions db) = Some s \<and> s_outcome_state s = outcomePending \<and>
    db' = recorded env stored (external_outcome req) status (s_id s) db"
proof -
  obtain req where req: "DecodeReconcileRequest json (nm_Data m) = Inr req"
    and handled: "snd (handleReconcileRequest env tc req db) = db'"
    using assms(1,2) by (auto simp: reconcile_callback_def split: sum.splits if_splits prod.splits)
  have valid: "reconcile_Validate req = None"
    using req by (auto simp: DecodeReconcileRequest_def split: sum.splits option.splits)
  from handled obtain reply where "handleReconcileRequest env tc req db = (reply, db')"
    by (metis prod.collapse)
  from handle_cases [OF this assms(2)] obtain stored e where
    own: "rr_TenantKey req = tn_TenantKey (tc_tenant tc)" "rr_DBName req = tn_DBName (tc_tenant tc)" and
    stored: "Stored env (bill_message (rr_BillID req)) db = Inr (Some stored)" and
    act: "rr_Action req \<noteq> ReconcileActionStatus" and same: "rr_InvoiceHash req = [] \<or> rr_InvoiceHash req = i_Hash stored" and
    run: "Record env stored (external_outcome req) db = (e, db')"
    by metis
  have action: "rr_Action req = ReconcileActionRecord" "rr_InvoiceHash req \<noteq> []"
    using valid act by (auto simp: reconcile_Validate_def trim_space_def split: if_splits)
  obtain s status where ok: "record_ok (external_outcome req) stored db s status"
    "db' = recorded env stored (external_outcome req) status (s_id s) db"
    using Record_state [OF run] assms(2) by blast
  have id: "i_SourceID stored = rr_BillID req"
    using stored by (auto simp: Stored_def query_row_Inr stored_row_def invoice_of_row_def bill_message_def Let_def
        split: sum.splits if_splits option.splits prod.splits dest: find_SomeD)
  from ok(1) obtain t where t: "t \<in> set (db_submissions db)" "waiting (s_id s) t"
    and found: "find (\<lambda>s. s_bill_id s = i_SourceID stored) (db_submissions db) = Some s"
    by (auto simp: record_ok_def)
  then have "t = s"
    using assms(3) find_SomeD [OF found] unfolding bills_wf_def waiting_def by (metis distinct_map inj_onD)
  then have "s_outcome_state s = outcomePending"
    using t(2) by (simp add: waiting_def)
  with req action own id found ok(2) same show ?thesis
    by auto
qed

text \<open>C24: no record request is ever accepted for an invoice whose hash is what the signer computes, the
  base64 text of a SHA-256 digest: a valid request carries 64 hexadecimal digits as its hash.\<close>

theorem record_request_refused:
  assumes "DecodeReconcileRequest json data = Inr req" and "rr_Action req = ReconcileActionRecord"
    and "Stored env (bill_message (rr_BillID req)) db = Inr (Some stored)"
    and "i_Hash stored = b64_encode digest" and "length digest = sha256Size"
  shows "rp_Accepted (fst (handleReconcileRequest env tc req db)) = False \<and> snd (handleReconcileRequest env tc req db) = db"
proof -
  have "reconcile_Validate req = None"
    using assms(1) by (auto simp: DecodeReconcileRequest_def split: sum.splits option.splits)
  then have "length (rr_InvoiceHash req) = 64"
    using assms(2) by (auto simp: reconcile_Validate_def validFingerprint_def sha256Size_def trim_space_def split: if_splits)
  moreover have "length (i_Hash stored) = 44"
    using assms(4,5) by (simp add: b64_encode_length sha256Size_def del: b64_encode.simps)
  ultimately have "rr_InvoiceHash req \<noteq> [] \<and> rr_InvoiceHash req \<noteq> i_Hash stored"
    by auto
  then show ?thesis
    using assms(3) by (simp add: handleReconcileRequest_def refusal_def)
qed

section \<open>Sample requests\<close>

definition sample_record :: reconcile_request where
  "sample_record =
     \<lparr>rr_TenantKey = ''acme-0001'', rr_DBName = ''tenant_acme'', rr_BranchID = 7, rr_BillID = 42,
      rr_Action = ReconcileActionRecord, rr_InvoiceUUID = [], rr_InvoiceHash = replicate 64 (CHR ''a''),
      rr_State = OutcomeAccepted, rr_ProviderCode = [], rr_Message = [], rr_EvidenceID = ''ticket-1''\<rparr>"

lemma sample_evidence [simp]: "trim_space ''ticket-1'' = ''ticket-1''" "validEvidenceText ''ticket-1'' 256" "validEvidenceText [] n"
  by (simp_all add: trim_space_graphic graphic_def validEvidenceText_def rune_count_def runes_graphic valid_string_graphic)

lemma sample_record_valid: "reconcile_Validate sample_record = None"
proof -
  have "trim_space (replicate 64 (CHR ''a'')) = replicate 64 (CHR ''a'')"
    by (rule trim_space_graphic) (simp add: list_all_iff graphic_def)
  then show ?thesis
    by (simp add: reconcile_Validate_def sample_record_def sample_texts sample_fingerprint)
qed

lemma sample_record_decoded: "DecodeReconcileRequest (\<lambda>_. Inr sample_record) data = Inr sample_record"
  by (simp add: DecodeReconcileRequest_def strictDecode_def sample_record_valid)

definition sample_db :: "string \<Rightarrow> tenant_db" where
  "sample_db hash = committed sample_booking (sample_invoice\<lparr>i_Hash := hash\<rparr>) sample_booked"

lemma sample_db_stored:
  "\<exists>stored. Stored (healthy_env n) (bill_message 42) (sample_db hash) = Inr (Some stored) \<and> i_Hash stored = hash \<and>
     i_Outcome stored = [] \<and> i_SourceID stored = 42"
  by (simp add: Stored_def stored_row_def sample_db_def committed_def sample_booked_def sample_start_def bill_message_def
      bill_of_def invoice_of_row_def Let_def new_submission_def sample_invoice_def new_bill_def bill_invoiced_def case_prod_unfold)

theorem record_request_refused_witness:
  "rp_Accepted (fst (handleReconcileRequest (healthy_env 9) sample_ctx sample_record
     (sample_db (b64_encode (replicate 32 (CHR ''x'')))))) = False"
proof -
  obtain stored where "Stored (healthy_env 9) (bill_message (rr_BillID sample_record)) (sample_db (b64_encode (replicate 32 (CHR ''x'')))) = Inr (Some stored)"
    "i_Hash stored = b64_encode (replicate 32 (CHR ''x''))"
    using sample_db_stored by (auto simp: sample_record_def simp del: b64_encode.simps)
  from record_request_refused [OF sample_record_decoded _ this] show ?thesis
    by (simp add: sample_record_def sha256Size_def del: b64_encode.simps)
qed

definition sample_request_msg :: nats_msg where
  "sample_request_msg = \<lparr>nm_Subject = ReconcileSubject ''acme-0001'', nm_Data = ''{}'', nm_NumDelivered = None\<rparr>"

lemma sample_db_wf: "bills_wf (sample_db (replicate 64 (CHR ''a'')))"
proof -
  have "trim_space (replicate 64 (CHR ''a'')) \<noteq> []" "trim_space ''0c4f7a1e-2b3d-4e5f-8a9b-1c2d3e4f5a6b'' \<noteq> []"
    by (simp_all add: trim_space_graphic list_all_iff graphic_def)
  then show ?thesis
    by (simp add: bills_wf_def sample_db_def committed_def sample_booked_def sample_start_def new_submission_def
        new_bill_def bill_invoiced_def) (simp add: sample_invoice_def sample_booking_def)
qed

lemma sample_db_recorded:
  assumes "i_SourceID stored = 42"
  shows "\<exists>status. Record (healthy_env 9) stored (external_outcome sample_record) (sample_db h) =
    (None, recorded (healthy_env 9) stored (external_outcome sample_record) status 1 (sample_db h))"
proof -
  have "db_submissions (sample_db h) = [new_submission sample_booked (sample_invoice\<lparr>i_Hash := h\<rparr>)]"
    by (simp add: sample_db_def committed_def sample_booked_def sample_start_def)
  moreover have "s_bill_id (new_submission sample_booked (sample_invoice\<lparr>i_Hash := h\<rparr>)) = 42"
    "s_id (new_submission sample_booked (sample_invoice\<lparr>i_Hash := h\<rparr>)) = 1"
    "s_outcome_state (new_submission sample_booked (sample_invoice\<lparr>i_Hash := h\<rparr>)) = outcomePending"
    by (simp_all add: new_submission_def sample_invoice_def next_submission_id_def sample_booked_def sample_start_def)
  moreover obtain status where "submissionStatus OutcomeAccepted = Inr status"
    by (auto simp: submissionStatus_def outcome_defs)
  ultimately show ?thesis
    using healthy_Record [of "healthy_env 9" "external_outcome sample_record" status stored "sample_db h"] assms
    by (auto simp: external_outcome_def sample_record_def waiting_def)
qed

lemma recorded_changes: "recorded env i oc status sid db \<noteq> db"
proof
  assume "recorded env i oc status sid db = db"
  then have "length (db_outcomes (recorded env i oc status sid db)) = length (db_outcomes db)"
    by simp
  then show False
    by (simp add: recorded_def)
qed

lemma reconcile_actions: "ReconcileActionRecord \<noteq> ReconcileActionStatus"
  by (simp add: ReconcileActionRecord_def ReconcileActionStatus_def)

theorem responder_writes_pending_only_witness:
  "\<exists>db'. reconcile_callback (\<lambda>_. Inr sample_record) (\<lambda>_. Inr ''ok'') (healthy_env 9) sample_ctx sample_request_msg
      (sample_db (replicate 64 (CHR ''a''))) = ([Respond ''ok''], db') \<and>
     (\<exists>s. find (\<lambda>s. s_bill_id s = 42) (db_submissions (sample_db (replicate 64 (CHR ''a'')))) = Some s \<and>
        s_outcome_state s = outcomePending \<and> (\<exists>stored status. db' =
          recorded (healthy_env 9) stored (external_outcome sample_record) status (s_id s) (sample_db (replicate 64 (CHR ''a'')))))"
proof -
  let ?db = "sample_db (replicate 64 (CHR ''a''))"
  obtain stored where stored: "Stored (healthy_env 9) (bill_message 42) ?db = Inr (Some stored)"
    "i_Hash stored = replicate 64 (CHR ''a'')" "i_Outcome stored = []" "i_SourceID stored = 42"
    using sample_db_stored by blast
  obtain status where "Record (healthy_env 9) stored (external_outcome sample_record) ?db =
      (None, recorded (healthy_env 9) stored (external_outcome sample_record) status 1 ?db)"
    using sample_db_recorded [OF stored(4)] by blast
  then have run: "reconcile_callback (\<lambda>_. Inr sample_record) (\<lambda>_. Inr ''ok'') (healthy_env 9) sample_ctx sample_request_msg ?db =
      ([Respond ''ok''], recorded (healthy_env 9) stored (external_outcome sample_record) status 1 ?db)"
    using stored by (simp add: reconcile_callback_def sample_record_decoded handleReconcileRequest_def)
      (simp add: sample_record_def sample_ctx_def sample_tenant_def reconcile_actions)
  have changed: "recorded (healthy_env 9) stored (external_outcome sample_record) status 1 ?db \<noteq> ?db"
    by (rule recorded_changes)
  from responder_writes_pending_only [OF run changed sample_db_wf] run show ?thesis
    by (auto simp: sample_record_decoded) (auto simp: sample_record_def)
qed

end
