(* ===== verification/Topology_Laws.thy ===== *)
theory Topology_Laws
  imports Daemon_Topology
begin

text \<open>
  What the reconciler of \<open>Daemon_Topology\<close> keeps true of the daemon's topology, and what it reaches:
  nothing leaks, and a reconciliation brings the tenants and the workers to what the master registry
  and the branch tables say.
\<close>

section \<open>Branch keys\<close>

definition int64 :: "int \<Rightarrow> bool" where
  "int64 b \<longleftrightarrow> - (2 ^ 63) \<le> b \<and> b < 2 ^ 63"

definition colon_free :: "string \<Rightarrow> bool" where
  "colon_free s \<longleftrightarrow> CHR '':'' \<notin> set s"

lemma show_int_colon_free [simp]: "CHR '':'' \<notin> set (show_int b)"
  using show_int_chars [of "CHR '':''" b] by (auto simp: is_digit_def)

lemma after_last_colon_key [simp]: "after_last_colon (branchKey db b) = show_int b"
proof -
  have "takeWhile (\<lambda>c. c \<noteq> CHR '':'') (rev (show_int b) @ CHR '':'' # rev db) = rev (show_int b)"
    using show_int_colon_free [of b] by (subst takeWhile_append2) auto
  then show ?thesis
    by (simp add: after_last_colon_def branchKey_def)
qed

lemma show_nat_hd: "is_digit (hd (show_nat n))"
  using show_nat_digits [of n] by (cases "show_nat n") auto

lemma takeWhile_digits [simp]: "takeWhile is_digit (show_nat n) = show_nat n"
  using show_nat_digits [of n] by (simp add: takeWhile_eq_all_conv list_all_iff)

lemma scan_show_int:
  assumes "int64 b"
  shows "scan_int (show_int b) = Some b"
proof -
  have blank: "dropWhile (\<lambda>c. c = CHR '' '' \<or> c = CHR 0x09) (show_int b) = show_int b"
    using show_nat_hd [of "nat b"] by (cases "show_nat (nat b)") (auto simp: show_int_def is_digit_def)
  have digit: "hd (show_nat n) \<noteq> CHR ''-''" "hd (show_nat n) \<noteq> CHR ''+''" for n
    using show_nat_hd [of n] by (auto simp: is_digit_def)
  show ?thesis
    using assms by (simp add: scan_int_def blank Let_def int64_def) (auto simp: show_int_def digit)
qed

lemma branchIDFromKey_key [simp]: "int64 b \<Longrightarrow> branchIDFromKey (branchKey db b) = b"
  by (simp add: branchIDFromKey_def scan_show_int)

lemma branchKey_prefix [simp]: "has_prefix (branchKey db b) (db @ '':'')"
  by (simp add: branchKey_def has_prefix_def)

lemma split_at_colon:
  assumes "x @ CHR '':'' # u = y @ CHR '':'' # v" and "colon_free x" and "colon_free y"
  shows "x = y"
  using assms by (induction x arbitrary: y) (case_tac [!] y, auto simp: colon_free_def)

lemma branchKey_prefix_iff [simp]:
  assumes "colon_free db" and "colon_free db'"
  shows "has_prefix (branchKey db b) (db' @ '':'') \<longleftrightarrow> db = db'"
proof
  assume "has_prefix (branchKey db b) (db' @ '':'')"
  then have "branchKey db b = (db' @ '':'') @ drop (length (db' @ '':'')) (branchKey db b)"
    unfolding has_prefix_def by (metis append_take_drop_id)
  then show "db = db'"
    using split_at_colon [OF _ assms] by (simp add: branchKey_def)
qed simp

lemma branchKey_inject [simp]: "branchKey db b = branchKey db b' \<longleftrightarrow> b = b'"
  by (simp add: branchKey_def)

section \<open>Tables\<close>

text \<open>A table of handles, each a fresh number, with the handles still live.\<close>

definition table_ok :: "nat \<Rightarrow> (string \<times> nat) list \<Rightarrow> nat list \<Rightarrow> bool" where
  "table_ok bound table live \<longleftrightarrow>
     distinct (map fst table) \<and> distinct (map snd table) \<and> (\<forall>p \<in> set table. snd p < bound) \<and>
     set live \<subseteq> snd ` set table"

definition live_in :: "(string \<times> nat) list \<Rightarrow> nat list \<Rightarrow> string \<Rightarrow> bool" where
  "live_in table live key \<longleftrightarrow> (\<exists>n. map_of table key = Some n \<and> n \<in> set live)"

declare update_fresh [simp]

lemma table_ok_mono: "table_ok m table live \<Longrightarrow> m \<le> n \<Longrightarrow> table_ok n table live"
  unfolding table_ok_def by fastforce

lemma table_ok_add:
  assumes "table_ok n table live" and "key \<notin> fst ` set table" and "n \<le> m" and "m < n'"
  shows "table_ok n' (AList.update key m table) (m # live)"
  using assms unfolding table_ok_def by fastforce

lemma table_ok_filter:
  assumes "table_ok n table live"
  shows "table_ok n (filter (\<lambda>p. \<not> P (fst p)) table)
    (filter (\<lambda>i. i \<notin> snd ` set (filter (\<lambda>p. P (fst p)) table)) live)"
  using assms unfolding table_ok_def by (auto simp: distinct_map inj_on_def image_iff dest!: subsetD [of "set live"])

lemma table_ok_less: "table_ok n table live \<Longrightarrow> set live \<subseteq> {..<n}"
  unfolding table_ok_def by fastforce

lemma map_of_filter_key:
  "map_of (filter (\<lambda>p. \<not> P (fst p)) table) key = (if P key then None else map_of table key)"
  by (induction table) auto

lemma live_in_filter:
  assumes "table_ok n table live"
  shows "live_in (filter (\<lambda>p. \<not> P (fst p)) table)
      (filter (\<lambda>i. i \<notin> snd ` set (filter (\<lambda>p. P (fst p)) table)) live) key \<longleftrightarrow>
    \<not> P key \<and> live_in table live key"
proof -
  have "i \<notin> snd ` set (filter (\<lambda>p. P (fst p)) table)" if "map_of table key = Some i" "\<not> P key" for i
  proof
    assume "i \<in> snd ` set (filter (\<lambda>p. P (fst p)) table)"
    then obtain k where "(k, i) \<in> set table" "P k"
      by auto
    moreover have "(key, i) \<in> set table"
      using that(1) by (rule map_of_SomeD)
    ultimately show False
      using assms that(2) unfolding table_ok_def distinct_map inj_on_def by (metis snd_conv fst_conv)
  qed
  then show ?thesis
    unfolding live_in_def map_of_filter_key by auto
qed

lemma live_in_add:
  assumes "key' \<notin> fst ` set table"
  shows "live_in table live key \<Longrightarrow> live_in (AList.update key' m table) (m # live) key"
    and "live_in (AList.update key' m table) (m # live) key'"
  using assms by (auto simp: live_in_def update_conv' simp del: update_fresh intro!: map_of_SomeD dest: map_of_SomeD)

section \<open>The invariant\<close>

definition owned :: "tenantCtx \<Rightarrow> string \<Rightarrow> bool" where
  "owned c key \<longleftrightarrow> key = ''onboard:'' @ tn_DBName (tc_tenant c) \<or> key = ''reconcile:'' @ tn_TenantKey (tc_tenant c)"

definition tenants_ok :: "daemon \<Rightarrow> bool" where
  "tenants_ok d \<longleftrightarrow>
     distinct (map fst (dr_tenants d)) \<and> distinct (map (\<lambda>p. tn_TenantKey (tc_tenant (snd p))) (dr_tenants d)) \<and>
     distinct (map (\<lambda>p. tc_id (snd p)) (dr_tenants d)) \<and>
     (\<forall>(k, c) \<in> set (dr_tenants d). tn_DBName (tc_tenant c) = k \<and> tc_id c < dr_next d)"

text \<open>Every worker is that of a branch of a served tenant, and every running one is in the table.\<close>

definition workers_ok :: "daemon \<Rightarrow> bool" where
  "workers_ok d \<longleftrightarrow> table_ok (dr_next d) (dr_workers d) (dr_running d) \<and>
     (\<forall>key \<in> fst ` set (dr_workers d). \<exists>db \<in> fst ` set (dr_tenants d). \<exists>b. int64 b \<and> key = branchKey db b)"

text \<open>The responders are those of the served tenants, all of them.\<close>

definition subs_ok :: "daemon \<Rightarrow> bool" where
  "subs_ok d \<longleftrightarrow> table_ok (dr_next d) (dr_subs d) (dr_listening d) \<and>
     (\<forall>key \<in> fst ` set (dr_subs d). \<exists>c \<in> snd ` set (dr_tenants d). owned c key) \<and>
     (\<forall>c \<in> snd ` set (dr_tenants d). \<forall>key. owned c key \<longrightarrow> live_in (dr_subs d) (dr_listening d) key)"

text \<open>The open databases are those of the served tenants, all of them.\<close>

definition open_ok :: "daemon \<Rightarrow> bool" where
  "open_ok d \<longleftrightarrow> (\<forall>h \<in> set (dr_open d). \<exists>c \<in> snd ` set (dr_tenants d). tc_id c = fst h) \<and>
     (\<forall>c \<in> snd ` set (dr_tenants d). (tc_id c, False) \<in> set (dr_open d))"

definition topology_ok :: "daemon \<Rightarrow> bool" where
  "topology_ok d \<longleftrightarrow> dr_registry d \<noteq> None \<and> tenants_ok d \<and> workers_ok d \<and> subs_ok d \<and> open_ok d"

lemma start_topology [simp]: "topology_ok (newDaemonReconciler adminDSN ackWait maxDeliver)"
  by (simp add: topology_ok_def tenants_ok_def workers_ok_def subs_ok_def open_ok_def newDaemonReconciler_def table_ok_def)

subsection \<open>Stopping and starting workers\<close>

lemma stop_workers_fields [simp]:
  "dr_tenants (stop_workers db P d) = dr_tenants d" "dr_subs (stop_workers db P d) = dr_subs d"
  "dr_listening (stop_workers db P d) = dr_listening d" "dr_open (stop_workers db P d) = dr_open d"
  "dr_registry (stop_workers db P d) = dr_registry d" "dr_next (stop_workers db P d) = dr_next d"
  "dr_cancelled (stop_workers db P d) = dr_cancelled d"
  "dr_workers (stop_workers db P d) = filter (\<lambda>p. \<not> P (fst p)) (dr_workers d)"
  by (simp_all add: stop_workers_def Let_def)

lemma stop_workers_table:
  assumes "table_ok (dr_next d) (dr_workers d) (dr_running d)"
  shows "table_ok (dr_next d) (dr_workers (stop_workers db P d)) (dr_running (stop_workers db P d))"
  using table_ok_filter [OF assms] by (simp add: stop_workers_def Let_def)

lemma startBranch_fields [simp]:
  "dr_tenants (startBranch tc db b d) = dr_tenants d" "dr_subs (startBranch tc db b d) = dr_subs d"
  "dr_listening (startBranch tc db b d) = dr_listening d" "dr_open (startBranch tc db b d) = dr_open d"
  "dr_registry (startBranch tc db b d) = dr_registry d" "dr_next d \<le> dr_next (startBranch tc db b d)"
  "dr_cancelled (startBranch tc db b d) = dr_cancelled d"
  by (simp_all add: startBranch_def Let_def split: option.split)

lemma startBranch_workers:
  assumes "map_of (dr_tenants d) db = Some c" and "tc_id c = tc_id tc"
  shows "fst ` set (dr_workers (startBranch tc db b d)) = insert (branchKey db b) (fst ` set (dr_workers d))"
  using assms by (auto simp: startBranch_def Let_def map_of_eq_None_iff dom_map_of_conv_image_fst)

lemma startBranch_ok:
  assumes "topology_ok d" and "int64 b"
  shows "topology_ok (startBranch tc db b d)"
proof (cases "\<exists>c. map_of (dr_tenants d) db = Some c \<and> tc_id c = tc_id tc \<and> map_of (dr_workers d) (branchKey db b) = None")
  case True
  then have fresh: "branchKey db b \<notin> fst ` set (dr_workers d)" and served: "db \<in> fst ` set (dr_tenants d)"
    by (auto simp: map_of_eq_None_iff dest!: map_of_SomeD intro: rev_image_eqI)
  have "startBranch tc db b d =
      d\<lparr>dr_workers := AList.update (branchKey db b) (dr_next d) (dr_workers d),
        dr_active := (if branchKey db b \<in> set (dr_active d) then dr_active d else branchKey db b # dr_active d),
        dr_running := dr_next d # dr_running d, dr_next := Suc (dr_next d)\<rparr>"
    using True by (auto simp: startBranch_def Let_def)
  then show ?thesis
    using assms served table_ok_add [OF _ fresh, of "dr_next d" "dr_running d" "dr_next d" "Suc (dr_next d)"] fresh
    by (auto simp: topology_ok_def tenants_ok_def workers_ok_def subs_ok_def open_ok_def
        elim: table_ok_mono intro: less_SucI)
next
  case False
  then have "startBranch tc db b d = d"
    by (auto simp: startBranch_def Let_def split: option.split)
  with assms show ?thesis by simp
qed

subsection \<open>Removing and adding tenants\<close>

definition left_out :: "string \<Rightarrow> daemon \<Rightarrow> string \<Rightarrow> bool" where
  "left_out db d key \<longleftrightarrow> (\<exists>c. map_of (dr_tenants d) db = Some c \<and>
     (key = ''onboard:'' @ db \<or> key = ''reconcile:'' @ tn_TenantKey (tc_tenant c)))"

lemma delete_filter: "AList.delete k m = filter (\<lambda>p. fst p \<noteq> k) m"
  by (induction m) auto

lemma removeTenant_fields:
  shows "dr_tenants (removeTenant db d) = filter (\<lambda>p. fst p \<noteq> db) (dr_tenants d)"
    and "dr_workers (removeTenant db d) = filter (\<lambda>p. \<not> has_prefix (fst p) (db @ '':'')) (dr_workers d)"
    and "dr_running (removeTenant db d) =
      filter (\<lambda>n. n \<notin> snd ` set (filter (\<lambda>p. has_prefix (fst p) (db @ '':'')) (dr_workers d))) (dr_running d)"
    and "dr_subs (removeTenant db d) = filter (\<lambda>p. \<not> left_out db d (fst p)) (dr_subs d)"
    and "dr_listening (removeTenant db d) =
      filter (\<lambda>n. n \<notin> snd ` set (filter (\<lambda>p. left_out db d (fst p)) (dr_subs d))) (dr_listening d)"
    and "dr_open (removeTenant db d) =
      filter (\<lambda>h. \<forall>c. map_of (dr_tenants d) db = Some c \<longrightarrow> fst h \<noteq> tc_id c) (dr_open d)"
    and "dr_registry (removeTenant db d) = dr_registry d" and "dr_next (removeTenant db d) = dr_next d"
    and "dr_cancelled (removeTenant db d) = dr_cancelled d"
  by (simp_all add: removeTenant_def Let_def stop_workers_def delete_filter left_out_def comp_def case_prod_unfold
      split: option.split)

lemma ctx_lookup:
  assumes "tenants_ok d"
  shows "map_of (dr_tenants d) db = Some c \<longleftrightarrow> c \<in> snd ` set (dr_tenants d) \<and> tn_DBName (tc_tenant c) = db"
proof -
  have "map_of (dr_tenants d) db = Some c \<longleftrightarrow> (db, c) \<in> set (dr_tenants d)"
    using assms by (simp add: tenants_ok_def map_of_eq_Some_iff)
  also have "\<dots> \<longleftrightarrow> c \<in> snd ` set (dr_tenants d) \<and> tn_DBName (tc_tenant c) = db"
    using assms by (force simp: tenants_ok_def)
  finally show ?thesis .
qed

lemma ctx_unique:
  assumes "tenants_ok d" and "c \<in> snd ` set (dr_tenants d)" and "c' \<in> snd ` set (dr_tenants d)"
  shows "tn_TenantKey (tc_tenant c) = tn_TenantKey (tc_tenant c') \<Longrightarrow> c = c'"
    and "tc_id c = tc_id c' \<Longrightarrow> c = c'"
    and "tn_DBName (tc_tenant c) = tn_DBName (tc_tenant c') \<Longrightarrow> c = c'"
proof -
  obtain k k' where here: "(k, c) \<in> set (dr_tenants d)" "(k', c') \<in> set (dr_tenants d)"
    using assms(2,3) by auto
  note inj = assms(1) [unfolded tenants_ok_def distinct_map inj_on_def]
  show "tn_TenantKey (tc_tenant c) = tn_TenantKey (tc_tenant c') \<Longrightarrow> c = c'" "tc_id c = tc_id c' \<Longrightarrow> c = c'"
    using inj here by (metis snd_conv)+
  show "tn_DBName (tc_tenant c) = tn_DBName (tc_tenant c') \<Longrightarrow> c = c'"
    using ctx_lookup [OF assms(1)] assms(2,3) by (metis option.inject)
qed

lemma owned_unique:
  assumes "tenants_ok d" and "c \<in> snd ` set (dr_tenants d)" and "c' \<in> snd ` set (dr_tenants d)"
    and "owned c key" and "owned c' key"
  shows "c = c'"
  using ctx_unique [OF assms(1-3)] assms(4,5) by (auto simp: owned_def)

lemma removed_ctxs:
  assumes "tenants_ok d"
  shows "c \<in> snd ` set (dr_tenants (removeTenant db d)) \<longleftrightarrow>
    c \<in> snd ` set (dr_tenants d) \<and> map_of (dr_tenants d) db \<noteq> Some c"
proof -
  have "(k, c) \<in> set (dr_tenants d) \<longleftrightarrow> map_of (dr_tenants d) k = Some c" for k
    using assms by (simp add: tenants_ok_def map_of_eq_Some_iff)
  then show ?thesis
    using ctx_lookup [OF assms] by (auto simp: removeTenant_fields image_iff)
qed

lemma left_out_owned:
  assumes "tenants_ok d"
  shows "left_out db d key \<longleftrightarrow> (\<exists>c. map_of (dr_tenants d) db = Some c \<and> owned c key)"
  using ctx_lookup [OF assms] by (auto simp: left_out_def owned_def)

lemma removeTenant_subs:
  assumes "tenants_ok d" and "subs_ok d"
  shows "subs_ok (removeTenant db d)" (is "subs_ok ?d")
  unfolding subs_ok_def
proof (intro conjI ballI allI impI)
  show "table_ok (dr_next ?d) (dr_subs ?d) (dr_listening ?d)"
    using assms(2) table_ok_filter [of "dr_next d" "dr_subs d" "dr_listening d" "left_out db d"]
    unfolding subs_ok_def removeTenant_fields by metis
next
  fix key
  assume "key \<in> fst ` set (dr_subs ?d)"
  then have key: "key \<in> fst ` set (dr_subs d)" "\<not> left_out db d key"
    by (auto simp: removeTenant_fields)
  obtain c where c: "c \<in> snd ` set (dr_tenants d)" "owned c key"
    using assms(2) key(1) unfolding subs_ok_def by metis
  then have "c \<in> snd ` set (dr_tenants ?d)"
    using key(2) left_out_owned [OF assms(1)] removed_ctxs [OF assms(1)] by metis
  with c(2) show "\<exists>c \<in> snd ` set (dr_tenants ?d). owned c key" ..
next
  fix c key
  assume c: "c \<in> snd ` set (dr_tenants ?d)" "owned c key"
  then have here: "c \<in> snd ` set (dr_tenants d)" "map_of (dr_tenants d) db \<noteq> Some c"
    using removed_ctxs [OF assms(1)] by metis+
  have "\<not> left_out db d key"
    using here c(2) owned_unique [OF assms(1)] ctx_lookup [OF assms(1)] left_out_owned [OF assms(1)] by metis
  moreover have "live_in (dr_subs d) (dr_listening d) key"
    using here(1) c(2) assms(2) unfolding subs_ok_def by metis
  ultimately show "live_in (dr_subs ?d) (dr_listening ?d) key"
    using assms(2) live_in_filter [of "dr_next d" "dr_subs d" "dr_listening d" "left_out db d" key]
    unfolding subs_ok_def removeTenant_fields by metis
qed

lemma removeTenant_open:
  assumes "tenants_ok d" and "open_ok d"
  shows "open_ok (removeTenant db d)" (is "open_ok ?d")
  unfolding open_ok_def
proof (intro conjI ballI)
  fix h
  assume "h \<in> set (dr_open ?d)"
  then have h: "h \<in> set (dr_open d)" "\<And>c. map_of (dr_tenants d) db = Some c \<Longrightarrow> fst h \<noteq> tc_id c"
    by (auto simp: removeTenant_fields)
  then obtain c where "c \<in> snd ` set (dr_tenants d)" "tc_id c = fst h"
    using assms(2) unfolding open_ok_def by metis
  then show "\<exists>c \<in> snd ` set (dr_tenants ?d). tc_id c = fst h"
    using h(2) removed_ctxs [OF assms(1)] by metis
next
  fix c
  assume "c \<in> snd ` set (dr_tenants ?d)"
  then have here: "c \<in> snd ` set (dr_tenants d)" "map_of (dr_tenants d) db \<noteq> Some c"
    using removed_ctxs [OF assms(1)] by metis+
  then have "tc_id c \<noteq> tc_id c'" if "map_of (dr_tenants d) db = Some c'" for c'
    using that ctx_unique(2) [OF assms(1)] ctx_lookup [OF assms(1)] by metis
  moreover have "(tc_id c, False) \<in> set (dr_open d)"
    using here(1) assms(2) unfolding open_ok_def by metis
  ultimately show "(tc_id c, False) \<in> set (dr_open ?d)"
    by (auto simp: removeTenant_fields)
qed

lemma removeTenant_ok:
  assumes "topology_ok d"
  shows "topology_ok (removeTenant db d)"
proof -
  note ok = assms [unfolded topology_ok_def]
  have "tenants_ok (removeTenant db d)"
    using ok by (auto simp: tenants_ok_def removeTenant_fields distinct_map_filter)
  moreover have "workers_ok (removeTenant db d)"
    using ok table_ok_filter [of "dr_next d" "dr_workers d" "dr_running d" "\<lambda>key. has_prefix key (db @ '':'')"]
    unfolding workers_ok_def removeTenant_fields by fastforce
  ultimately show ?thesis
    using ok removeTenant_subs removeTenant_open by (simp add: topology_ok_def removeTenant_fields)
qed

definition same_topology :: "daemon \<Rightarrow> daemon \<Rightarrow> bool" where
  "same_topology d d' \<longleftrightarrow> dr_tenants d' = dr_tenants d \<and> dr_workers d' = dr_workers d \<and> dr_running d' = dr_running d \<and>
     dr_subs d' = dr_subs d \<and> dr_listening d' = dr_listening d \<and> dr_open d' = dr_open d \<and>
     (dr_registry d' = None \<longleftrightarrow> dr_registry d = None) \<and> dr_next d \<le> dr_next d'"

lemma same_topology_ok: "same_topology d d' \<Longrightarrow> topology_ok d \<Longrightarrow> topology_ok d'"
  by (fastforce simp: same_topology_def topology_ok_def tenants_ok_def workers_ok_def subs_ok_def open_ok_def
      elim: table_ok_mono)

text \<open>A tenant the daemon does not serve, under neither of its names.\<close>

definition unserved :: "tenant \<Rightarrow> daemon \<Rightarrow> bool" where
  "unserved t d \<longleftrightarrow> (\<forall>c \<in> snd ` set (dr_tenants d).
     tn_DBName (tc_tenant c) \<noteq> tn_DBName t \<and> tn_TenantKey (tc_tenant c) \<noteq> tn_TenantKey t)"

definition starts :: "daemon_env \<Rightarrow> tenant \<Rightarrow> bool" where
  "starts env t \<longleftrightarrow> (tn_ZATCAEnv t \<noteq> [] \<longrightarrow> tn_ZATCAEnv t \<in> {Sandbox, Simulation, Production}) \<and>
     en_openDB env t = None \<and> en_preflight env t = None \<and> en_subOnboard env t = None \<and> en_subReconcile env t = None"

definition new_env :: "tenant \<Rightarrow> string" where
  "new_env t = (if tn_ZATCAEnv t \<noteq> [] then tn_ZATCAEnv t else Sandbox)"

text \<open>The three ways out of \<open>addTenant\<close>.\<close>

lemma addTenant_cases:
  obtains (served) "starts env t" "addTenant env t d = (None, subscribed t (opened t (new_ctx env (new_env t) t d) d))"
  | (refused) e where "\<not> starts env t" "addTenant env t d = (Some e, d)"
  | (undone) e d' where "\<not> starts env t" "addTenant env t d = (Some e, removeTenant (tn_DBName t) d')"
      "same_topology (opened t (new_ctx env (new_env t) t d) d) d'"
proof -
  let ?d = "opened t (new_ctx env (new_env t) t d) d"
  have same: "same_topology ?d ?d" "same_topology ?d (?d\<lparr>dr_next := Suc (dr_next ?d)\<rparr>)"
    by (simp_all add: same_topology_def)
  show ?thesis
  proof (cases "(tn_ZATCAEnv t \<noteq> [] \<longrightarrow> tn_ZATCAEnv t \<in> {Sandbox, Simulation, Production}) \<and>
      en_openDB env t = None \<and> en_preflight env t = None")
    case False
    then have "\<not> starts env t" "\<exists>e. addTenant env t d = (Some e, d)"
      by (auto simp: starts_def addTenant_def ParseEnv_def split: option.split)
    then show ?thesis
      using refused by blast
  next
    case True
    then have "(if tn_ZATCAEnv t \<noteq> [] then ParseEnv (tn_ZATCAEnv t) else Inr Sandbox) = Inr (new_env t)"
      by (auto simp: ParseEnv_def new_env_def)
    with True show ?thesis
      using same by (cases "en_subOnboard env t"; cases "en_subReconcile env t")
        (simp_all add: addTenant_def starts_def Let_def served undone)
  qed
qed

lemma unserved_fresh:
  assumes "topology_ok d" and "unserved t d"
  shows "tn_DBName t \<notin> fst ` set (dr_tenants d)" and "''onboard:'' @ tn_DBName t \<notin> fst ` set (dr_subs d)"
    and "''reconcile:'' @ tn_TenantKey t \<notin> fst ` set (dr_subs d)"
proof -
  show "tn_DBName t \<notin> fst ` set (dr_tenants d)"
    using assms unfolding topology_ok_def tenants_ok_def unserved_def by fastforce
  show "''onboard:'' @ tn_DBName t \<notin> fst ` set (dr_subs d)" "''reconcile:'' @ tn_TenantKey t \<notin> fst ` set (dr_subs d)"
    using assms unfolding topology_ok_def subs_ok_def unserved_def owned_def by fastforce+
qed

lemma new_ctx_fields [simp]: "tc_id (new_ctx env z t d) = dr_next d" "tc_tenant (new_ctx env z t d) = t"
  by (simp_all add: new_ctx_def)

lemma opened_fields:
  assumes "topology_ok d" and "unserved t d"
  shows "dr_tenants (opened t tc d) = dr_tenants d @ [(tn_DBName t, tc)]" and "dr_next (opened t tc d) = Suc (tc_id tc)"
    and "dr_open (opened t tc d) = (tc_id tc, False) # (if tc_adminDB tc then [(tc_id tc, True)] else []) @ dr_open d"
    and "dr_workers (opened t tc d) = dr_workers d" and "dr_running (opened t tc d) = dr_running d"
    and "dr_subs (opened t tc d) = dr_subs d" and "dr_listening (opened t tc d) = dr_listening d"
    and "dr_registry (opened t tc d) = dr_registry d" and "dr_cancelled (opened t tc d) = dr_cancelled d"
  using unserved_fresh [OF assms] by (simp_all add: opened_def)

lemma subscribed_fields [simp]:
  "dr_tenants (subscribed t d) = dr_tenants d" "dr_workers (subscribed t d) = dr_workers d"
  "dr_running (subscribed t d) = dr_running d" "dr_open (subscribed t d) = dr_open d"
  "dr_registry (subscribed t d) = dr_registry d" "dr_cancelled (subscribed t d) = dr_cancelled d"
  "dr_next (subscribed t d) = Suc (Suc (dr_next d))"
  by (simp_all add: subscribed_def)

lemma subscribed_subs:
  assumes "table_ok n (dr_subs d) (dr_listening d)" and "n \<le> dr_next d"
    and "''onboard:'' @ tn_DBName t \<notin> fst ` set (dr_subs d)" and "''reconcile:'' @ tn_TenantKey t \<notin> fst ` set (dr_subs d)"
  shows "table_ok (dr_next (subscribed t d)) (dr_subs (subscribed t d)) (dr_listening (subscribed t d))"
    and "live_in (dr_subs d) (dr_listening d) key \<Longrightarrow> live_in (dr_subs (subscribed t d)) (dr_listening (subscribed t d)) key"
    and "tc_tenant c = t \<Longrightarrow> owned c key \<Longrightarrow> live_in (dr_subs (subscribed t d)) (dr_listening (subscribed t d)) key"
  using assms
  by (auto simp: subscribed_def table_ok_def live_in_def owned_def map_add_Some_iff map_of_eq_None_iff)

lemma served_ok:
  assumes "topology_ok d" and "unserved t d"
  shows "topology_ok (subscribed t (opened t (new_ctx env z t d) d))" (is "topology_ok (subscribed t ?d)")
proof -
  note ok = assms(1) [unfolded topology_ok_def] and new = unserved_fresh [OF assms] and opens = opened_fields [OF assms]
  have "tenants_ok (subscribed t ?d)"
    using ok assms(2) new(1) by (fastforce simp: tenants_ok_def opens unserved_def)
  moreover have "workers_ok (subscribed t ?d)"
    using ok by (fastforce simp: workers_ok_def opens elim: table_ok_mono)
  moreover have "open_ok (subscribed t ?d)"
    using ok by (auto simp: open_ok_def opens)
  moreover have "subs_ok (subscribed t ?d)"
  proof -
    have table: "table_ok (dr_next d) (dr_subs ?d) (dr_listening ?d)" "dr_next d \<le> dr_next ?d"
      using ok by (simp_all add: subs_ok_def opens)
    note subs = subscribed_subs [OF table, of t, unfolded opens(6), OF new(2,3)]
    show ?thesis
      unfolding subs_ok_def
    proof (intro conjI ballI allI impI)
      show "table_ok (dr_next (subscribed t ?d)) (dr_subs (subscribed t ?d)) (dr_listening (subscribed t ?d))"
        by (rule subs(1))
      show "\<exists>c \<in> snd ` set (dr_tenants (subscribed t ?d)). owned c key" if "key \<in> fst ` set (dr_subs (subscribed t ?d))" for key
        using that ok new(2,3) by (auto simp: subscribed_def opens subs_ok_def owned_def)
      show "live_in (dr_subs (subscribed t ?d)) (dr_listening (subscribed t ?d)) key"
        if "c \<in> snd ` set (dr_tenants (subscribed t ?d))" "owned c key" for c key
        using that ok subs(2) [of key] subs(3) [of c key] by (auto simp: opens subs_ok_def)
    qed
  qed
  ultimately show ?thesis
    using ok by (simp add: topology_ok_def opens)
qed

lemma undone_same:
  assumes "topology_ok d" and "unserved t d" and "same_topology (opened t (new_ctx env z t d) d) d'"
  shows "same_topology (removeTenant (tn_DBName t) d) (removeTenant (tn_DBName t) d')"
    and "dr_tenants (removeTenant (tn_DBName t) d') = dr_tenants d"
proof -
  note ok = assms(1) [unfolded topology_ok_def] and new = unserved_fresh [OF assms(1,2)] and opens = opened_fields [OF assms(1,2)]
  note same = assms(3) [unfolded same_topology_def opens]
  have none: "map_of (dr_tenants d) (tn_DBName t) = None"
    using new(1) by (simp add: map_of_eq_None_iff)
  then have look: "map_of (dr_tenants d') (tn_DBName t) = Some (new_ctx env z t d)"
    using same by (simp add: map_add_def)
  have left: "left_out (tn_DBName t) d' = (\<lambda>key. key = ''onboard:'' @ tn_DBName t \<or> key = ''reconcile:'' @ tn_TenantKey t)"
    by (auto simp: left_out_def look fun_eq_iff)
  then have subs: "filter (\<lambda>p. left_out (tn_DBName t) d' (fst p)) (dr_subs d) = []"
    "filter (\<lambda>p. \<not> left_out (tn_DBName t) d' (fst p)) (dr_subs d) = dr_subs d"
    using new(2,3) by (auto simp: filter_empty_conv filter_id_conv image_iff)
  have "\<forall>h \<in> set (dr_open d). fst h < dr_next d"
    using ok unfolding open_ok_def tenants_ok_def by fastforce
  then have opens': "filter (\<lambda>h. fst h \<noteq> dr_next d) (dr_open d) = dr_open d"
    by (auto simp: filter_id_conv)
  have tenants: "filter (\<lambda>p. fst p \<noteq> tn_DBName t) (dr_tenants d) = dr_tenants d"
    using new(1) by (auto simp: filter_id_conv image_iff)
  have left_d: "left_out (tn_DBName t) d = (\<lambda>key. False)"
    by (simp add: left_out_def none fun_eq_iff)
  show "same_topology (removeTenant (tn_DBName t) d) (removeTenant (tn_DBName t) d')"
    unfolding same_topology_def removeTenant_fields look none left_d
    using same subs opens' tenants by simp
  show "dr_tenants (removeTenant (tn_DBName t) d') = dr_tenants d"
    using same tenants by (simp add: removeTenant_fields)
qed

lemma addTenant_ok:
  assumes "topology_ok d" and "unserved t d"
  shows "topology_ok (snd (addTenant env t d))"
proof (cases rule: addTenant_cases [of env t d])
  case (undone e d')
  then show ?thesis
    using same_topology_ok [OF undone_same(1) [OF assms undone(3)] removeTenant_ok [OF assms(1)]] by simp
qed (use assms served_ok in simp_all)

lemma addTenant_tenants:
  assumes "topology_ok d" and "unserved t d"
  shows "fst (addTenant env t d) = None \<longleftrightarrow> starts env t"
    and "tc_tenant ` snd ` set (dr_tenants (snd (addTenant env t d))) =
      tc_tenant ` snd ` set (dr_tenants d) \<union> (if starts env t then {t} else {})"
  using undone_same(2) [OF assms]
  by (cases rule: addTenant_cases [of env t d]; simp add: opened_fields [OF assms])+

end
