(* ===== verification/Topology_Runs.thy ===== *)
theory Topology_Runs
  imports Topology_Laws
begin

text \<open>
  Whole reconciliations: what they keep (a locale, for every property its three phases keep), what
  they reach, and what stopping the daemon leaves behind.
\<close>

section \<open>Branches of one tenant\<close>

lemma branchKey_eq [simp]: "branchKey db b = branchKey db' b' \<longleftrightarrow> db = db' \<and> b = b'"
proof
  assume eq: "branchKey db b = branchKey db' b'"
  then have "show_int b = show_int b'"
    by (metis after_last_colon_key)
  with eq show "db = db' \<and> b = b'"
    by (simp add: branchKey_def)
qed simp

abbreviation ctxs :: "daemon \<Rightarrow> tenantCtx set" where
  "ctxs d \<equiv> snd ` set (dr_tenants d)"

definition tenants_of :: "daemon \<Rightarrow> tenant set" where
  "tenants_of d = tc_tenant ` ctxs d"

text \<open>A snapshot of a context: the same object, perhaps with an older set of expected branches.\<close>

definition served_as :: "daemon \<Rightarrow> tenantCtx \<Rightarrow> bool" where
  "served_as d tc \<longleftrightarrow> (\<exists>c \<in> ctxs d. tc_id c = tc_id tc \<and> tc_tenant c = tc_tenant tc)"

definition branches_int64 :: "daemon_env \<Rightarrow> bool" where
  "branches_int64 env \<longleftrightarrow> (\<forall>t bs. QueryActiveBranches (en_branches env t) = Inr bs \<longrightarrow> (\<forall>b \<in> set bs. int64 b))"

lemma fold_startBranch_fields [simp]:
  "dr_tenants (fold (startBranch tc db) bs d) = dr_tenants d" "dr_registry (fold (startBranch tc db) bs d) = dr_registry d"
  "dr_cancelled (fold (startBranch tc db) bs d) = dr_cancelled d"
  by (induction bs arbitrary: d) simp_all

lemma fold_startBranch_ok:
  "topology_ok d \<Longrightarrow> \<forall>b \<in> set bs. int64 b \<Longrightarrow> topology_ok (fold (startBranch tc db) bs d)"
  by (induction bs arbitrary: d) (simp_all add: startBranch_ok)

lemma fold_startBranch_workers:
  assumes "map_of (dr_tenants d) db = Some c" and "tc_id c = tc_id tc"
  shows "fst ` set (dr_workers (fold (startBranch tc db) bs d)) = fst ` set (dr_workers d) \<union> branchKey db ` set bs"
  using assms by (induction bs arbitrary: d) (simp_all add: startBranch_workers)

lemma set_expected_fields [simp]: "tc_id (set_expected n bs c) = tc_id c" "tc_tenant (set_expected n bs c) = tc_tenant c"
  by (simp_all add: set_expected_def)

lemma owned_expected [simp]: "owned (set_expected n bs c) key = owned c key"
  by (simp add: owned_def)

lemma expect_branches_fields [simp]:
  "dr_workers (expect_branches tc bs d) = dr_workers d" "dr_running (expect_branches tc bs d) = dr_running d"
  "dr_subs (expect_branches tc bs d) = dr_subs d" "dr_listening (expect_branches tc bs d) = dr_listening d"
  "dr_open (expect_branches tc bs d) = dr_open d" "dr_registry (expect_branches tc bs d) = dr_registry d"
  "dr_next (expect_branches tc bs d) = dr_next d" "dr_cancelled (expect_branches tc bs d) = dr_cancelled d"
  "fst ` set (dr_tenants (expect_branches tc bs d)) = fst ` set (dr_tenants d)"
  "ctxs (expect_branches tc bs d) = set_expected (tc_id tc) (remdups bs) ` ctxs d"
  by (simp_all add: expect_branches_def image_image case_prod_unfold)

lemma tenants_of_fields [simp]:
  "tenants_of (stop_workers db P d) = tenants_of d" "served_as (stop_workers db P d) tc = served_as d tc"
  "tenants_of (fold (startBranch tc' db) bs d) = tenants_of d" "served_as (fold (startBranch tc' db) bs d) tc = served_as d tc"
  "tenants_of (expect_branches tc' bs d) = tenants_of d" "served_as (expect_branches tc' bs d) tc = served_as d tc"
  unfolding tenants_of_def served_as_def expect_branches_fields by (simp_all add: image_image)

lemma expect_branches_ok:
  assumes "topology_ok d"
  shows "topology_ok (expect_branches tc bs d)"
proof -
  have "tenants_ok (expect_branches tc bs d)"
    using assms unfolding topology_ok_def tenants_ok_def
    by (auto simp: expect_branches_def comp_def case_prod_unfold)
  then show ?thesis
    using assms by (auto simp: topology_ok_def workers_ok_def subs_ok_def open_ok_def)
qed

lemma stop_workers_ok: "topology_ok d \<Longrightarrow> topology_ok (stop_workers db P d)"
  using stop_workers_table [of d] by (auto simp: topology_ok_def tenants_ok_def workers_ok_def subs_ok_def open_ok_def)

lemma reconcileBranches_ok:
  assumes "topology_ok d" and "branches_int64 env"
  shows "topology_ok (snd (reconcileBranches env tc d))"
  using assms
  by (auto simp: reconcileBranches_def Let_def branches_int64_def
      intro!: stop_workers_ok expect_branches_ok fold_startBranch_ok split: sum.split)

lemma reconcileBranches_fields [simp]:
  "dr_cancelled (snd (reconcileBranches env tc d)) = dr_cancelled d"
  "fst (reconcileBranches env tc d) = None \<longleftrightarrow> (\<exists>bs. QueryActiveBranches (en_branches env (tc_tenant tc)) = Inr bs)"
  "tenants_of (snd (reconcileBranches env tc d)) = tenants_of d"
  "served_as (snd (reconcileBranches env tc d)) tc' \<longleftrightarrow> served_as d tc'"
  by (auto simp: reconcileBranches_def Let_def split: sum.split)

text \<open>The branches of a database that have a worker.\<close>

definition branches_at :: "daemon \<Rightarrow> string \<Rightarrow> int set" where
  "branches_at d db = {b. branchKey db b \<in> fst ` set (dr_workers d)}"

lemma branches_at_stop: "branches_at (stop_workers db' P d) db = {b \<in> branches_at d db. \<not> P (branchKey db b)}"
  by (force simp: branches_at_def)

lemma branches_at_expect [simp]: "branches_at (expect_branches tc bs d) db = branches_at d db"
  by (simp add: branches_at_def)

lemma reconcileBranches_branches:
  assumes "topology_ok d" and "served_as d tc" and "colon_free db" and "colon_free (tn_DBName (tc_tenant tc))"
    and "branches_int64 env" and "QueryActiveBranches (en_branches env (tc_tenant tc)) = Inr bs"
  shows "branches_at (snd (reconcileBranches env tc d)) db =
    (if db = tn_DBName (tc_tenant tc) then set bs else branches_at d db)"
proof -
  let ?db = "tn_DBName (tc_tenant tc)"
  let ?d = "fold (startBranch tc ?db) bs d"
  obtain c where "map_of (dr_tenants d) ?db = Some c" "tc_id c = tc_id tc"
    using assms(1,2) ctx_lookup unfolding served_as_def topology_ok_def by metis
  note keys = fold_startBranch_workers [OF this, of bs]
  have valid: "int64 b" if "b \<in> set bs" for b
    using assms(5,6) that unfolding branches_int64_def by blast
  have "topology_ok ?d"
    using fold_startBranch_ok [OF assms(1)] valid by blast
  then have known: "int64 b" if "b \<in> branches_at ?d ?db" for b
    using that unfolding topology_ok_def workers_ok_def branches_at_def by fastforce
  have "branches_at (snd (reconcileBranches env tc d)) db =
      {b \<in> branches_at ?d db. \<not> (db = ?db \<and> branchIDFromKey (branchKey db b) \<notin> set bs)}"
    using assms(3,4,6) by (simp add: branches_at_stop reconcileBranches_def Let_def)
  also have "\<dots> = (if db = ?db then set bs else branches_at d db)"
  proof -
    have at: "branches_at ?d db = branches_at d db \<union> (if db = ?db then set bs else {})"
      using keys by (auto simp: branches_at_def)
    show ?thesis
    proof (cases "db = ?db")
      case True
      then have "branchIDFromKey (branchKey db b) = b" if "b \<in> branches_at ?d db" for b
        using that known by simp
      then show ?thesis
        using True at by auto
    qed (use at in auto)
  qed
  finally show ?thesis .
qed

section \<open>All tenants\<close>

definition stale_step :: "tenant list \<Rightarrow> string \<times> tenantCtx \<Rightarrow> daemon \<Rightarrow> daemon" where
  "stale_step ts p d = (if tc_tenant (snd p) \<in> set ts then d else removeTenant (fst p) d)"

lemma drop_stale_fold:
  assumes "tenants_ok d" and "distinct (map tn_DBName ts)"
  shows "drop_stale ts d = fold (stale_step ts) (dr_tenants d) d"
  unfolding drop_stale_def Let_def
proof (rule fold_cong [OF refl refl])
  fix p
  assume "p \<in> set (dr_tenants d)"
  then have "tn_DBName (tc_tenant (snd p)) = fst p"
    using assms(1) by (auto simp: tenants_ok_def)
  then show "(case p of (dbName, tc) \<Rightarrow> \<lambda>d. case map_of (fold (\<lambda>t. AList.update (tn_DBName t) t) ts []) dbName of
        None \<Rightarrow> removeTenant dbName d
      | Some target \<Rightarrow> (if tn_TenantKey target \<noteq> tn_TenantKey (tc_tenant tc) then removeTenant dbName d
          else if tc_tenant tc \<noteq> target then removeTenant dbName d else d)) = stale_step ts p"
    using map_of_keyed [OF assms(2), of "fst p" "tc_tenant (snd p)"]
    by (cases "map_of (map (\<lambda>t. (tn_DBName t, t)) ts) (fst p)")
      (auto simp: fold_update_keyed [OF assms(2)] stale_step_def fun_eq_iff case_prod_unfold)
qed

text \<open>What the phases of a reconciliation keep, they keep together.\<close>

locale topology_property =
  fixes Q :: "daemon \<Rightarrow> bool" and env :: daemon_env and ts :: "tenant list"
  assumes ok: "Q d \<Longrightarrow> topology_ok d"
    and stale: "Q d \<Longrightarrow> map_of (dr_tenants d) db = Some c \<Longrightarrow> tc_tenant c \<notin> set ts \<Longrightarrow> Q (removeTenant db d)"
    and added: "Q d \<Longrightarrow> t \<in> set ts \<Longrightarrow> unserved t d \<Longrightarrow> Q (snd (addTenant env t d))"
    and branches: "Q d \<Longrightarrow> served_as d tc \<Longrightarrow> Q (snd (reconcileBranches env tc d))"
    and registry: "Q d \<Longrightarrow> Q (d\<lparr>dr_registry := Some r\<rparr>)"
    and noting: "Q d \<Longrightarrow> Q (snd (noted env e d))"
begin

lemma fold_stale:
  assumes "Q d" and "set l \<subseteq> set (dr_tenants d)" and "distinct (map fst l)"
  shows "Q (fold (stale_step ts) l d) \<and>
    dr_tenants (fold (stale_step ts) l d) =
      filter (\<lambda>p. tc_tenant (snd p) \<in> set ts \<or> fst p \<notin> fst ` set l) (dr_tenants d)"
  using assms
proof (induction l arbitrary: d)
  case (Cons p l)
  have look: "map_of (dr_tenants d) (fst p) = Some (snd p)"
    using Cons.prems(1,2) ok [of d] by (simp add: topology_ok_def tenants_ok_def)
  have only: "q = p" if "q \<in> set (dr_tenants d)" "fst q = fst p" for q
    using that Cons.prems(1,2) ok [of d] unfolding topology_ok_def tenants_ok_def distinct_map inj_on_def by auto
  show ?case
  proof (cases "tc_tenant (snd p) \<in> set ts")
    case True
    then have "filter (\<lambda>q. tc_tenant (snd q) \<in> set ts \<or> fst q \<notin> fst ` set l) (dr_tenants d) =
        filter (\<lambda>q. tc_tenant (snd q) \<in> set ts \<or> fst q \<notin> fst ` set (p # l)) (dr_tenants d)"
      using only by (auto intro!: filter_cong)
    then show ?thesis
      using True Cons.IH [OF Cons.prems(1)] Cons.prems by (simp add: stale_step_def [of ts p])
  next
    case False
    let ?d = "removeTenant (fst p) d"
    have sub: "set l \<subseteq> set (dr_tenants ?d)"
      using Cons.prems(2,3) by (auto simp: removeTenant_fields image_iff)
    have "Q (fold (stale_step ts) l ?d) \<and> dr_tenants (fold (stale_step ts) l ?d) =
        filter (\<lambda>q. tc_tenant (snd q) \<in> set ts \<or> fst q \<notin> fst ` set l) (dr_tenants ?d)"
      using Cons.IH [OF stale [OF Cons.prems(1) look False] sub] Cons.prems(3) by simp
    moreover have "filter (\<lambda>q. tc_tenant (snd q) \<in> set ts \<or> fst q \<notin> fst ` set l) (dr_tenants ?d) =
        filter (\<lambda>q. tc_tenant (snd q) \<in> set ts \<or> fst q \<notin> fst ` set (p # l)) (dr_tenants d)"
      using only False by (auto simp: removeTenant_fields intro!: filter_cong)
    ultimately show ?thesis
      using False by (simp add: stale_step_def [of ts p])
  qed
qed (auto simp: filter_id_conv)

lemma served_or_not:
  assumes "topology_ok d" and "tenants_of d \<subseteq> set ts" and "distinct (map tn_DBName ts)" and "distinct (map tn_TenantKey ts)"
    and "t \<in> set ts"
  shows "map_of (dr_tenants d) (tn_DBName t) = None \<longleftrightarrow> t \<notin> tenants_of d"
    and "t \<notin> tenants_of d \<Longrightarrow> unserved t d"
proof -
  have same: "u = t" if "u \<in> tenants_of d" "tn_DBName u = tn_DBName t \<or> tn_TenantKey u = tn_TenantKey t" for u
    using that assms(2-5) unfolding distinct_map inj_on_def by blast
  have "tenants_ok d"
    using assms(1) by (simp add: topology_ok_def)
  note look = ctx_lookup [OF this, of "tn_DBName t"]
  have "(\<exists>c. map_of (dr_tenants d) (tn_DBName t) = Some c) \<longleftrightarrow> t \<in> tenants_of d"
  proof
    assume "\<exists>c. map_of (dr_tenants d) (tn_DBName t) = Some c"
    then obtain c where "c \<in> ctxs d" "tn_DBName (tc_tenant c) = tn_DBName t"
      using look by blast
    then show "t \<in> tenants_of d"
      using same [of "tc_tenant c"] by (auto simp: tenants_of_def)
  next
    assume "t \<in> tenants_of d"
    then show "\<exists>c. map_of (dr_tenants d) (tn_DBName t) = Some c"
      using look unfolding tenants_of_def by blast
  qed
  then show "map_of (dr_tenants d) (tn_DBName t) = None \<longleftrightarrow> t \<notin> tenants_of d"
    by auto
  show "unserved t d" if "t \<notin> tenants_of d"
    using that same unfolding unserved_def tenants_of_def by blast
qed

lemma add_missing_run:
  assumes "Q d" and "tenants_of d \<subseteq> set ts" and "distinct (map tn_DBName ts)" and "distinct (map tn_TenantKey ts)"
    and "set l \<subseteq> set ts"
  shows "Q (snd (add_missing env l d)) \<and>
    tenants_of (snd (add_missing env l d)) = tenants_of d \<union> {t \<in> set l. starts env t} \<and>
    (fst (add_missing env l d) = [] \<longleftrightarrow> (\<forall>t \<in> set l. t \<in> tenants_of d \<or> starts env t))"
  using assms(1,2,5)
proof (induction l arbitrary: d)
  case (Cons t l)
  note state = served_or_not [OF ok [OF Cons.prems(1)] Cons.prems(2) assms(3,4), of t]
  show ?case
  proof (cases "t \<in> tenants_of d")
    case True
    then show ?thesis
      using Cons.IH [OF Cons.prems(1,2)] Cons.prems(3) state by auto
  next
    case False
    obtain e d1 where add: "addTenant env t d = (e, d1)"
      by fastforce
    note free = state(2) [OF _ False] 
    have step: "Q d1" "e = None \<longleftrightarrow> starts env t" "tenants_of d1 = tenants_of d \<union> (if starts env t then {t} else {})"
      using added [OF Cons.prems(1) _ free] addTenant_tenants [OF ok [OF Cons.prems(1)] free, of env] Cons.prems(3) add
      by (simp_all add: tenants_of_def)
    have rest: "set l \<subseteq> set ts" "tenants_of d1 \<subseteq> set ts"
      using step(3) Cons.prems(2,3) by auto
    show ?thesis
      using Cons.IH [OF step(1) rest(2,1)] step(2,3) False state(1) Cons.prems(3) add
      by (auto split: option.split)
  qed
qed simp

lemma all_branches_run:
  assumes "Q d" and "\<forall>tc \<in> set tcs. served_as d tc"
  shows "Q (snd (all_branches env tcs d)) \<and> tenants_of (snd (all_branches env tcs d)) = tenants_of d \<and>
    (fst (all_branches env tcs d) = [] \<longleftrightarrow>
       (\<forall>tc \<in> set tcs. \<exists>bs. QueryActiveBranches (en_branches env (tc_tenant tc)) = Inr bs))"
  using assms
proof (induction tcs arbitrary: d)
  case (Cons tc tcs)
  obtain e d1 where one: "reconcileBranches env tc d = (e, d1)"
    by fastforce
  have "Q d1" "\<forall>tc \<in> set tcs. served_as d1 tc" "tenants_of d1 = tenants_of d"
    "e = None \<longleftrightarrow> (\<exists>bs. QueryActiveBranches (en_branches env (tc_tenant tc)) = Inr bs)"
    using branches [OF Cons.prems(1), of tc] reconcileBranches_fields(2-4) [where env = env and tc = tc and d = d] Cons.prems(2) one
    by simp_all
  with Cons.IH [of d1] one show ?case
    by (auto split: option.split)
qed simp

text \<open>The whole reconciliation, for a registry that answers \<open>ts\<close>.\<close>

lemma reconcile_phases:
  assumes "Q d" and "LoadAllContext (en_master env) = Inr ts"
  obtains d2 f where "Q d2" and "tenants_of d2 = {t \<in> set ts. t \<in> tenants_of d \<or> starts env t}"
    and "f = [] \<longleftrightarrow> (\<forall>t \<in> set ts. t \<in> tenants_of d \<or> starts env t)"
    and "reconcile env d =
      noted env (join_errs (f @ fst (all_branches env (map snd (dr_tenants d2)) d2)))
        (snd (all_branches env (map snd (dr_tenants d2)) d2))"
proof -
  have valid: "ValidateAll ts = None"
    using assms(2) by (auto simp: LoadAllContext_def split: option.splits sum.splits prod.splits)
  then have names: "distinct (map tn_DBName ts)" "distinct (map tn_TenantKey ts)"
    by (simp_all add: ValidateAll_None)
  from ok [OF assms(1)] obtain r where "dr_registry d = Some r"
    by (auto simp: topology_ok_def)
  then obtain res r' where reg: "registry_Reconcile ts (dr_registry d) = (Inr res, Some r')"
    using valid by (simp add: registry_Reconcile_def Let_def)
  let ?d = "d\<lparr>dr_registry := Some r'\<rparr>"
  have "Q ?d"
    by (rule registry [OF assms(1)])
  then have stale: "Q (drop_stale ts ?d)" "tenants_of (drop_stale ts ?d) = {t \<in> set ts. t \<in> tenants_of d}"
    using fold_stale [of ?d "dr_tenants ?d"] ok [of ?d] drop_stale_fold [OF _ names(1), of ?d]
    by (auto simp: topology_ok_def tenants_ok_def tenants_of_def image_iff)
  obtain f d2 where add: "add_missing env ts (drop_stale ts ?d) = (f, d2)"
    by fastforce
  show ?thesis
  proof (rule that)
    show "Q d2" "tenants_of d2 = {t \<in> set ts. t \<in> tenants_of d \<or> starts env t}"
      "f = [] \<longleftrightarrow> (\<forall>t \<in> set ts. t \<in> tenants_of d \<or> starts env t)"
      using add_missing_run [OF stale(1) _ names, of ts] stale(2) add by auto
    show "reconcile env d =
      noted env (join_errs (f @ fst (all_branches env (map snd (dr_tenants d2)) d2)))
        (snd (all_branches env (map snd (dr_tenants d2)) d2))"
      using assms(2) reg add by (simp add: reconcile_def case_prod_unfold Let_def)
  qed
qed

lemma reconcile_run:
  assumes "Q d" and "LoadAllContext (en_master env) = Inr ts"
  shows "Q (snd (reconcile env d)) \<and>
    tenants_of (snd (reconcile env d)) = {t \<in> set ts. t \<in> tenants_of d \<or> starts env t} \<and>
    (fst (reconcile env d) = None \<longleftrightarrow>
       (\<forall>t \<in> set ts. (t \<in> tenants_of d \<or> starts env t) \<and> (\<exists>bs. QueryActiveBranches (en_branches env t) = Inr bs)))"
proof -
  obtain d2 f where d2: "Q d2" "tenants_of d2 = {t \<in> set ts. t \<in> tenants_of d \<or> starts env t}"
    "f = [] \<longleftrightarrow> (\<forall>t \<in> set ts. t \<in> tenants_of d \<or> starts env t)"
    "reconcile env d = noted env (join_errs (f @ fst (all_branches env (map snd (dr_tenants d2)) d2)))
        (snd (all_branches env (map snd (dr_tenants d2)) d2))"
    by (rule reconcile_phases [OF assms])
  obtain f2 d3 where last: "all_branches env (map snd (dr_tenants d2)) d2 = (f2, d3)"
    by fastforce
  have all: "\<forall>tc \<in> set (map snd (dr_tenants d2)). served_as d2 tc"
    by (auto simp: served_as_def)
  have settled: "Q d3" "tenants_of d3 = tenants_of d2"
    "f2 = [] \<longleftrightarrow> (\<forall>t \<in> tenants_of d2. \<exists>bs. QueryActiveBranches (en_branches env t) = Inr bs)"
    using all_branches_run [OF d2(1) all] last by (simp_all add: tenants_of_def [of d2])
  have "tenants_of (snd (noted env e d3)) = tenants_of d3" "fst (noted env e d3) = e" for e
    by (simp_all add: noted_def tenants_of_def)
  moreover have "join_errs es = None \<longleftrightarrow> es = []" for es
    by (cases es rule: join_errs.cases) simp_all
  ultimately show ?thesis
    using noting [OF settled(1)] settled(2,3) d2(2-4) last by auto
qed

end

section \<open>What a reconciliation keeps\<close>

lemma noted_fields [simp]:
  "dr_tenants (snd (noted env e d)) = dr_tenants d" "dr_workers (snd (noted env e d)) = dr_workers d"
  "dr_running (snd (noted env e d)) = dr_running d" "dr_cancelled (snd (noted env e d)) = dr_cancelled d"
  "dr_lastReconcileAt (snd (noted env e d)) = Some (en_now env)" "dr_lastReconcileErr (snd (noted env e d)) = e"
  by (simp_all add: noted_def)

lemma noted_ok [simp]: "topology_ok (snd (noted env e d)) = topology_ok d"
  by (simp add: noted_def topology_ok_def tenants_ok_def workers_ok_def subs_ok_def open_ok_def)

lemma registry_ok: "topology_ok d \<Longrightarrow> topology_ok (d\<lparr>dr_registry := Some r\<rparr>)"
  by (simp add: topology_ok_def tenants_ok_def workers_ok_def subs_ok_def open_ok_def)

definition wellformed :: "daemon_env \<Rightarrow> daemon \<Rightarrow> bool" where
  "wellformed env d \<longleftrightarrow> topology_ok d \<and> branches_int64 env"

interpretation wf: topology_property "wellformed env" env ts for env ts
  by unfold_locales (auto simp: wellformed_def removeTenant_ok addTenant_ok reconcileBranches_ok registry_ok)

text \<open>No worker has ended by itself.\<close>

definition all_live :: "(string \<times> nat) list \<Rightarrow> nat list \<Rightarrow> bool" where
  "all_live table live \<longleftrightarrow> (\<forall>p \<in> set table. snd p \<in> set live)"

abbreviation all_running :: "daemon \<Rightarrow> bool" where
  "all_running d \<equiv> all_live (dr_workers d) (dr_running d)"

lemma filter_all_live:
  assumes "table_ok n table live" and "all_live table live"
  shows "all_live (filter (\<lambda>p. \<not> P (fst p)) table)
    (filter (\<lambda>i. i \<notin> snd ` set (filter (\<lambda>p. P (fst p)) table)) live)"
  using assms unfolding table_ok_def distinct_map inj_on_def all_live_def by fastforce

lemma workers_table: "topology_ok d \<Longrightarrow> table_ok (dr_next d) (dr_workers d) (dr_running d)"
  by (simp add: topology_ok_def workers_ok_def)

lemma remove_running: "topology_ok d \<Longrightarrow> all_running d \<Longrightarrow> all_running (removeTenant db d)"
  unfolding removeTenant_fields by (rule filter_all_live [OF workers_table])

lemma stop_running: "topology_ok d \<Longrightarrow> all_running d \<Longrightarrow> all_running (stop_workers db P d)"
  using filter_all_live [OF workers_table] by (simp add: stop_workers_def Let_def)

lemma startBranch_running: "all_running d \<Longrightarrow> all_running (startBranch tc db b d)"
  by (auto simp: all_live_def startBranch_def Let_def map_of_eq_None_iff split: option.split)

lemma fold_startBranch_running: "all_running d \<Longrightarrow> all_running (fold (startBranch tc db) bs d)"
  by (induction bs arbitrary: d) (simp_all add: startBranch_running)

lemma reconcileBranches_running:
  assumes "topology_ok d" and "branches_int64 env" and "all_running d"
  shows "all_running (snd (reconcileBranches env tc d))"
proof (cases "QueryActiveBranches (en_branches env (tc_tenant tc))")
  case (Inr bs)
  let ?d = "fold (startBranch tc (tn_DBName (tc_tenant tc))) bs d"
  have "topology_ok (expect_branches tc bs ?d)"
    using assms(1,2) Inr by (auto simp: branches_int64_def intro!: expect_branches_ok fold_startBranch_ok)
  from stop_running [OF this] fold_startBranch_running [OF assms(3)] show ?thesis
    by (simp add: reconcileBranches_def Let_def Inr del: stop_workers_fields)
qed (use assms in \<open>simp add: reconcileBranches_def\<close>)

lemma addTenant_running:
  assumes "topology_ok d" and "unserved t d" and "all_running d"
  shows "all_running (snd (addTenant env t d))"
proof (cases rule: addTenant_cases [of env t d])
  case (undone e d')
  then show ?thesis
    using undone_same(1) [OF assms(1,2) undone(3)] remove_running [OF assms(1,3)]
    by (simp add: same_topology_def)
qed (use assms opened_fields in auto)

definition alive :: "daemon_env \<Rightarrow> daemon \<Rightarrow> bool" where
  "alive env d \<longleftrightarrow> topology_ok d \<and> branches_int64 env \<and> all_running d"

interpretation live: topology_property "alive env" env ts for env ts
  by unfold_locales (simp_all add: alive_def removeTenant_ok addTenant_ok reconcileBranches_ok registry_ok remove_running
      addTenant_running reconcileBranches_running noted_fields)

section \<open>What a reconciliation reaches\<close>

lemma all_branches_branches:
  assumes "wellformed env d" and "\<forall>t \<in> tenants_of d. colon_free (tn_DBName t)" and "\<forall>tc \<in> set tcs. served_as d tc"
    and "distinct (map (\<lambda>tc. tn_DBName (tc_tenant tc)) tcs)"
  shows "(\<forall>db. colon_free db \<longrightarrow> db \<notin> (\<lambda>tc. tn_DBName (tc_tenant tc)) ` set tcs \<longrightarrow>
      branches_at (snd (all_branches env tcs d)) db = branches_at d db) \<and>
    (\<forall>tc \<in> set tcs. \<forall>bs. QueryActiveBranches (en_branches env (tc_tenant tc)) = Inr bs \<longrightarrow>
      branches_at (snd (all_branches env tcs d)) (tn_DBName (tc_tenant tc)) = set bs)"
  using assms
proof (induction tcs arbitrary: d)
  case (Cons tc tcs)
  obtain e d1 where one: "reconcileBranches env tc d = (e, d1)"
    by fastforce
  have more: "snd (all_branches env (tc # tcs) d) = snd (all_branches env tcs d1)"
    using one by (auto split: option.split)
  have plain: "colon_free (tn_DBName (tc_tenant u))" if "u \<in> set (tc # tcs)" for u
    using Cons.prems(2,3) that unfolding served_as_def tenants_of_def by (metis imageI)
  have d1: "wellformed env d1" "\<forall>t \<in> tenants_of d1. colon_free (tn_DBName t)" "\<forall>tc \<in> set tcs. served_as d1 tc"
    using wf.branches [OF Cons.prems(1), of tc] reconcileBranches_fields(3,4) [where env = env and tc = tc and d = d]
      Cons.prems(2,3) one by simp_all
  have at: "branches_at d1 db = (case QueryActiveBranches (en_branches env (tc_tenant tc)) of
      Inl _ \<Rightarrow> branches_at d db | Inr bs \<Rightarrow> if db = tn_DBName (tc_tenant tc) then set bs else branches_at d db)"
    if "colon_free db" for db
    using reconcileBranches_branches [OF _ _ that plain, of d tc env] Cons.prems(1,3) one
    by (auto simp: wellformed_def reconcileBranches_def Let_def split: sum.split)
  have IH: "\<forall>db. colon_free db \<longrightarrow> db \<notin> (\<lambda>tc. tn_DBName (tc_tenant tc)) ` set tcs \<longrightarrow>
      branches_at (snd (all_branches env tcs d1)) db = branches_at d1 db"
    "\<forall>tc \<in> set tcs. \<forall>bs. QueryActiveBranches (en_branches env (tc_tenant tc)) = Inr bs \<longrightarrow>
      branches_at (snd (all_branches env tcs d1)) (tn_DBName (tc_tenant tc)) = set bs"
    using Cons.IH [OF d1] Cons.prems(4) by auto
  have own: "branches_at (snd (all_branches env tcs d1)) (tn_DBName (tc_tenant tc)) = set bs"
    if "QueryActiveBranches (en_branches env (tc_tenant tc)) = Inr bs" for bs
    using IH(1) at [OF plain] plain [of tc] Cons.prems(4) that by simp
  show ?case
    unfolding more using IH at own by (auto split: sum.split)
qed simp

lemma all_branches_expected:
  assumes "distinct (map tc_id tcs)" and "c \<in> ctxs (snd (all_branches env tcs d))"
  shows "(tc_id c \<notin> tc_id ` set tcs \<longrightarrow> c \<in> ctxs d) \<and>
    (\<forall>tc \<in> set tcs. \<forall>bs. tc_id tc = tc_id c \<longrightarrow> QueryActiveBranches (en_branches env (tc_tenant tc)) = Inr bs \<longrightarrow>
       set (tc_expectedBranches c) = set bs)"
  using assms
proof (induction tcs arbitrary: d)
  case (Cons tc tcs)
  obtain e d1 where one: "reconcileBranches env tc d = (e, d1)"
    by fastforce
  have more: "snd (all_branches env (tc # tcs) d) = snd (all_branches env tcs d1)"
    using one by (auto split: option.split)
  have "ctxs d1 = (case QueryActiveBranches (en_branches env (tc_tenant tc)) of
      Inl _ \<Rightarrow> ctxs d | Inr bs \<Rightarrow> set_expected (tc_id tc) (remdups bs) ` ctxs d)"
  proof (cases "QueryActiveBranches (en_branches env (tc_tenant tc))")
    case (Inr bs)
    with one have d1: "d1 = stop_workers (tn_DBName (tc_tenant tc))
        (\<lambda>key. has_prefix key (tn_DBName (tc_tenant tc) @ '':'') \<and> branchIDFromKey key \<notin> set bs)
        (expect_branches tc bs (fold (startBranch tc (tn_DBName (tc_tenant tc))) bs d))"
      by (simp add: reconcileBranches_def Let_def)
    show ?thesis
      by (simp only: Inr d1 sum.case stop_workers_fields expect_branches_fields fold_startBranch_fields)
  qed (use one in \<open>simp add: reconcileBranches_def\<close>)
  then show ?case
    using Cons.IH [of d1] Cons.prems unfolding more by (auto simp: set_expected_def split: sum.splits if_splits)
qed simp

end
