(* ===== verification/Topology_Reach.thy ===== *)
theory Topology_Reach
  imports Topology_Runs
begin

text \<open>
  The life of the daemon: its steps, the invariant of every reachable topology, what a
  reconciliation reaches, when the daemon reports itself ready, and what is left after it stopped.
\<close>

section \<open>Convergence\<close>

definition plain_names :: "tenant list \<Rightarrow> bool" where
  "plain_names ts \<longleftrightarrow> list_all (\<lambda>t. colon_free (tn_DBName t)) ts"

lemma all_branches_served [simp]: "served_as (snd (all_branches env tcs d)) tc \<longleftrightarrow> served_as d tc"
proof (induction tcs arbitrary: d)
  case (Cons u tcs)
  then show ?case
    using reconcileBranches_fields(4) [of env u d tc]
    by (cases "reconcileBranches env u d") (auto split: option.split)
qed simp

lemma ctx_names:
  assumes "tenants_ok d"
  shows "distinct (map (\<lambda>tc. tn_DBName (tc_tenant tc)) (map snd (dr_tenants d)))" and "distinct (map tc_id (map snd (dr_tenants d)))"
proof -
  have "map (\<lambda>tc. tn_DBName (tc_tenant tc)) (map snd (dr_tenants d)) = map fst (dr_tenants d)"
    using assms by (auto simp: tenants_ok_def)
  then show "distinct (map (\<lambda>tc. tn_DBName (tc_tenant tc)) (map snd (dr_tenants d)))"
    using assms by (simp only: tenants_ok_def)
  show "distinct (map tc_id (map snd (dr_tenants d)))"
    using assms by (simp add: tenants_ok_def comp_def)
qed

lemma reconcile_last:
  assumes "wellformed env d" and "LoadAllContext (en_master env) = Inr ts" and "plain_names ts"
    and "reconcile env d = (e, d')"
    and "tc \<in> ctxs d'" and "QueryActiveBranches (en_branches env (tc_tenant tc)) = Inr bs"
  shows "branches_at d' (tn_DBName (tc_tenant tc)) = set bs" and "set (tc_expectedBranches tc) = set bs"
proof -
  obtain d2 f where d2: "wellformed env d2" "tenants_of d2 = {t \<in> set ts. t \<in> tenants_of d \<or> starts env t}"
    "reconcile env d = noted env (join_errs (f @ fst (all_branches env (map snd (dr_tenants d2)) d2)))
        (snd (all_branches env (map snd (dr_tenants d2)) d2))"
    by (rule wf.reconcile_phases [OF assms(1,2)])
  let ?tcs = "map snd (dr_tenants d2)"
  let ?d3 = "snd (all_branches env ?tcs d2)"
  have final: "dr_tenants d' = dr_tenants ?d3" "dr_workers d' = dr_workers ?d3"
    using d2(3) assms(4) by (auto simp: noted_def)
  have "tenants_ok d2"
    using d2(1) by (simp add: wellformed_def topology_ok_def)
  note names = ctx_names [OF this]
  have plain: "\<forall>t \<in> tenants_of d2. colon_free (tn_DBName t)"
    using d2(2) assms(3) by (auto simp: plain_names_def list_all_iff)
  have served: "\<forall>tc \<in> set ?tcs. served_as d2 tc"
    by (auto simp: served_as_def)
  have "served_as ?d3 tc"
    using assms(5) final by (auto simp: served_as_def)
  then have "served_as d2 tc"
    by simp
  then obtain c where c: "c \<in> set ?tcs" "tc_id c = tc_id tc" "tc_tenant c = tc_tenant tc"
    by (auto simp: served_as_def)
  show "branches_at d' (tn_DBName (tc_tenant tc)) = set bs"
  proof -
    have "branches_at d' db = branches_at ?d3 db" for db
      by (simp add: branches_at_def final(2))
    then show ?thesis
      using conjunct2 [OF all_branches_branches [OF d2(1) plain served names(1)]] c assms(6) by metis
  qed
  show "set (tc_expectedBranches tc) = set bs"
    using all_branches_expected [OF names(2), of tc env d2] c assms(5,6) final(1) by auto
qed

text \<open>C8: a reconciliation for which the master registry answers keeps the topology well formed and
  serves exactly the registered tenants that were served already or could be started, whatever happens to
  the others; the workers of a served tenant are then those of its active branches; and it reports
  success exactly when every tenant could be started and its branches be read.  (No database name
  contains a colon, and branch ids are 64-bit numbers.)\<close>

theorem reconcile_converges:
  assumes "topology_ok d" and "branches_int64 env" and "LoadAllContext (en_master env) = Inr ts" and "plain_names ts"
    and "reconcile env d = (e, d')"
  shows "topology_ok d' \<and> tenants_of d' = {t \<in> set ts. t \<in> tenants_of d \<or> starts env t} \<and>
    (\<forall>t \<in> tenants_of d'. \<forall>bs. QueryActiveBranches (en_branches env t) = Inr bs \<longrightarrow> branches_at d' (tn_DBName t) = set bs) \<and>
    (e = None \<longleftrightarrow> (\<forall>t \<in> set ts. (t \<in> tenants_of d \<or> starts env t) \<and>
       (\<exists>bs. QueryActiveBranches (en_branches env t) = Inr bs)))"
proof -
  have wf: "wellformed env d"
    using assms(1,2) by (simp add: wellformed_def)
  have "branches_at d' (tn_DBName t) = set bs"
    if "t \<in> tenants_of d'" "QueryActiveBranches (en_branches env t) = Inr bs" for t bs
    using that reconcile_last(1) [OF wf assms(3-5)] unfolding tenants_of_def by blast
  then show ?thesis
    using wf.reconcile_run [OF wf assms(3)] assms(5) by (simp add: wellformed_def)
qed

section \<open>Readiness\<close>

text \<open>The daemon is ready after a reconciliation that succeeded, as long as no worker has ended by
  itself and the broker knows the consumers: no responder and no worker of an expected branch is missing.\<close>

theorem ready_after_reconcile:
  assumes "topology_ok d" and "branches_int64 env" and "all_running d" and "LoadAllContext (en_master env) = Inr ts"
    and "plain_names ts" and "reconcile env d = (None, d')" and "\<And>stream consumer. info stream consumer = None"
  shows "checkReadiness (Some info) d' = None"
proof -
  have wf: "wellformed env d" and alive: "alive env d"
    using assms(1-3) by (simp_all add: wellformed_def alive_def)
  from live.reconcile_run [OF alive assms(4)] have ok: "topology_ok d'" "all_running d'"
    and read: "\<And>t. t \<in> tenants_of d' \<Longrightarrow> \<exists>bs. QueryActiveBranches (en_branches env t) = Inr bs"
    using assms(6) by (auto simp: alive_def)
  have "tenant_missing (Some info) d' tc = []" if tc: "tc \<in> ctxs d'" for tc
  proof -
    obtain bs where "QueryActiveBranches (en_branches env (tc_tenant tc)) = Inr bs"
      using read tc unfolding tenants_of_def by blast
    note last = reconcile_last [OF wf assms(4,5,6) tc this]
    have "branch_missing (Some info) d' (tn_DBName (tc_tenant tc)) b = []" if "b \<in> set (tc_expectedBranches tc)" for b
    proof -
      have "branchKey (tn_DBName (tc_tenant tc)) b \<in> fst ` set (dr_workers d')"
        using that last by (auto simp: branches_at_def)
      then obtain n where "map_of (dr_workers d') (branchKey (tn_DBName (tc_tenant tc)) b) = Some n"
        by (metis map_of_eq_None_iff not_None_eq)
      moreover from map_of_SomeD [OF this] have "n \<in> set (dr_running d')"
        using ok(2) by (auto simp: all_live_def)
      ultimately show ?thesis
        using assms(7) by (simp add: branch_missing_def Let_def workerStopped_def)
    qed
    moreover have "\<not> responder_missing d' key" if "owned tc key" for key
      using that tc ok(1) unfolding topology_ok_def subs_ok_def live_in_def responder_missing_def by fastforce
    ultimately show ?thesis
      by (simp add: tenant_missing_def Let_def owned_def expectedBranchSnapshot_def)
  qed
  moreover have "dr_lastReconcileAt d' = Some (en_now env)" "dr_lastReconcileErr d' = None"
    by (rule wf.reconcile_phases [OF wf assms(4)]; use assms(6) in \<open>auto simp: noted_def\<close>)+
  ultimately show ?thesis
    by (simp add: checkReadiness_def)
qed

section \<open>A worker that ended\<close>

lemma branchKey_prefix_only:
  assumes "has_prefix (branchKey db b) (x @ '':'')" and "colon_free db"
  shows "x = db"
proof -
  obtain u where "db @ CHR '':'' # show_int b = x @ CHR '':'' # u"
    using assms(1) append_take_drop_id [of "length (x @ '':'')" "branchKey db b"]
    by (metis append.assoc append_Cons append_Nil branchKey_def has_prefix_def)
  moreover have "show_int b \<noteq> ys @ CHR '':'' # zs" for ys zs
    using show_int_colon_free [of b] by (metis in_set_conv_decomp)
  ultimately show ?thesis
    using assms(2) by (auto simp: append_eq_append_conv2 append_eq_Cons_conv Cons_eq_append_conv colon_free_def)
qed

definition dead_worker :: "daemon_env \<Rightarrow> tenant list \<Rightarrow> tenant \<Rightarrow> int \<Rightarrow> nat \<Rightarrow> daemon \<Rightarrow> bool" where
  "dead_worker env ts t b n d \<longleftrightarrow> wellformed env d \<and> plain_names ts \<and> t \<in> set ts \<and> t \<in> tenants_of d \<and>
     (\<forall>bs. QueryActiveBranches (en_branches env t) = Inr bs \<longrightarrow> b \<in> set bs) \<and>
     map_of (dr_workers d) (branchKey (tn_DBName t) b) = Some n \<and> n \<notin> set (dr_running d)"

lemma dead_bound: "dead_worker env ts t b n d \<Longrightarrow> n < dr_next d \<and> colon_free (tn_DBName t) \<and> int64 b"
  unfolding dead_worker_def wellformed_def topology_ok_def workers_ok_def table_ok_def plain_names_def list_all_iff
  by (fastforce dest: map_of_SomeD)

lemma dead_removed:
  assumes "dead_worker env ts t b n d" and "db \<noteq> tn_DBName t"
  shows "dead_worker env ts t b n (removeTenant db d)"
proof -
  have "\<not> has_prefix (branchKey (tn_DBName t) b) (db @ '':'')"
    using branchKey_prefix_only [of "tn_DBName t" b db] dead_bound [OF assms(1)] assms(2) by auto
  moreover have "t \<in> tenants_of (removeTenant db d)"
  proof -
    have ok: "tenants_ok d"
      using assms(1) by (simp add: dead_worker_def wellformed_def topology_ok_def)
    obtain c where "c \<in> ctxs d" "tc_tenant c = t"
      using assms(1) by (auto simp: dead_worker_def tenants_of_def)
    moreover from this have "map_of (dr_tenants d) db \<noteq> Some c"
      using ctx_lookup [OF ok] assms(2) by auto
    ultimately show ?thesis
      using removed_ctxs [OF ok] unfolding tenants_of_def by blast
  qed
  ultimately show ?thesis
    using assms(1) map_of_filter_key [of "\<lambda>key. has_prefix key (db @ '':'')" "dr_workers d"]
    by (simp add: dead_worker_def wellformed_def removeTenant_ok removeTenant_fields(2,3) [of db d])
qed

lemma dead_same:
  assumes "same_topology d d'" and "dead_worker env ts t b n d"
  shows "dead_worker env ts t b n d'"
  using assms same_topology_ok [OF assms(1)] by (simp add: dead_worker_def wellformed_def same_topology_def tenants_of_def)

lemma dead_added:
  assumes "dead_worker env ts t b n d" and "unserved u d"
  shows "dead_worker env ts t b n (snd (addTenant env u d))"
proof -
  have ok: "topology_ok d"
    using assms(1) by (simp add: dead_worker_def wellformed_def)
  have other: "tn_DBName u \<noteq> tn_DBName t"
    using assms by (auto simp: dead_worker_def tenants_of_def unserved_def)
  show ?thesis
  proof (cases rule: addTenant_cases [of env u d])
    case served
    then show ?thesis
      using assms(1) addTenant_ok [OF ok assms(2), of env] opened_fields(4,5) [OF ok assms(2)] addTenant_tenants(2) [OF ok assms(2), of env]
      by (simp add: dead_worker_def wellformed_def tenants_of_def)
  next
    case (undone e d')
    from dead_same [OF undone_same(1) [OF ok assms(2) undone(3)] dead_removed [OF assms(1) other]] undone(2) show ?thesis
      by simp
  qed (use assms(1) in simp)
qed

lemma dead_started:
  assumes "map_of (dr_workers d) key = Some n" and "n \<notin> set (dr_running d)" and "n < dr_next d"
  shows "map_of (dr_workers (fold (startBranch tc db) bs d)) key = Some n \<and> n \<notin> set (dr_running (fold (startBranch tc db) bs d))"
  using assms
proof (induction bs arbitrary: d)
  case (Cons b bs)
  have "map_of (dr_workers (startBranch tc db b d)) key = Some n" "n \<notin> set (dr_running (startBranch tc db b d))"
    "n < dr_next (startBranch tc db b d)"
    using Cons.prems by (auto simp: startBranch_def Let_def update_conv' split: option.split simp del: update_fresh)
  with Cons.IH show ?case
    by simp
qed simp

lemma dead_branches:
  assumes "dead_worker env ts t b n d" and "served_as d tc"
  shows "dead_worker env ts t b n (snd (reconcileBranches env tc d))"
proof (cases "QueryActiveBranches (en_branches env (tc_tenant tc))")
  case (Inr bs)
  note bound = dead_bound [OF assms(1)]
  let ?db = "tn_DBName (tc_tenant tc)"
  let ?d = "fold (startBranch tc ?db) bs d"
  let ?P = "\<lambda>key. has_prefix key (?db @ '':'') \<and> branchIDFromKey key \<notin> set bs"
  have ok: "topology_ok d"
    using assms(1) by (simp add: dead_worker_def wellformed_def)
  have "tc_tenant tc = t" if "?db = tn_DBName t"
  proof -
    obtain c c' where "c \<in> ctxs d" "tc_tenant c = tc_tenant tc" "c' \<in> ctxs d" "tc_tenant c' = t"
      using assms by (auto simp: served_as_def dead_worker_def tenants_of_def)
    then show ?thesis
      using ctx_unique(3) [of d c c'] ok that by (simp add: topology_ok_def)
  qed
  then have "\<not> ?P (branchKey (tn_DBName t) b)"
    using bound Inr assms(1) branchKey_prefix_only [of "tn_DBName t" b ?db] by (auto simp: dead_worker_def)
  moreover have "map_of (dr_workers ?d) (branchKey (tn_DBName t) b) = Some n" "n \<notin> set (dr_running ?d)"
    using dead_started [of d "branchKey (tn_DBName t) b" n tc ?db bs] bound assms(1) by (auto simp: dead_worker_def)
  ultimately have "map_of (dr_workers (stop_workers ?db ?P (expect_branches tc bs ?d))) (branchKey (tn_DBName t) b) = Some n"
    "n \<notin> set (dr_running (stop_workers ?db ?P (expect_branches tc bs ?d)))"
    using map_of_filter_key [of ?P "dr_workers ?d" "branchKey (tn_DBName t) b"] by (simp_all add: stop_workers_def Let_def)
  then show ?thesis
    using assms(1) reconcileBranches_ok [OF ok, of env tc] reconcileBranches_fields(3) [of env tc d] Inr
    by (simp add: dead_worker_def wellformed_def reconcileBranches_def Let_def)
qed (use assms in \<open>simp add: reconcileBranches_def\<close>)

interpretation dead: topology_property "dead_worker env ts t b n" env ts for env ts t b n
proof unfold_locales
  fix d db c
  assume dead: "dead_worker env ts t b n d" and c: "map_of (dr_tenants d) db = Some c" "tc_tenant c \<notin> set ts"
  then have ok: "tenants_ok d" and t: "t \<in> set ts"
    by (auto simp: dead_worker_def wellformed_def topology_ok_def)
  obtain c' where "c' \<in> ctxs d" "tc_tenant c' = t"
    using dead by (auto simp: dead_worker_def tenants_of_def)
  then have "db \<noteq> tn_DBName t"
    using c t ctx_lookup [OF ok] by (metis option.inject)
  with dead show "dead_worker env ts t b n (removeTenant db d)"
    by (rule dead_removed)
next
  fix d r
  show "dead_worker env ts t b n (d\<lparr>dr_registry := Some r\<rparr>)" if "dead_worker env ts t b n d"
    using that by (simp add: dead_worker_def wellformed_def tenants_of_def registry_ok)
next
  fix d e
  show "dead_worker env ts t b n (snd (noted env e d))" if "dead_worker env ts t b n d"
    using that by (simp add: dead_worker_def wellformed_def tenants_of_def)
next
  fix d
  show "topology_ok d" if "dead_worker env ts t b n d"
    using that by (simp add: dead_worker_def wellformed_def)
qed (simp_all add: dead_added dead_branches)

text \<open>C23: a worker that ended by itself is never replaced: as long as its branch stays active, every
  reconciliation keeps the handle of the ended worker, and the daemon reports itself unready.\<close>

theorem ended_worker_not_replaced:
  assumes "dead_worker env ts t b n d" and "LoadAllContext (en_master env) = Inr ts" and "reconcile env d = (e, d')"
  shows "map_of (dr_workers d') (branchKey (tn_DBName t) b) = Some n \<and> n \<notin> set (dr_running d') \<and>
    checkReadiness info d' \<noteq> None"
proof -
  have wf: "wellformed env d" and plain: "plain_names ts" and active: "\<And>bs. QueryActiveBranches (en_branches env t) = Inr bs \<Longrightarrow> b \<in> set bs"
    using assms(1) by (simp_all add: dead_worker_def)
  have dead: "dead_worker env ts t b n d'"
    using dead.reconcile_run [OF assms(1,2)] assms(3) by simp
  then obtain c where c: "c \<in> ctxs d'" "tc_tenant c = t"
    by (auto simp: dead_worker_def tenants_of_def)
  have "checkReadiness info d' \<noteq> None"
  proof (cases e)
    case None
    then obtain bs where bs: "QueryActiveBranches (en_branches env t) = Inr bs"
      using wf.reconcile_run [OF wf assms(2)] assms(1,3) by (auto simp: dead_worker_def)
    have "b \<in> set (tc_expectedBranches c)"
      using reconcile_last(2) [OF wf assms(2) plain assms(3) c(1)] c(2) bs active by simp
    moreover have "branch_missing info d' (tn_DBName t) b \<noteq> []"
      using dead by (simp add: branch_missing_def Let_def workerStopped_def dead_worker_def)
    ultimately have "tenant_missing info d' c \<noteq> []"
      using c(2) by (auto simp: tenant_missing_def Let_def expectedBranchSnapshot_def)
    then have "concat (map (tenant_missing info d') (map snd (dr_tenants d'))) \<noteq> []"
      using c(1) by force
    then show ?thesis
      by (auto simp: checkReadiness_def Let_def split: option.split)
  next
    case (Some x)
    have "dr_lastReconcileErr d' = e"
      by (rule wf.reconcile_phases [OF wf assms(2)]) (use assms(3) in \<open>auto simp: noted_def\<close>)
    then show ?thesis
      using Some by (auto simp: checkReadiness_def split: option.split)
  qed
  with dead show ?thesis
    by (simp add: dead_worker_def)
qed

section \<open>The steps of the daemon\<close>

text \<open>
  A reconciliation (of the loop, while the daemon is not stopped), a branch started by its onboarding,
  which may hold a context that is no longer served, a worker that ends by itself, a service looked
  up by a worker, and the end of the daemon.
\<close>

inductive topology_step :: "daemon \<Rightarrow> daemon \<Rightarrow> bool" where
  reconciles: "\<not> dr_cancelled d \<Longrightarrow> branches_int64 env \<Longrightarrow> topology_step d (snd (reconcile env d))"
| onboarded: "int64 b \<Longrightarrow> topology_step d (startBranch tc db b d)"
| ended: "topology_step d (d\<lparr>dr_running := removeAll n (dr_running d)\<rparr>)"
| looked_up: "topology_step d (snd (getService load db b d))"
| stops: "topology_step d (stop d)"

lemma getService_same [simp]:
  "dr_tenants (snd (getService load db b d)) = dr_tenants d" "dr_workers (snd (getService load db b d)) = dr_workers d"
  "dr_running (snd (getService load db b d)) = dr_running d" "dr_cancelled (snd (getService load db b d)) = dr_cancelled d"
  "same_topology d (snd (getService load db b d))"
  by (auto simp: getService_def same_topology_def Let_def split: option.split sum.split)

lemma reconcile_ok:
  assumes "topology_ok d" and "branches_int64 env"
  shows "topology_ok (snd (reconcile env d))"
proof (cases "LoadAllContext (en_master env)")
  case (Inl e)
  then show ?thesis
    using assms by (simp add: reconcile_def)
next
  case (Inr ts)
  then show ?thesis
    using wf.reconcile_run [of env d ts] assms by (simp add: wellformed_def)
qed

lemma fold_remove_ok: "topology_ok d \<Longrightarrow> topology_ok (fold removeTenant dbs d)"
  by (induction dbs arbitrary: d) (simp_all add: removeTenant_ok)

lemma fold_remove_tenants: "dr_tenants (fold removeTenant dbs d) = filter (\<lambda>p. fst p \<notin> set dbs) (dr_tenants d)"
  by (induction dbs arbitrary: d) (auto simp: removeTenant_fields intro: filter_cong)

lemma running_ok: "topology_ok d \<Longrightarrow> set rs \<subseteq> set (dr_running d) \<Longrightarrow> topology_ok (d\<lparr>dr_running := rs\<rparr>)"
  by (auto simp: topology_ok_def tenants_ok_def workers_ok_def subs_ok_def open_ok_def table_ok_def)

lemma cancelled_ok [simp]: "topology_ok (d\<lparr>dr_cancelled := c\<rparr>) = topology_ok d"
  by (simp add: topology_ok_def tenants_ok_def workers_ok_def subs_ok_def open_ok_def)

lemma stop_ok: "topology_ok d \<Longrightarrow> topology_ok (stop d)"
  by (auto simp: stop_def Let_def intro!: running_ok fold_remove_ok)

lemma step_ok: "topology_step d d' \<Longrightarrow> topology_ok d \<Longrightarrow> topology_ok d'"
  by (induction rule: topology_step.induct)
    (auto simp: reconcile_ok startBranch_ok stop_ok intro: running_ok same_topology_ok [OF getService_same(5)])

text \<open>C4: whatever the daemon does, nothing leaks: every running worker is in the table, every worker,
  responder and open database belongs to a tenant the daemon serves, a served tenant has its two
  responders and its database, and no two tenants share a name, a key or a context.\<close>

theorem topology_invariant:
  assumes "topology_step\<^sup>*\<^sup>* (newDaemonReconciler adminDSN ackWait maxDeliver) d"
  shows "topology_ok d"
  using assms by (induction rule: rtranclp_induct) (simp_all add: step_ok)

lemma no_tenants:
  assumes "topology_ok d" and "dr_tenants d = []"
  shows "dr_workers d = []" and "dr_running d = []" and "dr_subs d = []" and "dr_listening d = []" and "dr_open d = []"
proof -
  show "dr_workers d = []" "dr_running d = []" "dr_subs d = []" "dr_listening d = []"
    using assms by (auto simp: topology_ok_def workers_ok_def subs_ok_def table_ok_def)
  show "dr_open d = []"
    using assms by (cases "dr_open d") (auto simp: topology_ok_def open_ok_def)
qed

lemma down_step:
  assumes "topology_step d d'" and "topology_ok d" and "dr_tenants d = []" and "dr_cancelled d"
  shows "dr_tenants d' = [] \<and> dr_cancelled d'"
  using assms
  by (induction rule: topology_step.induct)
    (auto simp: startBranch_def stop_def Let_def fold_remove_tenants)

text \<open>After the daemon was stopped nothing of it is left, and nothing comes back: no tenant, no
  running worker, no responder and no open database, whatever steps still follow.\<close>

theorem stopped_stays_down:
  assumes "topology_step\<^sup>*\<^sup>* (newDaemonReconciler adminDSN ackWait maxDeliver) d" and "topology_step\<^sup>*\<^sup>* (stop d) d'"
  shows "dr_tenants d' = [] \<and> dr_workers d' = [] \<and> dr_running d' = [] \<and> dr_subs d' = [] \<and> dr_listening d' = [] \<and> dr_open d' = []"
proof -
  have "topology_ok d"
    using assms(1) by (induction rule: rtranclp_induct) (simp_all add: step_ok)
  then have "topology_ok (stop d)"
    by (rule stop_ok)
  moreover have "dr_tenants (stop d) = []"
    by (auto simp: stop_def Let_def fold_remove_tenants filter_empty_conv)
  moreover have "dr_cancelled (stop d)"
  proof -
    have "dr_cancelled (fold removeTenant dbs d) = dr_cancelled d" for dbs and d
      by (induction dbs arbitrary: d) (simp_all add: removeTenant_fields)
    then show ?thesis
      by (simp add: stop_def Let_def)
  qed
  ultimately have start: "topology_ok (stop d) \<and> dr_tenants (stop d) = [] \<and> dr_cancelled (stop d)"
    by blast
  from assms(2) have "topology_ok d' \<and> dr_tenants d' = [] \<and> dr_cancelled d'"
  proof (induction rule: rtranclp_induct)
    case (step x y)
    then show ?case
      using step_ok [of x y] down_step [of x y] by blast
  qed (rule start)
  then show ?thesis
    using no_tenants [of d'] by blast
qed

text \<open>Worker keys are matched by the prefix made of the database name and a colon, so removing the
  tenant \<open>a\<close> also drops every worker of a tenant named \<open>a:b\<close>.\<close>

theorem prefix_stops_other_tenant:
  "map_of (dr_workers (removeTenant a d)) (branchKey (a @ '':'' @ b) n) = None"
proof -
  have "has_prefix (branchKey (a @ '':'' @ b) n) (a @ '':'')"
    by (simp add: branchKey_def has_prefix_def)
  then show ?thesis
    unfolding removeTenant_fields map_of_filter_key [of "\<lambda>key. has_prefix key (a @ '':'')"] by (simp only: if_True)
qed

section \<open>A daemon with one tenant\<close>

definition sample_daemon :: daemon where
  "sample_daemon = newDaemonReconciler [] 300 10"

definition sample_env :: daemon_env where
  "sample_env = \<lparr>en_now = 5, en_master = Some (Inr ([Inr sample_tenant], None)), en_openDB = (\<lambda>_. None),
     en_openAdmin = (\<lambda>_. None), en_preflight = (\<lambda>_. None), en_subOnboard = (\<lambda>_. None), en_subReconcile = (\<lambda>_. None),
     en_branches = (\<lambda>_. Inr ([Inr 7], None))\<rparr>"

lemma sample_daemon_ok: "topology_ok sample_daemon" "all_running sample_daemon" "tenants_of sample_daemon = {}"
  by (simp_all add: sample_daemon_def) (simp_all add: newDaemonReconciler_def all_live_def tenants_of_def)

lemma sample_master: "LoadAllContext (en_master sample_env) = Inr [sample_tenant]"
  by (simp add: sample_env_def LoadAllContext_def sample_tenant_valid)

lemma sample_tenant_facts [simp]: "tn_DBName sample_tenant = ''tenant_acme''" "tn_ZATCAEnv sample_tenant = Sandbox"
  by (simp_all add: sample_tenant_def Sandbox_def)

lemma sample_env_facts:
  shows "QueryActiveBranches (en_branches sample_env t) = Inr [7]" and "branches_int64 sample_env"
    and "plain_names [sample_tenant]" and "starts sample_env sample_tenant"
  by (simp_all add: sample_env_def QueryActiveBranches_def read_rows_def branches_int64_def int64_def plain_names_def
      colon_free_def starts_def)

lemma sample_started:
  "{t \<in> set [sample_tenant]. t \<in> tenants_of sample_daemon \<or> starts sample_env t} = {sample_tenant}"
  using sample_env_facts(4) by auto

lemma sample_run:
  shows "fst (reconcile sample_env sample_daemon) = None" and "topology_ok (snd (reconcile sample_env sample_daemon))"
    and "tenants_of (snd (reconcile sample_env sample_daemon)) = {sample_tenant}"
    and "branches_at (snd (reconcile sample_env sample_daemon)) ''tenant_acme'' = {7}"
proof -
  have wf: "wellformed sample_env sample_daemon"
    by (simp add: wellformed_def sample_env_facts sample_daemon_ok)
  note run = wf.reconcile_run [OF wf sample_master]
  show "fst (reconcile sample_env sample_daemon) = None" "topology_ok (snd (reconcile sample_env sample_daemon))"
    and tenants: "tenants_of (snd (reconcile sample_env sample_daemon)) = {sample_tenant}"
    using run unfolding sample_started by (simp_all add: sample_env_facts wellformed_def)
  from tenants obtain tc where "tc \<in> ctxs (snd (reconcile sample_env sample_daemon))" "tc_tenant tc = sample_tenant"
    unfolding tenants_of_def by blast
  with reconcile_last(1) [OF wf sample_master sample_env_facts(3) prod.collapse [symmetric], of tc "[7]"]
  show "branches_at (snd (reconcile sample_env sample_daemon)) ''tenant_acme'' = {7}"
    by (simp add: sample_env_facts)
qed

theorem reconcile_converges_witness:
  "\<exists>d'. reconcile sample_env sample_daemon = (None, d') \<and> topology_ok d' \<and> tenants_of d' = {sample_tenant} \<and>
     branches_at d' ''tenant_acme'' = {7}"
proof -
  obtain d' where run: "reconcile sample_env sample_daemon = (None, d')"
    using sample_run(1) by (metis prod.collapse)
  note reached = reconcile_converges [OF sample_daemon_ok(1) sample_env_facts(2) sample_master sample_env_facts(3) run,
      unfolded sample_started]
  then have tenants: "topology_ok d'" "tenants_of d' = {sample_tenant}"
    by blast+
  then have "branches_at d' (tn_DBName sample_tenant) = set [7]"
    using reached sample_env_facts(1) [of sample_tenant] by blast
  with tenants run show ?thesis
    by simp
qed

theorem ready_after_reconcile_witness:
  "checkReadiness (Some (\<lambda>_ _. None)) (snd (reconcile sample_env sample_daemon)) = None"
proof -
  have "reconcile sample_env sample_daemon = (None, snd (reconcile sample_env sample_daemon))"
    using sample_run(1) by (metis prod.collapse)
  from ready_after_reconcile [OF sample_daemon_ok(1) sample_env_facts(2) sample_daemon_ok(2) sample_master sample_env_facts(3) this]
  show ?thesis
    by simp
qed

definition sample_stalled :: daemon where
  "sample_stalled = (snd (reconcile sample_env sample_daemon))\<lparr>dr_running := []\<rparr>"

theorem ended_worker_not_replaced_witness:
  "\<exists>n. map_of (dr_workers (snd (reconcile sample_env sample_stalled))) (branchKey ''tenant_acme'' 7) = Some n \<and>
     checkReadiness None (snd (reconcile sample_env sample_stalled)) \<noteq> None"
proof -
  have "branchKey ''tenant_acme'' 7 \<in> fst ` set (dr_workers (snd (reconcile sample_env sample_daemon)))"
    using sample_run(4) unfolding branches_at_def by blast
  then obtain n where "map_of (dr_workers (snd (reconcile sample_env sample_daemon))) (branchKey ''tenant_acme'' 7) = Some n"
    by (metis map_of_eq_None_iff not_None_eq)
  moreover have "topology_ok sample_stalled" "tenants_of sample_stalled = {sample_tenant}"
    using running_ok [OF sample_run(2), of "[]"] sample_run(3) by (simp_all add: sample_stalled_def tenants_of_def)
  ultimately have dead: "dead_worker sample_env [sample_tenant] sample_tenant 7 n sample_stalled"
    using sample_env_facts by (simp add: dead_worker_def wellformed_def) (simp add: sample_stalled_def)
  from ended_worker_not_replaced [OF dead sample_master prod.collapse [symmetric]] show ?thesis
    by auto
qed

lemma sample_reached:
  "topology_step\<^sup>*\<^sup>* (newDaemonReconciler [] 300 10) (snd (reconcile sample_env sample_daemon))"
proof -
  have "topology_step sample_daemon (snd (reconcile sample_env sample_daemon))"
    by (rule reconciles) (simp_all add: sample_env_facts, simp add: sample_daemon_def newDaemonReconciler_def)
  then show ?thesis
    by (simp add: sample_daemon_def)
qed

theorem topology_invariant_witness: "topology_ok (snd (reconcile sample_env sample_daemon))"
  by (rule topology_invariant [OF sample_reached])

theorem stopped_stays_down_witness: "dr_running (stop (snd (reconcile sample_env sample_daemon))) = []"
  using stopped_stays_down [OF sample_reached rtranclp.rtrancl_refl] by simp

end
