(* ===== verification/Daemon_Boot.thy ===== *)
theory Daemon_Boot
  imports Topology_Reach Field_Encryption
begin

text \<open>
  The start of the daemon: the broker it connects to or embeds and the stream it needs
  (\<open>cmd/daemon/nats.go\<close>), the alert mails (\<open>cmd/daemon/email.go\<close>), and the flags, the environment
  and the order of the start (\<open>cmd/daemon/main.go\<close>).  The NATS server and client, the HTTP server and
  the mail server answer as the environment says.
\<close>

section \<open>Environment variables\<close>

definition envOrDefault :: "(string \<Rightarrow> string) \<Rightarrow> string \<Rightarrow> string \<Rightarrow> string" where
  "envOrDefault getenv key fallback = (if getenv key \<noteq> [] then getenv key else fallback)"

section \<open>Alert mails\<close>

record mail =
  ml_Addr :: string
  ml_Auth :: "(string \<times> string \<times> string) option" \<comment> \<open>user, password, host\<close>
  ml_From :: string
  ml_To :: "string list"
  ml_Data :: string

definition crlf :: string where
  "crlf = [CHR 0x0D, CHR 0x0A]"

text \<open>The mail handed to \<open>smtp.SendMail\<close>, whose failure is only logged.\<close>

definition sendAlert :: "(string \<Rightarrow> string) \<Rightarrow> string \<Rightarrow> string \<Rightarrow> string \<Rightarrow> goerr \<Rightarrow> mail option" where
  "sendAlert getenv recipients what dbName processErr =
     (if recipients = [] then None
      else
        let smtpHost = envOrDefault getenv ''SMTP_HOST'' ''localhost'';
            smtpPort = envOrDefault getenv ''SMTP_PORT'' ''587'';
            smtpUser = envOrDefault getenv ''SMTP_USER'' [];
            smtpPass = envOrDefault getenv ''SMTP_PASS'' [];
            fromAddr = envOrDefault getenv ''SMTP_FROM'' ''zatca-daemon@localhost'';
            subject = ''ZATCA Processing Failed: '' @ what @ '' ('' @ dbName @ '')'';
            body = ''ZATCA processing failed.'' @ newline @ newline @ ''Tenant DB: '' @ dbName @ newline @
              ''Item: '' @ what @ newline @ ''Error: '' @ err_text processErr @ newline @ newline @
              ''The item is not invoiced or not submitted. Fix the cause; a bill that was not invoiced is retried by the daemon.'';
            toList = map trim_space (split_on (CHR '','') recipients)
        in Some \<lparr>ml_Addr = smtpHost @ '':'' @ smtpPort,
             ml_Auth = (if smtpUser \<noteq> [] then Some (smtpUser, smtpPass, smtpHost) else None),
             ml_From = fromAddr, ml_To = toList,
             ml_Data = ''From: '' @ fromAddr @ crlf @ ''To: '' @ join_with '', '' toList @ crlf @
               ''Subject: '' @ subject @ crlf @ crlf @ body\<rparr>)"

section \<open>Monitoring\<close>

record monitor_request =
  hq_Path :: string
  hq_BasicAuth :: "(string \<times> string) option"

record monitor_response =
  hp_Status :: int
  hp_Headers :: "(string \<times> string) list"
  hp_Error :: "string option" \<comment> \<open>the text of the error in the body, if it is one of this program\<close>

type_synonym monitor_handler = "monitor_request \<Rightarrow> monitor_response"

definition basicAuth :: "monitor_handler \<Rightarrow> string \<Rightarrow> monitor_handler" where
  "basicAuth next_h password r =
     (case hq_BasicAuth r of
        Some (_, pass) \<Rightarrow> (if pass = password then next_h r
          else \<lparr>hp_Status = 401, hp_Headers = [(''WWW-Authenticate'', ''Basic realm=\"NATS Monitoring\"'')],
                hp_Error = Some ''Unauthorized''\<rparr>)
      | None \<Rightarrow> \<lparr>hp_Status = 401, hp_Headers = [(''WWW-Authenticate'', ''Basic realm=\"NATS Monitoring\"'')],
                 hp_Error = Some ''Unauthorized''\<rparr>)"

definition daemonMonitorHandler :: "goerr option option \<Rightarrow> monitor_handler \<Rightarrow> monitor_handler" where
  "daemonMonitorHandler readiness next_h r =
     (case readiness of
        Some (Some e) \<Rightarrow>
          (if hq_Path r = ''/healthz'' then
             \<lparr>hp_Status = 503, hp_Headers = [(''Content-Type'', ''application/json'')], hp_Error = Some (err_text e)\<rparr>
           else next_h r)
      | _ \<Rightarrow> next_h r)"

section \<open>The broker\<close>

record nats_server_options =
  so_Port :: int
  so_StoreDir :: string
  so_HTTP :: "(string \<times> int) option"

text \<open>How the broker answers: connecting to a URL, creating a server (its client URL), and whether it is ready.\<close>

record nats_env =
  ne_connect :: "string \<Rightarrow> goerr option"
  ne_server :: "nats_server_options \<Rightarrow> goerr + string"
  ne_ready :: bool

text \<open>
  The runtime that is returned, the options of the embedded server, the port the monitor listens on,
  and whether a server that was started is shut down again.
\<close>

record nats_runtime =
  nr_url :: string
  nr_server :: "nats_server_options option"
  nr_monitor :: "int option"

definition openNATS ::
    "(string \<Rightarrow> (string \<times> string) option) \<Rightarrow> nats_env \<Rightarrow> nats_config \<Rightarrow> string \<Rightarrow> (goerr + nats_runtime) \<times> bool" where
  "openNATS url_parse env cfg monitorPassword =
     (case nats_Validate url_parse cfg of
        Some e \<Rightarrow> (Inl e, False)
      | None \<Rightarrow>
        (if ParseNATSMode (nc_Mode cfg) = Inr NATSExternal then
           (case ne_connect env (nc_URL cfg) of
              Some e \<Rightarrow> (Inl (Wrapf (''connect to external NATS '' @ nc_URL cfg @ '': '') e []), False)
            | None \<Rightarrow> (Inr \<lparr>nr_url = nc_URL cfg, nr_server = None, nr_monitor = None\<rparr>, False))
         else if nc_MonitorPort cfg > 0 \<and> monitorPassword = [] then
           (Inl (NewError ''monitor password is required when NATS monitoring is enabled''), False)
         else
           let opts = \<lparr>so_Port = nc_Port cfg, so_StoreDir = nc_DataDir cfg,
                 so_HTTP = (if nc_MonitorPort cfg > 0 then Some (''127.0.0.1'', nc_MonitorPort cfg + 10000) else None)\<rparr>;
               monitor = (if nc_MonitorPort cfg > 0 then Some (nc_MonitorPort cfg) else None)
           in case ne_server env opts of
                Inl e \<Rightarrow> (Inl (Wrapf ''create embedded NATS: '' e []), False)
              | Inr url \<Rightarrow>
                (if \<not> ne_ready env then (Inl (NewError ''embedded NATS was not ready''), True)
                 else
                   case ne_connect env url of
                     Some e \<Rightarrow> (Inl (Wrapf ''connect to embedded NATS: '' e []), True)
                   | None \<Rightarrow> (Inr \<lparr>nr_url = url, nr_server = Some opts, nr_monitor = monitor\<rparr>, False))))"

datatype retention = LimitsPolicy | InterestPolicy | WorkQueuePolicy

record stream_config =
  st_Name :: string
  st_Subjects :: "string list"
  st_Retention :: retention
  st_MaxAge :: time

definition zatca_stream :: stream_config where
  "zatca_stream = \<lparr>st_Name = StreamName, st_Subjects = [SubjectAll], st_Retention = WorkQueuePolicy,
     st_MaxAge = 7 * 24 * 3600 * 1000000000\<rparr>"

text \<open>\<open>info\<close> is the answer of \<open>StreamInfo\<close>, \<open>add\<close> that of \<open>AddStream\<close>; the stream that is created is returned.\<close>

definition ensureStream ::
    "(goerr + stream_config option) \<Rightarrow> (stream_config \<Rightarrow> goerr option) \<Rightarrow> string \<Rightarrow> goerr option \<times> stream_config option" where
  "ensureStream info add mode =
     (case info of
        Inl e \<Rightarrow>
          (if mode = NATSEmbedded then
             (case add zatca_stream of
                Some e \<Rightarrow> (Some (Wrapf ''create embedded ZATCA stream: '' e []), None)
              | None \<Rightarrow> (None, Some zatca_stream))
           else (Some (Wrapf (''shared NATS stream '' @ go_quote StreamName @ '' is unavailable: '') e []), None))
      | Inr None \<Rightarrow> (Some (NewError (''NATS returned no stream info for '' @ go_quote StreamName)), None)
      | Inr (Some s) \<Rightarrow>
          (if st_Retention s \<noteq> WorkQueuePolicy then
             (Some (NewError (''NATS stream '' @ go_quote StreamName @ '' must use work-queue retention'')), None)
           else if SubjectAll \<in> set (st_Subjects s) then (None, None)
           else (Some (NewError (''NATS stream '' @ go_quote StreamName @ '' does not cover '' @ go_quote SubjectAll)), None)))"

section \<open>The start\<close>

record daemon_flags =
  fl_MasterDSN :: string
  fl_BaseDSN :: string
  fl_AdminDSN :: string
  fl_DBUser :: string
  fl_DBPass :: string
  fl_DBHost :: string
  fl_DBPort :: string
  fl_MasterDB :: string
  fl_NATS :: nats_config

text \<open>The environment fills in what the flags leave open; the result is the master, base and admin DSN.\<close>

definition database_dsns :: "dsn_format \<Rightarrow> (string \<Rightarrow> string) \<Rightarrow> daemon_flags \<Rightarrow> goerr + string \<times> string \<times> string" where
  "database_dsns format getenv f =
     (let dbUser = (if fl_DBUser f = [] then getenv ''DB_USER'' else fl_DBUser f);
          dbPass = (if fl_DBPass f = [] then getenv ''DB_PASS'' else fl_DBPass f);
          dbHost = (if fl_DBHost f = [] then getenv ''DB_HOST'' else fl_DBHost f);
          dbPort = (if getenv ''DB_PORT'' \<noteq> [] \<and> fl_DBPort f = ''3306'' then getenv ''DB_PORT'' else fl_DBPort f);
          masterDB = (if getenv ''MASTER_DB'' \<noteq> [] \<and> fl_MasterDB f = ''zatca_master'' then getenv ''MASTER_DB'' else fl_MasterDB f);
          adminDSN = (if fl_AdminDSN f = [] \<and> getenv ''ADMIN_DB_USER'' \<noteq> [] then
              FormatBaseDSN format (getenv ''ADMIN_DB_USER'') (getenv ''ADMIN_DB_PASS'')
                (if getenv ''ADMIN_DB_HOST'' \<noteq> [] then getenv ''ADMIN_DB_HOST'' else dbHost) dbPort
            else fl_AdminDSN f);
          masterDSN = (if fl_MasterDSN f = [] \<and> dbUser \<noteq> [] \<and> dbHost \<noteq> []
            then FormatDSN format dbUser dbPass dbHost dbPort masterDB else fl_MasterDSN f);
          baseDSN = (if fl_BaseDSN f = [] \<and> dbUser \<noteq> [] \<and> dbHost \<noteq> []
            then FormatBaseDSN format dbUser dbPass dbHost dbPort else fl_BaseDSN f)
      in if masterDSN = [] \<or> baseDSN = [] then
           Inl (NewError ''Database connection required: use --master-dsn/--base-dsn OR --db-user/--db-pass/--db-host'')
         else Inr (masterDSN, baseDSN, adminDSN))"

text \<open>
  The start up to the first reconciliation.  \<open>Inl\<close> is a fatal error: the process ends.  \<open>jetstream\<close> and
  \<open>open_master\<close> are the answers of \<open>JetStream\<close> and \<open>sql.Open\<close>.
\<close>

record boot_env =
  be_getenv :: "string \<Rightarrow> string"
  be_format :: dsn_format
  be_url_parse :: "string \<Rightarrow> (string \<times> string) option"
  be_nats :: nats_env
  be_jetstream :: "goerr option"
  be_stream_info :: "goerr + stream_config option"
  be_add_stream :: "stream_config \<Rightarrow> goerr option"
  be_open_master :: "string \<Rightarrow> goerr option"
  be_daemon :: daemon_env

definition daemon_main :: "boot_env \<Rightarrow> daemon_flags \<Rightarrow> goerr + daemon" where
  "daemon_main env f =
     (case database_dsns (be_format env) (be_getenv env) f of
        Inl e \<Rightarrow> Inl e
      | Inr (masterDSN, baseDSN, adminDSN) \<Rightarrow>
        (case NewKey (be_getenv env ''ENCRYPT_KEY'') of
           Inl e \<Rightarrow> Inl (Wrapf ''ENCRYPT_KEY is required: '' e '' (generate with: openssl rand -base64 32)'')
         | Inr encKey \<Rightarrow>
           (case ParseNATSMode (nc_Mode (fl_NATS f)) of
              Inl e \<Rightarrow> Inl e
            | Inr mode \<Rightarrow>
              (case fst (openNATS (be_url_parse env) (be_nats env) ((fl_NATS f)\<lparr>nc_Mode := mode\<rparr>) (be_getenv env ''MONITOR_PASS'')) of
                 Inl e \<Rightarrow> Inl (Wrapf ''NATS startup: '' e [])
               | Inr rt \<Rightarrow>
                 (case be_jetstream env of
                    Some e \<Rightarrow> Inl (Wrapf ''jetstream: '' e [])
                  | None \<Rightarrow>
                    (case fst (ensureStream (be_stream_info env) (be_add_stream env) mode) of
                       Some e \<Rightarrow> Inl (Wrapf ''ZATCA stream: '' e [])
                     | None \<Rightarrow>
                       (case be_open_master env masterDSN of
                          Some e \<Rightarrow> Inl (Wrapf ''open master db: '' e [])
                        | None \<Rightarrow>
                          (case reconcile (be_daemon env)
                                 (newDaemonReconciler adminDSN (nc_AckWait (fl_NATS f)) (nc_MaxDeliver (fl_NATS f))) of
                             (Some e, _) \<Rightarrow> Inl (Wrapf ''initial tenant reconciliation: '' e [])
                           | (None, d) \<Rightarrow> Inr d))))))))"

section \<open>The end\<close>

datatype shutdown_action =
    CancelContext
  | CloseMaster
  | DrainConn
  | CloseConn
  | ShutdownServer
  | WaitForShutdown

definition natsRuntime_close :: "nats_runtime option \<Rightarrow> shutdown_action list" where
  "natsRuntime_close r =
     (case r of
        None \<Rightarrow> []
      | Some rt \<Rightarrow> [DrainConn, CloseConn] @ (if nr_server rt \<noteq> None then [ShutdownServer, WaitForShutdown] else []))"

text \<open>After a signal: the reconciler stops, then the deferred calls run, the last one first.\<close>

definition daemon_shutdown :: "nats_runtime \<Rightarrow> daemon \<Rightarrow> daemon \<times> shutdown_action list" where
  "daemon_shutdown rt d = (stop d, CancelContext # CloseMaster # natsRuntime_close (Some rt))"

text \<open>Whatever the daemon did, its end leaves no tenant, worker, responder or open tenant database, and the
  broker connection is drained before it is closed and before an embedded server goes down.\<close>

theorem shutdown_releases_all:
  assumes "topology_step\<^sup>*\<^sup>* (newDaemonReconciler adminDSN ackWait maxDeliver) d" and "daemon_shutdown rt d = (d', acts)"
  shows "dr_tenants d' = [] \<and> dr_workers d' = [] \<and> dr_running d' = [] \<and> dr_subs d' = [] \<and> dr_listening d' = [] \<and> dr_open d' = []"
    and "\<exists>pre post. acts = pre @ DrainConn # CloseConn # post \<and> ShutdownServer \<notin> set pre \<and>
      (ShutdownServer \<in> set post \<longleftrightarrow> nr_server rt \<noteq> None)"
proof -
  show "dr_tenants d' = [] \<and> dr_workers d' = [] \<and> dr_running d' = [] \<and> dr_subs d' = [] \<and> dr_listening d' = [] \<and> dr_open d' = []"
    using stopped_stays_down [OF assms(1) rtranclp.rtrancl_refl] assms(2) by (simp add: daemon_shutdown_def)
  show "\<exists>pre post. acts = pre @ DrainConn # CloseConn # post \<and> ShutdownServer \<notin> set pre \<and>
      (ShutdownServer \<in> set post \<longleftrightarrow> nr_server rt \<noteq> None)"
    using assms(2)
    by (intro exI [of _ "[CancelContext, CloseMaster]"] exI [of _ "drop 4 acts"]) (auto simp: daemon_shutdown_def natsRuntime_close_def)
qed

section \<open>What a started daemon has\<close>

text \<open>A daemon that started has a 32-byte key, a positive ack wait and delivery limit, a stream with
  work-queue retention that covers every subject of the daemon (found, or created by the embedded
  server), and serves every tenant of the master registry, in a well-formed topology.\<close>

theorem started_daemon:
  assumes "daemon_main env f = Inr d" and "branches_int64 (be_daemon env)"
  shows "(\<exists>k. NewKey (be_getenv env ''ENCRYPT_KEY'') = Inr k) \<and>
    0 < nc_AckWait (fl_NATS f) \<and> 0 < nc_MaxDeliver (fl_NATS f) \<and>
    (\<exists>s. (be_stream_info env = Inr (Some s) \<or> be_add_stream env s = None) \<and> st_Retention s = WorkQueuePolicy \<and>
       SubjectAll \<in> set (st_Subjects s)) \<and>
    (\<exists>ts. LoadAllContext (en_master (be_daemon env)) = Inr ts \<and> tenants_of d = set ts) \<and> topology_ok d"
proof -
  obtain masterDSN baseDSN adminDSN k mode rt where
    key: "NewKey (be_getenv env ''ENCRYPT_KEY'') = Inr k" and
    rt: "fst (openNATS (be_url_parse env) (be_nats env) ((fl_NATS f)\<lparr>nc_Mode := mode\<rparr>) (be_getenv env ''MONITOR_PASS'')) = Inr rt" and
    stream: "fst (ensureStream (be_stream_info env) (be_add_stream env) mode) = None" and
    run: "reconcile (be_daemon env) (newDaemonReconciler adminDSN (nc_AckWait (fl_NATS f)) (nc_MaxDeliver (fl_NATS f))) = (None, d)"
    using assms(1) by (auto simp: daemon_main_def split: sum.splits option.splits prod.splits)
  have "0 < nc_AckWait (fl_NATS f)" "0 < nc_MaxDeliver (fl_NATS f)"
    using rt by (auto simp: openNATS_def nats_Validate_def split: option.splits sum.splits if_splits)
  moreover have "\<exists>s. (be_stream_info env = Inr (Some s) \<or> be_add_stream env s = None) \<and> st_Retention s = WorkQueuePolicy \<and>
      SubjectAll \<in> set (st_Subjects s)"
    using stream by (auto simp: ensureStream_def zatca_stream_def split: sum.splits option.splits if_splits)
  moreover obtain ts where ts: "LoadAllContext (en_master (be_daemon env)) = Inr ts"
    using run by (auto simp: reconcile_def noted_def split: sum.splits)
  let ?d = "newDaemonReconciler adminDSN (nc_AckWait (fl_NATS f)) (nc_MaxDeliver (fl_NATS f))"
  have "wellformed (be_daemon env) ?d"
    using assms(2) by (simp add: wellformed_def)
  from wf.reconcile_run [OF this ts] run have "topology_ok d" "tenants_of d = set ts"
    by (auto simp: wellformed_def)
  ultimately show ?thesis
    using key ts by blast
qed

definition sample_flags :: daemon_flags where
  "sample_flags = \<lparr>fl_MasterDSN = ''user@tcp(db)/zatca_master'', fl_BaseDSN = ''user@tcp(db)/'', fl_AdminDSN = [], fl_DBUser = [],
     fl_DBPass = [], fl_DBHost = [], fl_DBPort = ''3306'', fl_MasterDB = ''zatca_master'',
     fl_NATS = \<lparr>nc_Mode = ''external'', nc_URL = ''nats://broker'', nc_Port = 4222, nc_MonitorPort = 0, nc_DataDir = [],
       nc_AckWait = 300, nc_MaxDeliver = 10, nc_ReconcileInterval = 60\<rparr>\<rparr>"

definition sample_boot :: boot_env where
  "sample_boot = \<lparr>be_getenv = (\<lambda>k. if k = ''ENCRYPT_KEY'' then b64_encode sample_key_bytes else []),
     be_format = (\<lambda>_ _ _ _ _. []), be_url_parse = (\<lambda>_. Some (''nats'', ''broker'')),
     be_nats = \<lparr>ne_connect = (\<lambda>_. None), ne_server = (\<lambda>_. Inr []), ne_ready = True\<rparr>, be_jetstream = None,
     be_stream_info = Inr (Some zatca_stream), be_add_stream = (\<lambda>_. None), be_open_master = (\<lambda>_. None), be_daemon = sample_env\<rparr>"

theorem started_daemon_witness: "\<exists>d. daemon_main sample_boot sample_flags = Inr d \<and> tenants_of d = {sample_tenant} \<and> topology_ok d"
proof -
  have "trim_space ''external'' = ''external''" "trim_space ''nats://broker'' = ''nats://broker''"
    by (simp_all add: trim_space_graphic graphic_def)
  moreover have "to_lower ''external'' = ''external''"
    by (simp add: to_lower_def) code_simp
  ultimately have mode: "ParseNATSMode ''external'' = Inr NATSExternal" and url: "trim_space ''nats://broker'' \<noteq> []"
    by (simp_all add: ParseNATSMode_def NATSExternal_def)
  have again: "ParseNATSMode NATSExternal = Inr NATSExternal"
    using mode by (simp add: NATSExternal_def)
  have modes: "NATSExternal \<noteq> NATSEmbedded"
    by (simp add: NATSExternal_def NATSEmbedded_def)
  obtain d where run: "reconcile sample_env (newDaemonReconciler [] 300 10) = (None, d)"
    using sample_run(1) unfolding sample_daemon_def by (metis prod.collapse)
  have started: "daemon_main sample_boot sample_flags = Inr d"
    using run sample_key mode again url modes
    by (simp add: daemon_main_def sample_boot_def sample_flags_def database_dsns_def openNATS_def nats_Validate_def
        ensureStream_def zatca_stream_def Let_def del: b64_encode.simps)
  from started_daemon [OF this] show ?thesis
    using started sample_master by (simp add: sample_boot_def sample_env_facts)
qed

end
