(* ===== verification/Operator_Tools.thy ===== *)
theory Operator_Tools
  imports Zatca_Cli Reconcile_Request Daemon_Boot Store_Config
begin

text \<open>
  The tools of an operator: \<open>cmd/zatca-reconcile\<close> asks the daemon about the outcome of a bill, or tells it
  one, over NATS, and \<open>cmd/store_status\<close> lists the ZATCA registration of every branch.  Parsing the
  flags, NATS, the database, the probe of the API and the JSON encoders are arguments; deferred closes
  are left out.
\<close>

section \<open>The reconciliation tool\<close>

text \<open>The flags.  \<open>None\<close> is a flag that is not given, where its default is not the zero value.\<close>

record reconcile_flags =
  rf_natsURL :: "string option"
  rf_tenantKey :: string
  rf_dbName :: string
  rf_branchID :: int
  rf_billID :: int
  rf_action :: "string option"
  rf_invoiceUUID :: string
  rf_invoiceHash :: string
  rf_state :: string
  rf_providerCode :: string
  rf_message :: string
  rf_evidenceID :: string

definition tool_request :: "reconcile_flags \<Rightarrow> reconcile_request" where
  "tool_request f =
     \<lparr>rr_TenantKey = rf_tenantKey f, rr_DBName = rf_dbName f, rr_BranchID = rf_branchID f, rr_BillID = rf_billID f,
      rr_Action = (case rf_action f of None \<Rightarrow> ReconcileActionStatus | Some a \<Rightarrow> a), rr_InvoiceUUID = rf_invoiceUUID f,
      rr_InvoiceHash = rf_invoiceHash f, rr_State = rf_state f, rr_ProviderCode = rf_providerCode f,
      rr_Message = rf_message f, rr_EvidenceID = rf_evidenceID f\<rparr>"

text \<open>The encoders and decoders, and the connection: connecting to a URL, and a request on a subject.\<close>

record reconcile_tool_env =
  rx_marshal :: "reconcile_request \<Rightarrow> goerr + string"
  rx_connect :: "string \<Rightarrow> goerr option"
  rx_request :: "string \<Rightarrow> string \<Rightarrow> goerr + string"
  rx_unmarshal :: "string \<Rightarrow> goerr + reconcile_reply"
  rx_indent :: "reconcile_reply \<Rightarrow> goerr + string"

definition reconcile_main :: "(string \<Rightarrow> string) \<Rightarrow> reconcile_tool_env \<Rightarrow> reconcile_flags \<Rightarrow> cli_run" where
  "reconcile_main getenv env f =
     (let natsURL = (case rf_natsURL f of None \<Rightarrow> envOrDefault getenv ''NATS_URL'' [] | Some u \<Rightarrow> u);
          req = tool_request f
      in if natsURL = [] then fatal [] ''NATS URL is required: set --nats-url or NATS_URL''
         else
           case EncodeReconcileRequest (rx_marshal env) req of
             Inl e \<Rightarrow> fatal_error [] [] e
           | Inr data \<Rightarrow>
             (case rx_connect env natsURL of
                Some e \<Rightarrow> fatal_error [] ''connect to NATS: '' e
              | None \<Rightarrow>
                (case rx_request env (ReconcileSubject (rr_TenantKey req)) data of
                   Inl e \<Rightarrow> fatal_error [] ''reconciliation request failed: '' e
                 | Inr replyData \<Rightarrow>
                   (case rx_unmarshal env replyData of
                      Inl e \<Rightarrow> fatal_error [] ''decode reconciliation reply: '' e
                    | Inr reply \<Rightarrow>
                      (case rx_indent env reply of
                         Inl e \<Rightarrow> fatal_error [] [] e
                       | Inr encoded \<Rightarrow> ([println encoded], if rp_Accepted reply then 0 else 1))))))"

section \<open>The status tool\<close>

text \<open>\<open>%-ns\<close>: padded on the right to \<open>n\<close> runes.\<close>

definition pad_right :: "nat \<Rightarrow> string \<Rightarrow> string" where
  "pad_right n s = s @ replicate (n - rune_count s) (CHR '' '')"

text \<open>\<open>s[:max-2]\<close> cuts between bytes.\<close>

definition status_truncate :: "string \<Rightarrow> nat \<Rightarrow> string" where
  "status_truncate s limit = (if length s \<le> limit then s else take (limit - 2) s @ ''..'')"

definition table_row :: "string \<Rightarrow> string \<Rightarrow> string \<Rightarrow> string \<Rightarrow> string \<Rightarrow> string \<Rightarrow> string \<Rightarrow> string" where
  "table_row branch store name company vat status message =
     join_with '' '' [pad_right 8 branch, pad_right 8 store, pad_right 25 name, pad_right 25 company, pad_right 20 vat,
       pad_right 16 status, message]"

definition status_line :: "BranchStatus \<Rightarrow> string" where
  "status_line s =
     table_row (show_int (st_BranchID s)) (show_int (st_StoreID s)) (status_truncate (st_BranchName s) 25)
       (status_truncate (st_Company s) 25) (st_VAT s) (st_Status s) (st_Message s)"

definition status_rule :: string where
  "status_rule = join_with '' '' (map (\<lambda>n. replicate n (CHR ''-'')) [8, 8, 25, 25, 20, 16, 25])"

definition status_table :: "BranchStatus list \<Rightarrow> cli_effect list" where
  "status_table sts =
     println (table_row ''BRANCH'' ''STORE'' ''BRANCH NAME'' ''COMPANY'' ''VAT'' ''STATUS'' ''MESSAGE'') #
     println status_rule # map (println \<circ> status_line) sts"

record status_flags =
  sf_dsn :: string
  sf_dbUser :: string
  sf_dbPass :: string
  sf_dbHost :: string
  sf_dbPort :: "string option"
  sf_dbName :: string
  sf_zatcaEnv :: "string option"
  sf_ping :: bool
  sf_json :: bool

text \<open>A text, or else an environment variable.\<close>

definition or_env :: "(string \<Rightarrow> string) \<Rightarrow> string \<Rightarrow> string \<Rightarrow> string" where
  "or_env getenv value var = (if value = [] then getenv var else value)"

definition status_dsn :: "(string \<Rightarrow> string) \<Rightarrow> dsn_format \<Rightarrow> status_flags \<Rightarrow> goerr + string" where
  "status_dsn getenv format f =
     (if sf_dsn f \<noteq> [] then Inr (sf_dsn f)
      else if getenv ''DSN'' \<noteq> [] then Inr (getenv ''DSN'')
      else
        let port = (case sf_dbPort f of None \<Rightarrow> ''3306'' | Some p \<Rightarrow> p) in
        ResolveDSN format [] (or_env getenv (sf_dbUser f) ''DBUSER'') (or_env getenv (sf_dbPass f) ''PASSWORD'')
          (or_env getenv (sf_dbHost f) ''HOST'') (if getenv ''PORT'' \<noteq> [] \<and> port = ''3306'' then getenv ''PORT'' else port)
          (or_env getenv (sf_dbName f) ''DBNAME''))"

text \<open>Opening a database, the status query, the row of a branch with its secrets as stored, decryption, the
  probe of the API and the JSON encoder.\<close>

record status_env =
  se_format :: dsn_format
  se_open :: "string \<Rightarrow> goerr option"
  se_query :: "goerr + (goerr + status_row) list \<times> goerr option"
  se_row :: "int \<Rightarrow> goerr + BranchZATCA"
  se_decrypt :: "Key \<Rightarrow> string \<Rightarrow> goerr + string"
  se_new_request :: "string \<Rightarrow> goerr option"
  se_probe :: "string \<Rightarrow> goerr + int"
  se_encode :: "BranchStatus list \<Rightarrow> goerr + string"

definition status_config :: "status_flags \<Rightarrow> config" where
  "status_config f =
     \<lparr>cf_Env = (case sf_zatcaEnv f of None \<Rightarrow> Production | Some e \<Rightarrow> e), cf_OTP = [], cf_ComplianceUsername = [],
      cf_CompliancePassword = [], cf_ProductionUsername = [], cf_ProductionPassword = [], cf_EGSID = [],
      cf_CSR = \<lparr>csr_CommonName = [], csr_SerialNumber = [], csr_OrgIdentifier = [], csr_OrgUnit = [], csr_OrgName = [],
        csr_Country = [], csr_InvoiceType = [], csr_Location = [], csr_BusinessCategory = []\<rparr>,
      cf_Seller = \<lparr>sl_Name = [], sl_NameAR = [], sl_VAT = [], sl_CRN = [], sl_Street = [], sl_Building = [], sl_District = [],
        sl_City = [], sl_PostalCode = [], sl_Country = []\<rparr>\<rparr>"

definition ping_branch :: "status_env \<Rightarrow> config \<Rightarrow> Key \<Rightarrow> BranchStatus \<Rightarrow> BranchStatus" where
  "ping_branch env cfg key =
     CheckZATCAConnection (se_new_request env) (se_probe env) (\<lambda>b. LoadBranchZATCA (se_decrypt env key) (se_row env b) b) cfg"

definition status_main :: "(string \<Rightarrow> string) \<Rightarrow> status_env \<Rightarrow> status_flags \<Rightarrow> cli_run" where
  "status_main getenv env f =
     (case status_dsn getenv (se_format env) f of
        Inl e \<Rightarrow> fatal_error [] ''DSN required: use --dsn or --db-user/--db-pass/--db-host/--db-name: '' e
      | Inr dsn \<Rightarrow>
        (case se_open env dsn of
           Some e \<Rightarrow> fatal_error [] ''open db: '' e
         | None \<Rightarrow>
           (case LoadAllBranchStatuses (se_query env) of
              Inl e \<Rightarrow> fatal_error [] ''load branch statuses: '' e
            | Inr statuses \<Rightarrow>
              (let report = (\<lambda>sts. if sf_json f then
                     (case se_encode env sts of Inl e \<Rightarrow> fatal_error [] ''encode json: '' e | Inr text \<Rightarrow> ([Stdout text], 0))
                   else (status_table sts, 0))
               in if sf_ping f then
                    (if getenv ''ENCRYPT_KEY'' = [] then fatal [] ''ENCRYPT_KEY environment variable is required for --ping''
                     else case NewKey (getenv ''ENCRYPT_KEY'') of
                       Inl e \<Rightarrow> fatal_error [] ''invalid ENCRYPT_KEY: '' e
                     | Inr key \<Rightarrow> report (map (ping_branch env (status_config f) key) statuses))
                  else report statuses))))"

section \<open>The tool and the daemon\<close>

text \<open>A request of the tool reaches the responder of the tenant whose subject it names.\<close>

definition daemon_request ::
    "(string \<Rightarrow> string + reconcile_request) \<Rightarrow> (reconcile_reply \<Rightarrow> goerr + string) \<Rightarrow> sql_env \<Rightarrow> tenantCtx \<Rightarrow> tenant_db \<Rightarrow>
     string \<Rightarrow> string \<Rightarrow> goerr + string" where
  "daemon_request json marshal env tc db subject data =
     (if subject \<noteq> ReconcileSubject (tn_TenantKey (tc_tenant tc)) then Inl (NewError ''nats: no responders available for request'')
      else case fst (reconcile_callback json marshal env tc \<lparr>nm_Subject = subject, nm_Data = data, nm_NumDelivered = None\<rparr> db) of
        [Respond d] \<Rightarrow> Inr d
      | _ \<Rightarrow> Inl (NewError ''nats: timeout''))"

text \<open>
  What \<open>encoding/json\<close> documents of these structures: texts of valid UTF-8 survive the encoder of one side
  and the decoder of the other, and the tool can print a reply of such texts.  A text that is not valid
  UTF-8 is changed by the encoder, so nothing is said of those.
\<close>

definition reply_valid :: "reconcile_reply \<Rightarrow> bool" where
  "reply_valid r \<longleftrightarrow> list_all valid_string [rp_State r, rp_Evidence r, rp_EvidenceID r, rp_InvoiceHash r, rp_Error r]"

definition request_valid :: "reconcile_request \<Rightarrow> bool" where
  "request_valid r \<longleftrightarrow> list_all valid_string [rr_TenantKey r, rr_DBName r, rr_Action r, rr_InvoiceUUID r, rr_InvoiceHash r, rr_State r,
     rr_ProviderCode r, rr_Message r, rr_EvidenceID r]"

definition reply_codec :: "(reconcile_reply \<Rightarrow> goerr + string) \<Rightarrow> reconcile_tool_env \<Rightarrow> (reconcile_reply \<Rightarrow> string) \<Rightarrow> bool" where
  "reply_codec marshal x pretty \<longleftrightarrow>
     (\<forall>r. reply_valid r \<longrightarrow> (\<exists>d. marshal r = Inr d \<and> rx_unmarshal x d = Inr r) \<and> rx_indent x r = Inr (pretty r))"

definition request_codec :: "(string \<Rightarrow> string + reconcile_request) \<Rightarrow> reconcile_tool_env \<Rightarrow> bool" where
  "request_codec json x \<longleftrightarrow> (\<forall>r. request_valid r \<longrightarrow> (\<exists>d. rx_marshal x r = Inr d \<and> json d = Inr r))"

lemma daemon_answers:
  assumes "json data = Inr req" and "reconcile_Validate req = None" and "rr_TenantKey req = tn_TenantKey (tc_tenant tc)"
    and "reply_codec marshal x pretty" and "reply_valid (fst (handleReconcileRequest env tc req db))"
  shows "\<exists>d. daemon_request json marshal env tc db (ReconcileSubject (rr_TenantKey req)) data = Inr d \<and>
    rx_unmarshal x d = Inr (fst (handleReconcileRequest env tc req db))"
proof -
  obtain reply db' where run: "handleReconcileRequest env tc req db = (reply, db')"
    by fastforce
  then obtain d where "marshal reply = Inr d" "rx_unmarshal x d = Inr reply"
    using assms(4,5) unfolding reply_codec_def by auto
  then show ?thesis
    using assms(1-3) run
    by (simp add: daemon_request_def reconcile_callback_def DecodeReconcileRequest_def strictDecode_def)
qed

text \<open>The tool connected to the responder of a tenant.\<close>

definition asking :: "(string \<Rightarrow> string + reconcile_request) \<Rightarrow> (reconcile_reply \<Rightarrow> goerr + string) \<Rightarrow> sql_env \<Rightarrow> tenantCtx \<Rightarrow> tenant_db \<Rightarrow>
    reconcile_tool_env \<Rightarrow> reconcile_tool_env" where
  "asking json marshal env tc db x = x\<lparr>rx_request := daemon_request json marshal env tc db\<rparr>"

lemma tool_prints_answer:
  assumes "(case rf_natsURL f of None \<Rightarrow> envOrDefault getenv ''NATS_URL'' [] | Some u \<Rightarrow> u) = url" and "url \<noteq> []" and "rx_connect x url = None"
    and "reconcile_Validate (tool_request f) = None" and "request_valid (tool_request f)"
    and "request_codec json x" and "reply_codec marshal x pretty" and "rf_tenantKey f = tn_TenantKey (tc_tenant tc)"
    and "handleReconcileRequest env tc (tool_request f) db = (reply, db')" and "reply_valid reply"
  shows "reconcile_main getenv (asking json marshal env tc db x) f = ([println (pretty reply)], if rp_Accepted reply then 0 else 1)"
proof -
  let ?req = "tool_request f"
  have key: "rr_TenantKey ?req = tn_TenantKey (tc_tenant tc)"
    using assms(8) by (simp add: tool_request_def)
  obtain data where data: "rx_marshal x ?req = Inr data" "json data = Inr ?req"
    using assms(5,6) unfolding request_codec_def by blast
  obtain d where "daemon_request json marshal env tc db (ReconcileSubject (rr_TenantKey ?req)) data = Inr d" "rx_unmarshal x d = Inr reply"
    using daemon_answers [of json data ?req tc marshal x pretty env db, OF data(2) assms(4) key assms(7)] assms(9,10) by auto
  moreover have "rx_indent x reply = Inr (pretty reply)"
    using assms(7,10) by (simp add: reply_codec_def)
  ultimately show ?thesis
    using assms(1-4) data(1) by (simp add: reconcile_main_def EncodeReconcileRequest_def Let_def asking_def)
qed

lemma status_reply:
  assumes "rf_tenantKey f = tn_TenantKey (tc_tenant tc)" and "rf_dbName f = tn_DBName (tc_tenant tc)"
    and "rf_action f \<in> {None, Some ReconcileActionStatus}"
    and "Stored env (bill_message (rf_billID f)) db = Inr (Some i)"
    and "rf_invoiceUUID f \<in> {[], i_UUID i}" and "rf_invoiceHash f \<in> {[], i_Hash i}"
  shows "handleReconcileRequest env tc (tool_request f) db =
    (\<lparr>rp_Accepted = True, rp_State = (if i_Outcome i = [] then ''pending'' else i_Outcome i),
      rp_Evidence = (if i_OutcomeEvidence i = EvidenceExternal then ''external'' else ''recorded''),
      rp_EvidenceID = i_EvidenceID i, rp_InvoiceHash = i_Hash i, rp_Error = []\<rparr>, db)"
  using assms by (auto simp: handleReconcileRequest_def tool_request_def)

lemma outcome_words: "valid_string OutcomeAccepted" "valid_string OutcomeRejected" "valid_string OutcomeWarning"
  "valid_string OutcomeAmbiguous" "valid_string OutcomeTerminalFailure" "valid_string ''pending''" "valid_string ''external''" "valid_string ''recorded''"
  by (simp_all add: outcome_defs valid_string_graphic graphic_def)

lemma status_valid: "submissionStatus st = Inr n \<Longrightarrow> valid_string st \<and> st \<noteq> []"
  using outcome_words by (auto simp: submissionStatus_def outcome_defs split: if_splits)

lemma evidence_valid: "validEvidenceText v n \<Longrightarrow> valid_string v"
  by (simp add: validEvidenceText_def split: if_splits)

text \<open>C17: an operator sees what the daemon recorded.  The bill has a committed invoice that waits for its answer:
  a status request of the tool prints \<open>pending\<close> and its hash.  Then the daemon records an answer: it is stored,
  and from then on the same request prints the state of that answer, whether the evidence is external, its
  id and the hash; each time the tool exits with 0.  The conditions: the statements succeed, the state is
  one of the five known ones, the texts of the answer fit their columns, an external evidence id has no bar and
  no other message starts like an external one, the request is valid, asks for the status, for that tenant, and
  with no or the stored UUID and hash, and the texts of the request and the hash are valid UTF-8; the JSON codecs
  are only assumed to keep texts of valid UTF-8.\<close>

theorem operator_sees_outcome:
  assumes "healthy env" and "healthy env'" and "submissionStatus (oc_State oc) = Inr status"
    and "oc_Evidence oc \<in> {EvidenceUnspecified, EvidenceProvider, EvidenceExternal, EvidenceLocal}"
    and "oc_Evidence oc = EvidenceExternal \<Longrightarrow> trim_space (oc_EvidenceID oc) \<noteq> [] \<and>
      validEvidenceText (oc_EvidenceID oc) 256 \<and> CHR ''|'' \<notin> set (oc_EvidenceID oc)"
    and "oc_Evidence oc \<noteq> EvidenceExternal \<Longrightarrow> \<not> has_prefix (oc_Message oc) externalEvidencePrefix"
    and "rune_count (oc_ProviderCode oc) \<le> 64"
    and "rune_count (outcomeMessage oc) \<le> (if rejecting oc then 512 else 1024)"
    and "stored_row (rf_billID f) db = Some (s, b)" and "s_outcome_state s = outcomePending"
    and "i_SourceID i = rf_billID f" and "valid_string (s_invoice_hash s)"
    and "(case rf_natsURL f of None \<Rightarrow> envOrDefault getenv ''NATS_URL'' [] | Some u \<Rightarrow> u) = url" and "url \<noteq> []" and "rx_connect x url = None"
    and "reconcile_Validate (tool_request f) = None" and "request_valid (tool_request f)"
    and "request_codec json x" and "reply_codec marshal x pretty"
    and "rf_tenantKey f = tn_TenantKey (tc_tenant tc)" and "rf_dbName f = tn_DBName (tc_tenant tc)"
    and "rf_action f \<in> {None, Some ReconcileActionStatus}"
    and "rf_invoiceUUID f \<in> {[], s_invoice_uuid s}" and "rf_invoiceHash f \<in> {[], s_invoice_hash s}"
  shows "reconcile_main getenv (asking json marshal env' tc db x) f =
      ([println (pretty \<lparr>rp_Accepted = True, rp_State = ''pending'', rp_Evidence = ''recorded'', rp_EvidenceID = [],
          rp_InvoiceHash = s_invoice_hash s, rp_Error = []\<rparr>)], 0) \<and>
    (\<exists>db'. Record env i oc db = (None, db') \<and>
      reconcile_main getenv (asking json marshal env' tc db' x) f =
        ([println (pretty \<lparr>rp_Accepted = True, rp_State = oc_State oc,
            rp_Evidence = (if oc_Evidence oc = EvidenceExternal then ''external'' else ''recorded''),
            rp_EvidenceID = (if oc_Evidence oc = EvidenceExternal then oc_EvidenceID oc else []),
            rp_InvoiceHash = s_invoice_hash s, rp_Error = []\<rparr>)], 0))"
proof -
  note tool = tool_prints_answer [OF assms(13-20)] and reply = status_reply [OF assms(20-22)]
  let ?msg = "bill_message (rf_billID f)"
  have row: "stored_row (m_ID ?msg) db = Some (s, b)" "i_SourceID i = m_ID ?msg" using assms(9,11) by (simp_all add: bill_message_def)
  have before: "Stored env' ?msg db = Inr (Some (invoice_of_row s b))" using assms(2) row by (simp add: Stored_def)
  have fields: "i_UUID (invoice_of_row s b) = s_invoice_uuid s" "i_Hash (invoice_of_row s b) = s_invoice_hash s"
    "i_Outcome (invoice_of_row s b) = []" "i_OutcomeEvidence (invoice_of_row s b) = EvidenceUnspecified" "i_EvidenceID (invoice_of_row s b) = []"
    using assms(10) by (simp_all add: invoice_of_row_def Let_def case_prod_beta)
  obtain db' i' where rec: "Record env i oc db = (None, db')" "Stored env' ?msg db' = Inr (Some i')"
    "i_Outcome i' = oc_State oc" "i_UUID i' = s_invoice_uuid s" "i_Hash i' = s_invoice_hash s"
    "(i_OutcomeEvidence i', i_EvidenceID i') =
      (if oc_Evidence oc = EvidenceExternal then (EvidenceExternal, oc_EvidenceID oc) else (EvidenceUnspecified, []))"
    using stored_after_record [OF assms(1-8) row(1) assms(10) row(2)] by metis
  have pending: "reconcile_main getenv (asking json marshal env' tc db x) f =
      ([println (pretty \<lparr>rp_Accepted = True, rp_State = ''pending'', rp_Evidence = ''recorded'', rp_EvidenceID = [],
          rp_InvoiceHash = s_invoice_hash s, rp_Error = []\<rparr>)], 0)"
    using tool [OF reply [OF before]] assms(12,23,24) outcome_words
    by (simp add: fields reply_valid_def evidence_defs)
  have "reconcile_main getenv (asking json marshal env' tc db' x) f =
        ([println (pretty \<lparr>rp_Accepted = True, rp_State = oc_State oc,
            rp_Evidence = (if oc_Evidence oc = EvidenceExternal then ''external'' else ''recorded''),
            rp_EvidenceID = (if oc_Evidence oc = EvidenceExternal then oc_EvidenceID oc else []),
            rp_InvoiceHash = s_invoice_hash s, rp_Error = []\<rparr>)], 0)"
    using tool [OF reply [OF rec(2)]] assms(12,23,24) outcome_words status_valid [OF assms(3)] rec(3-6) assms(5) evidence_valid
    by (auto simp: reply_valid_def evidence_defs split: if_splits)
  with pending rec(1) show ?thesis by blast
qed

text \<open>A request the daemon would refuse as invalid is never sent: the tool checks it first.\<close>

theorem invalid_request_not_sent:
  assumes "reconcile_Validate (tool_request f) \<noteq> None"
  shows "reconcile_main getenv (x\<lparr>rx_request := request\<rparr>) f = reconcile_main getenv x f \<and> snd (reconcile_main getenv x f) = 1"
  using assms by (auto simp: reconcile_main_def EncodeReconcileRequest_def Let_def fatal_def fatal_error_def)

section \<open>The status table\<close>

lemma pad_right_length: "list_all graphic s \<Longrightarrow> length s \<le> n \<Longrightarrow> length (pad_right n s) = n"
  by (simp add: pad_right_def rune_count_def runes_graphic)

lemma truncate_bound: "2 \<le> n \<Longrightarrow> length (status_truncate s n) \<le> n"
  by (auto simp: status_truncate_def)

lemma truncate_graphic: "list_all graphic s \<Longrightarrow> list_all graphic (status_truncate s n)"
  by (auto simp: status_truncate_def list_all_iff graphic_def dest: in_set_takeD)

lemma show_int_graphic: "list_all graphic (show_int k)"
  by (auto simp: list_all_iff graphic_def is_digit_def dest!: show_int_chars)

text \<open>The columns line up for ASCII texts: whatever the lengths of the names, the message of every branch starts
  at the same column.\<close>

theorem status_columns_aligned:
  assumes "list_all graphic (st_BranchName s)" and "list_all graphic (st_Company s)" and "list_all graphic (st_VAT s)"
    and "list_all graphic (st_Status s)" and "length (st_VAT s) \<le> 20" and "length (st_Status s) \<le> 16"
    and "length (show_int (st_BranchID s)) \<le> 8" and "length (show_int (st_StoreID s)) \<le> 8"
  shows "\<exists>cells. status_line s = cells @ st_Message s \<and> length cells = 108"
  using assms truncate_bound [of 25]
  by (auto simp: status_line_def table_row_def pad_right_length truncate_graphic show_int_graphic)

text \<open>A longer name is cut between bytes, which may split a letter: the line is then no longer valid UTF-8.\<close>

lemma truncate_splits_rune: "\<not> valid_string (status_truncate [CHR 0xD8, CHR 0xB4, CHR 0xD8, CHR 0xB1, CHR 0xD9, CHR 0x83] 5)"
  by (simp add: status_truncate_def valid_string.simps(2) cont_byte_def rune_error_def)

text \<open>The probe changes nothing but the status and the message of a branch.\<close>

lemma ping_keeps: "st_BranchID (ping_branch env cfg key s) = st_BranchID s" "st_StoreID (ping_branch env cfg key s) = st_StoreID s"
  "st_BranchName (ping_branch env cfg key s) = st_BranchName s" "st_VAT (ping_branch env cfg key s) = st_VAT s"
  by (simp_all add: ping_branch_def CheckZATCAConnection_def Let_def split: sum.splits option.splits)

section \<open>Sample runs\<close>

text \<open>A codec for requests and replies: texts in hexadecimal and numbers in unary, separated by commas.\<close>

definition sample_wire :: "reconcile_reply \<Rightarrow> string" where
  "sample_wire r = concat (map (\<lambda>t. hex_encode t @ '','') [rp_State r, rp_Evidence r, rp_EvidenceID r, rp_InvoiceHash r, rp_Error r]) @
     (if rp_Accepted r then ''1'' else ''0'')"

fun sample_unwire :: "string list \<Rightarrow> goerr + reconcile_reply" where
  "sample_unwire [a, b, c, d, e, f] =
     (case (hex_pairs a, hex_pairs b, hex_pairs c, hex_pairs d, hex_pairs e) of
        (Inr a, Inr b, Inr c, Inr d, Inr e) \<Rightarrow>
          Inr \<lparr>rp_Accepted = (f = ''1''), rp_State = a, rp_Evidence = b, rp_EvidenceID = c, rp_InvoiceHash = d, rp_Error = e\<rparr>
      | _ \<Rightarrow> Inl (NewError ''bad field''))"
| "sample_unwire _ = Inl (NewError ''bad reply'')"

lemma hex_no_comma: "CHR '','' \<notin> set (hex_encode s)"
proof -
  have "hexVal (CHR '','') \<noteq> Inr n" for n
    by (simp add: hexVal_def hex_val_def)
  then have ne: "CHR '','' \<noteq> hex_digit n" if "n < 16" for n
    using hexVal_digit [OF that] by metis
  show ?thesis
    by (induction s) (use ne byte_bound in \<open>auto simp: less_mult_imp_div_less\<close>)
qed

lemma split_hex: "split_on (CHR '','') (hex_encode s @ CHR '','' # r) = hex_encode s # split_on (CHR '','') r"
  using split_on_append [OF hex_no_comma] by simp

definition unary :: "int \<Rightarrow> string" where
  "unary k = (if 0 \<le> k then replicate (nat k) (CHR ''1'') else replicate (nat (- k)) (CHR ''-''))"

definition of_unary :: "string \<Rightarrow> int" where
  "of_unary s = (if has_prefix s ''-'' then - int (length s) else int (length s))"

lemma of_unary_unary: "of_unary (unary k) = k"
proof (cases "0 \<le> k")
  case True
  then show ?thesis by (cases "nat k") (auto simp: of_unary_def unary_def has_prefix_def)
next
  case False
  then show ?thesis by (cases "nat (- k)") (auto simp: of_unary_def unary_def has_prefix_def)
qed

lemma split_unary: "split_on (CHR '','') (unary k @ CHR '','' # r) = unary k # split_on (CHR '','') r"
  by (rule split_on_append) (simp add: unary_def)

lemma split_last_unary: "split_on (CHR '','') (unary k) = [unary k]"
  by (rule split_on_last) (simp add: unary_def)

definition request_wire :: "reconcile_request \<Rightarrow> string" where
  "request_wire r = concat (map (\<lambda>t. hex_encode t @ '','') [rr_TenantKey r, rr_DBName r, rr_Action r, rr_InvoiceUUID r, rr_InvoiceHash r,
     rr_State r, rr_ProviderCode r, rr_Message r, rr_EvidenceID r]) @ unary (rr_BranchID r) @ '','' @ unary (rr_BillID r)"

fun request_unwire :: "string list \<Rightarrow> string + reconcile_request" where
  "request_unwire [a, b, c, d, e, f, g, h, i, m, n] =
     (case (hex_pairs a, hex_pairs b, hex_pairs c, hex_pairs d, hex_pairs e, hex_pairs f, hex_pairs g, hex_pairs h, hex_pairs i) of
        (Inr a, Inr b, Inr c, Inr d, Inr e, Inr f, Inr g, Inr h, Inr i) \<Rightarrow>
          Inr \<lparr>rr_TenantKey = a, rr_DBName = b, rr_BranchID = of_unary m, rr_BillID = of_unary n, rr_Action = c, rr_InvoiceUUID = d,
            rr_InvoiceHash = e, rr_State = f, rr_ProviderCode = g, rr_Message = h, rr_EvidenceID = i\<rparr>
      | _ \<Rightarrow> Inl ''bad field'')"
| "request_unwire _ = Inl ''bad request''"

lemma request_wire_back: "request_unwire (split_on (CHR '','') (request_wire r)) = Inr r"
  by (simp add: request_wire_def split_hex split_unary split_last_unary hex_pairs_encode of_unary_unary del: hex_encode.simps)

definition sample_question :: reconcile_flags where
  "sample_question = \<lparr>rf_natsURL = Some ''nats://localhost:4222'', rf_tenantKey = ''acme-0001'', rf_dbName = ''tenant_acme'',
     rf_branchID = 7, rf_billID = 42, rf_action = None, rf_invoiceUUID = [], rf_invoiceHash = [], rf_state = [],
     rf_providerCode = [], rf_message = [], rf_evidenceID = []\<rparr>"

definition sample_daemon_db :: tenant_db where
  "sample_daemon_db = sample_db (b64_encode (replicate 32 (CHR ''x'')))"

definition sample_json :: "string \<Rightarrow> string + reconcile_request" where
  "sample_json d = request_unwire (split_on (CHR '','') d)"

definition sample_tool_env :: reconcile_tool_env where
  "sample_tool_env = \<lparr>rx_marshal = Inr \<circ> request_wire, rx_connect = (\<lambda>_. None), rx_request = (\<lambda>_ _. Inl (NewError ''nats: timeout'')),
     rx_unmarshal = sample_unwire \<circ> split_on (CHR '',''), rx_indent = Inr \<circ> sample_wire\<rparr>"

lemma sample_codec: "reply_codec (Inr \<circ> sample_wire) sample_tool_env sample_wire" "request_codec sample_json sample_tool_env"
  by (simp_all add: reply_codec_def request_codec_def sample_tool_env_def request_wire_back sample_json_def)
    (simp add: sample_wire_def split_hex hex_pairs_encode del: hex_encode.simps)

lemma sample_question_valid: "reconcile_Validate (tool_request sample_question) = None"
  by (simp add: reconcile_Validate_def tool_request_def sample_question_def sample_texts ReconcileActionStatus_def ReconcileActionRecord_def)

lemma sample_question_texts: "request_valid (tool_request sample_question)"
  by (simp add: request_valid_def tool_request_def sample_question_def valid_string_graphic graphic_def ReconcileActionStatus_def)

lemma sample_daemon_row: "\<exists>b. stored_row (rf_billID sample_question) sample_daemon_db =
    Some (new_submission sample_booked (sample_invoice\<lparr>i_Hash := b64_encode (replicate 32 (CHR ''x''))\<rparr>), b)"
  by (simp add: stored_row_def sample_daemon_db_def sample_db_def committed_def sample_booked_def sample_start_def bill_of_def new_bill_def
      sample_invoice_def sample_question_def bill_invoiced_def new_submission_def del: b64_encode.simps)

theorem operator_sees_outcome_witness:
  "\<exists>db'. Record (healthy_env 2) sample_invoice sample_answer sample_daemon_db = (None, db') \<and>
     reconcile_main (\<lambda>_. []) (asking sample_json (Inr \<circ> sample_wire) (healthy_env 9) sample_ctx db' sample_tool_env) sample_question =
       ([println (sample_wire \<lparr>rp_Accepted = True, rp_State = OutcomeRejected, rp_Evidence = ''external'', rp_EvidenceID = ''ticket-9'',
          rp_InvoiceHash = b64_encode (replicate 32 (CHR ''x'')), rp_Error = []\<rparr>)], 0)"
proof -
  let ?s = "new_submission sample_booked (sample_invoice\<lparr>i_Hash := b64_encode (replicate 32 (CHR ''x''))\<rparr>)"
  obtain b where row: "stored_row (rf_billID sample_question) sample_daemon_db = Some (?s, b)" using sample_daemon_row by blast
  have answer: "submissionStatus (oc_State sample_answer) = Inr 3" "rejecting sample_answer"
    "oc_Evidence sample_answer = EvidenceExternal" "oc_EvidenceID sample_answer = ''ticket-9''" "oc_State sample_answer = OutcomeRejected"
    by (simp_all add: submissionStatus_def sample_answer_def outcome_defs rejecting_def)
  have id: "trim_space ''ticket-9'' \<noteq> []" "validEvidenceText ''ticket-9'' 256" "CHR ''|'' \<notin> set ''ticket-9''"
    by (simp_all add: trim_space_graphic graphic_def validEvidenceText_def rune_count_def runes_graphic valid_string_graphic)
  have len: "rune_count (outcomeMessage sample_answer) \<le> 512" "rune_count (oc_ProviderCode sample_answer) \<le> 64"
    by (rule order_trans [OF rune_count_le_length], simp add: sample_answer_def outcomeMessage_def
        externalEvidencePrefix_def)+
  have s: "s_outcome_state ?s = outcomePending" "s_invoice_hash ?s = b64_encode (replicate 32 (CHR ''x''))"
    by (simp_all add: new_submission_def)
  have hash: "valid_string (s_invoice_hash ?s)"
    unfolding s(2) using b64_encode_base64 base64_graphic by (intro valid_string_graphic) (auto simp: list_all_iff)
  have f: "rf_natsURL sample_question = Some ''nats://localhost:4222''" "rx_connect sample_tool_env url = None"
    "rf_tenantKey sample_question = tn_TenantKey (tc_tenant sample_ctx)" "rf_dbName sample_question = tn_DBName (tc_tenant sample_ctx)"
    "rf_action sample_question = None" "rf_invoiceUUID sample_question = []" "rf_invoiceHash sample_question = []"
    "i_SourceID sample_invoice = rf_billID sample_question" for url
    by (simp_all add: sample_question_def sample_tool_env_def sample_ctx_def sample_tenant_def sample_invoice_def)
  have "\<exists>db'. Record (healthy_env 2) sample_invoice sample_answer sample_daemon_db = (None, db') \<and>
      reconcile_main (\<lambda>_. []) (asking sample_json (Inr \<circ> sample_wire) (healthy_env 9) sample_ctx db' sample_tool_env) sample_question =
        ([println (sample_wire \<lparr>rp_Accepted = True, rp_State = oc_State sample_answer,
            rp_Evidence = (if oc_Evidence sample_answer = EvidenceExternal then ''external'' else ''recorded''),
            rp_EvidenceID = (if oc_Evidence sample_answer = EvidenceExternal then oc_EvidenceID sample_answer else []),
            rp_InvoiceHash = s_invoice_hash ?s, rp_Error = []\<rparr>)], 0)"
    by (rule operator_sees_outcome [THEN conjunct2, OF _ _ answer(1) _ _ _ len(2) _ row s(1) f(8) hash _ _ f(2) [of "''nats://localhost:4222''"] sample_question_valid
          sample_question_texts sample_codec(2,1) f(3,4)])
      (use id len answer f in simp_all)
  then show ?thesis unfolding answer s(2) by simp
qed

end
