(* ===== verification/Branch_Onboarding.thy ===== *)
theory Branch_Onboarding
  imports Zatca_Service Store_Config
begin

text \<open>
  The onboarding of a branch, \<open>processor/onboard.go\<close>: loading what the user and the company tables say,
  the identity of the device, the certificate request, the run of the service facade and the row of
  \<open>branch_zatca_config\<close> that keeps its results.  The statements run on explicit tables; each may fail, and a
  write that reports an error may have been applied or not.  Logging is left out.
\<close>

section \<open>Tables\<close>

text \<open>The columns may be null, which is \<open>None\<close>.\<close>

record company_cols =
  co_name :: "string option"
  co_name_ar :: "string option"
  co_vat :: "string option"
  co_crn :: "string option"
  co_business_category :: "string option"

record store_cols =
  sc_id :: int
  sc_street_name :: "string option"
  sc_building_number :: "string option"
  sc_district :: "string option"
  sc_city :: "string option"
  sc_postal_code :: "string option"
  sc_country :: "string option"

record branch_config =
  bc_csr_org_identifier :: "string option"
  bc_csr_org_unit :: "string option"
  bc_csr_org_name :: "string option"
  bc_csr_country :: "string option"
  bc_csr_location :: "string option"
  bc_business_category :: "string option"
  bc_seller_vat :: "string option"
  bc_seller_crn :: "string option"
  bc_street :: "string option"
  bc_building :: "string option"
  bc_district :: "string option"
  bc_postal_code :: "string option"
  bc_csr :: "string option"
  bc_private_key :: "string option"
  bc_csr_tin :: "string option"
  bc_csr_computer_number :: "string option"
  bc_compliance_certificate :: "string option"
  bc_compliance_secret :: "string option"
  bc_compliance_request_id :: "string option"
  bc_production_username :: "string option"
  bc_production_password :: "string option"
  bc_production_request_id :: "string option"
  bc_registered_at :: "time option"

definition null_store :: store_cols where
  "null_store = \<lparr>sc_id = 0, sc_street_name = None, sc_building_number = None, sc_district = None, sc_city = None, sc_postal_code = None, sc_country = None\<rparr>"

definition null_config :: branch_config where
  "null_config = \<lparr>bc_csr_org_identifier = None, bc_csr_org_unit = None, bc_csr_org_name = None, bc_csr_country = None, bc_csr_location = None,
     bc_business_category = None, bc_seller_vat = None, bc_seller_crn = None, bc_street = None, bc_building = None, bc_district = None,
     bc_postal_code = None, bc_csr = None, bc_private_key = None, bc_csr_tin = None, bc_csr_computer_number = None,
     bc_compliance_certificate = None, bc_compliance_secret = None, bc_compliance_request_id = None, bc_production_username = None,
     bc_production_password = None, bc_production_request_id = None, bc_registered_at = None\<rparr>"

text \<open>A branch with its name, its company and its first store, if it has one; and the configuration rows.\<close>

record onboard_db =
  od_branch :: "int \<Rightarrow> (string option \<times> company_cols \<times> store_cols option) option"
  od_config :: "int \<Rightarrow> branch_config option"

definition coalesce :: "string option \<Rightarrow> string \<Rightarrow> string" where
  "coalesce v d = (case v of None \<Rightarrow> d | Some s \<Rightarrow> s)"

text \<open>
  What a run depends on: the errors of the three statements (with whether a failed write was applied),
  the columns a new row has by default, the clock, the cipher with the nonces of the four encryptions,
  the random identity, and the environment of the service.
\<close>

record 'f onboard_env =
  oe_query :: "goerr option"
  oe_save_csr :: "(goerr \<times> bool) option"
  oe_save_credentials :: "(goerr \<times> bool) option"
  oe_fresh :: branch_config
  oe_now :: time
  oe_seal :: aead_seal
  oe_open :: aead_open
  oe_nonce :: "nat \<Rightarrow> goerr + string"
  oe_draw :: "nat option"
  oe_uuid :: string
  oe_zatca :: "'f zatca_env"

section \<open>Loading\<close>

record onboardBranchData =
  bd_CompanyName :: string
  bd_CompanyNameAR :: string
  bd_VATReg :: string
  bd_CRN :: string
  bd_BranchName :: string
  bd_Street :: string
  bd_Building :: string
  bd_District :: string
  bd_City :: string
  bd_PostalCode :: string
  bd_Country :: string
  bd_BusinessCat :: string
  bd_CSRLocation :: string
  bd_CSRTIN :: string
  bd_CSRComputerNumber :: string
  bd_ExistingCSR :: string
  bd_ExistingPrivateKey :: string
  bd_ComplianceCert :: string

definition pick :: "string \<Rightarrow> string \<Rightarrow> string" where
  "pick primary fallback = (if primary \<noteq> [] then primary else fallback)"

definition onboard_taxpayer :: "onboardBranchData \<Rightarrow> taxpayer" where
  "onboard_taxpayer b =
     \<lparr>tp_CompanyName = bd_CompanyName b, tp_CompanyNameAR = bd_CompanyNameAR b, tp_VATNumber = bd_VATReg b, tp_CRN = bd_CRN b,
      tp_BranchName = bd_BranchName b, tp_BusinessCategory = bd_BusinessCat b, tp_Street = bd_Street b, tp_Building = bd_Building b,
      tp_District = bd_District b, tp_City = bd_City b, tp_PostalCode = bd_PostalCode b, tp_InvoiceType = [],
      tp_LocationCode = bd_CSRLocation b, tp_Country = bd_Country b, tp_TIN = [], tp_ComputerNumber = []\<rparr>"

definition config_row :: "onboard_db \<Rightarrow> int \<Rightarrow> branch_config" where
  "config_row db branchID = (case od_config db branchID of None \<Rightarrow> null_config | Some r \<Rightarrow> r)"

definition branch_data :: "string option \<Rightarrow> company_cols \<Rightarrow> store_cols \<Rightarrow> branch_config \<Rightarrow> onboardBranchData" where
  "branch_data name c s bz =
     \<lparr>bd_CompanyName = pick (coalesce (bc_csr_org_name bz) []) (coalesce (co_name c) []),
      bd_CompanyNameAR = coalesce (co_name_ar c) [],
      bd_VATReg = pick (coalesce (bc_seller_vat bz) []) (coalesce (co_vat c) []),
      bd_CRN = pick (coalesce (bc_seller_crn bz) []) (coalesce (co_crn c) []),
      bd_BranchName = pick (coalesce (bc_csr_org_unit bz) []) (coalesce name []),
      bd_Street = pick (coalesce (bc_street bz) []) (coalesce (sc_street_name s) []),
      bd_Building = pick (coalesce (bc_building bz) []) (coalesce (sc_building_number s) []),
      bd_District = pick (coalesce (bc_district bz) []) (coalesce (sc_district s) []),
      bd_City = coalesce (sc_city s) [],
      bd_PostalCode = pick (coalesce (bc_postal_code bz) []) (coalesce (sc_postal_code s) []),
      bd_Country = pick (coalesce (bc_csr_country bz) []) (coalesce (sc_country s) ''SA''),
      bd_BusinessCat = pick (coalesce (bc_business_category bz) []) (coalesce (co_business_category c) ''Supply activities''),
      bd_CSRLocation = coalesce (bc_csr_location bz) [],
      bd_CSRTIN = coalesce (bc_csr_tin bz) [], bd_CSRComputerNumber = coalesce (bc_csr_computer_number bz) [],
      bd_ExistingCSR = coalesce (bc_csr bz) [], bd_ExistingPrivateKey = [],
      bd_ComplianceCert = coalesce (bc_compliance_certificate bz) []\<rparr>"

definition loadOnboardBranch :: "'f onboard_env \<Rightarrow> onboard_db \<Rightarrow> int \<Rightarrow> Key \<Rightarrow> goerr + onboardBranchData" where
  "loadOnboardBranch env db branchID encKey =
     (case oe_query env of
        Some e \<Rightarrow> Inl (Wrapf (''load branch '' @ show_int branchID @ '': '') e [])
      | None \<Rightarrow>
        (case od_branch db branchID of
           None \<Rightarrow> Inl (NewError (''branch '' @ show_int branchID @ '' not found''))
         | Some (name, c, s) \<Rightarrow>
           (let bz = config_row db branchID; bzPriv = coalesce (bc_private_key bz) [];
                d = branch_data name c (case s of None \<Rightarrow> null_store | Some s \<Rightarrow> s) bz
            in if bzPriv = [] then Inr d
               else case Decrypt (oe_open env) encKey bzPriv of
                 Inl e \<Rightarrow> Inl (Wrapf ''decrypt existing private key: '' e [])
               | Inr dec \<Rightarrow> Inr (d\<lparr>bd_ExistingPrivateKey := dec\<rparr>))))"

section \<open>Saving\<close>

text \<open>An \<open>INSERT ... ON DUPLICATE KEY UPDATE\<close> that sets the same columns either way.\<close>

definition upsert :: "branch_config \<Rightarrow> int \<Rightarrow> (branch_config \<Rightarrow> branch_config) \<Rightarrow> onboard_db \<Rightarrow> onboard_db" where
  "upsert fresh branchID f db =
     db\<lparr>od_config := (od_config db)(branchID \<mapsto> f (case od_config db branchID of None \<Rightarrow> fresh | Some r \<Rightarrow> r))\<rparr>"

definition exec_write :: "(goerr \<times> bool) option \<Rightarrow> (onboard_db \<Rightarrow> onboard_db) \<Rightarrow> onboard_db \<Rightarrow> goerr option \<times> onboard_db" where
  "exec_write fault write db =
     (case fault of None \<Rightarrow> (None, write db) | Some (e, applied) \<Rightarrow> (Some e, if applied then write db else db))"

definition csr_columns :: "config \<Rightarrow> branch_config \<Rightarrow> branch_config" where
  "csr_columns cfg r =
     r\<lparr>bc_csr_org_identifier := Some (csr_OrgIdentifier (cf_CSR cfg)), bc_csr_org_unit := Some (csr_OrgUnit (cf_CSR cfg)),
       bc_csr_org_name := Some (csr_OrgName (cf_CSR cfg)), bc_csr_country := Some (csr_Country (cf_CSR cfg)),
       bc_csr_location := Some (csr_Location (cf_CSR cfg)), bc_business_category := Some (csr_BusinessCategory (cf_CSR cfg))\<rparr>"

definition csr_row :: "config \<Rightarrow> string \<Rightarrow> string \<Rightarrow> string \<Rightarrow> string \<Rightarrow> branch_config \<Rightarrow> branch_config" where
  "csr_row cfg csrPEM encryptedPrivateKey tin computerNumber r =
     (csr_columns cfg r)\<lparr>bc_csr := Some csrPEM, bc_private_key := Some encryptedPrivateKey,
       bc_csr_tin := Some tin, bc_csr_computer_number := Some computerNumber\<rparr>"

definition saveOnboardCSR ::
    "'f onboard_env \<Rightarrow> int \<Rightarrow> config \<Rightarrow> string \<Rightarrow> string \<Rightarrow> string \<Rightarrow> string \<Rightarrow> onboard_db \<Rightarrow> goerr option \<times> onboard_db" where
  "saveOnboardCSR env branchID cfg csrPEM encryptedPrivateKey tin computerNumber =
     exec_write (oe_save_csr env) (upsert (oe_fresh env) branchID (csr_row cfg csrPEM encryptedPrivateKey tin computerNumber))"

text \<open>The final write of \<open>OnboardBranch\<close>.\<close>

definition credential_row ::
    "time \<Rightarrow> config \<Rightarrow> onboardBranchData \<Rightarrow> string \<Rightarrow> string \<Rightarrow> string \<Rightarrow> string \<Rightarrow> OnboardResult \<Rightarrow> branch_config \<Rightarrow> branch_config" where
  "credential_row now cfg branch csrPEM encPriv encCompSecret encProdSecret result r =
     (csr_columns cfg r)\<lparr>
       bc_seller_vat := Some (bd_VATReg branch), bc_seller_crn := Some (bd_CRN branch), bc_street := Some (bd_Street branch),
       bc_building := Some (bd_Building branch), bc_district := Some (bd_District branch), bc_postal_code := Some (bd_PostalCode branch),
       bc_csr := Some csrPEM, bc_private_key := Some encPriv, bc_compliance_certificate := Some (ob_ComplianceCert result),
       bc_compliance_secret := Some encCompSecret, bc_compliance_request_id := Some (ob_ComplianceRequestID result),
       bc_production_username := Some (ob_ProductionCert result), bc_production_password := Some encProdSecret,
       bc_production_request_id := Some (ob_ProductionRequestID result), bc_registered_at := Some now\<rparr>"

definition save_credentials ::
    "'f onboard_env \<Rightarrow> int \<Rightarrow> config \<Rightarrow> onboardBranchData \<Rightarrow> string \<Rightarrow> string \<Rightarrow> string \<Rightarrow> string \<Rightarrow> OnboardResult \<Rightarrow> onboard_db \<Rightarrow>
     goerr option \<times> onboard_db" where
  "save_credentials env branchID cfg branch csrPEM encPriv encCompSecret encProdSecret result =
     exec_write (oe_save_credentials env)
       (upsert (oe_fresh env) branchID (credential_row (oe_now env) cfg branch csrPEM encPriv encCompSecret encProdSecret result))"

section \<open>Onboarding a branch\<close>

text \<open>The taxpayer with the identity of an earlier attempt, if there was one.\<close>

definition with_identity :: "onboardBranchData \<Rightarrow> taxpayer \<Rightarrow> taxpayer" where
  "with_identity b tp =
     tp\<lparr>tp_TIN := (if bd_CSRTIN b \<noteq> [] then bd_CSRTIN b else tp_TIN tp),
        tp_ComputerNumber := (if bd_CSRComputerNumber b \<noteq> [] then bd_CSRComputerNumber b else tp_ComputerNumber tp)\<rparr>"

definition branch_error :: "int \<Rightarrow> string" where
  "branch_error branchID = ''branch '' @ show_int branchID @ '': ''"

text \<open>The \<open>n\<close>-th encryption of a run.\<close>

definition run_encrypt :: "'f onboard_env \<Rightarrow> Key \<Rightarrow> nat \<Rightarrow> string \<Rightarrow> goerr + string" where
  "run_encrypt env encKey n = Encrypt (oe_seal env) (oe_nonce env n) encKey"

text \<open>What follows once the request is saved: the run of the service and the final write.\<close>

definition issue_credentials ::
    "'f onboard_env \<Rightarrow> int \<Rightarrow> Key \<Rightarrow> onboardBranchData \<Rightarrow> zatca_service \<Rightarrow> string \<Rightarrow> string \<Rightarrow> onboard_db \<Rightarrow> goerr option \<times> onboard_db" where
  "issue_credentials env branchID encKey branch svc csrPEM privateKey db =
     (case OnboardWithCSR (oe_zatca env) csrPEM privateKey (give_key privateKey [] svc) of
        (Inl e, svc1) \<Rightarrow> (Some (Wrapf ''onboarding failed: '' e []), db)
      | (Inr result, svc1) \<Rightarrow>
        (case run_encrypt env encKey 1 privateKey of
           Inl e \<Rightarrow> (Some (Wrapf ''encrypt private key: '' e []), db)
         | Inr encPriv \<Rightarrow>
           (case run_encrypt env encKey 2 (ob_ComplianceSecret result) of
              Inl e \<Rightarrow> (Some (Wrapf ''encrypt compliance secret: '' e []), db)
            | Inr encCompSecret \<Rightarrow>
              (case run_encrypt env encKey 3 (ob_ProductionSecret result) of
                 Inl e \<Rightarrow> (Some (Wrapf ''encrypt production secret: '' e []), db)
               | Inr encProdSecret \<Rightarrow>
                 (case save_credentials env branchID (zs_Config svc1) branch csrPEM encPriv encCompSecret encProdSecret result db of
                    (Some e, db1) \<Rightarrow> (Some (Wrapf ''save credentials to DB: '' e []), db1)
                  | (None, db1) \<Rightarrow> (None, db1))))))"

text \<open>The configuration and the identity of a run.\<close>

definition run_config :: "'f onboard_env \<Rightarrow> string \<Rightarrow> string \<Rightarrow> onboardBranchData \<Rightarrow> config \<times> taxpayer" where
  "run_config env base_env otp branch =
     taxpayer_Config (oe_draw env) (oe_uuid env) base_env otp (with_identity branch (onboard_taxpayer branch))"

text \<open>The steps from the checked taxpayer on; \<open>None\<close> is the panic of \<open>GenerateCSR\<close>.\<close>

definition onboard_steps ::
    "'f onboard_env \<Rightarrow> int \<Rightarrow> Key \<Rightarrow> onboardBranchData \<Rightarrow> config \<Rightarrow> taxpayer \<Rightarrow> onboard_db \<Rightarrow> (goerr option \<times> onboard_db) option" where
  "onboard_steps env branchID encKey branch cfg tp db =
     (let svc = zatca_New cfg in
      if bd_ComplianceCert branch \<noteq> [] then
        Some (Some (NewError (branch_error branchID @
          ''onboarding already completed (compliance certificate is present); revoke and clear branch_zatca_config to re-onboard'')), db)
      else
        case GenerateCSR (ze_exec (oe_zatca env) 0) (zs_SDK svc) (cf_CSR cfg) of
          None \<Rightarrow> None
        | Some (Inl e) \<Rightarrow> Some (Some (Wrapf ''step 1 (generate CSR): '' e []), db)
        | Some (Inr (csrPEM, privateKey)) \<Rightarrow>
          (case run_encrypt env encKey 0 privateKey of
             Inl e \<Rightarrow> Some (Some (Wrapf ''step 1 (encrypt private key): '' e []), db)
           | Inr encKey2 \<Rightarrow>
             (case saveOnboardCSR env branchID cfg csrPEM encKey2 (tp_TIN tp) (tp_ComputerNumber tp) db of
                (Some e, db1) \<Rightarrow> Some (Some (Wrapf ''step 1 (persist CSR): '' e []), db1)
              | (None, db1) \<Rightarrow> Some (issue_credentials env branchID encKey branch svc csrPEM privateKey db1))))"

definition OnboardBranch ::
    "'f onboard_env \<Rightarrow> config \<Rightarrow> int \<Rightarrow> string \<Rightarrow> Key \<Rightarrow> onboard_db \<Rightarrow> (goerr option \<times> onboard_db) option" where
  "OnboardBranch env baseCfg branchID otp encKey db =
     (case loadOnboardBranch env db branchID encKey of
        Inl e \<Rightarrow> Some (Some e, db)
      | Inr branch \<Rightarrow>
        (let tp = onboard_taxpayer branch in
         case taxpayer_Validate tp of
           Some e \<Rightarrow> Some (Some (Wrapf (branch_error branchID) e []), db)
         | None \<Rightarrow>
           (if bd_CSRLocation branch = [] then
              Some (Some (NewError (branch_error branchID @ ''csr_location is required (4 letters + 4 digits, e.g. RRRD2929)'')), db)
            else let (cfg, tp1) = run_config env (cf_Env baseCfg) otp branch in
              onboard_steps env branchID encKey branch cfg tp1 db)))"

section \<open>How a run ends\<close>

definition write_applied :: "(goerr \<times> bool) option \<Rightarrow> bool" where
  "write_applied fault = (case fault of None \<Rightarrow> True | Some (e, applied) \<Rightarrow> applied)"

lemma exec_write_cases:
  "exec_write fault w db = (out, db') \<Longrightarrow>
     (db' = db \<and> out \<noteq> None) \<or> (db' = w db \<and> write_applied fault \<and> (out = None \<longleftrightarrow> fault = None))"
  by (auto simp: exec_write_def write_applied_def split: option.splits prod.splits if_splits)

text \<open>The request was made and its row written.\<close>

definition csr_saved :: "'f onboard_env \<Rightarrow> int \<Rightarrow> Key \<Rightarrow> config \<Rightarrow> taxpayer \<Rightarrow> string \<Rightarrow> string \<Rightarrow> onboard_db \<Rightarrow> onboard_db \<Rightarrow> bool" where
  "csr_saved env b key cfg tp csr pk db db1 \<longleftrightarrow>
     GenerateCSR (ze_exec (oe_zatca env) 0) (zs_SDK (zatca_New cfg)) (cf_CSR cfg) = Some (Inr (csr, pk)) \<and>
     (\<exists>enc. run_encrypt env key 0 pk = Inr enc \<and>
        db1 = upsert (oe_fresh env) b (csr_row cfg csr enc (tp_TIN tp) (tp_ComputerNumber tp)) db)"

text \<open>The service issued its certificates and their row was written.\<close>

definition credentials_saved ::
    "'f onboard_env \<Rightarrow> int \<Rightarrow> Key \<Rightarrow> config \<Rightarrow> onboardBranchData \<Rightarrow> string \<Rightarrow> string \<Rightarrow> OnboardResult \<Rightarrow> onboard_db \<Rightarrow> onboard_db \<Rightarrow> bool" where
  "credentials_saved env b key cfg br csr pk res db1 db2 \<longleftrightarrow>
     (\<exists>svc e1 e2 e3. OnboardWithCSR (oe_zatca env) csr pk (give_key pk [] (zatca_New cfg)) = (Inr res, svc) \<and>
        run_encrypt env key 1 pk = Inr e1 \<and> run_encrypt env key 2 (ob_ComplianceSecret res) = Inr e2 \<and>
        run_encrypt env key 3 (ob_ProductionSecret res) = Inr e3 \<and>
        db2 = upsert (oe_fresh env) b (credential_row (oe_now env) (zs_Config svc) br csr e1 e2 e3 res) db1)"

lemma issue_outcome:
  assumes "issue_credentials env b key br (zatca_New cfg) csr pk db1 = (out, db')"
  shows "(db' = db1 \<and> out \<noteq> None) \<or>
    (\<exists>res. credentials_saved env b key cfg br csr pk res db1 db' \<and> write_applied (oe_save_credentials env) \<and> (out = None \<longleftrightarrow> oe_save_credentials env = None))"
proof -
  consider "db' = db1 \<and> out \<noteq> None"
    | res svc e1 e2 e3 o2 where "OnboardWithCSR (oe_zatca env) csr pk (give_key pk [] (zatca_New cfg)) = (Inr res, svc)"
      "run_encrypt env key 1 pk = Inr e1" "run_encrypt env key 2 (ob_ComplianceSecret res) = Inr e2"
      "run_encrypt env key 3 (ob_ProductionSecret res) = Inr e3"
      "save_credentials env b (zs_Config svc) br csr e1 e2 e3 res db1 = (o2, db')" "out = None \<longleftrightarrow> o2 = None"
    using assms unfolding issue_credentials_def by (auto split: sum.splits prod.splits option.splits)
  then show ?thesis
  proof cases
    case 2
    have "db' = db1 \<and> o2 \<noteq> None \<or> credentials_saved env b key cfg br csr pk res db1 db' \<and> write_applied (oe_save_credentials env) \<and> (o2 = None \<longleftrightarrow> oe_save_credentials env = None)"
      using exec_write_cases [OF 2(5) [unfolded save_credentials_def]] 2(1-4) unfolding credentials_saved_def by metis
    with 2(6) show ?thesis by metis
  qed simp
qed

text \<open>A run that got as far as the first write: with the request only, or with the credentials too.\<close>

definition run_saved ::
    "'f onboard_env \<Rightarrow> int \<Rightarrow> Key \<Rightarrow> onboardBranchData \<Rightarrow> config \<Rightarrow> taxpayer \<Rightarrow> onboard_db \<Rightarrow> goerr option \<Rightarrow> onboard_db \<Rightarrow> bool" where
  "run_saved env b key br cfg tp db out db' \<longleftrightarrow>
     bd_ComplianceCert br = [] \<and> (\<exists>csr pk db1. csr_saved env b key cfg tp csr pk db db1 \<and>
       (db' = db1 \<and> out \<noteq> None \<or>
        (\<exists>res. credentials_saved env b key cfg br csr pk res db1 db' \<and> write_applied (oe_save_credentials env) \<and> (out = None \<longleftrightarrow> oe_save_credentials env = None))))"

lemma steps_outcome:
  assumes "onboard_steps env b key br cfg tp db = Some (out, db')"
  shows "(db' = db \<and> out \<noteq> None) \<or> run_saved env b key br cfg tp db out db'"
proof -
  consider "db' = db \<and> out \<noteq> None"
    | csr pk enc o1 db1 where "bd_ComplianceCert br = []" "GenerateCSR (ze_exec (oe_zatca env) 0) (zs_SDK (zatca_New cfg)) (cf_CSR cfg) = Some (Inr (csr, pk))"
      "run_encrypt env key 0 pk = Inr enc" "saveOnboardCSR env b cfg csr enc (tp_TIN tp) (tp_ComputerNumber tp) db = (o1, db1)"
      "(o1 \<noteq> None \<and> out \<noteq> None \<and> db' = db1) \<or> (o1 = None \<and> issue_credentials env b key br (zatca_New cfg) csr pk db1 = (out, db'))"
    using assms unfolding onboard_steps_def Let_def
    by (auto split: if_splits option.splits sum.splits prod.splits)
  then show ?thesis
  proof cases
    case 2
    have saved: "csr_saved env b key cfg tp csr pk db db1 \<or> (db1 = db \<and> o1 \<noteq> None)"
      using 2(2,3) exec_write_cases [OF 2(4) [unfolded saveOnboardCSR_def]] unfolding csr_saved_def by metis
    from 2(5) show ?thesis
    proof
      assume "o1 \<noteq> None \<and> out \<noteq> None \<and> db' = db1"
      with saved 2(1) show ?thesis unfolding run_saved_def by metis
    next
      assume "o1 = None \<and> issue_credentials env b key br (zatca_New cfg) csr pk db1 = (out, db')"
      with saved 2(1) issue_outcome [of env b key br cfg csr pk db1 out db'] show ?thesis unfolding run_saved_def by metis
    qed
  qed simp
qed

lemma OnboardBranch_outcome:
  assumes "OnboardBranch env baseCfg b otp key db = Some (out, db')"
  obtains "db' = db" "out \<noteq> None"
  | br cfg tp where "loadOnboardBranch env db b key = Inr br" "taxpayer_Validate (onboard_taxpayer br) = None"
    "run_config env (cf_Env baseCfg) otp br = (cfg, tp)" "run_saved env b key br cfg tp db out db'"
proof -
  consider "db' = db \<and> out \<noteq> None"
    | br cfg tp where "loadOnboardBranch env db b key = Inr br" "taxpayer_Validate (onboard_taxpayer br) = None"
      "run_config env (cf_Env baseCfg) otp br = (cfg, tp)" "onboard_steps env b key br cfg tp db = Some (out, db')"
    using assms unfolding OnboardBranch_def Let_def by (auto split: sum.splits option.splits if_splits prod.splits)
  then show thesis
  proof cases
    case 2
    from steps_outcome [OF 2(4)] that 2(1-3) show thesis by metis
  qed (use that in blast)
qed

section \<open>Properties\<close>

lemma load_data:
  assumes "loadOnboardBranch env db b key = Inr br"
  obtains name c st where "od_branch db b = Some (name, c, st)"
    and "br = (branch_data name c (case st of None \<Rightarrow> null_store | Some s \<Rightarrow> s) (config_row db b))\<lparr>bd_ExistingPrivateKey := bd_ExistingPrivateKey br\<rparr>"
  using assms by (auto simp: loadOnboardBranch_def Let_def branch_data_def split: option.splits if_splits sum.splits)

lemma load_certificate:
  "loadOnboardBranch env db b key = Inr br \<Longrightarrow> bd_ComplianceCert br = coalesce (bc_compliance_certificate (config_row db b)) []"
  by (auto simp: loadOnboardBranch_def Let_def branch_data_def split: option.splits if_splits sum.splits)

text \<open>A branch that holds a compliance certificate is not onboarded again: whatever the request and the
  environment, the run ends with an error before anything is generated or written.\<close>

lemma onboarded_branch_refused:
  assumes "coalesce (bc_compliance_certificate (config_row db b)) [] \<noteq> []"
  shows "\<exists>e. OnboardBranch env baseCfg b otp key db = Some (Some e, db)"
proof (cases "loadOnboardBranch env db b key")
  case (Inr br)
  then have "bd_ComplianceCert br \<noteq> []" using load_certificate assms by metis
  with Inr show ?thesis
    by (auto simp: OnboardBranch_def onboard_steps_def Let_def split: option.splits prod.splits)
qed (simp add: OnboardBranch_def)

text \<open>The columns that say that a branch is registered.\<close>

definition registration :: "branch_config \<Rightarrow> string option list \<times> time option" where
  "registration r = ([bc_compliance_certificate r, bc_compliance_secret r, bc_compliance_request_id r, bc_production_username r,
     bc_production_password r, bc_production_request_id r], bc_registered_at r)"

definition row_before :: "'f onboard_env \<Rightarrow> onboard_db \<Rightarrow> int \<Rightarrow> branch_config" where
  "row_before env db b = (case od_config db b of None \<Rightarrow> oe_fresh env | Some r \<Rightarrow> r)"

lemma upsert_facts:
  "od_branch (upsert fresh b f db) = od_branch db" "b' \<noteq> b \<Longrightarrow> od_config (upsert fresh b f db) b' = od_config db b'"
  "od_config (upsert fresh b f db) b = Some (f (case od_config db b of None \<Rightarrow> fresh | Some r \<Rightarrow> r))"
  by (simp_all add: upsert_def)

lemma csr_saved_row:
  assumes "csr_saved env b key cfg tp csr pk db db1"
  obtains enc where "run_encrypt env key 0 pk = Inr enc"
    and "od_config db1 b = Some (csr_row cfg csr enc (tp_TIN tp) (tp_ComputerNumber tp) (row_before env db b))"
    and "od_branch db1 = od_branch db" and "\<And>b'. b' \<noteq> b \<Longrightarrow> od_config db1 b' = od_config db b'"
  using assms unfolding csr_saved_def row_before_def by (metis upsert_facts)

text \<open>C30: an onboarding that fails registers nothing.  Unless the last statement reports an error although the
  database applied it, the certificate, secret and registration columns of the branch are as they were, so
  that it can be tried again, and no other branch is touched.\<close>

theorem failed_onboarding_registers_nothing:
  assumes "OnboardBranch env baseCfg b otp key db = Some (Some e, db')"
    and "oe_save_credentials env \<noteq> None \<longrightarrow> \<not> snd (the (oe_save_credentials env))"
  shows "od_branch db' = od_branch db \<and> (\<forall>b'. b' \<noteq> b \<longrightarrow> od_config db' b' = od_config db b') \<and>
    (od_config db' b = od_config db b \<or> (\<exists>r. od_config db' b = Some r \<and> registration r = registration (row_before env db b)))"
  using assms(1)
proof (cases rule: OnboardBranch_outcome)
  case (2 br cfg tp)
  obtain csr pk where saved: "csr_saved env b key cfg tp csr pk db db'"
    using 2(4) assms(2) by (auto simp: run_saved_def write_applied_def split: option.splits)
  obtain enc where "od_config db' b = Some (csr_row cfg csr enc (tp_TIN tp) (tp_ComputerNumber tp) (row_before env db b))"
    "od_branch db' = od_branch db" "\<And>b'. b' \<noteq> b \<Longrightarrow> od_config db' b' = od_config db b'"
    using csr_saved_row [OF saved] by metis
  then show ?thesis by (simp add: registration_def csr_row_def csr_columns_def)
qed simp

section \<open>Retries\<close>

definition run_tin :: "'f onboard_env \<Rightarrow> onboardBranchData \<Rightarrow> string" where
  "run_tin env br = (if bd_CSRTIN br \<noteq> [] then bd_CSRTIN br else generateTIN (oe_draw env))"

definition run_number :: "'f onboard_env \<Rightarrow> onboardBranchData \<Rightarrow> string" where
  "run_number env br = (if bd_CSRComputerNumber br \<noteq> [] then bd_CSRComputerNumber br else oe_uuid env)"

definition device_request :: "string \<Rightarrow> string \<Rightarrow> onboardBranchData \<Rightarrow> csr_config" where
  "device_request tin number br =
     \<lparr>csr_CommonName = ''TST-'' @ tin @ ''-'' @ bd_VATReg br, csr_SerialNumber = ''1-'' @ bd_CompanyName br @ ''|2-TST|3-'' @ number,
      csr_OrgIdentifier = bd_VATReg br, csr_OrgUnit = bd_BranchName br, csr_OrgName = bd_CompanyName br,
      csr_Country = (if bd_Country br = [] then ''SA'' else bd_Country br), csr_InvoiceType = ''1100'', csr_Location = bd_CSRLocation br,
      csr_BusinessCategory = bd_BusinessCat br\<rparr>"

lemma run_config_request:
  assumes "run_config env e otp br = (cfg, tp)"
  shows "cf_CSR cfg = device_request (run_tin env br) (run_number env br) br" "tp_TIN tp = run_tin env br" "tp_ComputerNumber tp = run_number env br"
  using assms
  by (auto simp: run_config_def taxpayer_Config_def taxpayer_CSR_def taxpayer_Seller_def applyDefaults_def Let_def with_identity_def
      onboard_taxpayer_def device_request_def run_tin_def run_number_def generateTIN_def)

lemma key_unused:
  "run_tin env (d\<lparr>bd_ExistingPrivateKey := k\<rparr>) = run_tin env d" "run_number env (d\<lparr>bd_ExistingPrivateKey := k\<rparr>) = run_number env d"
  "device_request tin number (d\<lparr>bd_ExistingPrivateKey := k\<rparr>) = device_request tin number d"
  by (simp_all add: run_tin_def run_number_def device_request_def)

lemma validate_fields:
  assumes "taxpayer_Validate (onboard_taxpayer br) = None"
  shows "bd_CompanyName br \<noteq> []" "bd_VATReg br \<noteq> []" "bd_BranchName br \<noteq> []" "bd_BusinessCat br \<noteq> []" "bd_CSRLocation br \<noteq> []"
  using assms by (auto simp: taxpayer_Validate_def taxpayer_checks_def onboard_taxpayer_def find_None_iff split: option.splits if_splits)

lemma generateTIN_nonempty: "generateTIN draw \<noteq> []"
  by (auto simp: generateTIN_def pad9_def split: option.splits)

lemma onboard_keeps_request:
  "OnboardWithCSR env csr key svc = (Inr res, svc') \<Longrightarrow> cf_CSR (zs_Config svc') = cf_CSR (zs_Config svc)"
  unfolding OnboardWithCSR_ok by (auto simp: set_production_def compliance_service_def set_compliance_def give_key_def)

text \<open>The columns a later attempt reads its request from.\<close>

definition keeps_request :: "csr_config \<Rightarrow> string \<Rightarrow> string \<Rightarrow> branch_config \<Rightarrow> bool" where
  "keeps_request c tin number r \<longleftrightarrow>
     bc_csr_org_unit r = Some (csr_OrgUnit c) \<and> bc_csr_org_name r = Some (csr_OrgName c) \<and> bc_csr_country r = Some (csr_Country c) \<and>
     bc_csr_location r = Some (csr_Location c) \<and> bc_business_category r = Some (csr_BusinessCategory c) \<and>
     bc_csr_tin r = Some tin \<and> bc_csr_computer_number r = Some number"

lemma run_saved_row:
  assumes "run_saved env b key br cfg tp db out db'"
  shows "od_branch db' = od_branch db \<and> (\<exists>r. od_config db' b = Some r \<and> keeps_request (cf_CSR cfg) (tp_TIN tp) (tp_ComputerNumber tp) r \<and>
    (bc_seller_vat r = bc_seller_vat (row_before env db b) \<or> bc_seller_vat r = Some (bd_VATReg br)))"
proof -
  obtain csr pk db1 where saved: "csr_saved env b key cfg tp csr pk db db1"
    and rest: "db' = db1 \<or> (\<exists>res. credentials_saved env b key cfg br csr pk res db1 db')"
    using assms unfolding run_saved_def by blast
  obtain enc where row: "od_config db1 b = Some (csr_row cfg csr enc (tp_TIN tp) (tp_ComputerNumber tp) (row_before env db b))"
    and same: "od_branch db1 = od_branch db"
    using csr_saved_row [OF saved] by metis
  from rest show ?thesis
  proof
    assume "db' = db1"
    with row same show ?thesis by (simp add: keeps_request_def csr_row_def csr_columns_def)
  next
    assume "\<exists>res. credentials_saved env b key cfg br csr pk res db1 db'"
    then obtain res svc e1 e2 e3 where run: "OnboardWithCSR (oe_zatca env) csr pk (give_key pk [] (zatca_New cfg)) = (Inr res, svc)"
      and db': "db' = upsert (oe_fresh env) b (credential_row (oe_now env) (zs_Config svc) br csr e1 e2 e3 res) db1"
      unfolding credentials_saved_def by blast
    have "cf_CSR (zs_Config svc) = cf_CSR cfg"
      using onboard_keeps_request [OF run] by (simp add: give_key_config zatca_New_def)
    with row same show ?thesis
      unfolding db' by (simp add: upsert_facts keeps_request_def csr_row_def credential_row_def csr_columns_def)
  qed
qed

lemma device_request_kept:
  assumes "taxpayer_Validate (onboard_taxpayer br) = None" and "tin \<noteq> []" and "number \<noteq> []"
    and "keeps_request (device_request tin number br) tin number r" and "pick (coalesce (bc_seller_vat r) []) (coalesce (co_vat c) []) = bd_VATReg br"
  shows "device_request (run_tin env (branch_data name c st r)) (run_number env (branch_data name c st r)) (branch_data name c st r) =
    device_request tin number br"
  using assms validate_fields [OF assms(1)]
  by (auto simp: keeps_request_def device_request_def run_tin_def run_number_def branch_data_def pick_def coalesce_def)

text \<open>C31: a retry asks for the same device.  After a run that wrote its request, a later run of the same branch,
  under any one-time password, random source and key, generates its request from the same identity and the same
  data: the common name, the serial number and every other field of the request are the ones of the first
  run.\<close>

theorem retry_same_request:
  assumes "OnboardBranch env baseCfg b otp key db = Some (out, db')" and "db' \<noteq> db" and "oe_uuid env \<noteq> []"
    and "bc_seller_vat (oe_fresh env) = None"
    and "loadOnboardBranch env db b key = Inr br" and "loadOnboardBranch env' db' b key' = Inr br'"
  shows "cf_CSR (fst (run_config env' (cf_Env baseCfg') otp' br')) = cf_CSR (fst (run_config env (cf_Env baseCfg) otp br))"
  using assms(1)
proof (cases rule: OnboardBranch_outcome)
  case (2 br1 cfg tp)
  then have br: "br1 = br" using assms(5) by simp
  note req = run_config_request [OF 2(3) [unfolded br]]
  obtain r where same: "od_branch db' = od_branch db" and r: "od_config db' b = Some r"
    and keeps: "keeps_request (cf_CSR cfg) (tp_TIN tp) (tp_ComputerNumber tp) r"
    and vat: "bc_seller_vat r = bc_seller_vat (row_before env db b) \<or> bc_seller_vat r = Some (bd_VATReg br)"
    using run_saved_row [OF 2(4)] br by metis
  obtain name c st where data: "od_branch db b = Some (name, c, st)"
    and brd: "br = (branch_data name c (case st of None \<Rightarrow> null_store | Some s \<Rightarrow> s) (config_row db b))\<lparr>bd_ExistingPrivateKey := bd_ExistingPrivateKey br\<rparr>"
    using load_data [OF assms(5)] .
  define st' where "st' = (case st of None \<Rightarrow> null_store | Some s \<Rightarrow> s)"
  obtain k where brd': "br' = (branch_data name c st' r)\<lparr>bd_ExistingPrivateKey := k\<rparr>"
    using load_data [OF assms(6)] data by (auto simp: same config_row_def r st'_def)
  have vatreg: "bd_VATReg br = pick (coalesce (bc_seller_vat (config_row db b)) []) (coalesce (co_vat c) [])"
    by (subst brd) (simp add: branch_data_def)
  have "pick (coalesce (bc_seller_vat r) []) (coalesce (co_vat c) []) = bd_VATReg br"
    using vat
  proof
    assume "bc_seller_vat r = bc_seller_vat (row_before env db b)"
    then show ?thesis using assms(4)
      by (simp add: vatreg row_before_def config_row_def null_config_def coalesce_def pick_def split: option.splits)
  next
    assume "bc_seller_vat r = Some (bd_VATReg br)"
    then show ?thesis using validate_fields(2) 2(2) br by (simp add: pick_def coalesce_def)
  qed
  moreover have "run_tin env br \<noteq> []" "run_number env br \<noteq> []"
    using generateTIN_nonempty assms(3) by (auto simp: run_tin_def run_number_def)
  ultimately have "device_request (run_tin env' (branch_data name c st' r)) (run_number env' (branch_data name c st' r)) (branch_data name c st' r) =
      device_request (run_tin env br) (run_number env br) br"
    using device_request_kept 2(2) br keeps req by metis
  then have "device_request (run_tin env' br') (run_number env' br') br' = device_request (run_tin env br) (run_number env br) br"
    by (simp only: brd' key_unused)
  moreover have "cf_CSR (fst (run_config env' (cf_Env baseCfg') otp' br')) = device_request (run_tin env' br') (run_number env' br') br'"
    using run_config_request(1) prod.collapse by metis
  ultimately show ?thesis using req(1) 2(3) br by simp
qed (use assms(2) in simp)

section \<open>After a successful run\<close>

text \<open>The row that \<open>LoadBranchZATCA\<close> scans.\<close>

definition zatca_row :: "onboard_db \<Rightarrow> int \<Rightarrow> goerr + BranchZATCA" where
  "zatca_row db b =
     (case od_branch db b of
        None \<Rightarrow> Inl (NewError ''sql: no rows in result set'')
      | Some (name, c, st) \<Rightarrow>
        (let s = (case st of None \<Rightarrow> null_store | Some s \<Rightarrow> s); bz = config_row db b in
         Inr \<lparr>bz_BranchID = b, bz_StoreID = sc_id s, bz_CompanyName = coalesce (co_name c) [], bz_CompanyNameAR = coalesce (co_name_ar c) [],
           bz_VATReg = coalesce (co_vat c) [], bz_CRN = coalesce (co_crn c) [], bz_BranchName = coalesce name [],
           bz_Street = coalesce (sc_street_name s) [], bz_Building = coalesce (sc_building_number s) [],
           bz_District = coalesce (sc_district s) [], bz_City = coalesce (sc_city s) [], bz_PostalCode = coalesce (sc_postal_code s) [],
           bz_Country = coalesce (sc_country s) ''SA'', bz_ProductionUsername = coalesce (bc_production_username bz) [],
           bz_ProductionPassword = coalesce (bc_production_password bz) [], bz_PrivateKey = coalesce (bc_private_key bz) [],
           bz_Certificate = [], bz_EGSID = coalesce (bc_csr_computer_number bz) []\<rparr>))"

text \<open>The random source fills a nonce of the cipher's size, or fails.\<close>

definition nonces_ok :: "'f onboard_env \<Rightarrow> bool" where
  "nonces_ok env \<longleftrightarrow> (\<forall>n v. oe_nonce env n = Inr v \<longrightarrow> length v = nonceSize)"

lemma run_decrypt:
  assumes "NewKey text = Inr key" and "aead_ok (oe_seal env) (oe_open env)" and "nonces_ok env"
    and "run_encrypt env key n p = Inr c"
  shows "Decrypt (oe_open env) key c = Inr p"
proof (cases "oe_nonce env n")
  case (Inl e)
  then have "p = []" "c = []"
    using assms(4) NewKey_size [OF assms(1)] by (auto simp: run_encrypt_def Encrypt_def new_cipher_def split: if_splits)
  then show ?thesis by (simp add: Decrypt_def)
next
  case (Inr v)
  then have "length v = nonceSize" using assms(3) by (simp add: nonces_ok_def)
  from Decrypt_Encrypt [OF NewKey_size [OF assms(1)] this assms(2), of p] assms(4) Inr show ?thesis
    by (simp add: run_encrypt_def)
qed

text \<open>C12: an onboarded branch can sign.  When the onboarding of a branch succeeds, the service has accepted its six
  compliance invoices and issued the certificates; the configuration that the daemon then loads for the
  branch holds the generated private key, the production certificate and its secret, decrypted with the same
  key, and the device number of the request; the registration time is set; and onboarding the branch again is
  refused.\<close>

theorem onboarded_branch_loads:
  fixes env :: "'a onboard_env"
  assumes "OnboardBranch env baseCfg b otp key db = Some (None, db')" and "NewKey text = Inr key"
    and "aead_ok (oe_seal env) (oe_open env)" and "nonces_ok env"
  shows "\<exists>br cfg tp csr pk res svc row bz.
    loadOnboardBranch env db b key = Inr br \<and> run_config env (cf_Env baseCfg) otp br = (cfg, tp) \<and>
    GenerateCSR (ze_exec (oe_zatca env) 0) (sdk_New cfg) (cf_CSR cfg) = Some (Inr (csr, pk)) \<and>
    OnboardWithCSR (oe_zatca env) csr pk (give_key pk [] (zatca_New cfg)) = (Inr res, svc) \<and>
    zatca_row db' b = Inr row \<and> LoadBranchZATCA (Decrypt (oe_open env) key) (Inr row) b = Inr bz \<and>
    bz_PrivateKey bz = pk \<and> bz_Certificate bz = ob_ProductionCert res \<and> bz_ProductionPassword bz = ob_ProductionSecret res \<and>
    bz_EGSID bz = tp_ComputerNumber tp \<and> bc_registered_at (config_row db' b) = Some (oe_now env) \<and>
    (ob_ComplianceCert res \<noteq> [] \<longrightarrow> (\<forall>env' :: 'a onboard_env. \<forall>cfg' otp' key'. \<exists>e. OnboardBranch env' cfg' b otp' key' db' = Some (Some e, db')))"
  using assms(1)
proof (cases rule: OnboardBranch_outcome)
  case (2 br cfg tp)
  obtain csr pk db1 res where saved: "csr_saved env b key cfg tp csr pk db db1" and cred: "credentials_saved env b key cfg br csr pk res db1 db'"
    using 2(4) by (auto simp: run_saved_def)
  obtain svc e1 e2 e3 where run: "OnboardWithCSR (oe_zatca env) csr pk (give_key pk [] (zatca_New cfg)) = (Inr res, svc)"
    and enc: "run_encrypt env key 1 pk = Inr e1" "run_encrypt env key 3 (ob_ProductionSecret res) = Inr e3"
    and db': "db' = upsert (oe_fresh env) b (credential_row (oe_now env) (zs_Config svc) br csr e1 e2 e3 res) db1"
    using cred unfolding credentials_saved_def by blast
  note dec = run_decrypt [OF assms(2-4) enc(1)] run_decrypt [OF assms(2-4) enc(2)]
  obtain enc0 where row1: "od_config db1 b = Some (csr_row cfg csr enc0 (tp_TIN tp) (tp_ComputerNumber tp) (row_before env db b))"
    and same: "od_branch db1 = od_branch db"
    using csr_saved_row [OF saved] by metis
  have conf: "config_row db' b = credential_row (oe_now env) (zs_Config svc) br csr e1 e2 e3 res
      (csr_row cfg csr enc0 (tp_TIN tp) (tp_ComputerNumber tp) (row_before env db b))"
    by (simp add: config_row_def db' upsert_facts row1)
  obtain name c st where "od_branch db b = Some (name, c, st)" using load_data [OF 2(1)] .
  then have "od_branch db' b = Some (name, c, st)" by (simp add: db' upsert_facts same)
  then obtain row where row: "zatca_row db' b = Inr row" "bz_PrivateKey row = e1" "bz_ProductionPassword row = e3"
    "bz_ProductionUsername row = ob_ProductionCert res" "bz_EGSID row = tp_ComputerNumber tp"
    by (simp add: zatca_row_def Let_def conf credential_row_def csr_row_def csr_columns_def coalesce_def)
  have "GenerateCSR (ze_exec (oe_zatca env) 0) (sdk_New cfg) (cf_CSR cfg) = Some (Inr (csr, pk))"
    using saved by (simp add: csr_saved_def zatca_New_def)
  moreover obtain bz where "LoadBranchZATCA (Decrypt (oe_open env) key) (Inr row) b = Inr bz" "bz_PrivateKey bz = pk"
    "bz_Certificate bz = ob_ProductionCert res" "bz_ProductionPassword bz = ob_ProductionSecret res" "bz_EGSID bz = tp_ComputerNumber tp"
    using row dec by (simp add: LoadBranchZATCA_def)
  moreover have "bc_registered_at (config_row db' b) = Some (oe_now env)"
    by (simp add: conf credential_row_def)
  moreover have "coalesce (bc_compliance_certificate (config_row db' b)) [] = ob_ComplianceCert res"
    by (simp add: conf credential_row_def coalesce_def)
  then have "ob_ComplianceCert res \<noteq> [] \<longrightarrow> (\<forall>env' :: 'a onboard_env. \<forall>cfg' otp' key'. \<exists>e. OnboardBranch env' cfg' b otp' key' db' = Some (Some e, db'))"
    using onboarded_branch_refused by metis
  ultimately show ?thesis using 2(1,3) run row(1) by blast
qed simp

section \<open>A concrete branch\<close>

definition sample_tables :: onboard_db where
  "sample_tables =
     \<lparr>od_branch = \<lambda>b. if b = 7 then Some (Some ''Main'',
        \<lparr>co_name = Some ''Acme'', co_name_ar = Some ''Acme'', co_vat = Some ''300000000000003'', co_crn = Some ''1010010000'',
         co_business_category = None\<rparr>,
        Some \<lparr>sc_id = 1, sc_street_name = Some ''King'', sc_building_number = Some ''1'', sc_district = Some ''Olaya'', sc_city = Some ''Riyadh'',
         sc_postal_code = Some ''12211'', sc_country = None\<rparr>) else None,
      od_config = \<lambda>b. if b = 7 then Some (null_config\<lparr>bc_csr_location := Some ''RRRD2929''\<rparr>) else None\<rparr>"

definition sample_onboarding :: "(goerr \<times> bool) option \<Rightarrow> float64 onboard_env" where
  "sample_onboarding fault =
     \<lparr>oe_query = None, oe_save_csr = None, oe_save_credentials = fault, oe_fresh = null_config, oe_now = 5, oe_seal = toy_seal, oe_open = toy_open,
      oe_nonce = \<lambda>_. Inr ''nonce-of-12b'', oe_draw = Some 7, oe_uuid = ''u-1'', oe_zatca = sample_zatca\<rparr>"

definition sample_data :: onboardBranchData where
  "sample_data = \<lparr>bd_CompanyName = ''Acme'', bd_CompanyNameAR = ''Acme'', bd_VATReg = ''300000000000003'', bd_CRN = ''1010010000'',
     bd_BranchName = ''Main'', bd_Street = ''King'', bd_Building = ''1'', bd_District = ''Olaya'', bd_City = ''Riyadh'', bd_PostalCode = ''12211'',
     bd_Country = ''SA'', bd_BusinessCat = ''Supply activities'', bd_CSRLocation = ''RRRD2929'', bd_CSRTIN = [], bd_CSRComputerNumber = [],
     bd_ExistingCSR = [], bd_ExistingPrivateKey = [], bd_ComplianceCert = []\<rparr>"

lemma sample_loaded:
  "loadOnboardBranch (sample_onboarding fault) sample_tables 7 key = Inr sample_data"
  "taxpayer_Validate (onboard_taxpayer sample_data) = None" "bd_CSRLocation sample_data \<noteq> []" "bd_ComplianceCert sample_data = []"
  by (simp_all add: loadOnboardBranch_def sample_onboarding_def sample_tables_def config_row_def null_config_def coalesce_def branch_data_def pick_def
      sample_data_def taxpayer_Validate_def taxpayer_checks_def onboard_taxpayer_def)

lemma sample_encrypts:
  assumes "length (key_raw key) = 32"
  shows "\<exists>c. run_encrypt (sample_onboarding fault) key n p = Inr c"
  using assms by (simp add: run_encrypt_def sample_onboarding_def Encrypt_def new_cipher_def)

lemma sample_request:
  assumes "run_config (sample_onboarding fault) Sandbox otp sample_data = (cfg, tp)"
  shows "sl_VAT (cf_Seller (zs_Config (give_key pk [] (zatca_New cfg)))) \<noteq> []" "tp_ComputerNumber tp = ''u-1''"
  using assms by (auto simp: run_config_def taxpayer_Config_def taxpayer_CSR_def taxpayer_Seller_def applyDefaults_def Let_def with_identity_def
      onboard_taxpayer_def sample_data_def sample_onboarding_def zatca_New_def give_key_def)

lemma sample_branch_run:
  assumes "length (key_raw key) = 32"
  obtains cfg tp csr pk db1 where "run_config (sample_onboarding fault) Sandbox otp sample_data = (cfg, tp)"
    and "csr_saved (sample_onboarding fault) 7 key cfg tp csr pk sample_tables db1"
    and "OnboardBranch (sample_onboarding fault) device_config 7 otp key sample_tables =
      Some (issue_credentials (sample_onboarding fault) 7 key sample_data (zatca_New cfg) csr pk db1)"
proof -
  let ?env = "sample_onboarding fault" and ?csr = "trim_space (newline @ ''REQ'')" and ?pk = "trim_space (newline @ ''SECRET'')"
  obtain cfg tp where cfg: "run_config ?env Sandbox otp sample_data = (cfg, tp)" by fastforce
  obtain enc where enc: "run_encrypt ?env key 0 ?pk = Inr enc" using sample_encrypts [OF assms] by blast
  define db1 where "db1 = upsert (oe_fresh ?env) 7 (csr_row cfg ?csr enc (tp_TIN tp) (tp_ComputerNumber tp)) sample_tables"
  have zatca: "oe_zatca ?env = sample_zatca" and save: "oe_save_csr ?env = None" by (simp_all add: sample_onboarding_def)
  have base: "cf_Env device_config = Sandbox" by (simp add: device_config_def)
  show thesis
  proof (rule that [OF cfg])
    show "csr_saved ?env 7 key cfg tp ?csr ?pk sample_tables db1"
      using enc sample_generated by (auto simp: csr_saved_def db1_def zatca)
    show "OnboardBranch ?env device_config 7 otp key sample_tables = Some (issue_credentials ?env 7 key sample_data (zatca_New cfg) ?csr ?pk db1)"
      using cfg enc by (simp add: OnboardBranch_def sample_loaded onboard_steps_def base zatca sample_generated saveOnboardCSR_def save exec_write_def db1_def)
  qed
qed

lemma sample_issued:
  assumes "length (key_raw key) = 32" and "run_config (sample_onboarding fault) Sandbox otp sample_data = (cfg, tp)"
  shows "fault = None \<Longrightarrow> \<exists>db'. issue_credentials (sample_onboarding fault) 7 key sample_data (zatca_New cfg) csr pk db1 = (None, db')"
    and "fault = Some (e, False) \<Longrightarrow> \<exists>e'. issue_credentials (sample_onboarding fault) 7 key sample_data (zatca_New cfg) csr pk db1 = (Some e', db1)"
proof -
  let ?env = "sample_onboarding fault"
  have env: "oe_zatca ?env = sample_zatca" "oe_save_credentials ?env = fault" by (simp_all add: sample_onboarding_def)
  obtain res svc where run: "OnboardWithCSR sample_zatca csr pk (give_key pk [] (zatca_New cfg)) = (Inr res, svc)"
    using sample_service_run [OF sample_request(1) [OF assms(2)]] by blast
  obtain e1 e2 e3 where enc: "run_encrypt ?env key 1 pk = Inr e1" "run_encrypt ?env key 2 (ob_ComplianceSecret res) = Inr e2"
    "run_encrypt ?env key 3 (ob_ProductionSecret res) = Inr e3"
    using sample_encrypts [OF assms(1)] by metis
  let ?upd = "upsert (oe_fresh ?env) 7 (credential_row (oe_now ?env) (zs_Config svc) sample_data csr e1 e2 e3 res)"
  have form: "issue_credentials ?env 7 key sample_data (zatca_New cfg) csr pk db1 =
      (case exec_write fault ?upd db1 of (Some e, d) \<Rightarrow> (Some (Wrapf ''save credentials to DB: '' e []), d) | (None, d) \<Rightarrow> (None, d))"
    by (simp add: issue_credentials_def env run enc save_credentials_def del: One_nat_def)
  show "fault = None \<Longrightarrow> \<exists>db'. issue_credentials ?env 7 key sample_data (zatca_New cfg) csr pk db1 = (None, db')"
    unfolding form by (simp add: exec_write_def)
  show "fault = Some (e, False) \<Longrightarrow> \<exists>e'. issue_credentials ?env 7 key sample_data (zatca_New cfg) csr pk db1 = (Some e', db1)"
    unfolding form by (simp add: exec_write_def)
qed

definition sample_secret :: Key where
  "sample_secret = \<lparr>key_raw = sample_key_bytes\<rparr>"

lemma sample_secret_facts: "\<exists>t. NewKey t = Inr sample_secret" "length (key_raw sample_secret) = 32"
  using sample_key NewKey_size [OF sample_key] by (auto simp: sample_secret_def)

lemma onboarding_env_facts:
  "aead_ok (oe_seal (sample_onboarding fault)) (oe_open (sample_onboarding fault))"
  "nonces_ok (sample_onboarding fault)"
  using toy_ok by (auto simp: sample_onboarding_def nonceSize_def nonces_ok_def)

theorem failed_onboarding_registers_nothing_witness:
  "\<exists>e db'. OnboardBranch (sample_onboarding (Some (NewError ''lost'', False))) device_config 7 ''123345'' sample_secret sample_tables = Some (Some e, db') \<and>
     (\<forall>b'. b' \<noteq> 7 \<longrightarrow> od_config db' b' = od_config sample_tables b')"
proof -
  let ?env = "sample_onboarding (Some (NewError ''lost'', False))"
  obtain e db' where run: "OnboardBranch ?env device_config 7 ''123345'' sample_secret sample_tables = Some (Some e, db')"
    using sample_branch_run [OF sample_secret_facts(2)] sample_issued(2) [OF sample_secret_facts(2)] by metis
  have "oe_save_credentials ?env \<noteq> None \<longrightarrow> \<not> snd (the (oe_save_credentials ?env))" by (simp add: sample_onboarding_def)
  from failed_onboarding_registers_nothing [OF run this] run show ?thesis by blast
qed

theorem onboarded_branch_loads_witness:
  "\<exists>db' row bz. OnboardBranch (sample_onboarding None) device_config 7 ''123345'' sample_secret sample_tables = Some (None, db') \<and>
     zatca_row db' 7 = Inr row \<and> LoadBranchZATCA (Decrypt toy_open sample_secret) (Inr row) 7 = Inr bz \<and> bz_EGSID bz = ''u-1''"
proof -
  obtain t where t: "NewKey t = Inr sample_secret" using sample_secret_facts(1) ..
  obtain db' where run: "OnboardBranch (sample_onboarding None) device_config 7 ''123345'' sample_secret sample_tables = Some (None, db')"
    using sample_branch_run [OF sample_secret_facts(2)] sample_issued(1) [OF sample_secret_facts(2)] by metis
  have base: "cf_Env device_config = Sandbox" "oe_open (sample_onboarding None) = toy_open"
    by (simp_all add: device_config_def sample_onboarding_def)
  obtain br cfg tp row bz where br: "loadOnboardBranch (sample_onboarding None) sample_tables 7 sample_secret = Inr br"
    and cfg: "run_config (sample_onboarding None) Sandbox ''123345'' br = (cfg, tp)" and row: "zatca_row db' 7 = Inr row"
    and bz: "LoadBranchZATCA (Decrypt toy_open sample_secret) (Inr row) 7 = Inr bz" "bz_EGSID bz = tp_ComputerNumber tp"
    using onboarded_branch_loads [OF run t onboarding_env_facts] unfolding base by blast
  have "br = sample_data" using br by (simp add: sample_loaded(1))
  then have "bz_EGSID bz = ''u-1''" using bz(2) sample_request(2) cfg by metis
  with run row bz(1) show ?thesis by blast
qed

lemma onboarding_retry:
  assumes "csr_saved (sample_onboarding fault) 7 sample_secret cfg tp csr pk sample_tables db1"
  shows "db1 \<noteq> sample_tables" "\<exists>br'. loadOnboardBranch (sample_onboarding fault') db1 7 sample_secret = Inr br'"
proof -
  obtain t where t: "NewKey t = Inr sample_secret" using sample_secret_facts(1) ..
  obtain enc where enc: "run_encrypt (sample_onboarding fault) sample_secret 0 pk = Inr enc"
    and row: "od_config db1 7 = Some (csr_row cfg csr enc (tp_TIN tp) (tp_ComputerNumber tp) (row_before (sample_onboarding fault) sample_tables 7))"
    and same: "od_branch db1 = od_branch sample_tables"
    using csr_saved_row [OF assms] by metis
  have "bc_csr (the (od_config sample_tables 7)) = None" by (simp add: sample_tables_def null_config_def)
  moreover have "bc_csr (the (od_config db1 7)) = Some csr" by (simp add: row csr_row_def)
  ultimately show "db1 \<noteq> sample_tables" by auto
  have "oe_open (sample_onboarding fault') = oe_open (sample_onboarding fault)" "oe_query (sample_onboarding fault') = None"
    by (simp_all add: sample_onboarding_def)
  with run_decrypt [OF t onboarding_env_facts enc] show "\<exists>br'. loadOnboardBranch (sample_onboarding fault') db1 7 sample_secret = Inr br'"
    by (simp add: loadOnboardBranch_def same config_row_def row csr_row_def coalesce_def sample_tables_def Let_def)
qed

theorem retry_same_request_witness:
  "\<exists>e db' br'. OnboardBranch (sample_onboarding (Some (NewError ''lost'', False))) device_config 7 ''123345'' sample_secret sample_tables = Some (Some e, db') \<and>
     db' \<noteq> sample_tables \<and> loadOnboardBranch (sample_onboarding None) db' 7 sample_secret = Inr br' \<and>
     cf_CSR (fst (run_config (sample_onboarding None) (cf_Env device_config) ''999999'' br')) =
       cf_CSR (fst (run_config (sample_onboarding (Some (NewError ''lost'', False))) (cf_Env device_config) ''123345'' sample_data))"
proof -
  let ?env = "sample_onboarding (Some (NewError ''lost'', False))"
  obtain cfg tp csr pk db1 where cfg: "run_config ?env Sandbox ''123345'' sample_data = (cfg, tp)"
    and saved: "csr_saved ?env 7 sample_secret cfg tp csr pk sample_tables db1"
    and run: "OnboardBranch ?env device_config 7 ''123345'' sample_secret sample_tables =
      Some (issue_credentials ?env 7 sample_secret sample_data (zatca_New cfg) csr pk db1)"
    using sample_branch_run [OF sample_secret_facts(2)] .
  obtain e where out: "issue_credentials ?env 7 sample_secret sample_data (zatca_New cfg) csr pk db1 = (Some e, db1)"
    using sample_issued(2) [OF sample_secret_facts(2) cfg refl] by blast
  obtain br' where br': "loadOnboardBranch (sample_onboarding None) db1 7 sample_secret = Inr br'"
    using onboarding_retry(2) [OF saved] by blast
  have env: "oe_uuid ?env \<noteq> []" "bc_seller_vat (oe_fresh ?env) = None" by (simp_all add: sample_onboarding_def null_config_def)
  note same = retry_same_request [OF run [unfolded out] onboarding_retry(1) [OF saved] env sample_loaded(1) br']
  show ?thesis using run [unfolded out] onboarding_retry(1) [OF saved] br' same by blast
qed

end
