(* ===== verification/Spec2Isabelle.thy ===== *)
theory Spec2Isabelle
  imports Redelivery Operator_Tools Qr_Code Branch_Onboarding
begin

text \<open>
  A verification development of the ZATCA integration daemon.

  \<^bold>\<open>The program.\<close>  The daemon serves many tenants.  For every active branch of a tenant a worker takes
  envelopes from an ordered stream of the broker, claims each request, books the next place in the
  branch's invoice chain, builds and signs the invoice of the bill, commits it, submits it to ZATCA,
  records the answer, completes the claim and acknowledges the delivery.  A reconciler keeps tenants,
  workers and responders in step with the master registry; responders take onboarding and
  reconciliation requests.  Three command line tools go with it: one drives the ZATCA service for a test
  taxpayer, one asks a daemon about the outcome of a bill, and one lists the registration of the branches.

  \<^bold>\<open>The theories.\<close>

  \<^item> \<^verbatim>\<open>Go_Prelude\<close>: strings as byte lists with UTF-8, trimming, quoting and numbers, errors as values
    (\<^verbatim>\<open>goerr\<close> with sentinels and wrapping), and the shared lemmas.
  \<^item> \<^verbatim>\<open>Queue_Message\<close> (\<^verbatim>\<open>queue/message.go\<close>, \<^verbatim>\<open>onboard.go\<close>, \<^verbatim>\<open>reconcile.go\<close>): envelopes and requests, their
    validation, keys and subjects.
  \<^item> \<^verbatim>\<open>Tenant_DB\<close> (\<^verbatim>\<open>queue/sql.go\<close>): the tenant tables, statements that fail, and column texts.
  \<^item> \<^verbatim>\<open>Claim_Contract\<close>, \<^verbatim>\<open>Claim_Store\<close> (\<^verbatim>\<open>queue/claim.go\<close>, \<^verbatim>\<open>sql_claim_store.go\<close>): the claim store as an
    interface (a locale with its laws), the SQL store that implements it, and the refinement.
  \<^item> \<^verbatim>\<open>Invoice_Chain\<close>, \<^verbatim>\<open>Chain_Laws\<close> (\<^verbatim>\<open>queue/chain.go\<close>): booking, commit and answers on the chain tables as
    transactions, their step relation, and what holds in every reachable database.
  \<^item> \<^verbatim>\<open>Ordered_Stream\<close>, \<^verbatim>\<open>Delivery_World\<close>, \<^verbatim>\<open>Delivery_Laws\<close> (\<^verbatim>\<open>queue/ordered_stream.go\<close>): a delivery over interface
    records for store, chain and pipeline; the SQL stores as one world in which other workers may act
    between any two calls; the promises of a delivery in a locale, interpreted on that world.
  \<^item> \<^verbatim>\<open>Schema_Preflight\<close> (\<^verbatim>\<open>queue/preflight.go\<close>), \<^verbatim>\<open>Tenant_Registry\<close> (\<^verbatim>\<open>tenant\<close>, \<^verbatim>\<open>config\<close>, \<^verbatim>\<open>dbutil\<close>).
  \<^item> \<^verbatim>\<open>Daemon_Delivery\<close> (\<^verbatim>\<open>cmd/daemon/worker.go\<close>): the worker loop and the onboarding responder; \<^verbatim>\<open>Redelivery\<close>: the
    deliveries of one message until the broker has it acknowledged or gives up.
  \<^item> \<^verbatim>\<open>Daemon_Topology\<close>, \<^verbatim>\<open>Topology_Laws\<close>, \<^verbatim>\<open>Topology_Runs\<close>, \<^verbatim>\<open>Topology_Reach\<close> (\<^verbatim>\<open>cmd/daemon/reconcile.go\<close>): the
    reconciler; the invariant of its tables, operation by operation; a locale for every property the
    phases of a reconciliation keep, interpreted three times (well-formedness, all workers alive, a
    dead worker); the steps of the daemon and what is reachable.
  \<^item> \<^verbatim>\<open>Reconcile_Request\<close> (the responder of the same file) and \<^verbatim>\<open>Daemon_Boot\<close> (\<^verbatim>\<open>nats.go\<close>, \<^verbatim>\<open>email.go\<close>, \<^verbatim>\<open>main.go\<close>).
  \<^item> \<^verbatim>\<open>Text_Codec\<close> and \<^verbatim>\<open>Field_Encryption\<close> (\<^verbatim>\<open>secutil\<close>), \<^verbatim>\<open>Qr_Code\<close> (\<^verbatim>\<open>crypto/qr.go\<close>), \<^verbatim>\<open>Store_Config\<close>
    (\<^verbatim>\<open>storeconfig\<close>).
  \<^item> \<^verbatim>\<open>Api_Client\<close> (\<^verbatim>\<open>models\<close>, \<^verbatim>\<open>client\<close>), \<^verbatim>\<open>Invoice_Model\<close> (\<^verbatim>\<open>invoice/invoice.go\<close>), \<^verbatim>\<open>Bill_Processor\<close>
    (\<^verbatim>\<open>processor/bill.go\<close>, \<^verbatim>\<open>types.go\<close>, \<^verbatim>\<open>query.go\<close>): the pipeline from the bill row to the outcome.
  \<^item> \<^verbatim>\<open>Ubl_Xml\<close>, \<^verbatim>\<open>Ubl_Laws\<close> (\<^verbatim>\<open>invoice/xml.go\<close>): the UBL document of an invoice as text, with XML escaping on
    UTF-8; a reader of tags, the shape of its lines, and the tax breakdown.
  \<^item> \<^verbatim>\<open>Sdk_Tool\<close> (\<^verbatim>\<open>sdk/sdk.go\<close>): the scripts that run the command line tool and the parsers of its output,
    with a small model of how bash reads words and here-documents.
  \<^item> \<^verbatim>\<open>Invoice_Hash\<close> (\<^verbatim>\<open>crypto/hash.go\<close>): the parts that are taken out of the document tree before hashing.
  \<^item> \<^verbatim>\<open>Native_Sign\<close> (\<^verbatim>\<open>crypto/sign.go\<close>, \<^verbatim>\<open>cert.go\<close>) and \<^verbatim>\<open>Signed_Document\<close>: keys, certificates, DER and XAdES texts,
    and what signing makes of a UBL document.  A locale \<^verbatim>\<open>doc_reader\<close> states what a search for
    references and ids may skip; it is interpreted for the regular expression that reads codes and for the
    search that places them.
  \<^item> \<^verbatim>\<open>Zatca_Service\<close> (\<^verbatim>\<open>zatca/zatca.go\<close>): onboarding a device, reporting and clearing, over all of the above.
  \<^item> \<^verbatim>\<open>Branch_Onboarding\<close> (\<^verbatim>\<open>processor/onboard.go\<close>): onboarding a branch on the tables of a tenant.
  \<^item> \<^verbatim>\<open>Zatca_Cli\<close> (\<^verbatim>\<open>cmd/zatca\<close>) and \<^verbatim>\<open>Operator_Tools\<close> (\<^verbatim>\<open>cmd/zatca-reconcile\<close>, \<^verbatim>\<open>cmd/store_status\<close>): the tools, with
    what they print, the files they save and their exit codes; the reconciliation tool joined with the
    responder of the daemon.

  \<^bold>\<open>State and operations.\<close>  A struct is a record whose fields carry a prefix and the Go name, a method the
  function of its name (with the type in front where names clash).  A Go map is an association list
  or a map; a 64-bit counter is a word; a time is a number of nanoseconds; an error result is \<^verbatim>\<open>Inl\<close> or
  \<^verbatim>\<open>Some\<close>.  A transaction is one step; each SQL statement has a point at which the environment may make
  it fail, and a failing commit may still have taken effect.  A slice out of range, where Go panics, is
  the value \<^verbatim>\<open>None\<close> of an option.  External calls (JSON, AES-GCM, ECDSA, SHA-256, X.509 and ASN.1 decoding, the XML
  tree library and its canonicalizer, the HTTP transport, the broker, opening databases, running a script,
  number and time formatting) are arguments; their laws are hypotheses where a theorem needs them.

  \<^bold>\<open>What is shown.\<close>  The chain of each branch is gapless, unforked and hash-linked in every reachable
  database; committed invoices and answers never change; a booking and a claim exclude others while
  their lease lives; the SQL claim store refines the abstract one; every invoice that is sent was
  committed first, and all invoices sent for one bill are one; an acknowledged delivery is settled, and
  one with nothing in its way goes through; the redeliveries of a message end within the limit; whatever
  ZATCA answers is recorded and read back, and an operator's tool shows it.  The
  topology never leaks a worker, responder or database, a reconciliation reaches what the registry
  says, and a stopped daemon stays down.  The UBL document is well formed whatever texts the invoice holds,
  reaches the tool unchanged, stays well formed when it is signed, and its code is read back; its hash
  ignores signature and code; its tax breakdown adds up.  Scripts quote what they are given; signatures
  and public keys read back.  A device gets production credentials only after six accepted, hash-chained
  compliance invoices; a failed onboarding registers nothing, a retry asks for the same device, and an
  onboarded branch loads the key and the credentials it was given.  Encryption, QR codes and stored secrets round trip, amounts add up, and
  answers of ZATCA are classified exactly.  Some theorems state where the code falls short of its
  intent: a worker that ended is not replaced, record requests never match a hash, lengths of TLV
  values wrap, and others.

  \<^bold>\<open>Bounds.\<close>  No operation needs fuel: loops run over finite lists (rows, messages, rounds of a worker), and
  the recursion on texts ends by their length.  The deliveries of a message (\<^verbatim>\<open>redeliver\<close>) count down from the
  limit of the consumer; that this is enough is the theorem on redelivery.  The worker loop and the reconciliation loop, which run
  until the process ends, take the rounds and ticks they have run so far as a list.

  \<^bold>\<open>Not modelled.\<close>  Parsing of flags, logging, the pool settings of the master database, the wait for a
  signal, imports, interface declarations and the one-line wrappers that only add a background context, and
  memory-level data races: locks make each operation of the reconciler one step.  Floating-point numbers are an argument of the amounts; the laws are
  for exact rationals.  What bash and the tool do with a script is an argument; the laws about scripts are about
  the words and here-documents bash reads.
\<close>

section \<open>From the answer of ZATCA to the tables\<close>

lemma Submit_evidence: "oc_Evidence (fst (Submit p i)) = EvidenceUnspecified"
  by (auto simp: Submit_def rejectionOutcome_def Let_def no_outcome_def ambiguous_answer_def an_outcome_def
      responseOutcome_states(2) split: option.split sum.split if_split)

lemma Submit_status:
  assumes "fst (Submit p i) \<noteq> no_outcome"
  shows "\<exists>status. submissionStatus (oc_State (fst (Submit p i))) = Inr status"
  using Submit_shape [of p i] assms by (auto simp: outcome_shape_def submissionStatus_def split: option.splits)

text \<open>C7: whatever answer a submission brings, the chain takes it: on a database without failing
  statements, \<open>Record\<close> of the outcome succeeds for the pending invoice of the bill, and \<open>Stored\<close> then gives
  the invoice back with that state, so that no delivery sends it again as if it had no answer.\<close>

theorem submitted_answer_recorded:
  assumes "healthy env" and "healthy env'" and "bills_wf db" and "Submit p i = (oc, e)" and "oc \<noteq> no_outcome"
    and "find (\<lambda>s. s_bill_id s = i_SourceID i) (db_submissions db) = Some s" and "s_outcome_state s = outcomePending"
  shows "\<exists>db' inv. Record env i oc db = (None, db') \<and> Stored env' (bill_message (i_SourceID i)) db' = Inr (Some inv) \<and>
    i_Outcome inv = oc_State oc \<and> i_UUID inv = s_invoice_uuid s \<and> i_Hash inv = s_invoice_hash s"
proof -
  have evidence: "oc_Evidence oc = EvidenceUnspecified"
    using Submit_evidence [of p i] assms(4) by simp
  obtain status where status: "submissionStatus (oc_State oc) = Inr status"
    using Submit_status [of p i] assms(4,5) by auto
  have here: "s \<in> set (db_submissions db)" "s_bill_id s = i_SourceID i"
    using assms(6) by (auto dest: find_SomeD)
  then have "\<exists>t \<in> set (db_submissions db). waiting (s_id s) t"
    using assms(7) by (auto simp: waiting_def)
  then have written: "Record env i oc db = (None, recorded env i oc status (s_id s) db)"
    using healthy_Record [OF assms(1) status _ _ assms(6)] evidence by (simp add: EvidenceExternal_def EvidenceUnspecified_def)
  obtain b where "stored_row (i_SourceID i) db = Some (s, b)"
  proof -
    obtain b where "b \<in> set (db_bills db)" "bl_id b = i_SourceID i"
      using assms(3) here unfolding bills_wf_def by metis
    then obtain b' where "bill_of (i_SourceID i) db = Some b'"
      unfolding bill_of_def by (metis (mono_tags, lifting) find_None_iff not_None_eq)
    then show ?thesis
      using that assms(6) by (simp add: stored_row_def)
  qed
  then obtain b' where row: "stored_row (i_SourceID i) (recorded env i oc status (s_id s) db) = Some (answer env oc status s, b')"
    using recorded_row assms(7) by blast
  have "oc_State oc \<noteq> outcomePending"
    using status by (auto simp: submissionStatus_def outcome_defs split: if_splits)
  then have "i_Outcome (invoice_of_row (answer env oc status s) b') = oc_State oc"
    "i_UUID (invoice_of_row (answer env oc status s) b') = s_invoice_uuid s"
    "i_Hash (invoice_of_row (answer env oc status s) b') = s_invoice_hash s"
    by (simp_all add: invoice_of_row_def Let_def answer_def case_prod_unfold)
  moreover have "Stored env' (bill_message (i_SourceID i)) (recorded env i oc status (s_id s) db) =
      Inr (Some (invoice_of_row (answer env oc status s) b'))"
    using assms(2) row by (simp add: Stored_def bill_message_def)
  ultimately show ?thesis
    using written by blast
qed

theorem submitted_answer_recorded_witness:
  "\<exists>oc e db' inv. Submit (sample_pipeline 200) sample_stored = (oc, e) \<and>
     Record (healthy_env 9) sample_stored oc (sample_db (replicate 64 (CHR ''a''))) = (None, db') \<and>
     Stored (healthy_env 10) (bill_message 42) db' = Inr (Some inv) \<and> i_Outcome inv = OutcomeRejected"
proof -
  obtain oc e where run: "Submit (sample_pipeline 200) sample_stored = (oc, e)"
    by fastforce
  have state: "oc_State oc = OutcomeRejected"
    using Submit_answers [OF sample_submittable sample_answers, of 200] sample_not_accepting run
      responseOutcome_states(1) [of "i_Kind sample_stored" sample_response] by (auto simp: accepting_def)
  then have "oc \<noteq> no_outcome"
    by (auto simp: no_outcome_def an_outcome_def OutcomeRejected_def)
  moreover obtain s where "find (\<lambda>s. s_bill_id s = 42) (db_submissions (sample_db (replicate 64 (CHR ''a'')))) = Some s"
    "s_outcome_state s = outcomePending"
    by (simp add: sample_db_def committed_def sample_booked_def sample_start_def new_submission_def sample_invoice_def)
  ultimately show ?thesis
    using submitted_answer_recorded [of "healthy_env 9" "healthy_env 10", OF _ _ sample_db_wf run] run state
    by (auto simp: sample_stored_def)
qed

end
